(* ===== verification/Rust_Prelude.thy ===== *)
theory Rust_Prelude
  imports
    Main
    "HOL-Library.Word"
    "HOL-Library.AList"
    "HOL-Library.Sublist"
    "HOL-Library.List_Lexorder"
    "HOL-Library.Char_ord"
    "HOL-Library.Multiset"
begin

text \<open>
  Shared vocabulary of the development: the fixed-width integers of Rust, the standard
  collections (\<open>HashMap\<close>, \<open>BTreeMap\<close>) as association lists, UTF-8 strings as byte lists,
  and the two contracts the component theories instantiate (a preserved relation that
  composes along the effects of an operation, and a command-driven machine with an
  invariant).
\<close>

unbundle bit_operations_syntax

named_theorems frame_simps \<open>equations saying which fields an operation leaves alone\<close>
named_theorems contract_intros \<open>an operation satisfies the step contract of its component\<close>

section \<open>Machine integers\<close>

type_synonym u8 = "8 word"
type_synonym u32 = "32 word"
type_synonym u64 = "64 word"
type_synonym u128 = "128 word"

text \<open>A \<open>f64\<close> is represented by its IEEE-754 bit pattern.\<close>

type_synonym f64 = "64 word"

definition saturating_add :: "'a::len word \<Rightarrow> 'a word \<Rightarrow> 'a word" where
  "saturating_add a b = (if unat a + unat b < 2 ^ LENGTH('a) then a + b else - 1)"

definition saturating_sub :: "'a::len word \<Rightarrow> 'a word \<Rightarrow> 'a word" where
  "saturating_sub a b = (if b \<le> a then a - b else 0)"

definition checked_add_u :: "'a::len word \<Rightarrow> 'a word \<Rightarrow> 'a word option" where
  "checked_add_u a b = (if unat a + unat b < 2 ^ LENGTH('a) then Some (a + b) else None)"

lemma unat_minus_one_word: "unat (- 1 :: 'a::len word) = 2 ^ LENGTH('a) - 1"
  by (simp add: unsigned_minus_1_eq_mask mask_eq_exp_minus_1)

lemma unat_bound: "unat (a :: 'a::len word) < 2 ^ LENGTH('a)"
  by (rule unsigned_less)

lemma unat_saturating_add:
  "unat (saturating_add a b :: 'a::len word) = min (2 ^ LENGTH('a) - 1) (unat a + unat b)"
  by (auto simp: saturating_add_def unat_minus_one_word unat_word_ariths min_def)

lemma unat_saturating_sub: "unat (saturating_sub a b) = unat a - unat b"
  by (auto simp: saturating_sub_def unat_sub word_le_nat_alt)

lemma saturating_add_comm: "saturating_add a b = saturating_add b a"
  by (simp add: saturating_add_def add.commute)

lemma saturating_add_assoc:
  "saturating_add (saturating_add a b) c = saturating_add a (saturating_add b c)"
  by (intro word_unat_eq_iff [THEN iffD2]) (simp add: unat_saturating_add min_def, linarith)

lemma saturating_add_0 [simp]: "saturating_add a 0 = a" "saturating_add 0 a = a"
  using unat_bound [of a] by (auto simp: saturating_add_def)

lemma checked_add_u_Some_iff:
  "checked_add_u a b = Some c \<longleftrightarrow> unat c = unat a + unat b"
  for a b c :: "'a::len word"
proof
  assume "checked_add_u a b = Some c"
  then show "unat c = unat a + unat b"
    by (auto simp: checked_add_u_def unat_word_ariths split: if_splits)
next
  assume eq: "unat c = unat a + unat b"
  then have "unat a + unat b < 2 ^ LENGTH('a)" using unat_bound [of c] by simp
  moreover from this eq have "a + b = c"
    by (intro word_unat_eq_iff [THEN iffD2]) (simp add: unat_word_ariths)
  ultimately show "checked_add_u a b = Some c" by (simp add: checked_add_u_def)
qed

lemma checked_add_u_comm: "checked_add_u a b = checked_add_u b a"
  by (simp add: checked_add_u_def add.commute)

lemma word_Suc_no_wrap: "x < y \<Longrightarrow> unat (x + 1) = Suc (unat x)"
  for x y :: "'a::len word"
proof -
  assume "x < y"
  then have "Suc (unat x) < 2 ^ LENGTH('a)"
    using unat_bound [of y] by (simp only: word_less_nat_alt)
  then show ?thesis by (simp add: unat_word_ariths)
qed

section \<open>Hash maps and ordered maps\<close>

text \<open>
  A \<open>HashMap\<close> is an association list with distinct keys: \<open>map_of\<close> reads it,
  \<open>AList.update\<close> inserts and \<open>AList.delete\<close> removes. The order of the list stands for
  the iteration order, which Rust leaves unspecified; results that must not depend on it are
  proved invariant under permutation.
\<close>

type_synonym ('k, 'v) hash_map = "('k \<times> 'v) list"

abbreviation hm_keys :: "('k, 'v) hash_map \<Rightarrow> 'k list" where
  "hm_keys m \<equiv> map fst m"

abbreviation hm_wf :: "('k, 'v) hash_map \<Rightarrow> bool" where
  "hm_wf m \<equiv> distinct (hm_keys m)"

lemma hm_wf_update [simp]: "hm_wf m \<Longrightarrow> hm_wf (AList.update k v m)"
  by (rule distinct_update)

lemma hm_wf_delete [simp]: "hm_wf m \<Longrightarrow> hm_wf (AList.delete k m)"
  by (rule distinct_delete)

lemma set_hm_keys_update: "fst ` set (AList.update k v m) = insert k (fst ` set m)"
  by (induction m) auto

lemma set_hm_update: "set (AList.update k v m) \<subseteq> insert (k, v) (set m)"
  by (induction m) auto

lemma set_hm_keys_delete: "fst ` set (AList.delete k m) = fst ` set m - {k}"
  by (induction m) auto

lemma map_of_perm_eq:
  assumes "hm_wf xs" and "mset xs = mset ys"
  shows "map_of xs = map_of ys"
proof (rule map_of_eqI)
  have "mset (map fst xs) = mset (map fst ys)" using assms(2) by simp
  then have "distinct (map fst ys)" using assms(1) mset_eq_imp_distinct_iff by blast
  then show "\<forall>k\<in>set (map fst xs). map_of xs k = map_of ys k"
    using assms by (metis map_of_eq_Some_iff mset_eq_setD option.exhaust)
  show "set (map fst xs) = set (map fst ys)"
    using assms(2) by (metis list.set_map mset_eq_setD)
qed

text \<open>A \<open>BTreeMap\<close> is an association list strictly sorted by key.\<close>

type_synonym ('k, 'v) btree_map = "('k \<times> 'v) list"

fun btree_insert :: "'k::linorder \<Rightarrow> 'v \<Rightarrow> ('k, 'v) btree_map \<Rightarrow> ('k, 'v) btree_map" where
  "btree_insert key val [] = [(key, val)]"
| "btree_insert key val (entry # rest) =
     (if fst entry < key then entry # btree_insert key val rest
      else if fst entry = key then (key, val) # rest
      else (key, val) # entry # rest)"

abbreviation btree_remove :: "'k \<Rightarrow> ('k, 'v) btree_map \<Rightarrow> ('k, 'v) btree_map" where
  "btree_remove \<equiv> AList.delete"

abbreviation btree_wf :: "('k::linorder, 'v) btree_map \<Rightarrow> bool" where
  "btree_wf m \<equiv> sorted_wrt (<) (map fst m)"

lemma map_of_btree_insert [simp]:
  "map_of (btree_insert k v m) = (map_of m)(k \<mapsto> v)"
  by (induction m) auto

lemma set_keys_btree_insert: "fst ` set (btree_insert k v m) = insert k (fst ` set m)"
  by (induction m) auto

lemma btree_wf_insert: "btree_wf m \<Longrightarrow> btree_wf (btree_insert k v m)"
  by (induction m) (auto simp: set_keys_btree_insert)

lemma btree_wf_remove: "btree_wf m \<Longrightarrow> btree_wf (btree_remove k m)"
proof (induction m)
  case (Cons e m)
  have "fst ` set (btree_remove k m) \<subseteq> fst ` set m"
    by (simp add: set_hm_keys_delete)
  with Cons show ?case by (cases e) fastforce
qed simp

lemma btree_wf_distinct: "btree_wf m \<Longrightarrow> hm_wf m"
  by (simp add: strict_sorted_iff)

lemma btree_ext:
  assumes "btree_wf xs" and "btree_wf ys" and "map_of xs = map_of ys"
  shows "xs = ys"
proof -
  have "set xs = set ys"
    using assms by (metis btree_wf_distinct map_of_inject_set)
  moreover have "sorted (map fst xs)" "sorted (map fst ys)"
    using assms(1,2) by (simp_all add: strict_sorted_iff)
  ultimately show ?thesis
    using assms(1,2)
    by (intro map_sorted_distinct_set_unique [where f = fst])
       (auto dest!: btree_wf_distinct simp: distinct_map)
qed

section \<open>Strings\<close>

text \<open>
  A Rust \<open>String\<close> is a sequence of UTF-8 bytes, and so is a \<open>string\<close> here: \<open>length\<close> is
  \<open>str::len\<close>. \<open>utf8_chars\<close> groups the bytes into the encodings of the single characters,
  which is what \<open>str::chars\<close> iterates over.
\<close>

definition is_continuation :: "char \<Rightarrow> bool" where
  "is_continuation c \<longleftrightarrow> 128 \<le> (of_char c :: nat) \<and> (of_char c :: nat) < 192"

definition is_char_boundary :: "string \<Rightarrow> nat \<Rightarrow> bool" where
  "is_char_boundary s i \<longleftrightarrow>
     i = 0 \<or> i = length s \<or> (i < length s \<and> \<not> is_continuation (s ! i))"

lemma length_dropWhile_less [termination_simp]: "length (dropWhile p xs) < Suc (length xs)"
  by (simp add: length_dropWhile_le le_imp_less_Suc)

fun utf8_chars :: "string \<Rightarrow> string list" where
  "utf8_chars [] = []"
| "utf8_chars (lead # rest) =
     (lead # takeWhile is_continuation rest) # utf8_chars (dropWhile is_continuation rest)"

lemma concat_utf8_chars [simp]: "concat (utf8_chars s) = s"
  by (induction s rule: utf8_chars.induct) auto

lemma utf8_chars_inject: "utf8_chars s = utf8_chars t \<longleftrightarrow> s = t"
  by (metis concat_utf8_chars)

definition code_bytes :: "string \<Rightarrow> nat list" where
  "code_bytes s = map of_char s"

text \<open>The characters with the Unicode property \<open>White_Space\<close>, as UTF-8 encodings.\<close>

definition is_whitespace :: "string \<Rightarrow> bool" where
  "is_whitespace c \<longleftrightarrow>
     code_bytes c \<in> set ([[9], [10], [11], [12], [13], [32],
        [0xC2, 0x85], [0xC2, 0xA0], [0xE1, 0x9A, 0x80]]
      @ map (\<lambda>b. [0xE2, 0x80, b]) [0x80..<0x8B]
      @ [[0xE2, 0x80, 0xA8], [0xE2, 0x80, 0xA9], [0xE2, 0x80, 0xAF],
        [0xE2, 0x81, 0x9F], [0xE3, 0x80, 0x80]])"

definition trim_start_chars :: "(string \<Rightarrow> bool) \<Rightarrow> string list \<Rightarrow> string list" where
  "trim_start_chars p cs = dropWhile p cs"

definition trim_chars :: "(string \<Rightarrow> bool) \<Rightarrow> string list \<Rightarrow> string list" where
  "trim_chars p cs = rev (dropWhile p (rev (dropWhile p cs)))"

definition trim_matches :: "(string \<Rightarrow> bool) \<Rightarrow> string \<Rightarrow> string" where
  "trim_matches p s = concat (trim_chars p (utf8_chars s))"

definition trim :: "string \<Rightarrow> string" where
  "trim s = trim_matches is_whitespace s"

definition str_contains :: "string \<Rightarrow> string \<Rightarrow> bool" where
  "str_contains s needle \<longleftrightarrow> (\<exists>t \<in> set (suffixes s). prefix needle t)"

lemma str_contains_iff: "str_contains s needle \<longleftrightarrow> (\<exists>before after. s = before @ needle @ after)"
proof -
  have "str_contains s needle \<longleftrightarrow> (\<exists>t. suffix t s \<and> prefix needle t)"
    by (auto simp: str_contains_def)
  then show ?thesis unfolding suffix_def prefix_def by metis
qed

definition join :: "string \<Rightarrow> string list \<Rightarrow> string" where
  "join sep parts = concat (case parts of [] \<Rightarrow> [] | p # ps \<Rightarrow> p # map (\<lambda>q. sep @ q) ps)"

fun show_nat :: "nat \<Rightarrow> string" where
  "show_nat n =
     (if n < 10 then [char_of (48 + n)] else show_nat (n div 10) @ [char_of (48 + n mod 10)])"

declare show_nat.simps [simp del]

abbreviation show_word :: "'a::len word \<Rightarrow> string" where
  "show_word w \<equiv> show_nat (unat w)"

abbreviation newline :: string where
  "newline \<equiv> [CHR 0x0A]"

section \<open>Results and options\<close>

text \<open>\<open>Result<T, E>\<close> is \<open>'e + 't\<close>, the error on the left.\<close>

definition is_some_and :: "('a \<Rightarrow> bool) \<Rightarrow> 'a option \<Rightarrow> bool" where
  "is_some_and p x \<longleftrightarrow> (case x of None \<Rightarrow> False | Some v \<Rightarrow> p v)"

definition is_none_or :: "('a \<Rightarrow> bool) \<Rightarrow> 'a option \<Rightarrow> bool" where
  "is_none_or p x \<longleftrightarrow> (case x of None \<Rightarrow> True | Some v \<Rightarrow> p v)"

definition unwrap_or :: "'a \<Rightarrow> 'a option \<Rightarrow> 'a" where
  "unwrap_or d x = (case x of None \<Rightarrow> d | Some v \<Rightarrow> v)"

definition or_opt :: "'a option \<Rightarrow> 'a option \<Rightarrow> 'a option" where
  "or_opt x y = (case x of None \<Rightarrow> y | Some v \<Rightarrow> Some v)"

lemma option_helpers [simp]:
  "is_some_and p None = False" "is_some_and p (Some v) = p v"
  "is_none_or p None = True" "is_none_or p (Some v) = p v"
  "unwrap_or d None = d" "unwrap_or d (Some v) = v"
  "or_opt None y = y" "or_opt (Some v) y = Some v"
  by (simp_all add: is_some_and_def is_none_or_def unwrap_or_def or_opt_def)

lemma or_opt_None_right [simp]: "or_opt x None = x"
  by (cases x) auto

lemma is_some_and_iff: "is_some_and p x \<longleftrightarrow> (\<exists>v. x = Some v \<and> p v)"
  by (cases x) auto

lemma is_none_or_iff: "is_none_or p x \<longleftrightarrow> (\<forall>v. x = Some v \<longrightarrow> p v)"
  by (cases x) auto

lemma find_Some_mem: "List.find p xs = Some x \<Longrightarrow> x \<in> set xs \<and> p x"
  by (auto simp: find_Some_iff)

lemma find_filter: "List.find P xs = (case filter P xs of [] \<Rightarrow> None | x # _ \<Rightarrow> Some x)"
  by (induction xs) auto

section \<open>Contracts\<close>

text \<open>
  \<^bold>\<open>Effect contract.\<close> An operation takes a state, returns a new one and emits a list of
  effects. A relation between the state before, the effects and the state after that holds
  for doing nothing and composes is kept by every sequence of operations that keep it.
\<close>

locale effect_contract =
  fixes keeps :: "'s \<Rightarrow> 'e list \<Rightarrow> 's \<Rightarrow> bool"
  assumes keeps_refl: "keeps s [] s"
    and keeps_trans: "keeps s es t \<Longrightarrow> keeps t fs u \<Longrightarrow> keeps s (es @ fs) u"
begin

lemma keeps_cons: "keeps s [e] t \<Longrightarrow> keeps t fs u \<Longrightarrow> keeps s (e # fs) u"
  using keeps_trans [of s "[e]" t fs u] by simp

lemma keeps_after_silent: "keeps s [] t \<Longrightarrow> keeps t fs u \<Longrightarrow> keeps s fs u"
  using keeps_trans [of s "[]" t fs u] by simp

lemma keeps_before_silent: "keeps s es t \<Longrightarrow> keeps t [] u \<Longrightarrow> keeps s es u"
  using keeps_trans [of s es t "[]" u] by simp

end

text \<open>
  \<^bold>\<open>Command machine.\<close> A state driven by a sequence of commands, each step returning the
  next state and the effects to carry out; \<open>ok\<close> says which commands the environment may
  send in a state. An invariant of the single step is an invariant of every run.
\<close>

fun run_commands :: "('s \<Rightarrow> 'c \<Rightarrow> 's \<times> 'e list) \<Rightarrow> 's \<Rightarrow> 'c list \<Rightarrow> 's \<times> 'e list" where
  "run_commands step s [] = (s, [])"
| "run_commands step s (c # cs) =
     (let (s1, es1) = step s c; (s2, es2) = run_commands step s1 cs in (s2, es1 @ es2))"

lemma run_commands_append:
  "run_commands step s (cs @ ds) =
     (let (s1, es1) = run_commands step s cs; (s2, es2) = run_commands step s1 ds
      in (s2, es1 @ es2))"
  by (induction cs arbitrary: s) (auto simp: Let_def split: prod.splits)

locale command_machine =
  fixes step :: "'s \<Rightarrow> 'c \<Rightarrow> 's \<times> 'e list"
    and inv :: "'s \<Rightarrow> bool"
  assumes step_inv: "inv s \<Longrightarrow> step s c = (t, es) \<Longrightarrow> inv t"
begin

lemma run_inv: "inv s \<Longrightarrow> run_commands step s cs = (t, es) \<Longrightarrow> inv t"
proof (induction cs arbitrary: s t es)
  case (Cons c cs)
  obtain s1 es1 where s1: "step s c = (s1, es1)" by fastforce
  obtain s2 es2 where s2: "run_commands step s1 cs = (s2, es2)" by fastforce
  from step_inv [OF Cons.prems(1) s1] have "inv s1" .
  with s2 Cons.prems(2) s1 show ?case by (auto intro: Cons.IH)
qed simp

end

locale contract_machine = effect_contract keeps
  for keeps :: "'s \<Rightarrow> 'e list \<Rightarrow> 's \<Rightarrow> bool" +
  fixes step :: "'s \<Rightarrow> 'c \<Rightarrow> 's \<times> 'e list"
  assumes step_keeps: "step s c = (t, es) \<Longrightarrow> keeps s es t"
begin

lemma run_keeps: "run_commands step s cs = (t, es) \<Longrightarrow> keeps s es t"
proof (induction cs arbitrary: s t es)
  case Nil
  then show ?case by (simp add: keeps_refl)
next
  case (Cons c cs)
  obtain s1 es1 where s1: "step s c = (s1, es1)" by fastforce
  obtain s2 es2 where s2: "run_commands step s1 cs = (s2, es2)" by fastforce
  from keeps_trans [OF step_keeps [OF s1] Cons.IH [OF s2]] Cons.prems s1 s2
  show ?case by auto
qed

end

end
