(* ===== verification/Protocol.thy ===== *)
theory Protocol
  imports Rust_Prelude
begin

text \<open>
  The wire types of \<open>crates/protocol\<close> that the deterministic core works on: identifiers,
  JSON values, tools, messages, usage, backend requests, commands, events and effects, with
  the small operations their modules define on them. The type variable \<open>'d\<close> is the
  \<open>Decimal\<close> of the \<open>rust_decimal\<close> package, of which the core only uses addition and
  comparison.
\<close>

section \<open>Identifiers (ids.rs)\<close>

text \<open>Every identifier is a transparent newtype of a 128-bit UUID.\<close>

type_synonym uuid = u128
type_synonym session_id = uuid
type_synonym agent_id = uuid
type_synonym run_id = uuid
type_synonym request_id = uuid
type_synonym tool_call_id = uuid
type_synonym message_id = uuid
type_synonym permission_id = uuid
type_synonym tool_id = uuid

text \<open>An instant of \<open>chrono\<close>, as nanoseconds since the epoch.\<close>

type_synonym timestamp = int

definition derived :: "uuid \<Rightarrow> u64 \<Rightarrow> u64 \<Rightarrow> uuid" where
  "derived seed sequence namespace = seed XOR push_bit 64 (ucast sequence) XOR ucast namespace"

text \<open>
  \<open>Timestamp::from_sequence\<close>. \<open>from_timestamp\<close> and \<open>max_utc\<close> are chrono's
  \<open>DateTime::from_timestamp (_, 0)\<close> and \<open>DateTime::MAX_UTC\<close>.
\<close>

definition timestamp_from_sequence ::
    "(int \<Rightarrow> timestamp option) \<Rightarrow> timestamp \<Rightarrow> u64 \<Rightarrow> timestamp" where
  "timestamp_from_sequence from_timestamp max_utc sequence =
     (let seconds = (if uint sequence < 2 ^ 63 then uint sequence else 2 ^ 63 - 1)
      in unwrap_or max_utc (from_timestamp seconds))"

lemma derived_xor_seed:
  "derived seed s n XOR seed = push_bit 64 (ucast s) XOR (ucast n :: u128)"
  by (simp add: derived_def ac_simps)

lemma derived_high: "drop_bit 64 (derived seed s n XOR seed) = (ucast s :: u128)"
  unfolding derived_xor_seed by (intro bit_eqI) (auto simp: bit_simps dest: bit_imp_le_length)

lemma derived_low: "take_bit 64 (derived seed s n XOR seed) = (ucast n :: u128)"
  unfolding derived_xor_seed by (intro bit_eqI) (auto simp: bit_simps dest: bit_imp_le_length)

lemma derived_eq_iff: "derived seed s n = derived seed s' n' \<longleftrightarrow> s = s' \<and> n = n'"
proof
  assume eq: "derived seed s n = derived seed s' n'"
  have "(ucast s :: u128) = ucast s'" "(ucast n :: u128) = ucast n'"
    using derived_high [of seed s n] derived_high [of seed s' n']
      derived_low [of seed s n] derived_low [of seed s' n'] eq by simp_all
  then show "s = s' \<and> n = n'"
    by (auto simp: bit_eq_iff bit_simps)
qed simp

section \<open>JSON values (serde_json)\<close>

datatype json_number = PosInt u64 | NegInt "64 word" | Float f64

datatype json =
    JNull
  | JBool bool
  | JNumber json_number
  | JString string
  | JArray "json list"
  | JObject "(string \<times> json) list"

definition is_object :: "json \<Rightarrow> bool" where
  "is_object v = (case v of JObject _ \<Rightarrow> True | _ \<Rightarrow> False)"

definition as_object :: "json \<Rightarrow> (string, json) btree_map" where
  "as_object v = (case v of JObject fields \<Rightarrow> fields | _ \<Rightarrow> [])"

section \<open>Tools (tools.rs)\<close>

datatype execution_mode = Execute | Plan | Virtual

record execution_policy =
  pol_mode :: execution_mode
  pol_enabled_tools :: "string list"
  pol_allowed_mcp_servers :: "string list"

record tool_descriptor =
  td_id :: tool_id
  td_name :: string
  td_description :: string
  td_input_schema :: json

datatype permission_mode = Allow | Ask | Deny

record tool_policy =
  tp_permission :: permission_mode
  tp_enabled :: bool

record tool_capability =
  tc_descriptor :: tool_descriptor
  tc_policy :: tool_policy
  tc_delegatable :: bool

record agent_toolset =
  ts_tools :: "(tool_id, tool_capability) hash_map"

definition enabled_descriptors :: "agent_toolset \<Rightarrow> tool_descriptor list" where
  "enabled_descriptors ts =
     (let enabled = filter (\<lambda>(_, capability). tp_enabled (tc_policy capability)) (ts_tools ts)
      in map (\<lambda>(_, capability). tc_descriptor capability) (sort_key fst enabled))"

record tool_call =
  call_id :: tool_call_id
  call_name :: string
  call_arguments :: json

record tool_result =
  tr_call_id :: tool_call_id
  tr_output :: json
  tr_is_error :: bool

record tool_result_summary =
  trs_has_error :: bool
  trs_output_preview :: string

datatype tool_error = ExecutionFailed | PermissionDenied | Timeout | Internal | Denied string

section \<open>Messages (messages.rs)\<close>

datatype message_role = Role_System | Role_User | Role_Assistant | Role_Tool

datatype content_block =
    Text string
  | ToolUse tool_call
  | ToolResult tool_call_id tool_result_summary
  | Image string "u8 list"

record agent_message =
  msg_id :: message_id
  msg_role :: message_role
  msg_content :: "content_block list"
  msg_created_at :: timestamp

section \<open>Usage (usage.rs)\<close>

text \<open>\<open>UsageValue\<close>: \<open>None\<close> is unknown, which is not the same as \<open>Some 0\<close>.\<close>

type_synonym usage_value = "u64 option"

definition is_unknown :: "usage_value \<Rightarrow> bool" where
  "is_unknown v \<longleftrightarrow> v = None"

definition is_zero :: "usage_value \<Rightarrow> bool" where
  "is_zero v \<longleftrightarrow> v = Some 0"

definition checked_add :: "usage_value \<Rightarrow> usage_value \<Rightarrow> usage_value" where
  "checked_add a b =
     (case (a, b) of (Some left, Some right) \<Rightarrow> checked_add_u left right | _ \<Rightarrow> None)"

record model_usage =
  mu_input_tokens :: usage_value
  mu_output_tokens :: usage_value
  mu_cache_read_tokens :: usage_value
  mu_cache_write_tokens :: usage_value
  mu_reasoning_tokens :: usage_value
  mu_total_tokens :: usage_value

definition default_model_usage :: model_usage where
  "default_model_usage = \<lparr>mu_input_tokens = None, mu_output_tokens = None,
     mu_cache_read_tokens = None, mu_cache_write_tokens = None, mu_reasoning_tokens = None,
     mu_total_tokens = None\<rparr>"

datatype cost_source = ProviderReported | Calculated | Estimated

record 'd cost =
  cost_amount_usd :: "'d option"
  cost_source :: "cost_source option"

record 'd usage_record =
  ur_model_usage :: model_usage
  ur_cost :: "'d cost"
  ur_tool_usage :: "model_usage option"

record 'd agent_budget =
  bud_max_input_tokens :: "u64 option"
  bud_max_output_tokens :: "u64 option"
  bud_max_total_tokens :: "u64 option"
  bud_max_cost_usd :: "'d option"
  bud_max_requests :: "u64 option"
  bud_max_tool_calls :: "u64 option"
  bud_max_children :: "u32 option"
  bud_max_depth :: "u32 option"

record 'd agent_usage_metrics =
  um_total_runs :: u64
  um_total_requests :: u64
  um_total_tool_calls :: u64
  um_total_tokens :: usage_value
  um_input_tokens :: usage_value
  um_output_tokens :: usage_value
  um_cache_read_tokens :: usage_value
  um_cache_write_tokens :: usage_value
  um_reasoning_tokens :: usage_value
  um_total_cost :: "'d option"

definition default_metrics :: "'d agent_usage_metrics" where
  "default_metrics = \<lparr>um_total_runs = 0, um_total_requests = 0, um_total_tool_calls = 0,
     um_total_tokens = None, um_input_tokens = None, um_output_tokens = None,
     um_cache_read_tokens = None, um_cache_write_tokens = None, um_reasoning_tokens = None,
     um_total_cost = None\<rparr>"

record 'd agent_usage_summary =
  us_self_usage :: "'d agent_usage_metrics"
  us_descendant_usage :: "'d agent_usage_metrics"
  us_inclusive_usage :: "'d agent_usage_metrics"

record 'd agent_usage_snapshot =
  snap_agent_id :: string
  snap_model :: "string option"
  snap_metrics :: "'d agent_usage_metrics"
  snap_timestamp :: string

section \<open>Backends (backend.rs)\<close>

record backend_capabilities =
  bc_streaming :: bool
  bc_reasoning_stream :: bool
  bc_tool_calls :: bool
  bc_parallel_tool_calls :: bool
  bc_host_managed_tools :: bool
  bc_backend_managed_tools :: bool
  bc_permissions :: bool
  bc_images :: bool
  bc_resumable_sessions :: bool
  bc_native_subagents :: bool
  bc_model_switching :: bool
  bc_exact_usage :: bool
  bc_exact_cost :: bool
  bc_structured_output :: bool

record backend_descriptor =
  bd_id :: uuid
  bd_name :: string
  bd_description :: string
  bd_capabilities :: backend_capabilities

record backend_reference =
  br_integration :: uuid
  br_configuration :: uuid
  br_model :: "uuid option"

record backend_binding =
  bb_reference :: backend_reference
  bb_descriptor :: backend_descriptor

datatype reasoning_effort =
  Effort_Minimal | Effort_Low | Effort_Medium | Effort_High | Effort_XHigh | Effort_Max | Effort_Ultra

datatype response_format = RF_Text | RF_JsonObject | RF_JsonSchema string json bool

record execution_params =
  ep_model :: "string option"
  ep_max_tokens :: "u64 option"
  ep_temperature :: "f64 option"
  ep_stop_sequences :: "string list"
  ep_reasoning_effort :: "reasoning_effort option"
  ep_extended_thinking :: "bool option"
  ep_response_format :: "response_format option"
  ep_provider_options :: json

definition default_params :: execution_params where
  "default_params = \<lparr>ep_model = None, ep_max_tokens = None, ep_temperature = None,
     ep_stop_sequences = [], ep_reasoning_effort = None, ep_extended_thinking = None,
     ep_response_format = None, ep_provider_options = JNull\<rparr>"

definition merge_over :: "execution_params \<Rightarrow> execution_params \<Rightarrow> execution_params" where
  "merge_over self update = \<lparr>
     ep_model = or_opt (ep_model update) (ep_model self),
     ep_max_tokens = or_opt (ep_max_tokens update) (ep_max_tokens self),
     ep_temperature = or_opt (ep_temperature update) (ep_temperature self),
     ep_stop_sequences =
       (if ep_stop_sequences update = [] then ep_stop_sequences self
        else ep_stop_sequences update),
     ep_reasoning_effort = or_opt (ep_reasoning_effort update) (ep_reasoning_effort self),
     ep_extended_thinking = or_opt (ep_extended_thinking update) (ep_extended_thinking self),
     ep_response_format = or_opt (ep_response_format update) (ep_response_format self),
     ep_provider_options =
       (if ep_provider_options update = JNull then ep_provider_options self
        else ep_provider_options update)\<rparr>"

record execution_request =
  req_request_id :: request_id
  req_run_id :: run_id
  req_system_prompt :: string
  req_messages :: "agent_message list"
  req_tools :: "tool_descriptor list"
  req_extended_thinking :: bool
  req_params :: execution_params

record 'd execution_result =
  er_request_id :: request_id
  er_usage :: model_usage
  er_cost :: "'d cost"
  er_finish_reason :: string

datatype execution_error =
    BackendError string string
  | RateLimited "u64 option"
  | InvalidRequest string
  | EE_Cancelled
  | EE_Timeout
  | UnsupportedCapability string string

datatype 'd execution_event =
    TextDelta request_id string
  | ReasoningDelta request_id string
  | EE_ToolCallRequested request_id tool_call
  | EE_ToolCallStarted request_id tool_call
  | EE_ToolCallCompleted request_id tool_call_id tool_result_summary
  | UsageUpdate request_id model_usage
  | EE_Completed request_id "'d execution_result"
  | EE_Error request_id execution_error

section \<open>Commands, events and effects (commands.rs, events.rs, effects.rs)\<close>

record attachment =
  att_mime_type :: string
  att_data :: "u8 list"

record user_input =
  in_text :: string
  in_attachments :: "attachment list"

record 'd agent_result =
  res_summary :: string
  res_usage :: "'d agent_usage_summary"
  res_gate_passed :: "bool option"

datatype permission_decision = Approved | Decision_Denied

record agent_error =
  err_message :: string
  err_code :: string
  err_details :: "json option"

datatype agent_status =
    Idle | PreparingContext | WaitingForBackend | Streaming | Executing
  | WaitingForPermission | WaitingForChildren | Verifying | Paused
  | Status_Completed | Cancelled | Failed

datatype agent_operation =
    BackendRequest request_id
  | Tools "tool_call_id list"
  | Children "agent_id list"
  | Permission permission_id

datatype agent_outcome = Outcome_Success | Outcome_Cancelled | Outcome_Failed

datatype verdict_outcome = Verdict_Pass | Verdict_Fail string | Verdict_Error string

record check_verdict =
  cv_id :: string
  cv_outcome :: verdict_outcome

datatype backend_policy = Backend_Inherit | Backend_Explicit backend_reference

datatype tool_inheritance = InheritAll | Subset "tool_id list" | Replace agent_toolset

datatype workspace_policy = WS_Inherit | WS_ReadOnly | WS_Snapshot | WS_NewWorktree

datatype spawn_mode = AwaitResult | Concurrent

record 'd spawn_agent_spec =
  sp_role :: "string option"
  sp_backend :: backend_policy
  sp_tools :: tool_inheritance
  sp_workspace :: workspace_policy
  sp_budget :: "'d agent_budget"
  sp_mode :: spawn_mode
  sp_task :: "string option"
  sp_execution_params :: execution_params
  sp_origin_tool_call_id :: "tool_call_id option"

datatype 'd agent_command =
    StartRun user_input
  | Steer user_input
  | FollowUp user_input
  | StartNextQueuedRun
  | BackendEvent run_id "'d execution_event"
  | ToolCompleted tool_call_id tool_result
  | ToolFailed tool_call_id tool_error
  | PermissionResolved permission_id permission_decision
  | SpawnChild "'d spawn_agent_spec"
  | ChildSpawned agent_id bool
  | ChildCompleted agent_id "'d agent_result"
  | ChildFailed agent_id agent_error
  | Cancel
  | Pause
  | Resume
  | ConfigureExecution execution_params
  | SetBehaviorProfile json "json list" bool
  | CompletionEvaluated run_id u32 "check_verdict list" "'d usage_record list"

record tool_request =
  trq_call :: tool_call
  trq_permission :: permission_mode

record permission_request =
  prq_id :: permission_id
  prq_tool_call :: tool_call
  prq_agent_id :: agent_id

record tool_progress =
  tpr_status :: string
  tpr_fraction :: f64

text \<open>The events of an agent; the ones from \<open>ModelRequestPrepared\<close> on are emitted by the runtime.\<close>

datatype 'd agent_event =
    StateChanged agent_status agent_status
  | RunStarted run_id
  | AssistantTextDelta message_id string
  | Ev_ReasoningDelta message_id string
  | ToolCallRequested tool_call
  | ToolCallStarted tool_call_id
  | ToolCallCompleted tool_call_id tool_result_summary
  | PermissionRequested permission_request
  | UsageUpdated "'d agent_usage_snapshot"
  | ChildAgentCompleted agent_id agent_outcome
  | Ev_Failed agent_error
  | Ev_Completed agent_outcome
  | BehaviorRuleFired string string string string
  | ContextInjected string string u64
  | ToolCallDenied tool_call_id "string option" string
  | CompletionGateEvaluated u32 bool bool "string list"
  | ProfileChanged string string
  | ModelRequestPrepared execution_request
  | BackendRequestStarted request_id
  | AssistantMessageStarted message_id
  | AssistantMessageCompleted message_id
  | ToolCallProgress tool_call_id tool_progress
  | PromptPrefixChanged run_id request_id "string list"
  | ChildAgentSpawned agent_id "tool_call_id option"

record completion_check_spec =
  ccs_id :: string
  ccs_evaluator :: json

record completion_evaluation_request =
  cer_run_id :: run_id
  cer_attempt :: u32
  cer_checks :: "completion_check_spec list"
  cer_final_response :: string
  cer_transcript :: "agent_message list"

datatype 'd agent_effect =
    ExecuteBackend execution_request
  | ExecuteTool tool_request
  | SpawnAgent "'d spawn_agent_spec"
  | RequestPermission permission_request
  | CancelBackend run_id
  | CancelTool tool_call_id
  | CancelChild agent_id
  | Emit "'d agent_event"
  | FinishRun "'d agent_result"
  | EvaluateCompletion completion_evaluation_request
  | CancelEvaluation run_id

lemma merge_over_unset: "merge_over p default_params = p"
  by (simp add: merge_over_def default_params_def)

lemma merge_over_assoc: "merge_over (merge_over p q) r = merge_over p (merge_over q r)"
  by (auto simp: merge_over_def split: option.splits simp: or_opt_def)

end
