(* ===== verification/Usage_Ledger.thy ===== *)
theory Usage_Ledger
  imports Protocol
begin

text \<open>
  \<open>crates/agent-core/src/usage.rs\<close>, the \<open>UsageLedger\<close> of \<open>agent.rs\<close> and the budget
  checks of \<open>budget.rs\<close>. The addition \<open>dadd\<close> and the order \<open>dless\<close> of \<open>Decimal\<close> are
  parameters. The lemmas show that aggregation never depends on the order in which a hash map
  hands out its values, that an unknown contribution makes a total unknown, and that in a
  whole tree of agents every model request is counted exactly once.
\<close>

section \<open>Aggregating contributions\<close>

text \<open>\<open>Iterator::reduce\<close> with a default for the empty case.\<close>

definition reduce_or :: "'a \<Rightarrow> ('a \<Rightarrow> 'a \<Rightarrow> 'a) \<Rightarrow> 'a list \<Rightarrow> 'a" where
  "reduce_or dflt add xs = (case xs of [] \<Rightarrow> dflt | first # rest \<Rightarrow> foldl add first rest)"

locale aggregation =
  fixes add :: "'a \<Rightarrow> 'a \<Rightarrow> 'a"
  assumes add_assoc: "add (add x y) z = add x (add y z)"
    and add_comm: "add x y = add y x"
begin

lemma foldl_push: "foldl add (add x y) zs = add x (foldl add y zs)"
  by (induction zs arbitrary: y) (simp_all add: add_assoc)

lemma reduce_or_Cons:
  "reduce_or d add (x # xs) = (if xs = [] then x else add x (reduce_or d add xs))"
  by (cases xs) (simp_all add: reduce_or_def foldl_push)

lemma reduce_or_swap: "reduce_or d add (x # y # zs) = reduce_or d add (y # x # zs)"
  by (simp add: reduce_or_Cons) (metis add_assoc add_comm)

lemma reduce_or_insert:
  "reduce_or d add (xs @ x # ys) = reduce_or d add (x # xs @ ys)"
proof (induction xs)
  case (Cons y xs)
  have "reduce_or d add (y # (xs @ x # ys)) = reduce_or d add (y # x # xs @ ys)"
    using Cons.IH by (simp add: reduce_or_Cons [of d y])
  then show ?case by (simp add: reduce_or_swap)
qed simp

lemma reduce_or_perm: "mset xs = mset ys \<Longrightarrow> reduce_or d add xs = reduce_or d add ys"
proof (induction xs arbitrary: ys)
  case (Cons x xs)
  then obtain bs cs where ys: "ys = bs @ x # cs"
    by (metis in_set_conv_decomp list.set_intros(1) mset_eq_setD)
  with Cons.prems have m: "mset xs = mset (bs @ cs)" by simp
  then have "xs = [] \<longleftrightarrow> bs @ cs = []" by (metis mset.simps(1) mset_zero_iff_right)
  with Cons.IH [OF m] show ?case
    by (simp add: ys reduce_or_insert reduce_or_Cons [of d x])
qed simp

end

lemma checked_add_u_chain:
  "Option.bind (checked_add_u a b) (\<lambda>s. checked_add_u s c) =
     (if unat a + unat b + unat c < 2 ^ 64 then Some (a + b + c) else None)"
  for a b c :: u64
proof (cases "unat a + unat b < 2 ^ 64")
  case True
  then have "unat (a + b) = unat a + unat b" by (simp add: unat_word_ariths)
  with True show ?thesis by (simp add: checked_add_u_def)
qed (simp add: checked_add_u_def)

lemma checked_add_bind: "checked_add a b = Option.bind a (\<lambda>x. Option.bind b (checked_add_u x))"
  by (simp add: checked_add_def split: option.split)

lemma checked_add_assoc: "checked_add (checked_add a b) c = checked_add a (checked_add b c)"
proof -
  have "Option.bind (checked_add_u x y) (\<lambda>s. checked_add_u s z)
      = Option.bind (checked_add_u y z) (\<lambda>s. checked_add_u x s)" for x y z :: u64
    using checked_add_u_chain [of x y z] checked_add_u_chain [of y z x]
    by (simp add: checked_add_u_comm [of x] ac_simps)
  then show ?thesis
    by (cases a; cases b; cases c) (simp_all add: checked_add_bind)
qed

lemma checked_add_comm: "checked_add a b = checked_add b a"
  by (auto simp: checked_add_def checked_add_u_comm split: option.splits)

lemma checked_add_Some_iff:
  "checked_add a b = Some c \<longleftrightarrow>
     (\<exists>x y. a = Some x \<and> b = Some y \<and> unat c = unat x + unat y)"
  by (cases a; cases b) (auto simp: checked_add_def checked_add_u_Some_iff)

interpretation usage_value: aggregation checked_add
  by unfold_locales (rule checked_add_assoc checked_add_comm)+

interpretation counter: aggregation "saturating_add :: u64 \<Rightarrow> u64 \<Rightarrow> u64"
  by unfold_locales (rule saturating_add_assoc saturating_add_comm)+

section \<open>Metrics (usage.rs)\<close>

definition checked_add_cost :: "('d \<Rightarrow> 'd \<Rightarrow> 'd) \<Rightarrow> 'd option \<Rightarrow> 'd option \<Rightarrow> 'd option" where
  "checked_add_cost dadd left right =
     (case (left, right) of (Some l, Some r) \<Rightarrow> Some (dadd l r) | _ \<Rightarrow> None)"

definition add_metrics ::
    "('d \<Rightarrow> 'd \<Rightarrow> 'd) \<Rightarrow> 'd agent_usage_metrics \<Rightarrow> 'd agent_usage_metrics \<Rightarrow> 'd agent_usage_metrics" where
  "add_metrics dadd left right = \<lparr>
     um_total_runs = saturating_add (um_total_runs left) (um_total_runs right),
     um_total_requests = saturating_add (um_total_requests left) (um_total_requests right),
     um_total_tool_calls = saturating_add (um_total_tool_calls left) (um_total_tool_calls right),
     um_total_tokens = checked_add (um_total_tokens left) (um_total_tokens right),
     um_input_tokens = checked_add (um_input_tokens left) (um_input_tokens right),
     um_output_tokens = checked_add (um_output_tokens left) (um_output_tokens right),
     um_cache_read_tokens = checked_add (um_cache_read_tokens left) (um_cache_read_tokens right),
     um_cache_write_tokens =
       checked_add (um_cache_write_tokens left) (um_cache_write_tokens right),
     um_reasoning_tokens = checked_add (um_reasoning_tokens left) (um_reasoning_tokens right),
     um_total_cost = checked_add_cost dadd (um_total_cost left) (um_total_cost right)\<rparr>"

definition aggregate_metrics ::
    "('d \<Rightarrow> 'd \<Rightarrow> 'd) \<Rightarrow> 'd agent_usage_metrics list \<Rightarrow> 'd agent_usage_metrics" where
  "aggregate_metrics dadd metrics = reduce_or default_metrics (add_metrics dadd) metrics"

definition add_model_usage :: "model_usage \<Rightarrow> model_usage \<Rightarrow> model_usage" where
  "add_model_usage acc usage = \<lparr>
     mu_input_tokens = checked_add (mu_input_tokens acc) (mu_input_tokens usage),
     mu_output_tokens = checked_add (mu_output_tokens acc) (mu_output_tokens usage),
     mu_cache_read_tokens = checked_add (mu_cache_read_tokens acc) (mu_cache_read_tokens usage),
     mu_cache_write_tokens =
       checked_add (mu_cache_write_tokens acc) (mu_cache_write_tokens usage),
     mu_reasoning_tokens = checked_add (mu_reasoning_tokens acc) (mu_reasoning_tokens usage),
     mu_total_tokens = checked_add (mu_total_tokens acc) (mu_total_tokens usage)\<rparr>"

definition aggregate_model_usage :: "model_usage list \<Rightarrow> model_usage" where
  "aggregate_model_usage usages = reduce_or default_model_usage add_model_usage usages"

interpretation model_usage: aggregation add_model_usage
  by unfold_locales
    (simp add: add_model_usage_def checked_add_assoc, simp add: add_model_usage_def checked_add_comm)

section \<open>The ledger (agent.rs, usage.rs)\<close>

record 'd usage_ledger =
  ul_records :: "'d usage_record list"
  ul_tool_calls :: u64
  ul_runs :: u64
  ul_child_usage :: "(agent_id, 'd agent_usage_summary) hash_map"

definition default_ledger :: "'d usage_ledger" where
  "default_ledger = \<lparr>ul_records = [], ul_tool_calls = 0, ul_runs = 0, ul_child_usage = []\<rparr>"

definition add_child_summary ::
    "agent_id \<Rightarrow> 'd agent_usage_summary \<Rightarrow> 'd usage_ledger \<Rightarrow> 'd usage_ledger" where
  "add_child_summary agent_id summary ledger =
     ledger\<lparr>ul_child_usage := AList.update agent_id summary (ul_child_usage ledger)\<rparr>"

definition add_record :: "'d usage_record \<Rightarrow> 'd usage_ledger \<Rightarrow> 'd usage_ledger" where
  "add_record r ledger = ledger\<lparr>ul_records := ul_records ledger @ [r]\<rparr>"

definition self_usage :: "'d usage_ledger \<Rightarrow> model_usage" where
  "self_usage ledger = aggregate_model_usage (map ur_model_usage (ul_records ledger))"

definition self_metrics :: "('d \<Rightarrow> 'd \<Rightarrow> 'd) \<Rightarrow> 'd usage_ledger \<Rightarrow> 'd agent_usage_metrics" where
  "self_metrics dadd ledger =
     (let aggregated = aggregate_model_usage (map ur_model_usage (ul_records ledger)) in \<lparr>
        um_total_runs = ul_runs ledger,
        um_total_requests = of_nat (length (ul_records ledger)),
        um_total_tool_calls = ul_tool_calls ledger,
        um_total_tokens = mu_total_tokens aggregated,
        um_input_tokens = mu_input_tokens aggregated,
        um_output_tokens = mu_output_tokens aggregated,
        um_cache_read_tokens = mu_cache_read_tokens aggregated,
        um_cache_write_tokens = mu_cache_write_tokens aggregated,
        um_reasoning_tokens = mu_reasoning_tokens aggregated,
        um_total_cost = reduce_or None (checked_add_cost dadd)
          (map (\<lambda>r. cost_amount_usd (ur_cost r)) (ul_records ledger))\<rparr>)"

definition compute_agent_usage_summary ::
    "('d \<Rightarrow> 'd \<Rightarrow> 'd) \<Rightarrow> 'd agent_usage_metrics \<Rightarrow> 'd agent_usage_summary list
      \<Rightarrow> 'd agent_usage_summary" where
  "compute_agent_usage_summary dadd own child_summaries =
     (let descendant_usage = aggregate_metrics dadd (map us_inclusive_usage child_summaries);
          inclusive_usage =
            (if child_summaries = [] then own
             else if um_total_requests own = 0 then descendant_usage
             else add_metrics dadd own descendant_usage)
      in \<lparr>us_self_usage = own, us_descendant_usage = descendant_usage,
          us_inclusive_usage = inclusive_usage\<rparr>)"

section \<open>Budget checks (budget.rs)\<close>

datatype budget_error =
    Exceeded string
  | CostExceeded
  | TooManyChildren u32 u32
  | MaxDepthExceeded u32 u32

definition check_usage :: "'d agent_budget \<Rightarrow> model_usage \<Rightarrow> budget_error + unit" where
  "check_usage budget usage =
     (case (bud_max_total_tokens budget, mu_total_tokens usage) of
        (Some limit, Some actual) \<Rightarrow>
          if actual > limit
          then Inl (Exceeded (''total tokens '' @ show_word actual @ '' exceeds limit ''
                              @ show_word limit))
          else Inr ()
      | _ \<Rightarrow> Inr ())"

definition check_cost ::
    "('d \<Rightarrow> 'd \<Rightarrow> bool) \<Rightarrow> 'd agent_budget \<Rightarrow> 'd cost \<Rightarrow> budget_error + unit" where
  "check_cost dless budget cost =
     (case (bud_max_cost_usd budget, cost_amount_usd cost) of
        (Some limit, Some actual) \<Rightarrow> if dless limit actual then Inl CostExceeded else Inr ()
      | _ \<Rightarrow> Inr ())"

definition check_children :: "'d agent_budget \<Rightarrow> u32 \<Rightarrow> budget_error + unit" where
  "check_children budget current =
     (case bud_max_children budget of
        Some limit \<Rightarrow> if current \<ge> limit then Inl (TooManyChildren limit current) else Inr ()
      | None \<Rightarrow> Inr ())"

definition check_depth :: "'d agent_budget \<Rightarrow> u32 \<Rightarrow> budget_error + unit" where
  "check_depth budget current =
     (case bud_max_depth budget of
        Some limit \<Rightarrow> if current \<ge> limit then Inl (MaxDepthExceeded limit current) else Inr ()
      | None \<Rightarrow> Inr ())"

section \<open>Order independence\<close>

lemma aggregation_cost: "aggregation dadd \<Longrightarrow> aggregation (checked_add_cost dadd)"
  by unfold_locales
    (auto simp: checked_add_cost_def aggregation.add_assoc split: option.splits
      intro: aggregation.add_comm)

lemma aggregation_metrics:
  assumes "aggregation dadd"
  shows "aggregation (add_metrics dadd)"
proof -
  note cost = aggregation_cost [OF assms]
  show ?thesis
    by unfold_locales
      (simp add: add_metrics_def saturating_add_assoc checked_add_assoc aggregation.add_assoc [OF cost],
       simp add: add_metrics_def saturating_add_comm checked_add_comm aggregation.add_comm [OF cost])
qed

text \<open>
  The usage summary of an agent does not depend on the order in which the summaries of
  its children are visited, so reading them from a hash map is deterministic as long as
  decimal addition is associative and commutative (no rounding).
\<close>

theorem usage_summary_order_independent:
  assumes "aggregation dadd" and "mset children = mset children'"
  shows "compute_agent_usage_summary dadd own children
       = compute_agent_usage_summary dadd own children'"
proof -
  have "mset (map us_inclusive_usage children) = mset (map us_inclusive_usage children')"
    using assms(2) by simp
  from aggregation.reduce_or_perm [OF aggregation_metrics [OF assms(1)] this]
  have "aggregate_metrics dadd (map us_inclusive_usage children)
      = aggregate_metrics dadd (map us_inclusive_usage children')"
    by (simp add: aggregate_metrics_def)
  moreover have "children = [] \<longleftrightarrow> children' = []"
    using assms(2) by (metis mset.simps(1) mset_zero_iff_right)
  ultimately show ?thesis by (simp add: compute_agent_usage_summary_def)
qed

theorem usage_summary_order_independent_witness:
  "let m = default_metrics\<lparr>um_total_requests := 1, um_total_cost := Some (2::int)\<rparr>;
       n = default_metrics\<lparr>um_total_requests := 2, um_total_cost := Some (3::int)\<rparr>;
       a = \<lparr>us_self_usage = m, us_descendant_usage = m, us_inclusive_usage = m\<rparr>;
       b = \<lparr>us_self_usage = n, us_descendant_usage = n, us_inclusive_usage = n\<rparr>
   in compute_agent_usage_summary (+) m [a, b] = compute_agent_usage_summary (+) m [b, a]"
proof -
  have "aggregation ((+) :: int \<Rightarrow> int \<Rightarrow> int)" by unfold_locales simp_all
  then show ?thesis
    unfolding Let_def by (rule usage_summary_order_independent) simp
qed

section \<open>Known totals\<close>

lemma foldl_checked_add:
  "foldl checked_add a vs = Some t \<longleftrightarrow>
     a \<noteq> None \<and> (\<forall>v \<in> set vs. v \<noteq> None) \<and>
     unat t = unat (the a) + sum_list (map (\<lambda>m. unat (the m)) vs)"
proof (induction vs arbitrary: a)
  case Nil
  show ?case by (cases a) (auto simp: word_unat_eq_iff)
next
  case (Cons v vs)
  show ?case
  proof (cases "checked_add a v")
    case None
    have "\<not> (a \<noteq> None \<and> v \<noteq> None \<and> unat t = unat (the a) + unat (the v) + k)" for k
    proof
      assume *: "a \<noteq> None \<and> v \<noteq> None \<and> unat t = unat (the a) + unat (the v) + k"
      then have "unat (the a) + unat (the v) < 2 ^ 64" using unat_bound [of t] by simp
      with * None show False by (auto simp: checked_add_def checked_add_u_def)
    qed
    then have "\<not> (a \<noteq> None \<and> (\<forall>v \<in> set (v # vs). v \<noteq> None) \<and>
       unat t = unat (the a) + sum_list (map (\<lambda>m. unat (the m)) (v # vs)))"
      by (auto simp: add.assoc)
    moreover have "foldl checked_add None vs \<noteq> Some t"
      using Cons.IH [of None] by simp
    ultimately show ?thesis using None by auto
  next
    case (Some s)
    then obtain x y where xy: "a = Some x" "v = Some y" "unat s = unat x + unat y"
      by (auto simp: checked_add_Some_iff)
    with Some Cons.IH [of "Some s"] show ?thesis by auto
  qed
qed

lemma um_total_tokens_foldl:
  "um_total_tokens (foldl (add_metrics dadd) m ms)
     = foldl checked_add (um_total_tokens m) (map um_total_tokens ms)"
  by (induction ms arbitrary: m) (simp_all add: add_metrics_def)

text \<open>
  A token total is reported exactly when every contribution is known and their sum fits
  into 64 bits, and then it is that sum: an unknown count is never read as zero and an
  overflow is never reported as a smaller number.
\<close>

theorem aggregate_tokens_known_iff:
  "um_total_tokens (aggregate_metrics dadd ms) = Some t \<longleftrightarrow>
     ms \<noteq> [] \<and> (\<forall>m \<in> set ms. um_total_tokens m \<noteq> None) \<and>
     unat t = sum_list (map (\<lambda>m. unat (the (um_total_tokens m))) ms)"
  by (cases ms)
    (auto simp: aggregate_metrics_def reduce_or_def default_metrics_def um_total_tokens_foldl
       foldl_checked_add o_def)

theorem aggregate_tokens_known_iff_witness:
  "um_total_tokens (aggregate_metrics (+)
      [default_metrics\<lparr>um_total_tokens := Some 5, um_total_cost := Some (1::int)\<rparr>,
       default_metrics\<lparr>um_total_tokens := Some 7\<rparr>]) = Some 12"
  by (subst aggregate_tokens_known_iff) simp

section \<open>Trees of agents\<close>

text \<open>
  An agent with the children it has spawned. When a child completes, its inclusive usage is
  stored with the parent (\<open>child_completed\<close>), and the parent's own summary is computed from
  these when it finishes: \<open>tree_summary\<close> is that computation for the whole tree.
\<close>

datatype 'd usage_tree = Usage_Node "'d agent_usage_metrics" "'d usage_tree list"

fun tree_summary :: "('d \<Rightarrow> 'd \<Rightarrow> 'd) \<Rightarrow> 'd usage_tree \<Rightarrow> 'd agent_usage_summary" where
  "tree_summary dadd (Usage_Node own children) =
     compute_agent_usage_summary dadd own (map (tree_summary dadd) children)"

fun tree_total :: "('d agent_usage_metrics \<Rightarrow> nat) \<Rightarrow> 'd usage_tree \<Rightarrow> nat" where
  "tree_total f (Usage_Node own children) = f own + sum_list (map (tree_total f) children)"

fun parents_counted :: "('d agent_usage_metrics \<Rightarrow> u64) \<Rightarrow> 'd usage_tree \<Rightarrow> bool" where
  "parents_counted f (Usage_Node own children) \<longleftrightarrow>
     (children \<noteq> [] \<and> um_total_requests own = 0 \<longrightarrow> f own = 0) \<and>
     list_all (parents_counted f) children"

text \<open>A counter of the metrics: zero by default and summed with saturation.\<close>

locale usage_counter =
  fixes f :: "'d agent_usage_metrics \<Rightarrow> u64" and dadd :: "'d \<Rightarrow> 'd \<Rightarrow> 'd"
  assumes counter_default: "f default_metrics = 0"
    and counter_add: "f (add_metrics dadd l r) = saturating_add (f l) (f r)"
begin

lemma counter_foldl:
  "unat (f (foldl (add_metrics dadd) m ms)) =
     min (2 ^ 64 - 1) (unat (f m) + sum_list (map (\<lambda>m. unat (f m)) ms))"
proof (induction ms arbitrary: m)
  case Nil
  show ?case using unat_bound [of "f m"] by simp
next
  case (Cons n ms)
  show ?case by (simp add: Cons counter_add unat_saturating_add)
qed

lemma counter_aggregate:
  "unat (f (aggregate_metrics dadd ms)) = min (2 ^ 64 - 1) (sum_list (map (\<lambda>m. unat (f m)) ms))"
  by (cases ms) (simp_all add: aggregate_metrics_def reduce_or_def counter_default counter_foldl)

lemma min_sum_list:
  "min (B::nat) (a + sum_list (map (\<lambda>x. min B (g x)) xs)) = min B (a + sum_list (map g xs))"
  by (induction xs arbitrary: a) (auto simp: min_def add.assoc [symmetric])

lemma inclusive_counter:
  "parents_counted f t \<Longrightarrow>
   unat (f (us_inclusive_usage (tree_summary dadd t))) = min (2 ^ 64 - 1) (tree_total (\<lambda>m. unat (f m)) t)"
proof (induction t)
  case (Usage_Node own children)
  have B: "unat (f own) \<le> 2 ^ 64 - 1" using unat_bound [of "f own"] by simp
  have eq: "map (\<lambda>m. unat (f m)) (map us_inclusive_usage (map (tree_summary dadd) children))
      = map (\<lambda>t. min (2 ^ 64 - 1) (tree_total (\<lambda>m. unat (f m)) t)) children"
    using Usage_Node by (auto simp: list_all_iff)
  have agg: "unat (f (aggregate_metrics dadd
         (map us_inclusive_usage (map (tree_summary dadd) children))))
      = min (2 ^ 64 - 1) (sum_list (map (tree_total (\<lambda>m. unat (f m))) children))"
    using min_sum_list [of "2 ^ 64 - 1" 0 "tree_total (\<lambda>m. unat (f m))" children]
    by (simp only: counter_aggregate eq add_0)
  show ?case
  proof (cases "children = [] \<or> um_total_requests own = 0")
    case True
    with Usage_Node.prems agg B show ?thesis
      by (auto simp: compute_agent_usage_summary_def Let_def)
  next
    case False
    with agg show ?thesis
      by (simp add: compute_agent_usage_summary_def Let_def counter_add unat_saturating_add)
  qed
qed

end

interpretation requests: usage_counter um_total_requests dadd for dadd
  by unfold_locales (simp_all add: default_metrics_def add_metrics_def)

interpretation tool_calls: usage_counter um_total_tool_calls dadd for dadd
  by unfold_locales (simp_all add: default_metrics_def add_metrics_def)

interpretation runs: usage_counter um_total_runs dadd for dadd
  by unfold_locales (simp_all add: default_metrics_def add_metrics_def)

lemma parents_counted_requests: "parents_counted um_total_requests t"
  by (induction t) (auto simp: list_all_iff)

text \<open>
  In a tree of agents of any shape the root's inclusive usage counts every model request
  of every agent exactly once (saturating at the largest 64-bit number): no descendant is
  counted twice and none is lost.
\<close>

theorem inclusive_requests_count_every_agent_once:
  "unat (um_total_requests (us_inclusive_usage (tree_summary dadd t)))
     = min (2 ^ 64 - 1) (tree_total (\<lambda>m. unat (um_total_requests m)) t)"
  by (rule requests.inclusive_counter [OF parents_counted_requests])

text \<open>
  Runs and tool calls are counted once each as well, for trees in which every agent that
  made no model request but has children also has no runs and no tool calls of its own.
\<close>

theorem inclusive_runs_and_tool_calls:
  assumes "parents_counted um_total_runs t" and "parents_counted um_total_tool_calls t"
  shows "unat (um_total_runs (us_inclusive_usage (tree_summary dadd t)))
           = min (2 ^ 64 - 1) (tree_total (\<lambda>m. unat (um_total_runs m)) t)
       \<and> unat (um_total_tool_calls (us_inclusive_usage (tree_summary dadd t)))
           = min (2 ^ 64 - 1) (tree_total (\<lambda>m. unat (um_total_tool_calls m)) t)"
  using runs.inclusive_counter [OF assms(1)] tool_calls.inclusive_counter [OF assms(2)] by auto

theorem inclusive_runs_and_tool_calls_witness:
  "let leaf = Usage_Node (default_metrics\<lparr>um_total_runs := 1, um_total_requests := 2,
                          um_total_tool_calls := 3, um_total_cost := Some (0::int)\<rparr>) [];
       root = Usage_Node (default_metrics\<lparr>um_total_runs := 1, um_total_requests := 1\<rparr>) [leaf, leaf]
   in unat (um_total_runs (us_inclusive_usage (tree_summary (+) root))) = 3
    \<and> unat (um_total_tool_calls (us_inclusive_usage (tree_summary (+) root))) = 6"
proof -
  let ?leaf = "Usage_Node (default_metrics\<lparr>um_total_runs := 1, um_total_requests := 2,
      um_total_tool_calls := 3, um_total_cost := Some (0::int)\<rparr>) []"
  let ?root = "Usage_Node (default_metrics\<lparr>um_total_runs := 1, um_total_requests := 1\<rparr>)
      [?leaf, ?leaf]"
  have "parents_counted um_total_runs ?root" "parents_counted um_total_tool_calls ?root"
    by (simp_all add: default_metrics_def)
  from inclusive_runs_and_tool_calls [OF this, of "(+)"] show ?thesis
    unfolding Let_def by (simp add: default_metrics_def del: tree_summary.simps)
qed

text \<open>
  Without that proviso the count is short: an agent whose run was rejected before any
  model request, but which has a child, loses its own run from the inclusive total, although
  the comment on \<open>compute_agent_usage_summary\<close> says \<open>total_runs\<close> needs no special case.
\<close>

theorem inclusive_runs_lost_without_requests:
  "\<exists>own child. unat (um_total_runs (us_inclusive_usage
       (tree_summary dadd (Usage_Node own [Usage_Node child []]))))
     < tree_total (\<lambda>m. unat (um_total_runs m)) (Usage_Node own [Usage_Node child []])"
  by (rule exI [of _ "default_metrics\<lparr>um_total_runs := 1\<rparr>"],
      rule exI [of _ "default_metrics\<lparr>um_total_runs := 1, um_total_requests := 1\<rparr>"])
     (simp add: compute_agent_usage_summary_def default_metrics_def aggregate_metrics_def
        reduce_or_def Let_def)

section \<open>Budgets\<close>

text \<open>
  Each budget check fails exactly when its limit is set, the measured value is known and
  the limit is passed (tokens and cost) or reached (children and depth), and the error names
  both numbers.
\<close>

theorem budget_checks_exact:
  "(check_usage b u \<noteq> Inr () \<longleftrightarrow>
     (\<exists>limit actual. bud_max_total_tokens b = Some limit \<and> mu_total_tokens u = Some actual
        \<and> limit < actual))
   \<and> (check_cost dless b c = Inl CostExceeded \<longleftrightarrow>
     (\<exists>limit actual. bud_max_cost_usd b = Some limit \<and> cost_amount_usd c = Some actual
        \<and> dless limit actual))
   \<and> check_children b n = (case bud_max_children b of Some limit \<Rightarrow>
       if n < limit then Inr () else Inl (TooManyChildren limit n) | None \<Rightarrow> Inr ())
   \<and> check_depth b n = (case bud_max_depth b of Some limit \<Rightarrow>
       if n < limit then Inr () else Inl (MaxDepthExceeded limit n) | None \<Rightarrow> Inr ())"
  by (auto simp: check_usage_def check_cost_def check_children_def check_depth_def
      split: option.splits)

end
