(* ===== verification/Transcript.thy ===== *)
theory Transcript
  imports Protocol "HOL-Library.Multiset"
begin

text \<open>
  The pairing of tool calls with their results in a conversation: the validator that guards a
  run (\<open>agent-core/src/transcript.rs\<close>), the repair of the copy a provider is sent
  (\<open>protocol/src/messages.rs\<close>), and the bookkeeping of the bounded inference view
  (\<open>agent-core/src/context_state.rs\<close>). The validator is shown to decide an abstract balance
  condition, and repair to produce what the validator accepts.
\<close>

section \<open>The validator (transcript.rs)\<close>

datatype transcript_error =
    DanglingToolCall tool_call_id
  | OrphanToolResult tool_call_id
  | OutOfOrderToolResult tool_call_id
  | UnresolvedToolCall tool_call_id

fun tool_use_id :: "content_block \<Rightarrow> tool_call_id option" where
  "tool_use_id (ToolUse c) = Some (call_id c)"
| "tool_use_id _ = None"

fun tool_result_id :: "content_block \<Rightarrow> tool_call_id option" where
  "tool_result_id (ToolResult c _) = Some c"
| "tool_result_id _ = None"

abbreviation tool_uses :: "content_block list \<Rightarrow> tool_call_id list" where
  "tool_uses blocks \<equiv> List.map_filter tool_use_id blocks"

abbreviation tool_results :: "content_block list \<Rightarrow> tool_call_id list" where
  "tool_results blocks \<equiv> List.map_filter tool_result_id blocks"

text \<open>Collecting into a hash map keeps the last index of an identifier.\<close>

definition declarations :: "agent_message list \<Rightarrow> (tool_call_id, nat) hash_map" where
  "declarations messages =
     rev (concat (map (\<lambda>(index, message). map (\<lambda>c. (c, index)) (tool_uses (msg_content message)))
       (enumerate 0 messages)))"

fun resolve_results ::
    "(tool_call_id, nat) hash_map \<Rightarrow> nat \<Rightarrow> tool_call_id list \<Rightarrow> tool_call_id list
      \<Rightarrow> transcript_error + tool_call_id list" where
  "resolve_results decls index pending [] = Inr pending"
| "resolve_results decls index pending (c # cs) =
     (if c \<in> set pending then resolve_results decls index (remove1 c pending) cs
      else if is_some_and (\<lambda>declared. declared > index) (map_of decls c)
      then Inl (OutOfOrderToolResult c)
      else Inl (OrphanToolResult c))"

fun validate_messages ::
    "(tool_call_id, nat) hash_map \<Rightarrow> nat \<Rightarrow> tool_call_id list \<Rightarrow> agent_message list
      \<Rightarrow> transcript_error + tool_call_id list" where
  "validate_messages decls index pending [] = Inr pending"
| "validate_messages decls index pending (message # messages) =
     (case msg_role message of
        Role_Assistant \<Rightarrow>
          validate_messages decls (Suc index) (pending @ tool_uses (msg_content message)) messages
      | Role_Tool \<Rightarrow>
          (case resolve_results decls index pending (tool_results (msg_content message)) of
             Inl e \<Rightarrow> Inl e
           | Inr pending' \<Rightarrow> validate_messages decls (Suc index) pending' messages)
      | _ \<Rightarrow>
          if pending \<noteq> [] then Inl (DanglingToolCall (hd pending))
          else validate_messages decls (Suc index) pending messages)"

definition validate_transcript :: "agent_message list \<Rightarrow> transcript_error + unit" where
  "validate_transcript messages =
     (case validate_messages (declarations messages) 0 [] messages of
        Inl e \<Rightarrow> Inl e
      | Inr [] \<Rightarrow> Inr ()
      | Inr (c # _) \<Rightarrow> Inl (UnresolvedToolCall c))"

section \<open>Repair of the provider-facing history (messages.rs)\<close>

definition unavailable_outcome :: tool_result_summary where
  "unavailable_outcome = \<lparr>trs_has_error = True, trs_output_preview =
     ''Tool outcome unavailable: execution may have been interrupted. Inspect the current state before retrying any action; do not assume it failed or succeeded.''\<rparr>"

fun first_results ::
    "content_block list \<Rightarrow> (tool_call_id, tool_result_summary) hash_map
      \<Rightarrow> (tool_call_id, tool_result_summary) hash_map" where
  "first_results [] results = results"
| "first_results (ToolResult c r # blocks) results =
     first_results blocks (if map_of results c = None then AList.update c r results else results)"
| "first_results (_ # blocks) results = first_results blocks results"

text \<open>
  One message's content: the kept blocks, the replies to its calls and the results left.
  \<open>fmt\<close> prints an identifier.
\<close>

fun repair_blocks ::
    "(tool_call_id \<Rightarrow> string) \<Rightarrow> tool_call_id list \<Rightarrow> content_block list
      \<Rightarrow> (tool_call_id, tool_result_summary) hash_map
      \<Rightarrow> content_block list \<times> content_block list \<times> (tool_call_id, tool_result_summary) hash_map"
  where
  "repair_blocks fmt calls [] results = ([], [], results)"
| "repair_blocks fmt calls (ToolResult c r # blocks) results =
     (case repair_blocks fmt calls blocks results of (content, replies, left) \<Rightarrow>
        (if c \<in> set calls then content
         else Text (''Earlier tool result ('' @ fmt c @ ''; call omitted from context): ''
                @ trs_output_preview r) # content, replies, left))"
| "repair_blocks fmt calls (ToolUse c # blocks) results =
     (case repair_blocks fmt calls blocks (AList.delete (call_id c) results) of
        (content, replies, left) \<Rightarrow>
        (ToolUse c # content,
         ToolResult (call_id c) (unwrap_or unavailable_outcome (map_of results (call_id c))) # replies,
         left))"
| "repair_blocks fmt calls (b # blocks) results =
     (case repair_blocks fmt calls blocks results of (content, replies, left) \<Rightarrow>
        (b # content, replies, left))"

definition repair_message ::
    "agent_message \<Rightarrow> content_block list \<Rightarrow> content_block list \<Rightarrow> agent_message list" where
  "repair_message message content replies =
     (let role = (if msg_role message = Role_Tool then Role_User else msg_role message)
      in (if content = [] then [] else [message\<lparr>msg_content := content, msg_role := role\<rparr>])
         @ (if replies = [] then []
            else [\<lparr>msg_id = msg_id message, msg_role = Role_Tool, msg_content = replies,
                   msg_created_at = msg_created_at message\<rparr>]))"

fun repair_messages ::
    "(tool_call_id \<Rightarrow> string) \<Rightarrow> tool_call_id list
      \<Rightarrow> (tool_call_id, tool_result_summary) hash_map \<Rightarrow> agent_message list
      \<Rightarrow> agent_message list" where
  "repair_messages fmt calls results [] = []"
| "repair_messages fmt calls results (message # messages) =
     (case repair_blocks fmt calls (msg_content message) results of (content, replies, left) \<Rightarrow>
        repair_message message content replies @ repair_messages fmt calls left messages)"

definition repair_tool_history ::
    "(tool_call_id \<Rightarrow> string) \<Rightarrow> agent_message list \<Rightarrow> agent_message list" where
  "repair_tool_history fmt messages =
     (let blocks = concat (map msg_content messages)
      in repair_messages fmt (tool_uses blocks) (first_results blocks []) messages)"

section \<open>Context lifecycle (context_state.rs)\<close>

record agent_context_state =
  ctx_active_checkpoint :: "u128 option"
  ctx_covered_through :: "message_id option"
  ctx_pinned_items :: "u128 list"
  ctx_generation :: u64
  ctx_last_estimated_tokens :: "u64 option"
  ctx_last_compacted_at :: "timestamp option"

definition default_context_state :: agent_context_state where
  "default_context_state = \<lparr>ctx_active_checkpoint = None, ctx_covered_through = None,
     ctx_pinned_items = [], ctx_generation = 0, ctx_last_estimated_tokens = None,
     ctx_last_compacted_at = None\<rparr>"

definition advance_generation :: "agent_context_state \<Rightarrow> agent_context_state" where
  "advance_generation s =
     s\<lparr>ctx_generation := saturating_add (ctx_generation s) 1, ctx_last_estimated_tokens := None\<rparr>"

definition accept_checkpoint ::
    "agent_context_state \<Rightarrow> u64 \<Rightarrow> u128 \<Rightarrow> message_id \<Rightarrow> u64 \<Rightarrow> timestamp
      \<Rightarrow> agent_context_state \<times> bool" where
  "accept_checkpoint s prepared_generation checkpoint covered_through estimated_tokens compacted_at =
     (if prepared_generation \<noteq> ctx_generation s then (s, False)
      else (s\<lparr>ctx_active_checkpoint := Some checkpoint,
              ctx_covered_through := Some covered_through,
              ctx_last_estimated_tokens := Some estimated_tokens,
              ctx_last_compacted_at := Some compacted_at\<rparr>, True))"

definition pin :: "agent_context_state \<Rightarrow> u128 \<Rightarrow> agent_context_state" where
  "pin s item =
     (if item \<notin> set (ctx_pinned_items s)
      then advance_generation (s\<lparr>ctx_pinned_items := ctx_pinned_items s @ [item]\<rparr>)
      else s)"

definition unpin :: "agent_context_state \<Rightarrow> u128 \<Rightarrow> agent_context_state \<times> bool" where
  "unpin s item =
     (if item \<notin> set (ctx_pinned_items s) then (s, False)
      else (advance_generation (s\<lparr>ctx_pinned_items := remove1 item (ctx_pinned_items s)\<rparr>), True))"

section \<open>The validator decides the balance of calls and results\<close>

text \<open>The calls still open after a message, and what a message requires of the open calls.\<close>

definition open_after :: "tool_call_id multiset \<Rightarrow> agent_message \<Rightarrow> tool_call_id multiset" where
  "open_after M m =
     (case msg_role m of
        Role_Assistant \<Rightarrow> M + mset (tool_uses (msg_content m))
      | Role_Tool \<Rightarrow> M - mset (tool_results (msg_content m))
      | _ \<Rightarrow> M)"

definition message_fits :: "tool_call_id multiset \<Rightarrow> agent_message \<Rightarrow> bool" where
  "message_fits M m =
     (case msg_role m of
        Role_Assistant \<Rightarrow> True
      | Role_Tool \<Rightarrow> mset (tool_results (msg_content m)) \<subseteq># M
      | _ \<Rightarrow> M = {#})"

abbreviation open_calls :: "agent_message list \<Rightarrow> tool_call_id multiset" where
  "open_calls messages \<equiv> foldl open_after {#} messages"

fun fits_from :: "tool_call_id multiset \<Rightarrow> agent_message list \<Rightarrow> bool" where
  "fits_from M [] = True"
| "fits_from M (m # ms) \<longleftrightarrow> message_fits M m \<and> fits_from (open_after M m) ms"

lemma fits_from_iff:
  "fits_from M ms \<longleftrightarrow>
     (\<forall>before m after. ms = before @ m # after \<longrightarrow> message_fits (foldl open_after M before) m)"
proof (induction ms arbitrary: M)
  case (Cons x xs)
  have "(\<forall>before m after. x # xs = before @ m # after \<longrightarrow> P before m) \<longleftrightarrow>
      P [] x \<and> (\<forall>before m after. xs = before @ m # after \<longrightarrow> P (x # before) m)" for P
  proof (intro iffI conjI allI impI; (elim conjE)?)
    fix before m after
    assume "P [] x" "\<forall>before m after. xs = before @ m # after \<longrightarrow> P (x # before) m"
      and "x # xs = before @ m # after"
    then show "P before m" by (cases before) auto
  qed auto
  from this [of "\<lambda>before. message_fits (foldl open_after M before)"] show ?case
    by (simp add: Cons.IH)
qed simp

lemma open_after_cases:
  "msg_role m = Role_Assistant \<Longrightarrow> open_after M m = M + mset (tool_uses (msg_content m))"
  "msg_role m = Role_Tool \<Longrightarrow> open_after M m = M - mset (tool_results (msg_content m))"
  "msg_role m = Role_User \<Longrightarrow> open_after M m = M"
  "msg_role m = Role_System \<Longrightarrow> open_after M m = M"
  by (simp_all add: open_after_def)

lemma resolve_results_iff:
  "resolve_results d i pending cs =
     (if mset cs \<subseteq># mset pending
      then Inr (fold remove1 cs pending) else resolve_results d i pending cs)
   \<and> (\<not> mset cs \<subseteq># mset pending \<longrightarrow> isl (resolve_results d i pending cs))"
proof (induction cs arbitrary: pending)
  case (Cons c cs)
  have "mset (c # cs) \<subseteq># mset pending \<longleftrightarrow>
      c \<in> set pending \<and> mset cs \<subseteq># mset (remove1 c pending)"
    by (simp add: insert_subset_eq_iff)
  then show ?case using Cons.IH [of "remove1 c pending"] by (auto split: if_splits)
qed simp

lemma mset_fold_remove1: "mset (fold remove1 cs xs) = mset xs - mset cs"
  by (induction cs arbitrary: xs) (simp_all add: diff_diff_add)

lemma validate_messages_iff:
  "if fits_from (mset pending) ms
   then \<exists>left. validate_messages d i pending ms = Inr left
          \<and> mset left = foldl open_after (mset pending) ms
   else isl (validate_messages d i pending ms)"
proof (induction ms arbitrary: i pending)
  case (Cons m ms)
  note tool = resolve_results_iff [of d i pending "tool_results (msg_content m)"]
  show ?case
  proof (cases "msg_role m")
    case Role_Assistant
    then show ?thesis using Cons.IH [of "pending @ tool_uses (msg_content m)" "Suc i"]
      by (simp add: message_fits_def open_after_cases split: if_splits)
  next
    case Role_Tool
    show ?thesis
    proof (cases "mset (tool_results (msg_content m)) \<subseteq># mset pending")
      case True
      then show ?thesis
        using tool Role_Tool Cons.IH [of "fold remove1 (tool_results (msg_content m)) pending" "Suc i"]
        by (simp add: message_fits_def open_after_cases mset_fold_remove1 split: if_splits)
    next
      case False
      then show ?thesis using tool Role_Tool
        by (auto simp: message_fits_def isl_def)
    qed
  qed (use Cons.IH [of pending "Suc i"] in \<open>auto simp: message_fits_def open_after_cases\<close>)
qed simp

text \<open>
  The validator accepts a conversation exactly when, reading it in order, every tool
  result answers a call that is open, no user or system message arrives while a call is open,
  and no call is open at the end; the identifiers may repeat, so calls are counted.
\<close>

theorem validate_transcript_iff:
  "validate_transcript ms = Inr () \<longleftrightarrow>
     (\<forall>before m after. ms = before @ m # after \<longrightarrow> message_fits (open_calls before) m)
     \<and> open_calls ms = {#}"
  unfolding fits_from_iff [symmetric]
  using validate_messages_iff [of "[]" ms "declarations ms" 0]
  by (auto simp: validate_transcript_def isl_def split: if_splits list.splits)

definition call_ex :: "tool_call_id \<Rightarrow> agent_message" where
  "call_ex c = \<lparr>msg_id = 1, msg_role = Role_Assistant,
     msg_content = [ToolUse \<lparr>call_id = c, call_name = ''test'', call_arguments = JNull\<rparr>],
     msg_created_at = 0\<rparr>"

definition result_ex :: "tool_call_id \<Rightarrow> agent_message" where
  "result_ex c = \<lparr>msg_id = 2, msg_role = Role_Tool,
     msg_content = [ToolResult c \<lparr>trs_has_error = False, trs_output_preview = ''ok''\<rparr>],
     msg_created_at = 0\<rparr>"

theorem validate_transcript_iff_witness:
  "message_fits (open_calls [call_ex 7]) (result_ex 7)"
proof -
  have "validate_transcript [call_ex 7, result_ex 7] = Inr ()"
    by (simp add: validate_transcript_def call_ex_def result_ex_def map_filter_simps)
  then show ?thesis
    using validate_transcript_iff [of "[call_ex 7, result_ex 7]"]
    by (metis append_Cons append_Nil)
qed

section \<open>Repair\<close>

fun result_pair :: "content_block \<Rightarrow> (tool_call_id \<times> tool_result_summary) option" where
  "result_pair (ToolResult c r) = Some (c, r)"
| "result_pair _ = None"

abbreviation result_pairs :: "content_block list \<Rightarrow> (tool_call_id \<times> tool_result_summary) list" where
  "result_pairs blocks \<equiv> List.map_filter result_pair blocks"

lemma map_filter_append [simp]: "List.map_filter f (xs @ ys) = List.map_filter f xs @ List.map_filter f ys"
  by (simp add: map_filter_def)

lemma map_of_first_results:
  "map_of (first_results blocks results) c = or_opt (map_of results c) (map_of (result_pairs blocks) c)"
  by (induction blocks results rule: first_results.induct)
     (auto simp: map_filter_simps update_conv' or_opt_def split: option.splits)

text \<open>The outcome a call is answered with, and what one message turns into.\<close>

abbreviation outcome_in :: "(tool_call_id, tool_result_summary) hash_map \<Rightarrow> tool_call_id \<Rightarrow> tool_result_summary" where
  "outcome_in results c \<equiv> unwrap_or unavailable_outcome (map_of results c)"

lemma repair_blocks_shape:
  assumes "repair_blocks fmt calls blocks results = (content, replies, left)"
  shows "tool_uses content = tool_uses blocks" and "result_pairs content = []"
    and "tool_results content = []" and "tool_uses replies = []"
    and "tool_results replies = tool_uses blocks"
    and "map_of left c = (if c \<in> set (tool_uses blocks) then None else map_of results c)"
    and "c \<in> set (tool_uses blocks) \<Longrightarrow> map_of (result_pairs replies) c = Some (outcome_in results c)"
    and "c \<notin> set (tool_uses blocks) \<Longrightarrow> map_of (result_pairs replies) c = None"
    and "\<forall>b \<in> set replies. result_pair b \<noteq> None"
  using assms
  by (induction fmt calls blocks results arbitrary: content replies left rule: repair_blocks.induct)
     (auto simp: map_filter_simps delete_conv' split: prod.splits if_splits)

abbreviation blocks_of :: "agent_message list \<Rightarrow> content_block list" where
  "blocks_of messages \<equiv> concat (map msg_content messages)"

lemma repair_blocks_again:
  assumes "repair_blocks fmt calls blocks results = (content, replies, left)"
    and "\<forall>c \<in> set (tool_uses blocks). outcome_in results' c = outcome_in results c"
  shows "\<exists>left'. repair_blocks fmt calls' content results' = (content, replies, left')"
  using assms
proof (induction fmt calls blocks results arbitrary: content replies left results'
    rule: repair_blocks.induct)
  case (3 fmt calls c blocks results)
  obtain content1 replies1 left1 where
    rest: "repair_blocks fmt calls blocks (AList.delete (call_id c) results) = (content1, replies1, left1)"
    by (metis prod_cases3)
  have "\<exists>left'. repair_blocks fmt calls' content1 (AList.delete (call_id c) results')
      = (content1, replies1, left')"
    using 3(3) by (intro 3(1) [OF rest]) (simp add: map_filter_simps delete_conv')
  with rest 3(2,3) show ?case by (auto simp: map_filter_simps)
qed (auto simp: map_filter_simps split: prod.splits if_splits; fastforce)+

lemma repair_replies_again:
  assumes "\<forall>b \<in> set replies. result_pair b \<noteq> None" and "set (tool_results replies) \<subseteq> set calls"
  shows "repair_blocks fmt calls replies results = ([], [], results)"
  using assms
  by (induction fmt calls replies results rule: repair_blocks.induct) (auto simp: map_filter_simps)

lemma repair_empty_content:
  assumes "repair_blocks fmt calls blocks results = ([], replies, left)"
  shows "replies = []"
proof -
  have "tool_results replies = []"
    using repair_blocks_shape(1,5) [OF assms] by (simp add: map_filter_simps)
  with repair_blocks_shape(9) [OF assms] show ?thesis
    by (cases replies; cases "hd replies") (auto simp: map_filter_simps)
qed

lemma repair_messages_again:
  assumes "\<forall>c \<in> set (tool_uses (blocks_of ms)). outcome_in results' c = outcome_in results c"
    and "set (tool_uses (blocks_of ms)) \<subseteq> set calls'"
  shows "repair_messages fmt calls' results' (repair_messages fmt calls results ms)
       = repair_messages fmt calls results ms"
  using assms
proof (induction ms arbitrary: results results')
  case (Cons m ms)
  obtain content replies left where
    once: "repair_blocks fmt calls (msg_content m) results = (content, replies, left)"
    by (metis prod_cases3)
  note shape = repair_blocks_shape [OF once]
  from repair_blocks_again [OF once] Cons.prems(1) obtain left' where
    twice: "repair_blocks fmt calls' content results' = (content, replies, left')" by force
  have later: "repair_messages fmt calls' left' (repair_messages fmt calls left ms)
      = repair_messages fmt calls left ms"
    using Cons.prems shape(1,6) repair_blocks_shape(6) [OF twice] by (intro Cons.IH) auto
  have replies: "repair_blocks fmt calls' replies r = ([], [], r)" for r
    using shape(5,9) Cons.prems(2) by (intro repair_replies_again) auto
  show ?case
  proof (cases "content = []")
    case True
    with repair_empty_content once have "replies = []" by blast
    with True once twice later show ?thesis by (simp add: repair_message_def)
  next
    case False
    with once twice later replies show ?thesis by (simp add: repair_message_def Let_def)
  qed
qed simp

lemma repaired_results:
  "map_of (result_pairs (blocks_of (repair_messages fmt calls results ms))) c =
     (if c \<in> set (tool_uses (blocks_of ms)) then Some (outcome_in results c) else None)"
proof (induction ms arbitrary: results)
  case (Cons m ms)
  obtain content replies left where
    once: "repair_blocks fmt calls (msg_content m) results = (content, replies, left)"
    by (metis prod_cases3)
  show ?case
    using once repair_blocks_shape [OF once] Cons.IH [of left]
    by (auto simp: repair_message_def Let_def map_add_def map_filter_simps split: option.splits)
qed (simp add: map_filter_simps)

lemma repaired_uses:
  "tool_uses (blocks_of (repair_messages fmt calls results ms)) = tool_uses (blocks_of ms)"
proof (induction ms arbitrary: results)
  case (Cons m ms)
  obtain content replies left where
    once: "repair_blocks fmt calls (msg_content m) results = (content, replies, left)"
    by (metis prod_cases3)
  show ?case
    using once repair_blocks_shape(1,4) [OF once] Cons.IH [of left]
    by (auto simp: repair_message_def Let_def map_filter_simps)
qed (simp add: map_filter_simps)

text \<open>
  Repairing a conversation keeps every call in order and answers each with its first
  recorded result, or with the unavailable outcome when there is none; repairing twice is
  repairing once. This holds for every conversation, however truncated or interleaved.
\<close>

theorem repair_tool_history_idempotent:
  "repair_tool_history fmt (repair_tool_history fmt ms) = repair_tool_history fmt ms
   \<and> tool_uses (blocks_of (repair_tool_history fmt ms)) = tool_uses (blocks_of ms)
   \<and> (\<forall>c. map_of (result_pairs (blocks_of (repair_tool_history fmt ms))) c =
        (if c \<in> set (tool_uses (blocks_of ms))
         then Some (unwrap_or unavailable_outcome (map_of (result_pairs (blocks_of ms)) c))
         else None))"
proof -
  let ?calls = "tool_uses (blocks_of ms)" and ?results = "first_results (blocks_of ms) []"
  have "repair_messages fmt ?calls (first_results (blocks_of (repair_messages fmt ?calls ?results ms)) [])
      (repair_messages fmt ?calls ?results ms) = repair_messages fmt ?calls ?results ms"
    by (rule repair_messages_again) (auto simp: map_of_first_results repaired_results)
  then show ?thesis
    by (simp add: repair_tool_history_def Let_def repaired_uses repaired_results map_of_first_results)
qed

lemma resolve_same: "resolve_results d i pending pending = Inr []"
  by (induction pending) auto

lemma validate_repaired:
  assumes "\<forall>m \<in> set ms. msg_role m \<noteq> Role_Assistant \<longrightarrow> tool_uses (msg_content m) = []"
  shows "validate_messages d i [] (repair_messages fmt calls results ms) = Inr []"
  using assms
proof (induction ms arbitrary: i results)
  case (Cons m ms)
  obtain content replies left where
    once: "repair_blocks fmt calls (msg_content m) results = (content, replies, left)"
    by (metis prod_cases3)
  note shape = repair_blocks_shape(1,5) [OF once]
  have IH: "validate_messages d i [] (repair_messages fmt calls left ms) = Inr []" for i
    using Cons.IH Cons.prems by simp
  have rep: "validate_messages d j (tool_uses content) (repair_message m [] replies @ ms')
      = validate_messages d (if replies = [] then j else Suc j) [] ms'" for j ms'
    using shape resolve_same [of d j "tool_uses (msg_content m)"]
    by (auto simp: repair_message_def map_filter_simps)
  have "repair_message m content replies
      = (if content = [] then [] else [m\<lparr>msg_content := content, msg_role :=
           (if msg_role m = Role_Tool then Role_User else msg_role m)\<rparr>])
        @ repair_message m [] replies"
    by (simp add: repair_message_def)
  then show ?case
    using once shape(1) Cons.prems rep IH repair_empty_content
    by (cases "msg_role m") (auto simp: repair_message_def)
qed simp

text \<open>
  C38: where tool calls occur only in assistant messages, which is the only place the program
  writes them, the repaired conversation is one the validator accepts.
\<close>

theorem repair_tool_history_valid:
  assumes "\<forall>m \<in> set ms. msg_role m \<noteq> Role_Assistant \<longrightarrow> tool_uses (msg_content m) = []"
  shows "validate_transcript (repair_tool_history fmt ms) = Inr ()"
  unfolding validate_transcript_def repair_tool_history_def Let_def
  by (simp add: validate_repaired [OF assms])

theorem repair_tool_history_valid_witness:
  "validate_transcript (repair_tool_history (\<lambda>_. []) [result_ex 3, call_ex 7]) = Inr ()
   \<and> validate_transcript [result_ex 3, call_ex 7] \<noteq> Inr ()"
proof
  show "validate_transcript (repair_tool_history (\<lambda>_. []) [result_ex 3, call_ex 7]) = Inr ()"
    by (rule repair_tool_history_valid) (simp add: result_ex_def call_ex_def map_filter_simps)
  show "validate_transcript [result_ex 3, call_ex 7] \<noteq> Inr ()"
    by (simp add: validate_transcript_def declarations_def result_ex_def call_ex_def
        map_filter_simps enumerate_eq_zip)
qed

section \<open>Stale checkpoints\<close>

text \<open>What may happen to the context state between preparing a checkpoint and offering it.\<close>

inductive context_step :: "agent_context_state \<Rightarrow> agent_context_state \<Rightarrow> bool" where
  advanced: "context_step s (advance_generation s)"
| pinned: "context_step s (pin s item)"
| unpinned: "context_step s (fst (unpin s item))"
| offered: "context_step s (fst (accept_checkpoint s g checkpoint covered tokens at))"

inductive_cases context_stepE: "context_step s t"

lemmas context_ops = advance_generation_def pin_def unpin_def accept_checkpoint_def

lemma context_step_generation:
  assumes "context_step s t" and "ctx_generation t \<noteq> - 1"
  shows "t = s \<or> ctx_generation s < ctx_generation t
    \<or> ctx_generation t = ctx_generation s \<and> ctx_pinned_items t = ctx_pinned_items s"
proof -
  have "g < saturating_add g 1" if "saturating_add g 1 \<noteq> - 1" for g :: u64
    using that unat_bound [of g]
    by (auto simp: word_less_nat_alt word_unat_eq_iff unat_saturating_add unat_minus_one_word
        min_def split: if_splits)
  with assms show ?thesis by (auto simp: context_ops elim!: context_stepE split: if_splits)
qed

lemma context_step_mono: "context_step s t \<Longrightarrow> ctx_generation s \<le> ctx_generation t"
  using unat_bound [of "ctx_generation s"]
  by (auto simp: context_ops word_le_nat_alt unat_saturating_add elim!: context_stepE split: if_splits)

lemma context_step_distinct:
  "context_step s t \<Longrightarrow> distinct (ctx_pinned_items s) \<Longrightarrow> distinct (ctx_pinned_items t)"
  by (auto simp: context_ops elim!: context_stepE split: if_splits)

lemma context_steps_pinned:
  assumes "context_step\<^sup>*\<^sup>* s t" and "ctx_generation t \<noteq> - 1"
  shows "ctx_generation s \<le> ctx_generation t
    \<and> (ctx_generation t = ctx_generation s \<longrightarrow> ctx_pinned_items t = ctx_pinned_items s)"
  using assms
proof (induction rule: rtranclp_induct)
  case (step t u)
  have "ctx_generation t \<le> ctx_generation u" by (rule context_step_mono [OF step.hyps(2)])
  moreover from this step.prems have "ctx_generation t \<noteq> - 1"
    by (metis word_order.extremum_unique)
  ultimately show ?case
    using step.IH context_step_generation [OF step.hyps(2) step.prems] by force
qed simp

text \<open>
  A checkpoint prepared at some state is accepted later only if the pinned items are
  still those it was prepared from, whatever happened in between, as long as the generation
  counter is not at its maximum; and no item is ever pinned twice.
\<close>

theorem accepted_checkpoint_is_current:
  assumes "context_step\<^sup>*\<^sup>* default_context_state s" and "context_step\<^sup>*\<^sup>* s t"
    and "ctx_generation t \<noteq> - 1"
    and "accept_checkpoint t (ctx_generation s) checkpoint covered tokens at = (u, True)"
  shows "ctx_pinned_items u = ctx_pinned_items s \<and> ctx_active_checkpoint u = Some checkpoint
    \<and> distinct (ctx_pinned_items u)"
proof -
  have "distinct (ctx_pinned_items s)"
    using assms(1)
    by (induction rule: rtranclp_induct)
       (simp_all add: default_context_state_def context_step_distinct)
  with context_steps_pinned [OF assms(2,3)] assms(4) show ?thesis
    by (auto simp: accept_checkpoint_def split: if_splits)
qed

theorem accepted_checkpoint_is_current_witness:
  "ctx_pinned_items (fst (accept_checkpoint (pin default_context_state 5) 1 9 8 100 0)) = [5]"
proof -
  let ?s = "pin default_context_state 5"
  have g: "ctx_generation ?s = 1" "ctx_pinned_items ?s = [5]"
    by (simp_all add: pin_def advance_generation_def default_context_state_def saturating_add_def)
  obtain u b where u: "accept_checkpoint ?s (ctx_generation ?s) 9 8 100 0 = (u, b)"
    by fastforce
  then have b by (auto simp: accept_checkpoint_def split: if_splits)
  have "context_step\<^sup>*\<^sup>* default_context_state ?s"
    by (rule r_into_rtranclp) (rule pinned)
  from accepted_checkpoint_is_current [OF this rtranclp.rtrancl_refl _, of 9 8 100 0 u] g u \<open>b\<close>
  show ?thesis by simp
qed

end
