(* ===== verification/Behavior_Definition.thy ===== *)
theory Behavior_Definition
  imports Protocol "HOL-Library.Product_Lexorder"
begin

text \<open>
  Behavior profile documents (\<open>agent-core/src/behavior/definition.rs\<close> and
  \<open>definition/*.rs\<close>): what an agent is told, what it may use, the rules and the completion
  gate of its loop, and the small operations defined on these types.
\<close>

section \<open>Identity and status (identity.rs, status.rs, tool_scope.rs)\<close>

type_synonym profile_id = string

record profile_ref =
  pref_id :: profile_id
  pref_revision :: "u64 option"

definition profile_ref_exact :: "string \<Rightarrow> u64 \<Rightarrow> profile_ref" where
  "profile_ref_exact i revision = \<lparr>pref_id = i, pref_revision = Some revision\<rparr>"

definition profile_ref_latest :: "string \<Rightarrow> profile_ref" where
  "profile_ref_latest i = \<lparr>pref_id = i, pref_revision = None\<rparr>"

definition fmt_profile_ref :: "profile_ref \<Rightarrow> string" where
  "fmt_profile_ref r =
     (case pref_revision r of
        Some revision \<Rightarrow> pref_id r @ ''@'' @ show_word revision
      | None \<Rightarrow> pref_id r @ ''@latest'')"

datatype definition_status = Draft | Published | Deprecated

datatype tool_scope = Scope_None | AllowList "string list" | Scope_Inherit

section \<open>Settings of a profile (definition.rs)\<close>

definition BEHAVIOR_SCHEMA_VERSION :: u32 where
  "BEHAVIOR_SCHEMA_VERSION = 1"

datatype instruction_mode = Append | Replace_Prompt

record instructions =
  ins_mode :: instruction_mode
  ins_text :: string
  ins_variants :: "(string, string) btree_map"

text \<open>Ordered from least to most restrictive, as the derived \<open>Ord\<close> of the enum.\<close>

datatype tool_permission = TP_Allow | TP_Ask | TP_Deny

fun permission_rank :: "tool_permission \<Rightarrow> nat" where
  "permission_rank TP_Allow = 0"
| "permission_rank TP_Ask = 1"
| "permission_rank TP_Deny = 2"

lemma permission_rank_inject: "permission_rank a = permission_rank b \<Longrightarrow> a = b"
  by (cases a; cases b) simp_all

instantiation tool_permission :: linorder
begin

definition less_eq_tool_permission :: "tool_permission \<Rightarrow> tool_permission \<Rightarrow> bool" where
  "a \<le> b \<longleftrightarrow> permission_rank a \<le> permission_rank b"

definition less_tool_permission :: "tool_permission \<Rightarrow> tool_permission \<Rightarrow> bool" where
  "a < b \<longleftrightarrow> permission_rank a < permission_rank b"

instance
  by standard
     (auto simp: less_eq_tool_permission_def less_tool_permission_def permission_rank_inject)

end

record tool_override =
  to_permission :: "tool_permission option"
  to_description_append :: "string option"

datatype reasoning_effort_setting =
  Set_Minimal | Set_Low | Set_Medium | Set_High | Set_XHigh | Set_Max | Set_Ultra

record execution_overlay =
  xo_model :: "string option"
  xo_max_tokens :: "u64 option"
  xo_temperature :: "f64 option"
  xo_reasoning_effort :: "reasoning_effort_setting option"

record limits =
  lim_max_turns :: "u32 option"
  lim_max_tool_calls :: "u32 option"
  lim_final_turn_prompt :: "string option"

datatype child_policy =
    Inherit
  | Named profile_ref
  | Derived json
  | Policy profile_ref

fun child_policy_name :: "child_policy \<Rightarrow> string" where
  "child_policy_name Inherit = ''inherit''"
| "child_policy_name (Named _) = ''named''"
| "child_policy_name (Derived _) = ''derived''"
| "child_policy_name (Policy _) = ''policy''"

section \<open>Rules (definition.rs, actions.rs)\<close>

datatype rule_event =
  RunStart | BeforeModelRequest | PreToolUse | PostToolUse | PostToolUseFailure | ProfileEntered

fun event_name :: "rule_event \<Rightarrow> string" where
  "event_name RunStart = ''RunStart''"
| "event_name BeforeModelRequest = ''BeforeModelRequest''"
| "event_name PreToolUse = ''PreToolUse''"
| "event_name PostToolUse = ''PostToolUse''"
| "event_name PostToolUseFailure = ''PostToolUseFailure''"
| "event_name ProfileEntered = ''ProfileEntered''"

definition is_tool_event :: "rule_event \<Rightarrow> bool" where
  "is_tool_event e \<longleftrightarrow> e \<in> {PreToolUse, PostToolUse, PostToolUseFailure}"

datatype name_match = One string | Any_Of "string list"

fun patterns :: "name_match \<Rightarrow> string list" where
  "patterns (One p) = [p]"
| "patterns (Any_Of ps) = ps"

record arg_match =
  am_pointer :: string
  am_glob :: "string option"
  am_contains :: "string option"
  am_equals :: "json option"

record comparison =
  cmp_eq :: "u32 option"
  cmp_gte :: "u32 option"
  cmp_lte :: "u32 option"

definition comparison_is_empty :: "comparison \<Rightarrow> bool" where
  "comparison_is_empty c \<longleftrightarrow> cmp_eq c = None \<and> cmp_gte c = None \<and> cmp_lte c = None"

definition comparison_holds :: "comparison \<Rightarrow> u32 \<Rightarrow> bool" where
  "comparison_holds c v \<longleftrightarrow>
     is_none_or (\<lambda>eq. v = eq) (cmp_eq c) \<and> is_none_or (\<lambda>gte. v \<ge> gte) (cmp_gte c)
     \<and> is_none_or (\<lambda>lte. v \<le> lte) (cmp_lte c)"

datatype call_outcome = Outcome_Any | Succeeded | Failed_Only

fun admits :: "call_outcome \<Rightarrow> bool \<Rightarrow> bool" where
  "admits Outcome_Any failed = True"
| "admits Succeeded failed = (\<not> failed)"
| "admits Failed_Only failed = failed"

record tool_count =
  cnt_tool :: name_match
  cnt_outcome :: call_outcome
  cnt_comparison :: comparison

record since_last_call =
  slc_of :: name_match
  slc_called :: name_match
  slc_outcome :: call_outcome
  slc_comparison :: comparison

datatype condition =
    Cond_Tool name_match
  | Cond_Arg arg_match
  | ResultContains string
  | Turn comparison
  | Calls tool_count
  | TurnsSinceCall tool_count
  | SinceLastCall since_last_call
  | ToolOffered name_match
  | RepeatedCall comparison
  | ProfileEnteredFrom name_match
  | FinalStatus name_match
  | Cond_All "condition list"
  | Cond_Any "condition list"
  | Cond_Not condition

datatype placement = WithResult | NextRequest | Persistent

fun placement_name :: "placement \<Rightarrow> string" where
  "placement_name WithResult = ''with_result''"
| "placement_name NextRequest = ''next_request''"
| "placement_name Persistent = ''persistent''"

definition default_for :: "rule_event \<Rightarrow> placement" where
  "default_for e = (if is_tool_event e then WithResult else NextRequest)"

fun allowed_on :: "placement \<Rightarrow> rule_event \<Rightarrow> bool" where
  "allowed_on WithResult e = is_tool_event e"
| "allowed_on NextRequest e = True"
| "allowed_on Persistent e = (e = RunStart)"

record inject =
  inj_text :: string
  inj_placement :: "placement option"

datatype action =
    Inject inject
  | Act_Deny string
  | Act_Ask "string option"
  | Act_Allow
  | StopRun string
  | SwitchProfile profile_ref
  | RewriteArgs json
  | RewriteResult "string option" "string option"

fun action_name :: "action \<Rightarrow> string" where
  "action_name (Inject _) = ''inject''"
| "action_name (Act_Deny _) = ''deny''"
| "action_name (Act_Ask _) = ''ask''"
| "action_name Act_Allow = ''allow''"
| "action_name (StopRun _) = ''stop_run''"
| "action_name (SwitchProfile _) = ''switch_profile''"
| "action_name (RewriteArgs _) = ''rewrite_args''"
| "action_name (RewriteResult _ _) = ''rewrite_result''"

record rule =
  rule_id :: string
  rule_on :: rule_event
  rule_when :: "condition option"
  rule_action :: action
  rule_max_fires :: "u32 option"
  rule_metadata :: json

section \<open>Completion gate (completion.rs)\<close>

datatype on_exhausted = Exhausted_Fail | Exhausted_Accept

datatype error_policy = Policy_Fail | Policy_Pass

datatype evaluator_spec =
    Eval_Tool string json "string option"
  | Eval_Model string "string option" u32
  | Eval_Agent string "string list" "string option" u32 u32
  | Eval_Command string u64

fun evaluator_type_name :: "evaluator_spec \<Rightarrow> string" where
  "evaluator_type_name (Eval_Tool _ _ _) = ''tool''"
| "evaluator_type_name (Eval_Model _ _ _) = ''model''"
| "evaluator_type_name (Eval_Agent _ _ _ _ _) = ''agent''"
| "evaluator_type_name (Eval_Command _ _) = ''command''"

record gate_check =
  gc_id :: string
  gc_require :: "condition option"
  gc_evaluator :: "evaluator_spec option"
  gc_feedback :: "string option"
  gc_error_policy :: error_policy
  gc_waive_when_exhausted :: bool
  gc_metadata :: json

record completion_gate =
  gate_checks :: "gate_check list"
  gate_max_continuations :: u32
  gate_on_exhausted :: "on_exhausted option"

section \<open>The profile document\<close>

record behavior_profile =
  bp_schema_version :: u32
  bp_id :: profile_id
  bp_revision :: u64
  bp_name :: string
  bp_description :: "string option"
  bp_status :: definition_status
  bp_instructions :: instructions
  bp_tools :: tool_scope
  bp_tool_overrides :: "(string, tool_override) btree_map"
  bp_execution :: execution_overlay
  bp_limits :: limits
  bp_rules :: "rule list"
  bp_completion_gate :: "completion_gate option"
  bp_children :: child_policy
  bp_metadata :: json

section \<open>The built-in profile (default.rs)\<close>

definition DEFAULT_PROFILE_ID :: string where
  "DEFAULT_PROFILE_ID = ''rusty.default''"

definition RESERVED_PROFILE_PREFIX :: string where
  "RESERVED_PROFILE_PREFIX = ''rusty.''"

definition default_profile_definition :: behavior_profile where
  "default_profile_definition = \<lparr>
     bp_schema_version = BEHAVIOR_SCHEMA_VERSION,
     bp_id = DEFAULT_PROFILE_ID,
     bp_revision = 1,
     bp_name = ''Default'',
     bp_description = Some ''Behavior-neutral built-in profile'',
     bp_status = Published,
     bp_instructions = \<lparr>ins_mode = Append, ins_text = [], ins_variants = []\<rparr>,
     bp_tools = Scope_Inherit,
     bp_tool_overrides = [],
     bp_execution = \<lparr>xo_model = None, xo_max_tokens = None, xo_temperature = None,
                     xo_reasoning_effort = None\<rparr>,
     bp_limits = \<lparr>lim_max_turns = None, lim_max_tool_calls = None, lim_final_turn_prompt = None\<rparr>,
     bp_rules = [],
     bp_completion_gate = None,
     bp_children = Inherit,
     bp_metadata = JNull\<rparr>"

end
