(* ===== verification/Tool_Policy.thy ===== *)
theory Tool_Policy
  imports Protocol
begin

text \<open>
  What an agent may use: the tool names that share another tool's grant
  (\<open>agent-core/src/tool_alias.rs\<close>), the application's execution policy
  (\<open>execution_policy.rs\<close>) and the capabilities a child inherits (\<open>capabilities.rs\<close>).
  The theorems say that each layer only narrows what the layer above grants.
\<close>

section \<open>Aliases and shared grants (tool_alias.rs)\<close>

definition ALIASES :: "(string \<times> string) list" where
  "ALIASES = [
     (''edit_file'', ''write_file''),
     (''run_check'', ''run_command''),
     (''install_dependencies'', ''run_command'')]"

definition GRANTED_WITH :: "(string \<times> string) list" where
  "GRANTED_WITH = [
     (''project_info'', ''read_file''),
     (''request_research'', ''read_file''),
     (''repo_context'', ''read_file''),
     (''repo_wiki'', ''read_file''),
     (''spec_context'', ''read_file''),
     (''repo_overview'', ''read_file''),
     (''repo_health'', ''read_file''),
     (''repo_risk'', ''read_file''),
     (''repo_symbol'', ''read_file''),
     (''code_guidelines'', ''read_file''),
     (''job_output'', ''run_command'')]"

definition ALWAYS_ADMITTED :: "string list" where
  "ALWAYS_ADMITTED =
     [''repo_overview'', ''repo_health'', ''repo_risk'', ''repo_symbol'', ''code_guidelines'']"

definition followed_tool :: "string \<Rightarrow> string option" where
  "followed_tool name = map_option snd (List.find (\<lambda>(alias, _). alias = name) ALIASES)"

definition granted_by :: "string \<Rightarrow> string option" where
  "granted_by name =
     or_opt (followed_tool name)
       (map_option snd (List.find (\<lambda>(tool, _). tool = name) GRANTED_WITH))"

definition push_missing :: "string \<Rightarrow> string list \<Rightarrow> string list" where
  "push_missing name names = (if name \<in> set names then names else names @ [name])"

definition with_aliases :: "string list \<Rightarrow> string list" where
  "with_aliases tools =
     (let all = fold (\<lambda>(admitted, granting) all.
            if granting \<in> set tools then push_missing admitted all else all)
          (ALIASES @ GRANTED_WITH) tools
      in if tools = [] then all else fold push_missing ALWAYS_ADMITTED all)"

section \<open>Execution policy (execution_policy.rs)\<close>

datatype mcp_server_access = Access_Denied | Access_ReadOnly | Access_Full

definition policy_enabled :: "execution_policy \<Rightarrow> string \<Rightarrow> bool" where
  "policy_enabled policy name \<longleftrightarrow> name \<in> set (pol_enabled_tools policy)"

definition mcp_server_access :: "execution_policy \<Rightarrow> string \<Rightarrow> mcp_server_access" where
  "mcp_server_access policy server =
     (if server \<notin> set (pol_allowed_mcp_servers policy) \<or> \<not> policy_enabled policy ''web_search''
      then Access_Denied
      else if pol_mode policy = Execute \<and> policy_enabled policy ''write_file''
      then Access_Full else Access_ReadOnly)"

definition is_unconditionally_allowed :: "string \<Rightarrow> bool" where
  "is_unconditionally_allowed name \<longleftrightarrow>
     name \<in> set [''report_progress'', ''ask_user_question'', ''decide'', ''update_todos'',
       ''job_output'', ''spec_tasks_check'', ''agent_spawn'', ''rusty_docs'']
     \<or> name \<in> set ALWAYS_ADMITTED"

definition is_write_tool :: "string \<Rightarrow> bool" where
  "is_write_tool name \<longleftrightarrow> name \<in> set [''write_file'', ''edit_file'', ''fs.edit'']"

definition is_command_tool :: "string \<Rightarrow> bool" where
  "is_command_tool name \<longleftrightarrow>
     name \<in> set [''run_command'', ''shell.exec'', ''run_check'', ''install_dependencies'']"

definition allows_command_execution :: "execution_policy \<Rightarrow> bool" where
  "allows_command_execution policy \<longleftrightarrow>
     pol_mode policy = Execute \<and> policy_enabled policy ''write_file''
     \<and> policy_enabled policy ''web_search'' \<and> policy_enabled policy ''run_command''"

definition tool_permission_of :: "string \<Rightarrow> string option" where
  "tool_permission_of name =
     (if name \<in> set [''read_file'', ''fs.read'', ''open_document'', ''project_info'',
          ''request_research'', ''workflow_catalog'', ''repo_context'', ''repo_wiki'',
          ''spec_context''] then Some ''read_file''
      else if name \<in> set [''write_file'', ''edit_file'', ''fs.edit''] then Some ''write_file''
      else if name = ''save_workflow'' then Some ''save_workflow''
      else if name = ''list_files'' then Some ''list_files''
      else if name \<in> set [''search_codebase'', ''workspace.search''] then Some ''search_codebase''
      else if name \<in> set [''web_search'', ''web_fetch'', ''web_extract''] then Some ''web_search''
      else None)"

definition policy_allows_tool :: "execution_policy \<Rightarrow> string \<Rightarrow> bool" where
  "policy_allows_tool policy name =
     (if is_unconditionally_allowed name then True
      else if name = ''write_plan'' then pol_mode policy = Plan
      else if is_write_tool name \<and> pol_mode policy = Plan then False
      else if name = ''save_workflow'' \<and> pol_mode policy \<noteq> Execute then False
      else if is_command_tool name then allows_command_execution policy
      else is_some_and (policy_enabled policy) (tool_permission_of name))"

definition restrict_capability ::
    "execution_policy \<Rightarrow> string list \<Rightarrow> tool_capability \<Rightarrow> tool_capability" where
  "restrict_capability policy mcp_tools capability =
     (let name = td_name (tc_descriptor capability)
      in if \<not> policy_allows_tool policy name \<and> name \<notin> set mcp_tools
         then capability\<lparr>tc_policy := \<lparr>tp_permission = Deny, tp_enabled = False\<rparr>,
                         tc_delegatable := False\<rparr>
         else capability)"

definition restrict_toolset ::
    "execution_policy \<Rightarrow> agent_toolset \<Rightarrow> string list \<Rightarrow> agent_toolset" where
  "restrict_toolset policy tools mcp_tools =
     tools\<lparr>ts_tools :=
       map (\<lambda>(id, capability). (id, restrict_capability policy mcp_tools capability))
         (ts_tools tools)\<rparr>"

section \<open>Capabilities of children (capabilities.rs)\<close>

record workspace_capabilities =
  ws_can_read :: bool
  ws_can_write :: bool
  ws_can_search :: bool

record agent_capabilities =
  cap_tools :: agent_toolset
  cap_can_spawn_agents :: bool
  cap_max_child_depth :: "u32 option"
  cap_workspace :: workspace_capabilities
  cap_backend :: backend_capabilities

datatype capability_error =
  ToolNotFound tool_id | NotDelegatable tool_id | NotEnabled tool_id

abbreviation parent_tool :: "agent_capabilities \<Rightarrow> tool_id \<Rightarrow> tool_capability option" where
  "parent_tool caps tid \<equiv> map_of (ts_tools (cap_tools caps)) tid"

definition can_delegate :: "agent_capabilities \<Rightarrow> tool_id \<Rightarrow> bool" where
  "can_delegate caps tid =
     unwrap_or False
       (map_option (\<lambda>tc. tc_delegatable tc \<and> tp_enabled (tc_policy tc)) (parent_tool caps tid))"

text \<open>The loop of the \<open>Subset\<close> case: the first identifier that may not be delegated is an error.\<close>

fun subset_tools ::
    "agent_capabilities \<Rightarrow> tool_id list \<Rightarrow> (tool_id, tool_capability) hash_map
      \<Rightarrow> capability_error + (tool_id, tool_capability) hash_map" where
  "subset_tools caps [] tools = Inr tools"
| "subset_tools caps (tid # ids) tools =
     (case parent_tool caps tid of
        None \<Rightarrow> Inl (ToolNotFound tid)
      | Some capability \<Rightarrow>
          if \<not> tc_delegatable capability then Inl (NotDelegatable tid)
          else if \<not> tp_enabled (tc_policy capability) then Inl (NotEnabled tid)
          else subset_tools caps ids (AList.update tid capability tools))"

definition stricter_permission :: "permission_mode \<Rightarrow> permission_mode \<Rightarrow> permission_mode" where
  "stricter_permission parent requested =
     (if parent = Deny \<or> requested = Deny then Deny
      else if parent = Ask \<or> requested = Ask then Ask else Allow)"

definition narrowed_tool :: "tool_capability \<Rightarrow> tool_capability \<Rightarrow> tool_capability" where
  "narrowed_tool parent requested =
     parent\<lparr>tc_policy := \<lparr>
         tp_permission = stricter_permission (tp_permission (tc_policy parent))
                           (tp_permission (tc_policy requested)),
         tp_enabled = (tp_enabled (tc_policy parent) \<and> tp_enabled (tc_policy requested))\<rparr>,
       tc_delegatable := (tc_delegatable parent \<and> tc_delegatable requested)\<rparr>"

definition derive_child_capabilities ::
    "agent_capabilities \<Rightarrow> tool_inheritance \<Rightarrow> capability_error + agent_toolset" where
  "derive_child_capabilities caps inheritance =
     (case inheritance of
        InheritAll \<Rightarrow>
          Inr \<lparr>ts_tools = filter (\<lambda>(_, capability).
                 tc_delegatable capability \<and> tp_enabled (tc_policy capability))
               (ts_tools (cap_tools caps))\<rparr>
      | Subset ids \<Rightarrow> map_sum id (\<lambda>tools. \<lparr>ts_tools = tools\<rparr>) (subset_tools caps ids [])
      | Replace toolset \<Rightarrow>
          (case List.find (\<lambda>tid. \<not> can_delegate caps tid) (map fst (ts_tools toolset)) of
             Some tid \<Rightarrow> Inl (NotDelegatable tid)
           | None \<Rightarrow>
               Inr \<lparr>ts_tools = map (\<lambda>(tid, requested).
                      (tid, narrowed_tool (the (parent_tool caps tid)) requested))
                    (ts_tools toolset)\<rparr>))"

definition derive_child_agent_capabilities ::
    "agent_capabilities \<Rightarrow> tool_inheritance \<Rightarrow> workspace_capabilities option
      \<Rightarrow> backend_capabilities option \<Rightarrow> capability_error + agent_capabilities" where
  "derive_child_agent_capabilities caps inheritance workspace_override backend_override =
     (case derive_child_capabilities caps inheritance of
        Inl e \<Rightarrow> Inl e
      | Inr tools \<Rightarrow>
          (let max_child_depth =
                 (case cap_max_child_depth caps of
                    Some d \<Rightarrow> if d = 0 then Some 0 else Some (d - 1)
                  | None \<Rightarrow> None)
           in Inr \<lparr>cap_tools = tools,
                cap_can_spawn_agents = (cap_can_spawn_agents caps \<and> max_child_depth \<noteq> Some 0),
                cap_max_child_depth = max_child_depth,
                cap_workspace = unwrap_or (cap_workspace caps) workspace_override,
                cap_backend = unwrap_or (cap_backend caps) backend_override\<rparr>))"

section \<open>Aliases: both readings of a grant agree\<close>

lemma push_missing_set: "set (push_missing x xs) = insert x (set xs)"
  by (auto simp: push_missing_def)

lemma prefix_push_missing: "prefix xs (push_missing x xs)"
  by (simp add: push_missing_def)

lemma fold_keeps_prefix:
  assumes "\<And>x ys. prefix ys (f x ys)"
  shows "prefix ys (fold f xs ys)"
proof (induction xs arbitrary: ys)
  case (Cons x xs)
  show ?case using prefix_order.trans [OF assms Cons.IH] by simp
qed simp

lemma distinct_push_missing: "distinct xs \<Longrightarrow> distinct (push_missing x xs)"
  by (simp add: push_missing_def)

lemma fold_keeps_distinct:
  assumes "\<And>x ys. distinct ys \<Longrightarrow> distinct (f x ys)" and "distinct ys"
  shows "distinct (fold f xs ys)"
  using assms(2) by (induction xs arbitrary: ys) (simp_all add: assms(1))

lemma set_fold_push_missing: "set (fold push_missing xs ys) = set xs \<union> set ys"
  by (induction xs arbitrary: ys) (auto simp: push_missing_set)

lemma set_fold_granted:
  "set (fold (\<lambda>(admitted, granting) all.
       if granting \<in> set tools then push_missing admitted all else all) ps ys)
   = set ys \<union> {a. \<exists>g. (a, g) \<in> set ps \<and> g \<in> set tools}"
  by (induction ps arbitrary: ys) (auto simp: push_missing_set split: if_splits)

lemma find_map_of: "map_option snd (List.find (\<lambda>(key, _). key = name) ps) = map_of ps name"
  by (induction ps) auto

lemma grants_distinct: "distinct (map fst (ALIASES @ GRANTED_WITH))"
  by (simp add: ALIASES_def GRANTED_WITH_def)

lemma granted_by_map_of: "granted_by t = map_of (ALIASES @ GRANTED_WITH) t"
  by (simp add: granted_by_def followed_tool_def find_map_of or_opt_def map_add_def
      disjoint_iff split: option.split)

lemma granted_by_Some_iff:
  "granted_by t = Some g \<longleftrightarrow> (t, g) \<in> set (ALIASES @ GRANTED_WITH)"
  unfolding granted_by_map_of by (rule map_of_eq_Some_iff [OF grants_distinct])

lemma followed_granted: "followed_tool t = Some g \<Longrightarrow> granted_by t = Some g"
  by (simp add: granted_by_def)

lemma with_aliases_set:
  "set (with_aliases ts) = set ts \<union> {t. \<exists>g \<in> set ts. granted_by t = Some g}
     \<union> (if ts = [] then {} else set ALWAYS_ADMITTED)"
proof (cases "ts = []")
  case True
  then show ?thesis by (simp add: with_aliases_def ALIASES_def GRANTED_WITH_def)
next
  case False
  then show ?thesis
    by (simp add: with_aliases_def Let_def set_fold_push_missing set_fold_granted
        granted_by_Some_iff del: fold_append) blast
qed

text \<open>
  Expanding a tool list with \<open>with_aliases\<close> adds exactly the tools whose grant is listed
  and, for a non-empty list, the repository tools every model gets; it keeps the list as a
  prefix, lists nothing twice that was not listed twice, and expanding twice changes nothing
  more than the order allows: no further tool appears.
\<close>

theorem with_aliases_exact:
  "set (with_aliases tools) =
     set tools \<union> {t. \<exists>g \<in> set tools. granted_by t = Some g}
       \<union> (if tools = [] then {} else set ALWAYS_ADMITTED)
   \<and> prefix tools (with_aliases tools)
   \<and> (distinct tools \<longrightarrow> distinct (with_aliases tools))
   \<and> set (with_aliases (with_aliases tools)) = set (with_aliases tools)"
proof (intro conjI impI)
  note set_eq = with_aliases_set
  show "set (with_aliases tools) = set tools \<union> {t. \<exists>g \<in> set tools. granted_by t = Some g}
       \<union> (if tools = [] then {} else set ALWAYS_ADMITTED)"
    by (rule set_eq)
  note pre = fold_keeps_prefix [of push_missing, OF prefix_push_missing]
  have pre2: "prefix ys (fold (\<lambda>(admitted, granting) all.
       if granting \<in> set tools then push_missing admitted all else all) ps ys)" for ps ys
    by (rule fold_keeps_prefix) (auto intro: prefix_push_missing)
  show "prefix tools (with_aliases tools)"
    using pre2 prefix_order.trans [OF pre2 pre]
    by (simp add: with_aliases_def Let_def del: fold_append)
  have d: "distinct ys \<Longrightarrow> distinct (fold push_missing xs ys)" for xs ys
    by (rule fold_keeps_distinct [OF distinct_push_missing])
  have d2: "distinct ys \<Longrightarrow> distinct (fold (\<lambda>(admitted, granting) all.
       if granting \<in> set tools then push_missing admitted all else all) ps ys)" for ps ys
    by (rule fold_keeps_distinct) (auto simp: distinct_push_missing)
  show "distinct (with_aliases tools)" if "distinct tools"
    unfolding with_aliases_def Let_def using d [OF d2 [OF that]] d2 [OF that]
    by (simp only: split: if_split) blast
  have empty_list: "with_aliases [] = []"
    using set_eq [of "[]"] by simp
  have "\<nexists>t. granted_by t = Some g" if "granted_by g = Some h" for g h
    using that by (auto simp: granted_by_Some_iff ALIASES_def GRANTED_WITH_def)
  moreover have "\<nexists>t. granted_by t = Some g" if "g \<in> set ALWAYS_ADMITTED" for g
    using that by (auto simp: granted_by_Some_iff ALIASES_def GRANTED_WITH_def ALWAYS_ADMITTED_def)
  ultimately show "set (with_aliases (with_aliases tools)) = set (with_aliases tools)"
    unfolding set_eq [of "with_aliases tools"]
    using \<open>prefix tools (with_aliases tools)\<close> empty_list
    by (auto simp: set_eq split: if_splits)
qed

theorem with_aliases_exact_witness:
  "distinct [''write_file''] \<and> distinct (with_aliases [''write_file''])
   \<and> ''edit_file'' \<in> set (with_aliases [''write_file''])"
  using with_aliases_exact [of "[''write_file'']"]
  by (simp add: granted_by_Some_iff ALIASES_def)

section \<open>The execution policy is a ceiling\<close>

text \<open>Strictness of a permission: the later modes let less through.\<close>

fun strictness :: "permission_mode \<Rightarrow> nat" where
  "strictness Allow = 0" | "strictness Ask = 1" | "strictness Deny = 2"

text \<open>A capability that grants no more than another one for the same tool.\<close>

definition no_wider :: "tool_capability \<Rightarrow> tool_capability \<Rightarrow> bool" where
  "no_wider child parent \<longleftrightarrow>
     tc_descriptor child = tc_descriptor parent
     \<and> strictness (tp_permission (tc_policy parent)) \<le> strictness (tp_permission (tc_policy child))
     \<and> (tp_enabled (tc_policy child) \<longrightarrow> tp_enabled (tc_policy parent))
     \<and> (tc_delegatable child \<longrightarrow> tc_delegatable parent)"

lemma no_wider_refl [simp]: "no_wider c c"
  by (simp add: no_wider_def)

lemma no_wider_trans: "no_wider a b \<Longrightarrow> no_wider b c \<Longrightarrow> no_wider a c"
  by (auto simp: no_wider_def)

definition toolset_no_wider :: "agent_toolset \<Rightarrow> agent_toolset \<Rightarrow> bool" where
  "toolset_no_wider child parent \<longleftrightarrow>
     (\<forall>(i, c) \<in> set (ts_tools child). \<exists>p. map_of (ts_tools parent) i = Some p \<and> no_wider c p)"

lemma toolset_no_wider_refl: "hm_wf (ts_tools t) \<Longrightarrow> toolset_no_wider t t"
  by (auto simp: toolset_no_wider_def map_of_eq_Some_iff intro: no_wider_refl)

lemma toolset_no_wider_trans:
  "toolset_no_wider a b \<Longrightarrow> toolset_no_wider b c \<Longrightarrow> toolset_no_wider a c"
  unfolding toolset_no_wider_def by (fast dest: map_of_SomeD intro: no_wider_trans)

text \<open>Capabilities: the toolset, the right to spawn agents and the depth that is left for them.\<close>

definition caps_no_wider :: "agent_capabilities \<Rightarrow> agent_capabilities \<Rightarrow> bool" where
  "caps_no_wider child parent \<longleftrightarrow>
     toolset_no_wider (cap_tools child) (cap_tools parent)
   \<and> (cap_can_spawn_agents child \<longrightarrow> cap_can_spawn_agents parent)
   \<and> (\<forall>d. cap_max_child_depth parent = Some d \<longrightarrow> (\<exists>e. cap_max_child_depth child = Some e \<and> e \<le> d))"

abbreviation caps_wf :: "agent_capabilities \<Rightarrow> bool" where
  "caps_wf caps \<equiv> hm_wf (ts_tools (cap_tools caps))"

lemma caps_no_wider_trans: "caps_no_wider a b \<Longrightarrow> caps_no_wider b c \<Longrightarrow> caps_no_wider a c"
  unfolding caps_no_wider_def
  by (elim conjE, intro conjI) (blast intro: toolset_no_wider_trans order.trans)+

text \<open>
  A layer of the tool policy: an operation on capabilities that only narrows. Layers compose, so
  a chain of them of any length still never widens what the first capabilities granted.
\<close>

locale narrowing =
  fixes narrow :: "agent_capabilities \<Rightarrow> agent_capabilities \<Rightarrow> bool"
  assumes narrows: "caps_wf parent \<Longrightarrow> narrow parent child \<Longrightarrow> caps_no_wider child parent \<and> caps_wf child"
begin

lemma narrow_chain:
  assumes "narrow\<^sup>*\<^sup>* parent child" and "caps_wf parent"
  shows "caps_no_wider child parent \<and> caps_wf child"
  using assms
proof (induction rule: rtranclp_induct)
  case base
  then show ?case by (simp add: caps_no_wider_def toolset_no_wider_refl)
next
  case (step y z)
  then show ?case using narrows [of y z] caps_no_wider_trans by blast
qed

end

lemma restrict_capability_no_wider: "no_wider (restrict_capability policy mcp c) c"
  by (cases "tp_permission (tc_policy c)")
     (auto simp: restrict_capability_def Let_def no_wider_def)

lemma restrict_toolset_no_wider:
  assumes "hm_wf (ts_tools ts)"
  shows "toolset_no_wider (restrict_toolset policy ts mcp) ts \<and>
         hm_wf (ts_tools (restrict_toolset policy ts mcp))"
  using assms restrict_capability_no_wider
  by (fastforce simp: toolset_no_wider_def restrict_toolset_def map_of_eq_Some_iff o_def
        case_prod_unfold)

text \<open>
  Applying an execution policy to a toolset keeps every tool's identity, never turns a
  denied or asking tool into a laxer one, leaves enabled only what the policy or an allowed
  MCP server grants, and applying it again changes nothing.
\<close>

theorem restrict_toolset_ceiling:
  assumes "hm_wf (ts_tools ts)"
  shows "toolset_no_wider (restrict_toolset policy ts mcp) ts
    \<and> restrict_toolset policy (restrict_toolset policy ts mcp) mcp = restrict_toolset policy ts mcp
    \<and> (\<forall>(i, c) \<in> set (ts_tools (restrict_toolset policy ts mcp)).
         tp_enabled (tc_policy c) \<longrightarrow>
           policy_allows_tool policy (td_name (tc_descriptor c))
           \<or> td_name (tc_descriptor c) \<in> set mcp)"
proof -
  have "restrict_capability policy mcp (restrict_capability policy mcp c)
      = restrict_capability policy mcp c" for c
    by (simp add: restrict_capability_def Let_def)
  then have "restrict_toolset policy (restrict_toolset policy ts mcp) mcp
           = restrict_toolset policy ts mcp"
    by (simp add: restrict_toolset_def case_prod_unfold o_def)
  moreover have "policy_allows_tool policy (td_name (tc_descriptor c))
      \<or> td_name (tc_descriptor c) \<in> set mcp"
    if "(i, c) \<in> set (ts_tools (restrict_toolset policy ts mcp))" "tp_enabled (tc_policy c)" for i c
    using that by (auto simp: restrict_toolset_def restrict_capability_def Let_def split: if_splits)
  ultimately show ?thesis using restrict_toolset_no_wider [OF assms] by blast
qed

theorem restrict_toolset_ceiling_witness:
  "let tool = \<lparr>tc_descriptor = \<lparr>td_id = 1, td_name = ''write_file'', td_description = [],
                td_input_schema = JNull\<rparr>,
               tc_policy = \<lparr>tp_permission = Ask, tp_enabled = True\<rparr>, tc_delegatable = True\<rparr>;
       ts = \<lparr>ts_tools = [(1, tool)]\<rparr>;
       policy = \<lparr>pol_mode = Plan, pol_enabled_tools = [''write_file''],
                 pol_allowed_mcp_servers = []\<rparr>
   in toolset_no_wider (restrict_toolset policy ts []) ts"
  unfolding Let_def by (rule restrict_toolset_ceiling [THEN conjunct1]) simp

text \<open>
  What each mode rules out whatever the application enabled: no file writing in plan
  mode, no command execution and no workflow saving outside execute mode, and no full access
  to an MCP server without network, write permission and execute mode.
\<close>

theorem execution_mode_limits:
  "(pol_mode policy = Plan \<longrightarrow> is_write_tool name \<longrightarrow> \<not> policy_allows_tool policy name)
   \<and> (pol_mode policy \<noteq> Execute \<longrightarrow> is_command_tool name \<longrightarrow> \<not> policy_allows_tool policy name)
   \<and> (pol_mode policy \<noteq> Execute \<longrightarrow> \<not> policy_allows_tool policy ''save_workflow'')
   \<and> (pol_mode policy \<noteq> Execute \<longrightarrow> mcp_server_access policy server \<noteq> Access_Full)
   \<and> (pol_mode policy \<noteq> Plan \<longrightarrow> \<not> policy_allows_tool policy ''write_plan'')
   \<and> (mcp_server_access policy server \<noteq> Access_Denied \<longrightarrow>
        server \<in> set (pol_allowed_mcp_servers policy) \<and> policy_enabled policy ''web_search'')"
  by (auto simp: policy_allows_tool_def is_write_tool_def is_command_tool_def
      is_unconditionally_allowed_def ALWAYS_ADMITTED_def allows_command_execution_def
      mcp_server_access_def)

theorem execution_mode_limits_witness:
  "let policy = \<lparr>pol_mode = Plan, pol_enabled_tools = [''write_file'', ''run_command''],
                 pol_allowed_mcp_servers = [''s'']\<rparr>
   in \<not> policy_allows_tool policy ''edit_file'' \<and> \<not> policy_allows_tool policy ''run_check''
      \<and> mcp_server_access policy ''s'' \<noteq> Access_Full"
proof -
  let ?p = "\<lparr>pol_mode = Plan, pol_enabled_tools = [''write_file'', ''run_command''],
             pol_allowed_mcp_servers = [''s'']\<rparr>"
  show ?thesis
    unfolding Let_def
    using execution_mode_limits [of ?p "''edit_file''" "''s''"]
      execution_mode_limits [of ?p "''run_check''" "''s''"]
    by (simp add: is_write_tool_def is_command_tool_def)
qed

section \<open>Children never gain capabilities\<close>

lemma subset_tools_narrow:
  assumes "subset_tools caps ids tools = Inr out" and "hm_wf tools"
    and "\<forall>(i, c) \<in> set tools. parent_tool caps i = Some c \<and> tc_delegatable c \<and> tp_enabled (tc_policy c)"
  shows "hm_wf out \<and> set (hm_keys out) = set (hm_keys tools) \<union> set ids \<and>
    (\<forall>(i, c) \<in> set out. parent_tool caps i = Some c \<and> tc_delegatable c \<and> tp_enabled (tc_policy c))"
  using assms
proof (induction ids arbitrary: tools)
  case (Cons i ids)
  from Cons.prems(1) obtain c where c: "parent_tool caps i = Some c"
    "tc_delegatable c" "tp_enabled (tc_policy c)"
    and rest: "subset_tools caps ids (AList.update i c tools) = Inr out"
    by (auto split: option.splits if_splits)
  have "\<forall>(j, d) \<in> set (AList.update i c tools).
      parent_tool caps j = Some d \<and> tc_delegatable d \<and> tp_enabled (tc_policy d)"
  proof safe
    fix j d assume "(j, d) \<in> set (AList.update i c tools)"
    then have "map_of (AList.update i c tools) j = Some d"
      using Cons.prems(2) by (simp add: map_of_eq_Some_iff)
    then have "(j, d) = (i, c) \<or> (j, d) \<in> set tools"
      by (auto simp: update_conv' split: if_splits dest: map_of_SomeD)
    then show "parent_tool caps j = Some d" "tc_delegatable d" "tp_enabled (tc_policy d)"
      using c Cons.prems(3) by auto
  qed
  from Cons.IH [OF rest _ this] Cons.prems(2) show ?case
    by (auto simp: set_hm_keys_update)
qed simp

lemma can_delegate_iff:
  "can_delegate caps i \<longleftrightarrow>
     (\<exists>c. parent_tool caps i = Some c \<and> tc_delegatable c \<and> tp_enabled (tc_policy c))"
  by (auto simp: can_delegate_def unwrap_or_def split: option.splits)

lemma narrowed_tool_no_wider: "no_wider (narrowed_tool p r) p"
  by (cases "tp_permission (tc_policy p)"; cases "tp_permission (tc_policy r)")
     (auto simp: narrowed_tool_def no_wider_def stricter_permission_def)

fun requested_wf :: "tool_inheritance \<Rightarrow> bool" where
  "requested_wf (Replace toolset) = hm_wf (ts_tools toolset)"
| "requested_wf _ = True"

lemma derive_child_narrow:
  assumes wf: "hm_wf (ts_tools (cap_tools caps))" and "requested_wf inh"
    and d: "derive_child_capabilities caps inh = Inr child"
  shows "toolset_no_wider child (cap_tools caps) \<and> hm_wf (ts_tools child)
    \<and> (\<forall>i \<in> set (hm_keys (ts_tools child)). can_delegate caps i)"
proof (cases inh)
  case InheritAll
  with d wf show ?thesis
    by (auto simp: derive_child_capabilities_def toolset_no_wider_def map_of_eq_Some_iff
        can_delegate_iff distinct_map_filter intro: no_wider_refl)
next
  case (Subset ids)
  with d obtain out where out: "subset_tools caps ids [] = Inr out" "child = \<lparr>ts_tools = out\<rparr>"
    by (cases "subset_tools caps ids []") (auto simp: derive_child_capabilities_def)
  from subset_tools_narrow [OF out(1)] out(2) show ?thesis
    by (fastforce simp: toolset_no_wider_def can_delegate_iff)
next
  case (Replace toolset)
  with d have none: "List.find (\<lambda>i. \<not> can_delegate caps i) (map fst (ts_tools toolset)) = None"
    and child: "ts_tools child = map (\<lambda>(i, r). (i, narrowed_tool (the (parent_tool caps i)) r))
                  (ts_tools toolset)"
    by (auto simp: derive_child_capabilities_def split: option.splits)
  then have del: "can_delegate caps i" if "(i, r) \<in> set (ts_tools toolset)" for i r
    using that by (force simp: find_None_iff)
  then show ?thesis
    using child assms(2) Replace
    by (auto simp: toolset_no_wider_def o_def case_prod_unfold can_delegate_iff
        intro!: narrowed_tool_no_wider) (metis narrowed_tool_no_wider option.sel)+
qed

text \<open>
  How one level's capabilities come from the one above: the session's execution policy restricts
  the toolset, or a child agent's capabilities are derived.
\<close>

definition capability_layer :: "agent_capabilities \<Rightarrow> agent_capabilities \<Rightarrow> bool" where
  "capability_layer parent child \<longleftrightarrow>
     (\<exists>policy mcp. child = parent\<lparr>cap_tools := restrict_toolset policy (cap_tools parent) mcp\<rparr>)
   \<or> (\<exists>inh ws be. requested_wf inh \<and> derive_child_agent_capabilities parent inh ws be = Inr child)"

lemma derive_agent_narrow:
  assumes "caps_wf caps" "requested_wf inh" "derive_child_agent_capabilities caps inh ws be = Inr child"
  shows "caps_no_wider child caps \<and> caps_wf child"
proof -
  obtain tools where tools: "derive_child_capabilities caps inh = Inr tools"
    using assms(3) by (auto simp: derive_child_agent_capabilities_def split: sum.splits)
  have "d - 1 \<le> d" if "d \<noteq> 0" for d :: u32
    using that by (simp add: word_le_nat_alt unat_minus_one)
  with derive_child_narrow [OF assms(1,2) tools] assms(3) tools show ?thesis
    by (auto simp: derive_child_agent_capabilities_def caps_no_wider_def Let_def split: option.splits if_splits)
qed

interpretation tool_layers: narrowing capability_layer
proof unfold_locales
  fix parent child
  assume "caps_wf parent" "capability_layer parent child"
  then show "caps_no_wider child parent \<and> caps_wf child"
    using restrict_toolset_no_wider derive_agent_narrow
    by (auto simp: capability_layer_def caps_no_wider_def)
qed

text \<open>
  C34: down any chain of derived child agents and execution-policy restrictions, whatever tools
  each level asks for, an agent's toolset holds only tools of the first agent's toolset, each at
  least as strict: no level can enable, allow or make delegatable what the first one did not
  grant. Nor can a level spawn agents when the first one may not, or deeper than it may.
\<close>

theorem no_capability_escalation:
  assumes "capability_layer\<^sup>*\<^sup>* ancestor descendant" and "caps_wf ancestor"
  shows "toolset_no_wider (cap_tools descendant) (cap_tools ancestor)
    \<and> (cap_can_spawn_agents descendant \<longrightarrow> cap_can_spawn_agents ancestor)
    \<and> (\<forall>d. cap_max_child_depth ancestor = Some d \<longrightarrow>
         (\<exists>e. cap_max_child_depth descendant = Some e \<and> e \<le> d))"
  using tool_layers.narrow_chain [OF assms] by (simp add: caps_no_wider_def)

definition asking_tool :: tool_capability where
  "asking_tool = \<lparr>tc_descriptor = \<lparr>td_id = 1, td_name = ''read_file'', td_description = [],
      td_input_schema = JNull\<rparr>,
    tc_policy = \<lparr>tp_permission = Ask, tp_enabled = True\<rparr>, tc_delegatable = True\<rparr>"

definition asking_caps :: agent_capabilities where
  "asking_caps = \<lparr>cap_tools = \<lparr>ts_tools = [(1, asking_tool)]\<rparr>, cap_can_spawn_agents = True,
     cap_max_child_depth = Some 2,
     cap_workspace = \<lparr>ws_can_read = True, ws_can_write = False, ws_can_search = True\<rparr>,
     cap_backend = undefined\<rparr>"

text \<open>A child that asks for the tool without being asked about it, and that child's own child.\<close>

theorem no_capability_escalation_witness:
  "\<exists>child grandchild.
     derive_child_agent_capabilities asking_caps (Replace \<lparr>ts_tools = [(1, asking_tool
        \<lparr>tc_policy := \<lparr>tp_permission = Allow, tp_enabled = True\<rparr>\<rparr>)]\<rparr>) None None = Inr child
   \<and> derive_child_agent_capabilities child InheritAll None None = Inr grandchild
   \<and> ts_tools (cap_tools grandchild) \<noteq> []
   \<and> toolset_no_wider (cap_tools grandchild) (cap_tools asking_caps)"
proof -
  let ?asked = "Replace \<lparr>ts_tools = [(1, asking_tool
      \<lparr>tc_policy := \<lparr>tp_permission = Allow, tp_enabled = True\<rparr>\<rparr>)]\<rparr>"
  obtain child where child: "derive_child_agent_capabilities asking_caps ?asked None None = Inr child"
    "ts_tools (cap_tools child) = [(1, asking_tool)]"
    by (simp add: derive_child_agent_capabilities_def derive_child_capabilities_def can_delegate_def
        narrowed_tool_def stricter_permission_def asking_caps_def asking_tool_def Let_def unwrap_or_def)
  obtain grandchild where grandchild: "derive_child_agent_capabilities child InheritAll None None = Inr grandchild"
    "ts_tools (cap_tools grandchild) = [(1, asking_tool)]"
    using child(2) by (simp add: derive_child_agent_capabilities_def derive_child_capabilities_def asking_tool_def Let_def)
  have layer: "capability_layer parent made" if "derive_child_agent_capabilities parent inh None None = Inr made"
    "requested_wf inh" for parent inh made
    using that unfolding capability_layer_def by blast
  have "capability_layer asking_caps child" "capability_layer child grandchild"
    by (rule layer [OF child(1)], simp) (rule layer [OF grandchild(1)], simp)
  then have "capability_layer\<^sup>*\<^sup>* asking_caps grandchild"
    by (meson rtranclp.rtrancl_refl rtranclp.rtrancl_into_rtrancl)
  from no_capability_escalation [OF this] child grandchild show ?thesis
    by (auto simp: asking_caps_def)
qed

text \<open>One agent spawns a child: it must be allowed to, and the child's capabilities derive.\<close>

definition spawned :: "agent_capabilities \<Rightarrow> agent_capabilities \<Rightarrow> bool" where
  "spawned caps child \<longleftrightarrow> cap_can_spawn_agents caps \<and>
     (\<exists>inh ws be. derive_child_agent_capabilities caps inh ws be = Inr child)"

lemma spawned_fields:
  assumes "spawned caps child"
  shows "cap_max_child_depth child =
           map_option (\<lambda>d. if d = 0 then 0 else d - 1) (cap_max_child_depth caps)"
    and "cap_can_spawn_agents child \<Longrightarrow> cap_max_child_depth child \<noteq> Some 0"
proof -
  from assms obtain inh ws be where
    "derive_child_agent_capabilities caps inh ws be = Inr child" by (auto simp: spawned_def)
  then show "cap_max_child_depth child =
           map_option (\<lambda>d. if d = 0 then 0 else d - 1) (cap_max_child_depth caps)"
    and "cap_can_spawn_agents child \<Longrightarrow> cap_max_child_depth child \<noteq> Some 0"
    by (cases "derive_child_capabilities caps inh";
        auto simp: derive_child_agent_capabilities_def Let_def split: option.splits)+
qed

lemma spawned_depth:
  assumes "spawned caps child" and "cap_max_child_depth caps = Some d"
    and "cap_can_spawn_agents child"
  shows "\<exists>e. cap_max_child_depth child = Some e \<and> 0 < unat e \<and> unat d = Suc (unat e)"
proof -
  from spawned_fields(1) [OF assms(1)] spawned_fields(2) [OF assms(1,3)] assms(2)
  have "d \<noteq> 0" "d - 1 \<noteq> 0" "cap_max_child_depth child = Some (d - 1)"
    by (auto split: if_splits)
  then show ?thesis
    using unat_minus_one [of d] unat_gt_0 [of "d - 1"] unat_gt_0 [of d]
    by (intro exI [of _ "d - 1"]) simp
qed

text \<open>
  A chain of spawned agents under a depth limit \<open>d\<close> has at most \<open>max 1 d\<close> links, so the
  agent tree below any agent with a limit is finite in depth.
\<close>

theorem spawn_chain_bounded:
  assumes "(spawned ^^ n) caps descendant" and "cap_max_child_depth caps = Some d"
  shows "n \<le> max 1 (unat d)"
  using assms
proof (induction n arbitrary: caps d)
  case (Suc n)
  from Suc.prems(1) obtain child where c: "spawned caps child" "(spawned ^^ n) child descendant"
    by (metis relpowp_Suc_D2)
  show ?case
  proof (cases n)
    case (Suc m)
    with c(2) have "cap_can_spawn_agents child"
      by (metis relpowp_Suc_D2 spawned_def)
    from spawned_depth [OF c(1) Suc.prems(2) this] obtain e
      where "cap_max_child_depth child = Some e" "0 < unat e" "unat d = Suc (unat e)" by blast
    with Suc.IH [OF c(2)] show ?thesis by fastforce
  qed simp
qed simp

theorem spawn_chain_bounded_witness:
  "let caps = \<lparr>cap_tools = \<lparr>ts_tools = []\<rparr>, cap_can_spawn_agents = True,
                cap_max_child_depth = Some 2,
                cap_workspace = \<lparr>ws_can_read = True, ws_can_write = False, ws_can_search = True\<rparr>,
                cap_backend = undefined\<rparr>
   in \<exists>child. (spawned ^^ 1) caps child \<and> (1::nat) \<le> max 1 (unat (2 :: u32))"
proof -
  let ?caps = "\<lparr>cap_tools = \<lparr>ts_tools = []\<rparr>, cap_can_spawn_agents = True,
     cap_max_child_depth = Some 2,
     cap_workspace = \<lparr>ws_can_read = True, ws_can_write = False, ws_can_search = True\<rparr>,
     cap_backend = undefined\<rparr>"
  have "(spawned ^^ 1) ?caps (?caps\<lparr>cap_max_child_depth := Some 1\<rparr>)"
    unfolding relpowp_1 spawned_def
    by (simp, intro exI [of _ InheritAll] exI [of _ None])
       (simp add: derive_child_agent_capabilities_def derive_child_capabilities_def Let_def)
  with spawn_chain_bounded [OF this] show ?thesis unfolding Let_def by auto
qed

end
