(* ===== verification/Behavior_Compiler.thy ===== *)
theory Behavior_Compiler
  imports Behavior_Definition Tool_Policy
begin

text \<open>
  The profile compiler (\<open>agent-core/src/behavior/compiler/*.rs\<close>, \<open>content_hash.rs\<close>): the
  checks that admit a profile document and the questions a compiled profile answers. A check
  returns the issues it adds, in the order the source pushes them. The theorems say what a
  compiled profile is guaranteed to be, and that a profile only narrows what a session grants.
\<close>

section \<open>Functions of other libraries\<close>

text \<open>
  What the behavior layer calls in \<open>serde_json\<close> and in the Unicode tables of the standard
  library is a parameter: printing, parsing and comparing JSON values, following a JSON
  pointer, serializing a profile, and lower-casing.
\<close>

record externals =
  ext_to_lowercase :: "string \<Rightarrow> string"
  ext_profile_to_vec :: "behavior_profile \<Rightarrow> u8 list"
  ext_json_to_string :: "json \<Rightarrow> string"
  ext_json_pointer :: "json \<Rightarrow> string \<Rightarrow> json option"
  ext_json_eq :: "json \<Rightarrow> json \<Rightarrow> bool"
  ext_json_from_str :: "string \<Rightarrow> json option"

section \<open>Content hash (content_hash.rs)\<close>

definition fnv1a_step :: "u8 \<Rightarrow> u64 \<Rightarrow> u64" where
  "fnv1a_step byte hash = (hash XOR ucast byte) * 0x100000001b3"

definition hex_digit :: "nat \<Rightarrow> char" where
  "hex_digit n = ''0123456789abcdef'' ! n"

fun hex_digits :: "nat \<Rightarrow> nat \<Rightarrow> string" where
  "hex_digits 0 n = []"
| "hex_digits (Suc k) n = hex_digits k (n div 16) @ [hex_digit (n mod 16)]"

definition content_hash :: "u8 list \<Rightarrow> string" where
  "content_hash bytes =
     (let hash = fold fnv1a_step bytes 0xcbf29ce484222325
      in ''fnv1a64:'' @ hex_digits 16 (unat hash))"

section \<open>Issues (compiler/mod.rs)\<close>

record profile_issue =
  pi_path :: string
  pi_code :: string
  pi_message :: string

abbreviation issue :: "string \<Rightarrow> string \<Rightarrow> string \<Rightarrow> profile_issue" where
  "issue path code message \<equiv> \<lparr>pi_path = path, pi_code = code, pi_message = message\<rparr>"

definition blank :: "string \<Rightarrow> bool" where
  "blank text \<longleftrightarrow> trim text = []"

definition require_text :: "string \<Rightarrow> string \<Rightarrow> string \<Rightarrow> profile_issue list" where
  "require_text path text message =
     (if blank text then [issue path ''empty_text'' message] else [])"

section \<open>Profile checks (profile_checks.rs)\<close>

definition check_identity :: "behavior_profile \<Rightarrow> profile_issue list" where
  "check_identity profile =
     (if bp_schema_version profile \<noteq> BEHAVIOR_SCHEMA_VERSION
      then [issue ''schema_version'' ''unsupported_schema_version''
              (''expected version '' @ show_word BEHAVIOR_SCHEMA_VERSION @ '', got ''
               @ show_word (bp_schema_version profile))] else [])
     @ (if blank (bp_id profile)
        then [issue ''id'' ''empty_id'' ''profile id cannot be empty''] else [])
     @ (if bp_revision profile = 0
        then [issue ''revision'' ''invalid_revision'' ''revision must be at least 1''] else [])
     @ (if blank (bp_name profile)
        then [issue ''name'' ''empty_name'' ''profile name cannot be empty''] else [])"

definition check_variant :: "externals \<Rightarrow> string \<times> string \<Rightarrow> profile_issue list" where
  "check_variant ext = (\<lambda>(family, text).
     (let path = ''instructions.variants.'' @ family
      in (if blank family \<or> family \<noteq> ext_to_lowercase ext family
          then [issue path ''invalid_variant_key''
                  ''variant keys must be non-empty lowercase model-family substrings''] else [])
         @ (if blank text
            then [issue path ''empty_variant'' ''variant text cannot be empty''] else [])))"

definition would_erase_the_prompt :: "instructions \<Rightarrow> bool" where
  "would_erase_the_prompt ins \<longleftrightarrow>
     ins_mode ins = Replace_Prompt \<and> blank (ins_text ins) \<and> ins_variants ins = []"

definition check_instructions :: "externals \<Rightarrow> behavior_profile \<Rightarrow> profile_issue list" where
  "check_instructions ext profile =
     concat (map (check_variant ext) (ins_variants (bp_instructions profile)))
     @ (if would_erase_the_prompt (bp_instructions profile)
        then [issue ''instructions.text'' ''empty_replacement''
                ''replace mode needs instruction text; it would otherwise erase the system prompt'']
        else [])"

fun check_allow_list :: "string list \<Rightarrow> string list \<Rightarrow> profile_issue list" where
  "check_allow_list seen [] = []"
| "check_allow_list seen (tool # tools) =
     (if blank tool
      then issue ''tools'' ''invalid_tool_reference'' ''tool ids cannot be empty''
             # check_allow_list seen tools
      else if tool \<in> set seen
      then issue ''tools'' ''duplicate_tool'' (''tool '' @ tool @ '' is listed twice'')
             # check_allow_list seen tools
      else check_allow_list (tool # seen) tools)"

definition check_tool_override :: "string \<times> tool_override \<Rightarrow> profile_issue list" where
  "check_tool_override = (\<lambda>(tool, override).
     (let path = ''tool_overrides.'' @ tool
      in (if blank tool
          then [issue path ''invalid_tool_reference'' ''tool ids cannot be empty''] else [])
         @ (if is_some_and blank (to_description_append override)
            then [issue path ''empty_description_append'' ''description_append cannot be empty'']
            else [])))"

definition check_tools :: "behavior_profile \<Rightarrow> profile_issue list" where
  "check_tools profile =
     (case bp_tools profile of AllowList tools \<Rightarrow> check_allow_list [] tools | _ \<Rightarrow> [])
     @ concat (map check_tool_override (bp_tool_overrides profile))"

text \<open>
  \<open>(0.0..=2.0).contains\<close> on the IEEE bits: a non-negative double is at most \<open>2.0\<close> exactly when
  its bits are at most those of \<open>2.0\<close>; of the negative ones only \<open>-0.0\<close> compares equal to \<open>0.0\<close>,
  and a NaN is in no range.
\<close>

definition temperature_in_range :: "f64 \<Rightarrow> bool" where
  "temperature_in_range t \<longleftrightarrow> t \<le> 0x4000000000000000 \<or> t = 0x8000000000000000"

definition check_execution_and_limits :: "behavior_profile \<Rightarrow> profile_issue list" where
  "check_execution_and_limits profile =
     (let execution = bp_execution profile; lims = bp_limits profile
      in (if is_some_and (\<lambda>t. \<not> temperature_in_range t) (xo_temperature execution)
          then [issue ''execution.temperature'' ''invalid_temperature''
                  ''temperature must be between 0 and 2''] else [])
         @ (if xo_max_tokens execution = Some 0
            then [issue ''execution.max_tokens'' ''invalid_max_tokens''
                    ''max_tokens must be at least 1''] else [])
         @ (if is_some_and blank (xo_model execution)
            then [issue ''execution.model'' ''empty_model'' ''model cannot be empty''] else [])
         @ (if lim_max_turns lims = Some 0
            then [issue ''limits.max_turns'' ''invalid_limit'' ''max_turns must be at least 1'']
            else [])
         @ (if is_some_and blank (lim_final_turn_prompt lims)
            then [issue ''limits.final_turn_prompt'' ''empty_final_turn_prompt''
                    ''final_turn_prompt cannot be empty''] else []))"

section \<open>Condition checks (condition_checks.rs)\<close>

definition require_tool_event :: "rule_event \<Rightarrow> string \<Rightarrow> string \<Rightarrow> profile_issue list" where
  "require_tool_event event what path =
     (if \<not> is_tool_event event
      then [issue path ''condition_not_available''
              (what @ '' needs a tool event, not '' @ event_name event)] else [])"

definition require_post_tool_event :: "rule_event \<Rightarrow> string \<Rightarrow> profile_issue list" where
  "require_post_tool_event event path =
     (if event \<notin> {PostToolUse, PostToolUseFailure}
      then [issue path ''condition_not_available''
              (''result_contains needs a post-tool event, not '' @ event_name event)] else [])"

definition require_event ::
    "rule_event \<Rightarrow> rule_event \<Rightarrow> string \<Rightarrow> string \<Rightarrow> profile_issue list" where
  "require_event event wanted needs path =
     (if event \<noteq> wanted
      then [issue path ''condition_not_available'' (needs @ '', not '' @ event_name event)]
      else [])"

definition check_names :: "name_match \<Rightarrow> string \<Rightarrow> profile_issue list" where
  "check_names names path =
     (if patterns names = [] \<or> list_ex blank (patterns names)
      then [issue path ''invalid_tool_reference'' ''tool patterns cannot be empty''] else [])"

definition check_comparison :: "comparison \<Rightarrow> string \<Rightarrow> profile_issue list" where
  "check_comparison c path =
     (if comparison_is_empty c
      then [issue path ''empty_comparison'' ''give at least one of eq, gte, lte''] else [])"

definition check_arg :: "arg_match \<Rightarrow> string \<Rightarrow> profile_issue list" where
  "check_arg arg path =
     (if am_pointer arg \<noteq> [] \<and> \<not> prefix ''/'' (am_pointer arg)
      then [issue (path @ ''.arg.pointer'') ''invalid_pointer''
              (''use JSON Pointer syntax: empty or starting with '' @ [CHR 0x27, CHR 0x2F, CHR 0x27])]
      else [])
     @ (if am_glob arg = None \<and> am_contains arg = None \<and> am_equals arg = None
        then [issue (path @ ''.arg'') ''empty_match''
                ''give at least one of glob, contains, equals''] else [])"

definition check_final_status :: "name_match \<Rightarrow> string \<Rightarrow> profile_issue list" where
  "check_final_status names path =
     (if patterns names = [] \<or> list_ex blank (patterns names)
      then [issue (path @ ''.final_status'') ''empty_match''
              ''final_status patterns cannot be empty''] else [])"

definition index_path :: "string \<Rightarrow> nat \<Rightarrow> string" where
  "index_path path index = path @ ''['' @ show_nat index @ '']''"

text \<open>The loop over the members of a combinator carries the index of the member.\<close>

fun check_condition :: "condition \<Rightarrow> rule_event \<Rightarrow> string \<Rightarrow> profile_issue list"
  and check_conditions :: "condition list \<Rightarrow> nat \<Rightarrow> rule_event \<Rightarrow> string \<Rightarrow> profile_issue list"
  where
  "check_condition (Cond_Tool names) event path =
     require_tool_event event ''tool'' path @ check_names names (path @ ''.tool'')"
| "check_condition (Cond_Arg arg) event path =
     require_tool_event event ''arg'' path @ check_arg arg path"
| "check_condition (ResultContains _) event path = require_post_tool_event event path"
| "check_condition (RepeatedCall c) event path =
     require_event event PreToolUse ''repeated_call needs PreToolUse'' path
     @ check_comparison c (path @ ''.repeated_call'')"
| "check_condition (Turn c) event path = check_comparison c (path @ ''.turn'')"
| "check_condition (ToolOffered names) event path = check_names names (path @ ''.tool_offered'')"
| "check_condition (Calls counted) event path =
     check_names (cnt_tool counted) (path @ ''.tool'') @ check_comparison (cnt_comparison counted) path"
| "check_condition (TurnsSinceCall counted) event path =
     check_names (cnt_tool counted) (path @ ''.tool'') @ check_comparison (cnt_comparison counted) path"
| "check_condition (SinceLastCall since) event path =
     check_names (slc_of since) (path @ ''.since_last_call.of'')
     @ check_names (slc_called since) (path @ ''.since_last_call.called'')
     @ check_comparison (slc_comparison since) (path @ ''.since_last_call'')"
| "check_condition (FinalStatus names) event path = check_final_status names path"
| "check_condition (Cond_All cs) event path =
     (if cs = [] then [issue path ''empty_combinator'' ''all/any need at least one condition'']
      else []) @ check_conditions cs 0 event path"
| "check_condition (Cond_Any cs) event path =
     (if cs = [] then [issue path ''empty_combinator'' ''all/any need at least one condition'']
      else []) @ check_conditions cs 0 event path"
| "check_condition (Cond_Not inner) event path = check_condition inner event (path @ ''.not'')"
| "check_condition (ProfileEnteredFrom names) event path =
     require_event event ProfileEntered ''profile_entered_from needs ProfileEntered'' path
     @ check_names names (path @ ''.profile_entered_from'')"
| "check_conditions [] index event path = []"
| "check_conditions (c # cs) index event path =
     check_condition c event (index_path path index) @ check_conditions cs (Suc index) event path"

section \<open>Gate checks (gate_checks.rs)\<close>

definition MAX_TRANSCRIPT_MESSAGES :: u32 where
  "MAX_TRANSCRIPT_MESSAGES = 200"

definition check_model_name :: "string option \<Rightarrow> string \<Rightarrow> profile_issue list" where
  "check_model_name model path =
     (if is_some_and blank model then [issue path ''empty_model'' ''model cannot be empty''] else [])"

definition check_transcript_limit :: "u32 \<Rightarrow> string \<Rightarrow> profile_issue list" where
  "check_transcript_limit n path =
     (if n > MAX_TRANSCRIPT_MESSAGES
      then [issue path ''invalid_limit'' ''transcript_messages must be at most 200''] else [])"

fun check_evaluator :: "evaluator_spec \<Rightarrow> string \<Rightarrow> profile_issue list" where
  "check_evaluator (Eval_Tool tool _ _) path =
     (if blank tool
      then [issue path ''invalid_tool_reference'' ''evaluator tool cannot be empty''] else [])"
| "check_evaluator (Eval_Model ins model transcript_messages) path =
     require_text path ins ''model evaluator instructions cannot be empty''
     @ check_model_name model path
     @ check_transcript_limit transcript_messages path"
| "check_evaluator (Eval_Agent ins tools model max_turns transcript_messages) path =
     require_text path ins ''agent evaluator instructions cannot be empty''
     @ (if list_ex blank tools
        then [issue path ''invalid_tool_reference'' ''tool ids cannot be empty''] else [])
     @ check_model_name model path
     @ (if \<not> (1 \<le> max_turns \<and> max_turns \<le> 50)
        then [issue path ''invalid_limit'' ''max_turns must be between 1 and 50''] else [])
     @ check_transcript_limit transcript_messages path"
| "check_evaluator (Eval_Command command timeout_ms) path =
     require_text path command ''command cannot be empty''
     @ (if \<not> (1 \<le> timeout_ms \<and> timeout_ms \<le> 600000)
        then [issue path ''invalid_limit'' ''timeout_ms must be between 1 and 600000''] else [])"

definition not_available_in_gate :: "string \<Rightarrow> profile_issue" where
  "not_available_in_gate path = issue path ''condition_not_available''
     ''tool, arg, result_contains and repeated_call are not available in a completion gate''"

fun check_gate_condition :: "condition \<Rightarrow> string \<Rightarrow> profile_issue list"
  and check_gate_members :: "condition list \<Rightarrow> nat \<Rightarrow> string \<Rightarrow> profile_issue list" where
  "check_gate_condition c path =
     (case c of
        Cond_Tool _ \<Rightarrow> [not_available_in_gate path]
      | Cond_Arg _ \<Rightarrow> [not_available_in_gate path]
      | ResultContains _ \<Rightarrow> [not_available_in_gate path]
      | RepeatedCall _ \<Rightarrow> [not_available_in_gate path]
      | ProfileEnteredFrom _ \<Rightarrow> [not_available_in_gate path]
      | Cond_All cs \<Rightarrow> check_gate_members cs 0 path
      | Cond_Any cs \<Rightarrow> check_gate_members cs 0 path
      | Cond_Not inner \<Rightarrow> check_gate_condition inner (path @ ''.not'')
      | _ \<Rightarrow> [])
     @ check_condition c BeforeModelRequest path"
| "check_gate_members [] index path = []"
| "check_gate_members (c # cs) index path =
     check_gate_condition c (index_path path index) @ check_gate_members cs (Suc index) path"

definition check_check_body :: "gate_check \<Rightarrow> string \<Rightarrow> profile_issue list" where
  "check_check_body check path =
     (case (gc_require check, gc_evaluator check) of
        (Some condition, None) \<Rightarrow>
          check_gate_condition condition (path @ ''.require'')
          @ (if is_none_or blank (gc_feedback check)
             then [issue (path @ ''.feedback'') ''missing_feedback''
                     ''a `require` check needs feedback to send back when it fails''] else [])
      | (None, Some evaluator) \<Rightarrow> check_evaluator evaluator (path @ ''.evaluator'')
      | _ \<Rightarrow> [issue path ''invalid_check''
                ''a check needs exactly one of `require` or `evaluator`''])"

text \<open>The two loops that collect identifiers: gate checks and rules.\<close>

fun check_checks :: "gate_check list \<Rightarrow> nat \<Rightarrow> string list \<Rightarrow> profile_issue list" where
  "check_checks [] index ids = []"
| "check_checks (check # checks) index ids =
     (let path = index_path ''completion_gate.checks'' index
      in (if blank (gc_id check)
          then [issue (path @ ''.id'') ''empty_id'' ''check id cannot be empty'']
          else if gc_id check \<in> set ids
          then [issue (path @ ''.id'') ''duplicate_check_id''
                  (''check id '' @ gc_id check @ '' is used twice'')]
          else [])
         @ check_check_body check path
         @ check_checks checks (Suc index)
             (if blank (gc_id check) then ids else gc_id check # ids))"

definition check_gate :: "completion_gate \<Rightarrow> profile_issue list" where
  "check_gate gate =
     (if gate_checks gate = []
      then [issue ''completion_gate.checks'' ''empty_gate''
              ''a completion gate needs at least one check''] else [])
     @ check_checks (gate_checks gate) 0 []"

section \<open>Rule checks (rule_checks.rs)\<close>

definition require_pre_tool_use :: "rule_event \<Rightarrow> string \<Rightarrow> string \<Rightarrow> profile_issue list" where
  "require_pre_tool_use event act path =
     (if event \<noteq> PreToolUse
      then [issue path ''action_not_available'' (act @ '' is only available on PreToolUse'')]
      else [])"

definition check_inject :: "inject \<Rightarrow> rule_event \<Rightarrow> string \<Rightarrow> profile_issue list" where
  "check_inject injected event path =
     require_text path (inj_text injected) ''inject text cannot be empty''
     @ (case inj_placement injected of
          Some placement \<Rightarrow>
            if \<not> allowed_on placement event
            then [issue path ''placement_not_available''
                    (''placement '' @ placement_name placement @ '' is not available on ''
                     @ event_name event)] else []
        | None \<Rightarrow> [])"

fun check_action :: "action \<Rightarrow> rule_event \<Rightarrow> string \<Rightarrow> profile_issue list" where
  "check_action (Inject injected) event path = check_inject injected event path"
| "check_action (Act_Deny reason) event path =
     require_text path reason ''deny reason cannot be empty''
     @ require_pre_tool_use event ''deny'' path"
| "check_action (Act_Ask r) event path = require_pre_tool_use event (action_name (Act_Ask r)) path"
| "check_action Act_Allow event path = require_pre_tool_use event (action_name Act_Allow) path"
| "check_action (StopRun reason) event path =
     require_text path reason ''stop_run reason cannot be empty''"
| "check_action (SwitchProfile profile) event path =
     (if blank (pref_id profile)
      then [issue path ''invalid_profile_reference'' ''switch target id cannot be empty'']
      else [])"
| "check_action (RewriteArgs merge) event path =
     require_pre_tool_use event ''rewrite_args'' path
     @ (if \<not> is_object merge
        then [issue path ''invalid_merge_patch''
                ''rewrite_args.merge must be a JSON object (RFC 7396 merge patch)''] else [])"
| "check_action (RewriteResult replace extra) event path =
     (if event \<notin> {PostToolUse, PostToolUseFailure}
      then [issue path ''action_not_available''
              ''rewrite_result is only available on post-tool events''] else [])
     @ (if (replace \<noteq> None) = (extra \<noteq> None)
        then [issue path ''invalid_rewrite''
                ''rewrite_result needs exactly one of replace or append''] else [])"

fun check_rules :: "rule list \<Rightarrow> nat \<Rightarrow> string list \<Rightarrow> profile_issue list" where
  "check_rules [] index ids = []"
| "check_rules (r # rules) index ids =
     (let path = index_path ''rules'' index
      in (if blank (rule_id r)
          then [issue (path @ ''.id'') ''empty_id'' ''rule id cannot be empty'']
          else if rule_id r \<in> set ids
          then [issue (path @ ''.id'') ''duplicate_rule_id''
                  (''rule id '' @ rule_id r @ '' is used twice'')]
          else [])
         @ (if rule_max_fires r = Some 0
            then [issue (path @ ''.max_fires'') ''invalid_limit'' ''max_fires must be at least 1'']
            else [])
         @ (case rule_when r of
              Some condition \<Rightarrow> check_condition condition (rule_on r) (path @ ''.when'')
            | None \<Rightarrow> [])
         @ check_action (rule_action r) (rule_on r) (path @ ''.do'')
         @ check_rules rules (Suc index) (if blank (rule_id r) then ids else rule_id r # ids))"

definition check_rules_and_children :: "behavior_profile \<Rightarrow> profile_issue list" where
  "check_rules_and_children profile =
     check_rules (bp_rules profile) 0 []
     @ (case bp_completion_gate profile of Some gate \<Rightarrow> check_gate gate | None \<Rightarrow> [])
     @ (if bp_children profile \<noteq> Inherit
        then [issue ''children.type'' ''unsupported_child_policy''
                (''child policy `'' @ child_policy_name (bp_children profile)
                 @ ''` is reserved; only `inherit` is supported'')] else [])"

section \<open>Compilation (compiler/mod.rs)\<close>

record compiled_profile =
  cp_profile :: behavior_profile
  cp_content_hash :: string

definition compile :: "externals \<Rightarrow> behavior_profile \<Rightarrow> profile_issue list + compiled_profile" where
  "compile ext profile =
     (let issues = check_identity profile @ check_instructions ext profile @ check_tools profile
            @ check_execution_and_limits profile @ check_rules_and_children profile
      in if issues \<noteq> [] then Inl issues
         else Inr \<lparr>cp_profile = profile,
                   cp_content_hash = content_hash (ext_profile_to_vec ext profile)\<rparr>)"

text \<open>\<open>default_profile\<close>: the built-in compiles, so the \<open>expect\<close> of the source never panics.\<close>

definition default_profile :: "externals \<Rightarrow> compiled_profile" where
  "default_profile ext = \<lparr>cp_profile = default_profile_definition,
     cp_content_hash = content_hash (ext_profile_to_vec ext default_profile_definition)\<rparr>"

section \<open>Questions a compiled profile answers (compiled.rs)\<close>

definition uses_commands :: "compiled_profile \<Rightarrow> bool" where
  "uses_commands p =
     is_some_and (\<lambda>gate. list_ex (\<lambda>check.
         is_some_and (\<lambda>e. case e of Eval_Command _ _ \<Rightarrow> True | _ \<Rightarrow> False) (gc_evaluator check))
       (gate_checks gate)) (bp_completion_gate (cp_profile p))"

definition switch_targets :: "compiled_profile \<Rightarrow> profile_ref list" where
  "switch_targets p =
     List.map_filter (\<lambda>r. case rule_action r of SwitchProfile target \<Rightarrow> Some target | _ \<Rightarrow> None)
       (bp_rules (cp_profile p))"

definition reference :: "compiled_profile \<Rightarrow> profile_ref" where
  "reference p = \<lparr>pref_id = bp_id (cp_profile p), pref_revision = Some (bp_revision (cp_profile p))\<rparr>"

definition system_prompt :: "externals \<Rightarrow> compiled_profile \<Rightarrow> string \<Rightarrow> string option \<Rightarrow> string" where
  "system_prompt ext p base model =
     (let ins = bp_instructions (cp_profile p);
          variant = Option.bind (map_option (ext_to_lowercase ext) model) (\<lambda>model.
            map_option snd
              (List.find (\<lambda>(family, _). str_contains model family) (ins_variants ins)));
          text = unwrap_or (ins_text ins) variant
      in case ins_mode ins of
           Replace_Prompt \<Rightarrow> text
         | Append \<Rightarrow> if text = [] then base else if base = [] then text
                    else base @ newline @ newline @ text)"

definition allows_tool :: "compiled_profile \<Rightarrow> string \<Rightarrow> bool" where
  "allows_tool p tool =
     (case bp_tools (cp_profile p) of
        Scope_None \<Rightarrow> False
      | AllowList tools \<Rightarrow>
          if tools \<noteq> [] \<and> tool \<in> set ALWAYS_ADMITTED then True
          else list_ex (\<lambda>allowed. allowed = tool \<or> granted_by tool = Some allowed) tools
      | Scope_Inherit \<Rightarrow> True)"

fun permission_level :: "permission_mode \<Rightarrow> tool_permission" where
  "permission_level Allow = TP_Allow"
| "permission_level Ask = TP_Ask"
| "permission_level Deny = TP_Deny"

fun level_permission :: "tool_permission \<Rightarrow> permission_mode" where
  "level_permission TP_Allow = Allow"
| "level_permission TP_Ask = Ask"
| "level_permission TP_Deny = Deny"

definition override_level :: "compiled_profile \<Rightarrow> string \<Rightarrow> tool_permission option" where
  "override_level p name = Option.bind (map_of (bp_tool_overrides (cp_profile p)) name) to_permission"

definition permission :: "compiled_profile \<Rightarrow> string \<Rightarrow> permission_mode \<Rightarrow> permission_mode" where
  "permission p tool session =
     (let levels = (case override_level p tool of Some l \<Rightarrow> [l] | None \<Rightarrow> [])
            @ (case Option.bind (granted_by tool) (override_level p) of
                 Some l \<Rightarrow> [l] | None \<Rightarrow> []);
          profile_level = (if levels = [] then TP_Allow else Max (set levels))
      in level_permission (max (permission_level session) profile_level))"

definition tool_description :: "compiled_profile \<Rightarrow> string \<Rightarrow> string \<Rightarrow> string" where
  "tool_description p tool description =
     (case Option.bind (map_of (bp_tool_overrides (cp_profile p)) tool) to_description_append of
        Some extra \<Rightarrow> if description = [] then extra
                      else description @ newline @ newline @ extra
      | None \<Rightarrow> description)"

fun effort_of :: "reasoning_effort_setting \<Rightarrow> reasoning_effort" where
  "effort_of Set_Minimal = Effort_Minimal"
| "effort_of Set_Low = Effort_Low"
| "effort_of Set_Medium = Effort_Medium"
| "effort_of Set_High = Effort_High"
| "effort_of Set_XHigh = Effort_XHigh"
| "effort_of Set_Max = Effort_Max"
| "effort_of Set_Ultra = Effort_Ultra"

definition execution_params_of :: "compiled_profile \<Rightarrow> execution_params \<Rightarrow> execution_params" where
  "execution_params_of p session =
     (let overlay = bp_execution (cp_profile p)
      in session\<lparr>ep_model := or_opt (xo_model overlay) (ep_model session),
                 ep_max_tokens := or_opt (xo_max_tokens overlay) (ep_max_tokens session),
                 ep_temperature := or_opt (xo_temperature overlay) (ep_temperature session),
                 ep_reasoning_effort := or_opt (map_option effort_of (xo_reasoning_effort overlay))
                                          (ep_reasoning_effort session)\<rparr>)"

section \<open>What the compiler admits\<close>

text \<open>A condition with everything nested in it.\<close>

fun subconditions :: "condition \<Rightarrow> condition list" where
  "subconditions (Cond_All cs) = Cond_All cs # concat (map subconditions cs)"
| "subconditions (Cond_Any cs) = Cond_Any cs # concat (map subconditions cs)"
| "subconditions (Cond_Not c) = Cond_Not c # subconditions c"
| "subconditions c = [c]"

definition names_given :: "name_match \<Rightarrow> bool" where
  "names_given names \<longleftrightarrow> patterns names \<noteq> [] \<and> (\<forall>p \<in> set (patterns names). \<not> blank p)"

text \<open>What one condition needs, apart from what is nested in it.\<close>

fun condition_fits :: "rule_event \<Rightarrow> condition \<Rightarrow> bool" where
  "condition_fits event (Cond_Tool names) \<longleftrightarrow> is_tool_event event \<and> names_given names"
| "condition_fits event (Cond_Arg arg) \<longleftrightarrow>
     is_tool_event event \<and> (am_pointer arg = [] \<or> hd (am_pointer arg) = CHR ''/'')
     \<and> \<not> (am_glob arg = None \<and> am_contains arg = None \<and> am_equals arg = None)"
| "condition_fits event (ResultContains _) \<longleftrightarrow> event \<in> {PostToolUse, PostToolUseFailure}"
| "condition_fits event (Turn c) \<longleftrightarrow> \<not> comparison_is_empty c"
| "condition_fits event (Calls n) \<longleftrightarrow>
     names_given (cnt_tool n) \<and> \<not> comparison_is_empty (cnt_comparison n)"
| "condition_fits event (TurnsSinceCall n) \<longleftrightarrow>
     names_given (cnt_tool n) \<and> \<not> comparison_is_empty (cnt_comparison n)"
| "condition_fits event (SinceLastCall s) \<longleftrightarrow>
     names_given (slc_of s) \<and> names_given (slc_called s) \<and> \<not> comparison_is_empty (slc_comparison s)"
| "condition_fits event (ToolOffered names) \<longleftrightarrow> names_given names"
| "condition_fits event (RepeatedCall c) \<longleftrightarrow> event = PreToolUse \<and> \<not> comparison_is_empty c"
| "condition_fits event (ProfileEnteredFrom names) \<longleftrightarrow> event = ProfileEntered \<and> names_given names"
| "condition_fits event (FinalStatus names) \<longleftrightarrow> names_given names"
| "condition_fits event (Cond_All cs) \<longleftrightarrow> cs \<noteq> []"
| "condition_fits event (Cond_Any cs) \<longleftrightarrow> cs \<noteq> []"
| "condition_fits event (Cond_Not _) \<longleftrightarrow> True"

lemmas condition_check_defs = require_tool_event_def require_post_tool_event_def require_event_def
  check_names_def check_comparison_def check_arg_def check_final_status_def names_given_def

lemma prefix_slash: "prefix [c] s \<longleftrightarrow> s \<noteq> [] \<and> hd s = c"
  by (cases s) auto

lemma check_condition_ok:
  "check_condition c event path = [] \<longleftrightarrow> (\<forall>d \<in> set (subconditions c). condition_fits event d)"
  "check_conditions cs i event path = [] \<longleftrightarrow>
     (\<forall>c \<in> set cs. \<forall>d \<in> set (subconditions c). condition_fits event d)"
  by (induction c event path and cs i event path rule: check_condition_check_conditions.induct)
     (auto simp: condition_check_defs list_ex_iff prefix_slash split: if_splits)

lemma check_gate_condition_ok:
  "check_gate_condition c path = [] \<longleftrightarrow>
     (\<forall>d \<in> set (subconditions c). condition_fits BeforeModelRequest d)"
  "check_gate_members cs i path = [] \<longleftrightarrow>
     (\<forall>c \<in> set cs. \<forall>d \<in> set (subconditions c). condition_fits BeforeModelRequest d)"
proof (induction c path and cs i path rule: check_gate_condition_check_gate_members.induct)
  case (1 c path)
  then show ?case
    by (cases c) (auto simp: check_condition_ok is_tool_event_def simp del: check_condition.simps)
qed auto

text \<open>A rule: what its event admits.\<close>

fun action_fits :: "rule_event \<Rightarrow> action \<Rightarrow> bool" where
  "action_fits event (Inject i) \<longleftrightarrow>
     \<not> blank (inj_text i) \<and> (\<forall>p. inj_placement i = Some p \<longrightarrow> allowed_on p event)"
| "action_fits event (Act_Deny reason) \<longleftrightarrow> event = PreToolUse \<and> \<not> blank reason"
| "action_fits event (Act_Ask _) \<longleftrightarrow> event = PreToolUse"
| "action_fits event Act_Allow \<longleftrightarrow> event = PreToolUse"
| "action_fits event (StopRun reason) \<longleftrightarrow> \<not> blank reason"
| "action_fits event (SwitchProfile target) \<longleftrightarrow> \<not> blank (pref_id target)"
| "action_fits event (RewriteArgs merge) \<longleftrightarrow> event = PreToolUse \<and> is_object merge"
| "action_fits event (RewriteResult replaced appended) \<longleftrightarrow>
     event \<in> {PostToolUse, PostToolUseFailure} \<and> (replaced = None) \<noteq> (appended = None)"

lemma check_action_ok: "check_action a event path = [] \<longleftrightarrow> action_fits event a"
  by (cases a)
     (auto simp: check_inject_def require_text_def require_pre_tool_use_def split: option.splits)

definition rule_fits :: "rule \<Rightarrow> bool" where
  "rule_fits r \<longleftrightarrow> \<not> blank (rule_id r) \<and> rule_max_fires r \<noteq> Some 0
     \<and> (\<forall>c. rule_when r = Some c \<longrightarrow> (\<forall>d \<in> set (subconditions c). condition_fits (rule_on r) d))
     \<and> action_fits (rule_on r) (rule_action r)"

lemma check_rules_ok:
  "check_rules rs i ids = [] \<longleftrightarrow>
     (\<forall>r \<in> set rs. rule_fits r) \<and> distinct (map rule_id rs) \<and> rule_id ` set rs \<inter> set ids = {}"
proof (induction rs i ids rule: check_rules.induct)
  case (2 r rs i ids)
  then show ?case
    by (cases "rule_when r")
       (auto simp: Let_def rule_fits_def check_action_ok check_condition_ok split: if_splits)
qed simp

definition evaluator_fits :: "evaluator_spec \<Rightarrow> bool" where
  "evaluator_fits e =
     (case e of
        Eval_Tool tool _ _ \<Rightarrow> \<not> blank tool
      | Eval_Model ins model n \<Rightarrow> \<not> blank ins \<and> \<not> is_some_and blank model \<and> n \<le> 200
      | Eval_Agent ins tools model turns n \<Rightarrow>
          \<not> blank ins \<and> (\<forall>t \<in> set tools. \<not> blank t) \<and> \<not> is_some_and blank model
          \<and> turns \<in> {1..50} \<and> n \<le> 200
      | Eval_Command command timeout \<Rightarrow> \<not> blank command \<and> timeout \<in> {1..600000})"

definition gate_check_fits :: "gate_check \<Rightarrow> bool" where
  "gate_check_fits check \<longleftrightarrow> \<not> blank (gc_id check) \<and>
     (case (gc_require check, gc_evaluator check) of
        (Some c, None) \<Rightarrow>
          (\<forall>d \<in> set (subconditions c). condition_fits BeforeModelRequest d)
          \<and> (\<exists>f. gc_feedback check = Some f \<and> \<not> blank f)
      | (None, Some e) \<Rightarrow> evaluator_fits e
      | _ \<Rightarrow> False)"

lemma check_evaluator_ok: "check_evaluator e path = [] \<longleftrightarrow> evaluator_fits e"
  by (cases e)
     (auto simp: evaluator_fits_def require_text_def check_model_name_def check_transcript_limit_def
        MAX_TRANSCRIPT_MESSAGES_def list_ex_iff not_less split: if_splits)

lemma check_checks_ok:
  "check_checks cs i ids = [] \<longleftrightarrow>
     (\<forall>c \<in> set cs. gate_check_fits c) \<and> distinct (map gc_id cs) \<and> gc_id ` set cs \<inter> set ids = {}"
proof (induction cs i ids rule: check_checks.induct)
  case (2 c cs i ids)
  have "check_check_body c path = [] \<and> \<not> blank (gc_id c) \<longleftrightarrow> gate_check_fits c" for path
    by (auto simp: check_check_body_def gate_check_fits_def check_gate_condition_ok
        check_evaluator_ok is_none_or_iff
        simp del: check_gate_condition.simps split: option.splits if_splits)
  with 2 show ?case by (auto simp: Let_def split: if_splits)
qed simp

lemma check_allow_list_ok:
  "check_allow_list seen ts = [] \<longleftrightarrow> (\<forall>t \<in> set ts. \<not> blank t) \<and> distinct ts \<and> set ts \<inter> set seen = {}"
  by (induction seen ts rule: check_allow_list.induct) (auto split: if_splits)

text \<open>The whole document, as a specification free of paths and messages.\<close>

definition profile_fits :: "externals \<Rightarrow> behavior_profile \<Rightarrow> bool" where
  "profile_fits ext p \<longleftrightarrow>
     bp_schema_version p = 1 \<and> \<not> blank (bp_id p) \<and> bp_revision p \<noteq> 0 \<and> \<not> blank (bp_name p)
     \<and> (\<forall>(family, text) \<in> set (ins_variants (bp_instructions p)).
          \<not> blank family \<and> ext_to_lowercase ext family = family \<and> \<not> blank text)
     \<and> \<not> would_erase_the_prompt (bp_instructions p)
     \<and> (\<forall>ts. bp_tools p = AllowList ts \<longrightarrow> distinct ts \<and> (\<forall>t \<in> set ts. \<not> blank t))
     \<and> (\<forall>(tool, ov) \<in> set (bp_tool_overrides p).
          \<not> blank tool \<and> \<not> is_some_and blank (to_description_append ov))
     \<and> is_none_or temperature_in_range (xo_temperature (bp_execution p))
     \<and> xo_max_tokens (bp_execution p) \<noteq> Some 0
     \<and> \<not> is_some_and blank (xo_model (bp_execution p))
     \<and> lim_max_turns (bp_limits p) \<noteq> Some 0
     \<and> \<not> is_some_and blank (lim_final_turn_prompt (bp_limits p))
     \<and> (\<forall>r \<in> set (bp_rules p). rule_fits r) \<and> distinct (map rule_id (bp_rules p))
     \<and> (\<forall>g. bp_completion_gate p = Some g \<longrightarrow>
          gate_checks g \<noteq> [] \<and> (\<forall>c \<in> set (gate_checks g). gate_check_fits c)
          \<and> distinct (map gc_id (gate_checks g)))
     \<and> bp_children p = Inherit"

lemma check_identity_ok:
  "check_identity p = [] \<longleftrightarrow> bp_schema_version p = 1 \<and> \<not> blank (bp_id p) \<and> bp_revision p \<noteq> 0
     \<and> \<not> blank (bp_name p)"
  by (auto simp: check_identity_def BEHAVIOR_SCHEMA_VERSION_def)

lemma check_instructions_ok:
  "check_instructions ext p = [] \<longleftrightarrow>
     (\<forall>(family, text) \<in> set (ins_variants (bp_instructions p)).
        \<not> blank family \<and> ext_to_lowercase ext family = family \<and> \<not> blank text)
     \<and> \<not> would_erase_the_prompt (bp_instructions p)"
  by (simp add: check_instructions_def check_variant_def Let_def case_prod_unfold) metis

lemma check_tools_ok:
  "check_tools p = [] \<longleftrightarrow>
     (\<forall>ts. bp_tools p = AllowList ts \<longrightarrow> distinct ts \<and> (\<forall>t \<in> set ts. \<not> blank t))
     \<and> (\<forall>(tool, ov) \<in> set (bp_tool_overrides p).
          \<not> blank tool \<and> \<not> is_some_and blank (to_description_append ov))"
  by (auto simp: check_tools_def check_tool_override_def check_allow_list_ok Let_def
      case_prod_unfold split: tool_scope.splits)

lemma check_execution_and_limits_ok:
  "check_execution_and_limits p = [] \<longleftrightarrow>
     is_none_or temperature_in_range (xo_temperature (bp_execution p))
     \<and> xo_max_tokens (bp_execution p) \<noteq> Some 0
     \<and> \<not> is_some_and blank (xo_model (bp_execution p))
     \<and> lim_max_turns (bp_limits p) \<noteq> Some 0
     \<and> \<not> is_some_and blank (lim_final_turn_prompt (bp_limits p))"
  by (cases "xo_temperature (bp_execution p)") (auto simp: check_execution_and_limits_def Let_def)

lemma check_rules_and_children_ok:
  "check_rules_and_children p = [] \<longleftrightarrow>
     (\<forall>r \<in> set (bp_rules p). rule_fits r) \<and> distinct (map rule_id (bp_rules p))
     \<and> (\<forall>g. bp_completion_gate p = Some g \<longrightarrow>
          gate_checks g \<noteq> [] \<and> (\<forall>c \<in> set (gate_checks g). gate_check_fits c)
          \<and> distinct (map gc_id (gate_checks g)))
     \<and> bp_children p = Inherit"
  by (auto simp: check_rules_and_children_def check_rules_ok check_gate_def check_checks_ok
      split: option.splits if_splits)

lemmas checks_ok = check_identity_ok check_instructions_ok check_tools_ok
  check_execution_and_limits_ok check_rules_and_children_ok

lemma profile_fits_issues:
  "profile_fits ext p \<longleftrightarrow> check_identity p @ check_instructions ext p @ check_tools p
     @ check_execution_and_limits p @ check_rules_and_children p = []"
  unfolding profile_fits_def append_is_Nil_conv checks_ok by blast

lemma compile_Inr_iff:
  "compile ext p = Inr c \<longleftrightarrow> profile_fits ext p \<and>
     c = \<lparr>cp_profile = p, cp_content_hash = content_hash (ext_profile_to_vec ext p)\<rparr>"
  unfolding profile_fits_issues by (auto simp: compile_def)

text \<open>
  C39: the compiler accepts a profile exactly when it fits the specification of a profile
  document: identity, instructions, tools, limits, every rule's condition and action
  available on its event, unique identifiers, a gate whose checks have exactly one body, and
  the inherit child policy. An accepted profile is compiled unchanged; a rejected one comes
  with at least one issue.
\<close>

theorem compile_iff_profile_fits:
  "case compile ext p of
     Inr c \<Rightarrow> profile_fits ext p \<and>
       c = \<lparr>cp_profile = p, cp_content_hash = content_hash (ext_profile_to_vec ext p)\<rparr>
   | Inl issues \<Rightarrow> \<not> profile_fits ext p \<and> issues \<noteq> []"
  unfolding profile_fits_issues by (simp add: compile_def)

lemma default_profile_fits: "profile_fits ext default_profile_definition"
  by (simp add: profile_fits_def default_profile_definition_def BEHAVIOR_SCHEMA_VERSION_def
      DEFAULT_PROFILE_ID_def would_erase_the_prompt_def blank_def trim_def trim_matches_def
      trim_chars_def trim_start_chars_def is_continuation_def is_whitespace_def code_bytes_def)

section \<open>A profile only narrows\<close>

text \<open>
  The scope check of a compiled profile and the list an agent step is granted agree: an
  allow list admits a tool exactly when expanding the list with aliases contains it.
\<close>

theorem allows_tool_matches_with_aliases:
  "bp_tools (cp_profile p) = AllowList tools \<Longrightarrow>
     allows_tool p tool \<longleftrightarrow> tool \<in> set (with_aliases tools)"
  using with_aliases_set [of tools] by (auto simp: allows_tool_def list_ex_iff)

theorem allows_tool_matches_with_aliases_witness:
  "allows_tool \<lparr>cp_profile = default_profile_definition\<lparr>bp_tools := AllowList [''write_file'']\<rparr>,
     cp_content_hash = []\<rparr> ''edit_file'' \<longleftrightarrow> ''edit_file'' \<in> set (with_aliases [''write_file''])"
  by (rule allows_tool_matches_with_aliases) simp

lemma level_permission_inverse [simp]: "permission_level (level_permission l) = l"
  by (cases l) simp_all

lemma permission_level_mono:
  "permission_level a \<le> permission_level b \<longleftrightarrow> strictness a \<le> strictness b"
  by (cases a; cases b) (simp_all add: less_eq_tool_permission_def)

lemma TP_Allow_least [simp]: "TP_Allow \<le> l"
  by (simp add: less_eq_tool_permission_def)

lemma max_TP_Allow [simp]: "max l TP_Allow = l" "max TP_Allow l = l"
  by (simp_all add: max_def order_antisym)

lemma permission_level_permission:
  "permission_level (permission p tool session) =
     max (permission_level session)
       (max (unwrap_or TP_Allow (override_level p tool))
            (unwrap_or TP_Allow (Option.bind (granted_by tool) (override_level p))))"
  by (auto simp: permission_def Let_def max.assoc split: option.split)

lemma max3_attained:
  "max s (max a b) = s \<or> a \<noteq> TP_Allow \<and> max s (max a b) = a \<or> b \<noteq> TP_Allow \<and> max s (max a b) = b"
  by (cases a; cases b; cases s) (simp_all add: max_def less_eq_tool_permission_def)

text \<open>
  The effective permission of a tool is never laxer than the session's, nor than the
  override on the tool itself, nor than the override on the tool whose grant covers it; and it
  is the laxest mode with these three bounds, so a profile adds no restriction of its own.
\<close>

theorem permission_is_strictest:
  "strictness session \<le> strictness (permission p tool session)
   \<and> (\<forall>l. override_level p tool = Some l \<longrightarrow> l \<le> permission_level (permission p tool session))
   \<and> (\<forall>g l. granted_by tool = Some g \<and> override_level p g = Some l \<longrightarrow>
        l \<le> permission_level (permission p tool session))
   \<and> (permission p tool session = session
      \<or> (\<exists>l. level_permission l = permission p tool session
            \<and> (override_level p tool = Some l
               \<or> (\<exists>g. granted_by tool = Some g \<and> override_level p g = Some l))))"
proof -
  let ?e = "permission p tool session"
  let ?own = "unwrap_or TP_Allow (override_level p tool)"
  let ?grant = "unwrap_or TP_Allow (Option.bind (granted_by tool) (override_level p))"
  note eq = permission_level_permission [of p tool session]
  have level_inv: "level_permission (permission_level m) = m" for m by (cases m) simp_all
  have "permission_level ?e = permission_level session \<or> ?own \<noteq> TP_Allow \<and> permission_level ?e = ?own
      \<or> ?grant \<noteq> TP_Allow \<and> permission_level ?e = ?grant"
    unfolding eq by (rule max3_attained)
  then have "?e = session \<or> ?own \<noteq> TP_Allow \<and> level_permission ?own = ?e
      \<or> ?grant \<noteq> TP_Allow \<and> level_permission ?grant = ?e"
    using level_inv [of ?e] level_inv [of session] by auto
  moreover have "?own \<noteq> TP_Allow \<Longrightarrow> override_level p tool = Some ?own"
    by (cases "override_level p tool") simp_all
  moreover have "?grant \<noteq> TP_Allow \<Longrightarrow> \<exists>g. granted_by tool = Some g \<and> override_level p g = Some ?grant"
    by (cases "Option.bind (granted_by tool) (override_level p)")
       (auto simp: Option.bind_eq_Some_conv)
  moreover have "strictness session \<le> strictness ?e" "?own \<le> permission_level ?e"
      "?grant \<le> permission_level ?e"
    unfolding permission_level_mono [symmetric] using eq by (simp_all add: max.coboundedI2)
  ultimately show ?thesis
    by (intro conjI allI impI; (elim conjE)?)
       (auto simp: Option.bind_eq_Some_conv)
qed

theorem permission_is_strictest_witness:
  "let p = \<lparr>cp_profile = default_profile_definition\<lparr>bp_tool_overrides :=
        [(''write_file'', \<lparr>to_permission = Some TP_Deny, to_description_append = None\<rparr>)]\<rparr>,
      cp_content_hash = []\<rparr>
   in TP_Deny \<le> permission_level (permission p ''edit_file'' Allow)"
proof -
  let ?p = "\<lparr>cp_profile = default_profile_definition\<lparr>bp_tool_overrides :=
        [(''write_file'', \<lparr>to_permission = Some TP_Deny, to_description_append = None\<rparr>)]\<rparr>,
      cp_content_hash = []\<rparr>"
  have "granted_by ''edit_file'' = Some ''write_file''"
    by (simp add: granted_by_Some_iff ALIASES_def)
  moreover have "override_level ?p ''write_file'' = Some TP_Deny" by (simp add: override_level_def)
  ultimately show ?thesis
    using permission_is_strictest [of Allow ?p "''edit_file''"] by (simp add: Let_def)
qed

text \<open>
  The built-in profile compiles, so building it never panics, and running under it is
  indistinguishable from running without the behavior layer: prompt, tools, permissions,
  descriptions and execution parameters are the session's, it names no switch target, runs no
  command and sets no limit.
\<close>

theorem default_profile_neutral:
  "compile ext default_profile_definition = Inr (default_profile ext)
   \<and> system_prompt ext (default_profile ext) base model = base
   \<and> allows_tool (default_profile ext) tool
   \<and> permission (default_profile ext) tool session = session
   \<and> tool_description (default_profile ext) tool description = description
   \<and> execution_params_of (default_profile ext) params = params
   \<and> switch_targets (default_profile ext) = [] \<and> \<not> uses_commands (default_profile ext)
   \<and> bp_completion_gate (cp_profile (default_profile ext)) = None
   \<and> lim_max_turns (bp_limits (cp_profile (default_profile ext))) = None"
proof -
  have compiles: "compile ext default_profile_definition = Inr (default_profile ext)"
    by (simp add: compile_Inr_iff default_profile_fits default_profile_def)
  have no_override: "override_level (default_profile ext) = (\<lambda>_. None)"
    by (simp add: fun_eq_iff override_level_def default_profile_def default_profile_definition_def)
  have inv: "level_permission (permission_level m) = m" for m
    by (cases m) simp_all
  have none: "Option.bind x (\<lambda>_. None) = None" for x :: "string option"
    by (cases x) simp_all
  have "permission_level (permission (default_profile ext) tool session) = permission_level session"
    by (simp add: permission_level_permission no_override none)
  then have perm: "permission (default_profile ext) tool session = session"
    using inv by metis
  show ?thesis
    by (intro conjI compiles perm)
       (simp_all add: default_profile_def default_profile_definition_def system_prompt_def none
          allows_tool_def tool_description_def execution_params_of_def switch_targets_def
          uses_commands_def map_filter_simps Let_def)
qed

section \<open>The content hash\<close>

lemma hex_digit_inject:
  assumes "m < 16" "n < 16" "hex_digit m = hex_digit n"
  shows "m = n"
proof -
  have d: "distinct ''0123456789abcdef''" by simp
  show ?thesis
    using assms nth_eq_iff_index_eq [OF d, of m n] by (simp add: hex_digit_def)
qed

lemma hex_digits_length: "length (hex_digits k n) = k"
  by (induction k n rule: hex_digits.induct) simp_all

lemma hex_digits_inject:
  assumes "m < 16 ^ k" "n < 16 ^ k" "hex_digits k m = hex_digits k n"
  shows "m = n"
  using assms
proof (induction k arbitrary: m n)
  case (Suc k)
  then have "m div 16 = n div 16" "m mod 16 = n mod 16"
    by (auto intro!: Suc.IH hex_digit_inject simp: div_less_iff_less_mult mult.commute)
  then show ?case by (metis mult_div_mod_eq)
qed simp

lemma fnv_prime_cancel: "a * 0x100000001b3 = b * (0x100000001b3 :: u64) \<longleftrightarrow> a = b"
proof
  assume "a * 0x100000001b3 = b * (0x100000001b3 :: u64)"
  then have "a * (0x100000001b3 * 0xce965057aff6957b) = b * (0x100000001b3 * 0xce965057aff6957b :: u64)"
    by (simp only: mult.assoc [symmetric])
  moreover have "0x100000001b3 * 0xce965057aff6957b = (1 :: u64)"
    by (simp add: word_unat_eq_iff unat_numeral take_bit_eq_mod)
  ultimately show "a = b" by (simp only: mult_1_right)
qed simp

lemma xor_cancel_right: "a XOR c = b XOR (c :: 'a::len word) \<longleftrightarrow> a = b"
  by (metis xor.right_neutral word_bw_assocs(3) word_bw_same(3))

lemma xor_cancel_left: "c XOR a = c XOR (b :: 'a::len word) \<longleftrightarrow> a = b"
  by (metis xor_cancel_right xor.commute)

lemma fnv1a_step_inject: "fnv1a_step x h = fnv1a_step x h' \<longleftrightarrow> h = h'"
  by (simp add: fnv1a_step_def fnv_prime_cancel xor_cancel_right)

lemma fold_fnv1a_inject: "fold fnv1a_step xs h = fold fnv1a_step xs h' \<longleftrightarrow> h = h'"
  by (induction xs arbitrary: h h') (simp_all add: fnv1a_step_inject)

lemma content_hash_byte:
  "content_hash (front @ x # rest) = content_hash (front @ y # rest) \<longleftrightarrow> x = y"
proof -
  have inj: "hex_digits 16 (unat a) = hex_digits 16 (unat b) \<longleftrightarrow> a = b" for a b :: u64
    using hex_digits_inject [of "unat a" 16 "unat b"] unat_bound [of a] unat_bound [of b]
    by (auto simp: word_unat_eq_iff)
  have "(ucast x :: u64) = ucast y \<longleftrightarrow> x = y"
  proof
    assume "(ucast x :: u64) = ucast y"
    then have same: "bit (ucast x :: u64) n \<longleftrightarrow> bit (ucast y :: u64) n" for n by simp
    have "bit x n \<longleftrightarrow> bit y n" if "n < 8" for n
      using same [of n] that by (simp add: bit_simps)
    then show "x = y" by (intro bit_word_eqI) simp
  qed simp
  moreover have "fnv1a_step x h = fnv1a_step y h \<longleftrightarrow> (ucast x :: u64) = ucast y" for h
    by (simp add: fnv1a_step_def fnv_prime_cancel xor_cancel_left)
  ultimately show ?thesis
    by (simp add: content_hash_def Let_def hex_digits_length inj fold_fnv1a_inject)
qed

text \<open>
  A content hash always has the same length, and changing one byte of a document always
  changes its hash, wherever the byte is: the multiplication by the FNV prime is invertible
  modulo the word size.
\<close>

theorem content_hash_detects_byte_change:
  "length (content_hash bytes) = 24
   \<and> (content_hash (front @ x # rest) = content_hash (front @ y # rest) \<longleftrightarrow> x = y)"
  by (simp add: content_hash_byte) (simp add: content_hash_def Let_def hex_digits_length)

end
