(* ===== verification/Behavior_Registry.thy ===== *)
theory Behavior_Registry
  imports Behavior_Compiler
begin

text \<open>
  The registry of compiled, versioned profiles (\<open>agent-core/src/behavior/registry/*.rs\<close>):
  registration with precedence of sources and immutability of published revisions,
  resolution of references, and the closure of profiles reachable by switching.
\<close>

section \<open>State (registry/mod.rs)\<close>

datatype profile_source = BuiltIn | Workspace | Host

fun source_rank :: "profile_source \<Rightarrow> nat" where
  "source_rank BuiltIn = 0"
| "source_rank Workspace = 1"
| "source_rank Host = 2"

lemma source_rank_inject: "source_rank a = source_rank b \<Longrightarrow> a = b"
  by (cases a; cases b) simp_all

instantiation profile_source :: linorder
begin

definition less_eq_profile_source :: "profile_source \<Rightarrow> profile_source \<Rightarrow> bool" where
  "a \<le> b \<longleftrightarrow> source_rank a \<le> source_rank b"

definition less_profile_source :: "profile_source \<Rightarrow> profile_source \<Rightarrow> bool" where
  "a < b \<longleftrightarrow> source_rank a < source_rank b"

instance
  by standard (auto simp: less_eq_profile_source_def less_profile_source_def source_rank_inject)

end

datatype profile_registry_error =
    Invalid "profile_issue list"
  | ImmutableRevision profile_ref
  | Reserved profile_id
  | NotFound profile_ref
  | DraftNotExecutable profile_ref

record registry_entry =
  en_compiled :: compiled_profile
  en_source :: profile_source

record profile_registry =
  reg_entries :: "(profile_id \<times> u64, registry_entry) btree_map"
  reg_default :: "profile_ref option"
  reg_allow_drafts :: bool

abbreviation profile_key :: "compiled_profile \<Rightarrow> profile_id \<times> u64" where
  "profile_key c \<equiv> (bp_id (cp_profile c), bp_revision (cp_profile c))"

definition registry_new :: "externals \<Rightarrow> profile_registry" where
  "registry_new ext =
     (let builtin = default_profile ext
      in \<lparr>reg_entries = [(profile_key builtin, \<lparr>en_compiled = builtin, en_source = BuiltIn\<rparr>)],
          reg_default = None, reg_allow_drafts = False\<rparr>)"

definition allow_drafts :: "profile_registry \<Rightarrow> bool \<Rightarrow> profile_registry" where
  "allow_drafts reg allow = reg\<lparr>reg_allow_drafts := allow\<rparr>"

definition set_default :: "profile_registry \<Rightarrow> profile_ref option \<Rightarrow> profile_registry" where
  "set_default reg r = reg\<lparr>reg_default := r\<rparr>"

section \<open>Registration\<close>

definition register ::
    "externals \<Rightarrow> profile_registry \<Rightarrow> behavior_profile \<Rightarrow> profile_source
      \<Rightarrow> profile_registry_error + (compiled_profile \<times> profile_registry)" where
  "register ext reg profile source =
     (if source \<noteq> BuiltIn \<and> prefix RESERVED_PROFILE_PREFIX (bp_id profile)
      then Inl (Reserved (bp_id profile))
      else case compile ext profile of
        Inl issues \<Rightarrow> Inl (Invalid issues)
      | Inr compiled \<Rightarrow>
          (let key = profile_key compiled;
               inserted = Inr (compiled, reg\<lparr>reg_entries :=
                 btree_insert key \<lparr>en_compiled = compiled, en_source = source\<rparr> (reg_entries reg)\<rparr>)
           in case map_of (reg_entries reg) key of
                Some existing \<Rightarrow>
                  if en_source existing > source then Inr (en_compiled existing, reg)
                  else if en_source existing = source
                      \<and> bp_status (cp_profile (en_compiled existing)) \<noteq> Draft
                      \<and> cp_content_hash (en_compiled existing) \<noteq> cp_content_hash compiled
                  then Inl (ImmutableRevision (reference (en_compiled existing)))
                  else inserted
              | None \<Rightarrow> inserted))"

fun register_library ::
    "externals \<Rightarrow> profile_registry \<Rightarrow> behavior_profile list \<Rightarrow> profile_registry_error + profile_registry"
  where
  "register_library ext reg [] = Inr reg"
| "register_library ext reg (profile # profiles) =
     (if prefix RESERVED_PROFILE_PREFIX (bp_id profile) then register_library ext reg profiles
      else case register ext reg profile Host of
        Inl e \<Rightarrow> Inl e
      | Inr (_, reg') \<Rightarrow> register_library ext reg' profiles)"

definition from_library ::
    "externals \<Rightarrow> behavior_profile list \<Rightarrow> profile_registry_error + profile_registry" where
  "from_library ext profiles =
     register_library ext (allow_drafts (registry_new ext) True) profiles"

section \<open>Lookup (registry/lookup.rs)\<close>

definition counts_as_latest :: "profile_registry \<Rightarrow> registry_entry \<Rightarrow> bool" where
  "counts_as_latest reg e =
     (case bp_status (cp_profile (en_compiled e)) of
        Published \<Rightarrow> True
      | Draft \<Rightarrow> reg_allow_drafts reg
      | Deprecated \<Rightarrow> False)"

text \<open>The range \<open>(id, 0)..=(id, u64::MAX)\<close> is the entries of that identifier, in revision order.\<close>

definition find_entry :: "profile_registry \<Rightarrow> profile_ref \<Rightarrow> registry_entry option" where
  "find_entry reg r =
     (case pref_revision r of
        Some revision \<Rightarrow> map_of (reg_entries reg) (pref_id r, revision)
      | None \<Rightarrow> List.find (counts_as_latest reg)
          (rev (map snd (filter (\<lambda>((i, _), _). i = pref_id r) (reg_entries reg)))))"

definition resolve ::
    "profile_registry \<Rightarrow> profile_ref \<Rightarrow> profile_registry_error + compiled_profile" where
  "resolve reg r =
     (case find_entry reg r of
        None \<Rightarrow> Inl (NotFound r)
      | Some e \<Rightarrow>
          if bp_status (cp_profile (en_compiled e)) = Draft \<and> \<not> reg_allow_drafts reg
          then Inl (DraftNotExecutable (reference (en_compiled e)))
          else Inr (en_compiled e))"

definition resolve_for_agent ::
    "externals \<Rightarrow> profile_registry \<Rightarrow> profile_ref option
      \<Rightarrow> profile_registry_error + compiled_profile" where
  "resolve_for_agent ext reg explicit =
     (case or_opt explicit (reg_default reg) of
        Some r \<Rightarrow> resolve reg r
      | None \<Rightarrow> Inr (default_profile ext))"

text \<open>The inner loop of \<open>resolve_closure\<close>: the targets not seen yet, in order.\<close>

fun push_targets ::
    "profile_registry \<Rightarrow> profile_ref list \<Rightarrow> compiled_profile list \<Rightarrow> profile_ref list
      \<Rightarrow> profile_registry_error + (compiled_profile list \<times> profile_ref list)" where
  "push_targets reg [] resolved seen = Inr (resolved, seen)"
| "push_targets reg (target # targets) resolved seen =
     (case resolve reg target of
        Inl e \<Rightarrow> Inl e
      | Inr compiled \<Rightarrow>
          if reference compiled \<in> set seen then push_targets reg targets resolved seen
          else push_targets reg targets (resolved @ [compiled]) (reference compiled # seen))"

definition registered_refs :: "profile_registry \<Rightarrow> profile_ref set" where
  "registered_refs reg = (\<lambda>(_, e). reference (en_compiled e)) ` set (reg_entries reg)"

lemma find_entry_mem: "find_entry reg r = Some e \<Longrightarrow> \<exists>k. (k, e) \<in> set (reg_entries reg)"
  by (fastforce simp: find_entry_def split: option.splits dest: map_of_SomeD find_Some_mem)

lemma resolve_registered: "resolve reg r = Inr c \<Longrightarrow> reference c \<in> registered_refs reg"
  by (fastforce simp: resolve_def registered_refs_def split: option.splits if_splits
      dest: find_entry_mem)

lemma push_targets_mono:
  assumes "push_targets reg targets resolved seen = Inr (resolved', seen')"
  shows "\<exists>new. resolved' = resolved @ new \<and> set seen' = set seen \<union> reference ` set new
    \<and> distinct (map reference new) \<and> reference ` set new \<inter> set seen = {}
    \<and> reference ` set new \<subseteq> registered_refs reg"
  using assms
proof (induction reg targets resolved seen rule: push_targets.induct)
  case (2 reg target targets resolved seen)
  then show ?case
    by (fastforce split: sum.splits if_splits dest: resolve_registered)
qed simp

text \<open>
  The outer loop: \<open>resolved\<close> grows while \<open>index\<close> runs over it. It ends because every profile
  that is appended has a reference of the registry that was not seen before.
\<close>

function closure_loop ::
    "profile_registry \<Rightarrow> nat \<Rightarrow> compiled_profile list \<Rightarrow> profile_ref list
      \<Rightarrow> profile_registry_error + compiled_profile list" where
  "closure_loop reg index resolved seen =
     (if index < length resolved
      then case push_targets reg (switch_targets (resolved ! index)) resolved seen of
             Inl e \<Rightarrow> Inl e
           | Inr (resolved', seen') \<Rightarrow> closure_loop reg (Suc index) resolved' seen'
      else Inr resolved)"
  by pat_completeness auto

termination
proof (relation "measures [\<lambda>(reg, index, resolved, seen). card (registered_refs reg - set seen),
    \<lambda>(reg, index, resolved, seen). length resolved - index]", goal_cases)
  case (2 reg index resolved seen pair resolved' seen')
  then obtain new where new: "resolved' = resolved @ new" "set seen' = set seen \<union> reference ` set new"
    "reference ` set new \<inter> set seen = {}" "reference ` set new \<subseteq> registered_refs reg"
    using push_targets_mono by (metis (no_types, lifting))
  show ?case
  proof (cases "new = []")
    case True
    with new 2(1) show ?thesis by simp
  next
    case False
    have "registered_refs reg - set seen' \<subset> registered_refs reg - set seen"
      using False new by (cases new) auto
    then have "card (registered_refs reg - set seen') < card (registered_refs reg - set seen)"
      by (intro psubset_card_mono) (simp_all add: registered_refs_def)
    then show ?thesis by simp
  qed
qed simp

declare closure_loop.simps [simp del]

definition resolve_closure ::
    "profile_registry \<Rightarrow> compiled_profile \<Rightarrow> profile_registry_error + compiled_profile list" where
  "resolve_closure reg root = closure_loop reg 0 [root] [reference root]"

definition source_of :: "profile_registry \<Rightarrow> profile_ref \<Rightarrow> profile_source option" where
  "source_of reg r =
     (case resolve reg r of
        Inl _ \<Rightarrow> None
      | Inr compiled \<Rightarrow> map_option en_source (map_of (reg_entries reg) (profile_key compiled)))"

definition documents :: "profile_registry \<Rightarrow> behavior_profile list" where
  "documents reg =
     map (\<lambda>(_, e). cp_profile (en_compiled e))
       (filter (\<lambda>(_, e). en_source e \<noteq> BuiltIn) (reg_entries reg))"

definition profiles :: "profile_registry \<Rightarrow> (compiled_profile \<times> profile_source) list" where
  "profiles reg = map (\<lambda>(_, e). (en_compiled e, en_source e)) (reg_entries reg)"

section \<open>Well-formed registries\<close>

definition entry_wf :: "externals \<Rightarrow> profile_id \<times> u64 \<Rightarrow> registry_entry \<Rightarrow> bool" where
  "entry_wf ext k e \<longleftrightarrow>
     profile_key (en_compiled e) = k
     \<and> compile ext (cp_profile (en_compiled e)) = Inr (en_compiled e)
     \<and> (en_source e \<noteq> BuiltIn \<longrightarrow> \<not> prefix RESERVED_PROFILE_PREFIX (fst k))"

definition builtin_entry :: "externals \<Rightarrow> registry_entry" where
  "builtin_entry ext = \<lparr>en_compiled = default_profile ext, en_source = BuiltIn\<rparr>"

definition registry_wf :: "externals \<Rightarrow> profile_registry \<Rightarrow> bool" where
  "registry_wf ext reg \<longleftrightarrow>
     btree_wf (reg_entries reg)
     \<and> (\<forall>k e. map_of (reg_entries reg) k = Some e \<longrightarrow> entry_wf ext k e)
     \<and> map_of (reg_entries reg) (DEFAULT_PROFILE_ID, 1) = Some (builtin_entry ext)"

lemma default_profile_key [simp]:
  "bp_id (cp_profile (default_profile ext)) = DEFAULT_PROFILE_ID"
  "bp_revision (cp_profile (default_profile ext)) = 1"
  by (simp_all add: default_profile_def default_profile_definition_def)

lemma compile_default: "compile ext (cp_profile (default_profile ext)) = Inr (default_profile ext)"
  by (simp add: compile_Inr_iff default_profile_fits default_profile_def)

lemma registry_wf_new: "registry_wf ext (registry_new ext)"
  by (auto simp: registry_wf_def registry_new_def Let_def entry_wf_def builtin_entry_def
      compile_default)

lemma registry_wf_settings [simp]:
  "registry_wf ext (allow_drafts reg b) = registry_wf ext reg"
  "registry_wf ext (set_default reg r) = registry_wf ext reg"
  by (simp_all add: registry_wf_def allow_drafts_def set_default_def)

text \<open>The two ways a registration succeeds.\<close>

lemma register_cases:
  assumes "register ext reg p src = Inr (c, reg')"
  obtains (kept) e where "map_of (reg_entries reg) (bp_id p, bp_revision p) = Some e"
      "src < en_source e" "reg' = reg" "c = en_compiled e"
  | (inserted) "compile ext p = Inr c" "cp_profile c = p"
      "src \<noteq> BuiltIn \<Longrightarrow> \<not> prefix RESERVED_PROFILE_PREFIX (bp_id p)"
      "reg' = reg\<lparr>reg_entries := btree_insert (bp_id p, bp_revision p)
         \<lparr>en_compiled = c, en_source = src\<rparr> (reg_entries reg)\<rparr>"
      "\<And>e. map_of (reg_entries reg) (bp_id p, bp_revision p) = Some e \<Longrightarrow>
         en_source e \<le> src \<and> (en_source e = src \<longrightarrow> bp_status (cp_profile (en_compiled e)) \<noteq> Draft \<longrightarrow>
           cp_content_hash (en_compiled e) = cp_content_hash c)"
proof (cases "compile ext p")
  case (Inr compiled)
  then have "cp_profile compiled = p" by (simp add: compile_Inr_iff)
  with Inr assms show thesis
    by (auto simp: register_def Let_def not_less split: if_splits option.splits
        intro: kept inserted)
qed (use assms in \<open>auto simp: register_def split: if_splits\<close>)

lemma registry_wf_register:
  assumes "registry_wf ext reg" and "register ext reg p src = Inr (c, reg')" and "src \<noteq> BuiltIn"
  shows "registry_wf ext reg'"
  using assms(2)
proof (cases rule: register_cases)
  case inserted
  have "(bp_id p, bp_revision p) \<noteq> (DEFAULT_PROFILE_ID, 1)"
    using inserted(3) assms(3) by (auto simp: DEFAULT_PROFILE_ID_def RESERVED_PROFILE_PREFIX_def)
  moreover have "entry_wf ext (bp_id p, bp_revision p) \<lparr>en_compiled = c, en_source = src\<rparr>"
    using inserted(1-3) assms(3) by (simp add: entry_wf_def)
  ultimately show ?thesis
    using assms(1) by (auto simp: inserted(4) registry_wf_def btree_wf_insert)
qed (use assms in simp)

lemma registry_wf_library:
  "registry_wf ext reg \<Longrightarrow> register_library ext reg ps = Inr reg' \<Longrightarrow> registry_wf ext reg'"
  by (induction ext reg ps rule: register_library.induct)
     (auto split: if_splits sum.splits dest: registry_wf_register)

lemma registry_wf_from_library: "from_library ext ps = Inr reg \<Longrightarrow> registry_wf ext reg"
  unfolding from_library_def
  by (erule registry_wf_library [rotated]) (simp add: registry_wf_new)

section \<open>Published revisions are immutable\<close>

text \<open>
  A store of revisions: putting a document changes at most the entry of its key, and an entry
  is only ever replaced by one that may succeed it. Histories of any length, failed attempts
  included, then keep the succession.
\<close>

locale revision_store =
  fixes inv :: "'s \<Rightarrow> bool"
    and lookup :: "'s \<Rightarrow> 'k \<Rightarrow> 'e option"
    and admitted :: "'d \<Rightarrow> bool"
    and put :: "'s \<Rightarrow> 'd \<Rightarrow> 'err + 's"
    and key :: "'d \<Rightarrow> 'k"
    and succeeds :: "'e \<Rightarrow> 'e \<Rightarrow> bool"
  assumes put_inv: "inv s \<Longrightarrow> admitted d \<Longrightarrow> put s d = Inr t \<Longrightarrow> inv t"
    and put_other: "inv s \<Longrightarrow> admitted d \<Longrightarrow> put s d = Inr t \<Longrightarrow> k \<noteq> key d \<Longrightarrow> lookup t k = lookup s k"
    and put_own: "inv s \<Longrightarrow> admitted d \<Longrightarrow> put s d = Inr t \<Longrightarrow> lookup s (key d) = Some e \<Longrightarrow>
        \<exists>e'. lookup t (key d) = Some e' \<and> succeeds e e'"
    and succeeds_refl: "succeeds e e"
    and succeeds_trans: "succeeds a b \<Longrightarrow> succeeds b c \<Longrightarrow> succeeds a c"
begin

abbreviation attempt :: "'s \<Rightarrow> 'd \<Rightarrow> 's" where
  "attempt s d \<equiv> (case put s d of Inl _ \<Rightarrow> s | Inr t \<Rightarrow> t)"

lemma history:
  assumes "inv s" and "\<forall>d \<in> set ds. admitted d" and "lookup s k = Some e"
  shows "\<exists>e'. lookup (foldl attempt s ds) k = Some e' \<and> succeeds e e'"
  using assms
proof (induction ds arbitrary: s e)
  case (Cons d ds)
  have "\<exists>e'. lookup (attempt s d) k = Some e' \<and> succeeds e e'"
    using Cons.prems put_own [of s d _ e] put_other [of s d _ k]
    by (cases "put s d"; cases "k = key d") (auto intro: succeeds_refl)
  moreover have "inv (attempt s d)"
    using Cons.prems put_inv by (auto split: sum.split)
  ultimately show ?case
    using Cons.IH [of "attempt s d"] Cons.prems(2) succeeds_trans by force
qed (simp add: succeeds_refl)

end

text \<open>
  For the profile registry: within one source a revision that is not a draft stays as it is;
  only a stronger source replaces it. This needs the documents in play to have different
  content hashes, since the registry compares hashes.
\<close>

definition profile_succeeds :: "registry_entry \<Rightarrow> registry_entry \<Rightarrow> bool" where
  "profile_succeeds e e' \<longleftrightarrow> en_source e \<le> en_source e'
     \<and> (en_source e = en_source e' \<longrightarrow> bp_status (cp_profile (en_compiled e)) \<noteq> Draft \<longrightarrow> e' = e)"

definition collision_free :: "externals \<Rightarrow> behavior_profile set \<Rightarrow> bool" where
  "collision_free ext S \<longleftrightarrow> inj_on (\<lambda>p. content_hash (ext_profile_to_vec ext p)) S"

abbreviation put_profile ::
    "externals \<Rightarrow> profile_registry \<Rightarrow> behavior_profile \<times> profile_source
      \<Rightarrow> profile_registry_error + profile_registry" where
  "put_profile ext reg d \<equiv> map_sum id snd (register ext reg (fst d) (snd d))"

definition store_inv :: "externals \<Rightarrow> behavior_profile set \<Rightarrow> profile_registry \<Rightarrow> bool" where
  "store_inv ext S reg \<longleftrightarrow> registry_wf ext reg \<and> collision_free ext S
     \<and> (\<forall>k e. map_of (reg_entries reg) k = Some e \<longrightarrow> cp_profile (en_compiled e) \<in> S)"

interpretation profile_store: revision_store
  "store_inv ext S" "\<lambda>reg. map_of (reg_entries reg)"
  "\<lambda>d. fst d \<in> S \<and> snd d \<noteq> BuiltIn" "put_profile ext"
  "\<lambda>d. (bp_id (fst d), bp_revision (fst d))" profile_succeeds for ext S
proof
  fix s t :: profile_registry and d :: "behavior_profile \<times> profile_source" and e k
  assume inv: "store_inv ext S s" and adm: "fst d \<in> S \<and> snd d \<noteq> BuiltIn"
    and "put_profile ext s d = Inr t"
  then obtain c where put: "register ext s (fst d) (snd d) = Inr (c, t)"
    by (cases "register ext s (fst d) (snd d)") auto
  have wf: "registry_wf ext t"
    using inv adm put by (auto simp: store_inv_def intro: registry_wf_register)
  show "store_inv ext S t"
    using put inv adm wf
    by (cases rule: register_cases) (auto simp: store_inv_def split: if_splits)
  show "map_of (reg_entries t) k = map_of (reg_entries s) k"
    if "k \<noteq> (bp_id (fst d), bp_revision (fst d))"
    using put that by (cases rule: register_cases) auto
  assume e: "map_of (reg_entries s) (bp_id (fst d), bp_revision (fst d)) = Some e"
  show "\<exists>e'. map_of (reg_entries t) (bp_id (fst d), bp_revision (fst d)) = Some e'
      \<and> profile_succeeds e e'"
    using put
  proof (cases rule: register_cases)
    case inserted
    have "cp_profile (en_compiled e) \<in> S" "compile ext (cp_profile (en_compiled e)) = Inr (en_compiled e)"
      using inv e by (auto simp: store_inv_def registry_wf_def entry_wf_def)
    moreover from this have "cp_content_hash (en_compiled e)
        = content_hash (ext_profile_to_vec ext (cp_profile (en_compiled e)))"
      by (metis compile_Inr_iff compiled_profile.select_convs(2))
    ultimately have "cp_profile (en_compiled e) = fst d"
      if "cp_content_hash (en_compiled e) = cp_content_hash c"
      using that inserted(1) adm inv
      by (auto simp: store_inv_def collision_free_def compile_Inr_iff dest: inj_onD)
    then have "en_compiled e = c" if "cp_content_hash (en_compiled e) = cp_content_hash c"
      using that inserted(1) \<open>compile ext (cp_profile (en_compiled e)) = Inr (en_compiled e)\<close> by simp
    then show ?thesis using inserted(4) inserted(5) [OF e] by (auto simp: profile_succeeds_def)
  qed (use e in \<open>auto simp: profile_succeeds_def\<close>)
qed (auto simp: profile_succeeds_def)

text \<open>
  Whatever is registered later, by the host or the workspace, successfully or not, a
  revision that is not a draft stays registered under its key; the same source never changes
  it, and only a stronger source replaces it. The documents involved are assumed to have
  pairwise different content hashes, which is what the registry compares.
\<close>

theorem published_revision_immutable:
  assumes "registry_wf ext reg" and "map_of (reg_entries reg) k = Some e"
    and "bp_status (cp_profile (en_compiled e)) \<noteq> Draft"
    and "\<forall>(p, src) \<in> set history. src \<noteq> BuiltIn"
    and "collision_free ext (fst ` set history \<union> (\<lambda>(_, e). cp_profile (en_compiled e)) ` set (reg_entries reg))"
  shows "\<exists>e'. map_of (reg_entries (foldl (\<lambda>reg (p, src).
             case register ext reg p src of Inl _ \<Rightarrow> reg | Inr (_, reg') \<Rightarrow> reg') reg history)) k = Some e'
           \<and> (e' = e \<or> en_source e < en_source e')"
proof -
  let ?S = "fst ` set history \<union> (\<lambda>(_, e). cp_profile (en_compiled e)) ` set (reg_entries reg)"
  have step: "(\<lambda>reg (p, src). case register ext reg p src of Inl _ \<Rightarrow> reg | Inr (_, reg') \<Rightarrow> reg')
      = profile_store.attempt ext"
    by (auto simp: fun_eq_iff split: sum.split)
  have "store_inv ext ?S reg"
    using assms(1,5) by (force simp: store_inv_def dest: map_of_SomeD)
  moreover have "\<forall>d \<in> set history. fst d \<in> ?S \<and> snd d \<noteq> BuiltIn"
    using assms(4) by auto
  ultimately show ?thesis
    using profile_store.history [of ext ?S reg history k e] assms(2,3)
    unfolding step profile_succeeds_def by force
qed

text \<open>A profile that fits, for the witnesses, and a serializer that tells three names apart.\<close>

definition example_profile :: "string \<Rightarrow> behavior_profile" where
  "example_profile name = default_profile_definition\<lparr>bp_id := ''review'', bp_name := name\<rparr>"

definition example_externals :: externals where
  "example_externals = \<lparr>ext_to_lowercase = id,
     ext_profile_to_vec =
       (\<lambda>p. [if bp_name p = ''A'' then 1 else if bp_name p = ''B'' then 2 else 3]),
     ext_json_to_string = (\<lambda>_. []), ext_json_pointer = (\<lambda>_ _. None),
     ext_json_eq = (=), ext_json_from_str = (\<lambda>_. None)\<rparr>"

lemma example_profile_fits:
  "name \<in> {''A'', ''B''} \<Longrightarrow> profile_fits ext (example_profile name)"
  by (auto simp: profile_fits_def example_profile_def default_profile_definition_def
      BEHAVIOR_SCHEMA_VERSION_def would_erase_the_prompt_def blank_def trim_def trim_matches_def
      trim_chars_def trim_start_chars_def is_continuation_def is_whitespace_def code_bytes_def)

definition example_compiled :: "externals \<Rightarrow> string \<Rightarrow> compiled_profile" where
  "example_compiled ext name = \<lparr>cp_profile = example_profile name,
     cp_content_hash = content_hash (ext_profile_to_vec ext (example_profile name))\<rparr>"

lemma example_compiles:
  "name \<in> {''A'', ''B''} \<Longrightarrow> compile ext (example_profile name) = Inr (example_compiled ext name)"
  by (simp add: compile_Inr_iff example_profile_fits example_compiled_def)

lemma example_library:
  assumes "name \<in> {''A'', ''B''}"
  shows "from_library ext [example_profile name] = Inr \<lparr>reg_entries =
      [((''review'', 1), \<lparr>en_compiled = example_compiled ext name, en_source = Host\<rparr>),
       ((DEFAULT_PROFILE_ID, 1), builtin_entry ext)],
      reg_default = None, reg_allow_drafts = True\<rparr>"
  using assms
  by (simp add: from_library_def register_def example_compiles Let_def registry_new_def
      allow_drafts_def builtin_entry_def example_compiled_def RESERVED_PROFILE_PREFIX_def)
     (simp add: example_profile_def default_profile_definition_def DEFAULT_PROFILE_ID_def
       RESERVED_PROFILE_PREFIX_def less_char_def)

theorem published_revision_immutable_witness:
  "\<exists>reg e. from_library example_externals [example_profile ''A''] = Inr reg
     \<and> map_of (reg_entries reg) (''review'', 1) = Some e
     \<and> (\<exists>e'. map_of (reg_entries (foldl (\<lambda>reg (p, src).
             case register example_externals reg p src of Inl _ \<Rightarrow> reg | Inr (_, reg') \<Rightarrow> reg') reg
             [(example_profile ''B'', Host)])) (''review'', 1) = Some e'
           \<and> (e' = e \<or> en_source e < en_source e'))"
proof -
  let ?ext = example_externals
  let ?e = "\<lparr>en_compiled = example_compiled ?ext ''A'', en_source = Host\<rparr>"
  obtain reg where reg: "from_library ?ext [example_profile ''A''] = Inr reg"
    "reg_entries reg = [((''review'', 1), ?e), ((DEFAULT_PROFILE_ID, 1), builtin_entry ?ext)]"
    by (simp add: example_library)
  have hash: "content_hash [x] = content_hash [y] \<longleftrightarrow> x = y" for x y
    using content_hash_byte [of "[]" x "[]" y] by simp
  have "collision_free ?ext {example_profile ''B'', example_profile ''A'', default_profile_definition}"
    by (simp add: collision_free_def hash example_externals_def example_profile_def
        default_profile_definition_def)
  then have free: "collision_free ?ext (fst ` set [(example_profile ''B'', Host)]
      \<union> (\<lambda>(_, e). cp_profile (en_compiled e)) ` set (reg_entries reg))"
    by (simp add: reg(2) example_compiled_def builtin_entry_def default_profile_def insert_commute)
  have "map_of (reg_entries reg) (''review'', 1) = Some ?e" by (simp add: reg(2))
  with reg(1) published_revision_immutable [OF registry_wf_from_library [OF reg(1)] this _ _ free]
  show ?thesis
    by (simp add: example_compiled_def example_profile_def default_profile_definition_def)
qed

section \<open>Resolution\<close>

lemma find_entry_wf:
  assumes "registry_wf ext reg" and "find_entry reg r = Some e"
  shows "map_of (reg_entries reg) (profile_key (en_compiled e)) = Some e
    \<and> bp_id (cp_profile (en_compiled e)) = pref_id r"
proof -
  have d: "hm_wf (reg_entries reg)"
    using assms(1) by (simp add: registry_wf_def btree_wf_distinct)
  have "\<exists>k. map_of (reg_entries reg) k = Some e \<and> fst k = pref_id r"
  proof (cases "pref_revision r")
    case None
    with assms(2) obtain k where "(k, e) \<in> set (reg_entries reg)" "fst k = pref_id r"
      by (auto simp: find_entry_def dest!: find_Some_mem)
    with d have "map_of (reg_entries reg) k = Some e" by simp
    with \<open>fst k = pref_id r\<close> show ?thesis by blast
  qed (use assms(2) in \<open>auto simp: find_entry_def\<close>)
  with assms(1) show ?thesis by (auto simp: registry_wf_def entry_wf_def)
qed

lemma find_rev_split:
  "List.find P (rev ys) = Some y \<Longrightarrow> \<exists>before after. ys = before @ y # after \<and> (\<forall>z \<in> set after. \<not> P z)"
proof (induction ys rule: rev_induct)
  case (snoc z zs)
  show ?case
  proof (cases "P z")
    case True
    with snoc show ?thesis by (intro exI [of _ zs] exI [of _ "[]"]) simp
  next
    case False
    with snoc obtain before after where "zs = before @ y # after" "\<forall>z \<in> set after. \<not> P z" by auto
    with False show ?thesis by (intro exI [of _ before] exI [of _ "after @ [z]"]) auto
  qed
qed simp

lemma latest_is_highest:
  assumes wf: "registry_wf ext reg" and e: "find_entry reg r = Some e" and r: "pref_revision r = None"
    and k: "map_of (reg_entries reg) (pref_id r, n) = Some f" "bp_revision (cp_profile (en_compiled e)) < n"
  shows "\<not> counts_as_latest reg f"
proof -
  let ?xs = "filter (\<lambda>((i, _), _). i = pref_id r) (reg_entries reg)"
  have "sorted_wrt (\<lambda>x y. fst x < fst y) ?xs"
    using wf by (simp add: registry_wf_def sorted_wrt_map sorted_wrt_filter)
  moreover from e r obtain before j after where
    xs: "?xs = before @ (j, e) # after" and no: "\<forall>z \<in> set after. \<not> counts_as_latest reg (snd z)"
    by (auto simp: find_entry_def map_eq_append_conv dest!: find_rev_split)
  moreover have "(j, e) \<in> set ?xs" by (simp add: xs)
  then have "j = (pref_id r, bp_revision (cp_profile (en_compiled e)))"
    using wf map_of_is_SomeI [of "reg_entries reg" j e]
    by (auto simp: registry_wf_def entry_wf_def btree_wf_distinct)
  moreover have "((pref_id r, n), f) \<in> set ?xs" using map_of_SomeD [OF k(1)] by simp
  ultimately have "((pref_id r, n), f) \<in> set after"
    using k(2) by (fastforce simp: sorted_wrt_append)
  with no show ?thesis by force
qed

text \<open>
  What a reference resolves to. The profile found has the identifier asked for and is
  registered under its own key; an exact reference gives exactly that revision; a reference
  without revision gives the highest one that is published, or a draft where drafts are
  allowed; a draft is never returned where drafts are not allowed; the built-in default cannot
  be shadowed; and an agent with no reference gets the built-in.
\<close>

theorem resolve_correct:
  assumes "registry_wf ext reg"
  shows "(resolve reg r = Inr c \<longrightarrow>
       bp_id (cp_profile c) = pref_id r
       \<and> (\<exists>e. map_of (reg_entries reg) (profile_key c) = Some e \<and> en_compiled e = c)
       \<and> (\<forall>n. pref_revision r = Some n \<longrightarrow> bp_revision (cp_profile c) = n)
       \<and> (bp_status (cp_profile c) = Draft \<longrightarrow> reg_allow_drafts reg)
       \<and> (pref_revision r = None \<longrightarrow> bp_status (cp_profile c) \<noteq> Deprecated
            \<and> (\<forall>n f. map_of (reg_entries reg) (pref_id r, n) = Some f \<and> bp_revision (cp_profile c) < n
                 \<longrightarrow> \<not> counts_as_latest reg f)))
    \<and> resolve reg (profile_ref_exact DEFAULT_PROFILE_ID 1) = Inr (default_profile ext)
    \<and> (reg_default reg = None \<longrightarrow> resolve_for_agent ext reg None = Inr (default_profile ext))"
proof (intro conjI impI)
  assume "resolve reg r = Inr c"
  then obtain e where e: "find_entry reg r = Some e" "en_compiled e = c"
    and draft: "bp_status (cp_profile c) = Draft \<longrightarrow> reg_allow_drafts reg"
    by (auto simp: resolve_def split: option.splits if_splits)
  note found = find_entry_wf [OF assms e(1), unfolded e(2)]
  show "bp_id (cp_profile c) = pref_id r" using found by simp
  show "\<exists>e. map_of (reg_entries reg) (profile_key c) = Some e \<and> en_compiled e = c"
    using found e by blast
  show "bp_status (cp_profile c) = Draft \<Longrightarrow> reg_allow_drafts reg" using draft by simp
  show "\<forall>n. pref_revision r = Some n \<longrightarrow> bp_revision (cp_profile c) = n"
    using assms e by (auto simp: find_entry_def registry_wf_def entry_wf_def)
  assume r: "pref_revision r = None"
  with e show "bp_status (cp_profile c) \<noteq> Deprecated"
    by (auto simp: find_entry_def counts_as_latest_def dest!: find_Some_mem split: definition_status.splits)
  show "\<forall>n f. map_of (reg_entries reg) (pref_id r, n) = Some f \<and> bp_revision (cp_profile c) < n
      \<longrightarrow> \<not> counts_as_latest reg f"
    using latest_is_highest [OF assms e(1) r] e(2) by blast
next
  show "resolve reg (profile_ref_exact DEFAULT_PROFILE_ID 1) = Inr (default_profile ext)"
    using assms
    by (simp add: resolve_def find_entry_def profile_ref_exact_def registry_wf_def builtin_entry_def
        default_profile_def default_profile_definition_def)
qed (simp add: resolve_for_agent_def)

theorem resolve_correct_witness:
  "\<exists>reg c. from_library example_externals [example_profile ''A''] = Inr reg
     \<and> resolve reg (profile_ref_latest ''review'') = Inr c \<and> bp_id (cp_profile c) = ''review''"
proof -
  let ?ext = example_externals
  obtain reg where reg: "from_library ?ext [example_profile ''A''] = Inr reg"
    "reg_entries reg = [((''review'', 1), \<lparr>en_compiled = example_compiled ?ext ''A'', en_source = Host\<rparr>),
       ((DEFAULT_PROFILE_ID, 1), builtin_entry ?ext)]" "reg_allow_drafts reg"
    by (simp add: example_library)
  have r: "resolve reg (profile_ref_latest ''review'') = Inr (example_compiled ?ext ''A'')"
    by (simp add: resolve_def find_entry_def profile_ref_latest_def reg DEFAULT_PROFILE_ID_def
        counts_as_latest_def example_compiled_def example_profile_def default_profile_definition_def)
  with reg(1) resolve_correct [OF registry_wf_from_library [OF reg(1)],
      of "profile_ref_latest ''review''" "example_compiled ?ext ''A''"]
  show ?thesis by (auto simp: profile_ref_latest_def)
qed

section \<open>The closure under switching\<close>

inductive reachable :: "profile_registry \<Rightarrow> compiled_profile \<Rightarrow> compiled_profile \<Rightarrow> bool"
  for reg root where
  root: "reachable reg root root"
| target: "reachable reg root c \<Longrightarrow> t \<in> set (switch_targets c) \<Longrightarrow> resolve reg t = Inr d \<Longrightarrow>
    reachable reg root d"

text \<open>What the loop keeps true of what it resolved so far.\<close>

definition closure_inv ::
    "profile_registry \<Rightarrow> compiled_profile \<Rightarrow> nat \<Rightarrow> compiled_profile list \<Rightarrow> profile_ref list \<Rightarrow> bool" where
  "closure_inv reg root index resolved seen \<longleftrightarrow>
     resolved \<noteq> [] \<and> hd resolved = root \<and> distinct (map reference resolved)
     \<and> set seen = reference ` set resolved \<and> (\<forall>c \<in> set resolved. reachable reg root c)
     \<and> (\<forall>c \<in> set (take index resolved). \<forall>t \<in> set (switch_targets c).
          \<exists>d. resolve reg t = Inr d \<and> reference d \<in> reference ` set resolved)"

lemma push_targets_result:
  assumes "push_targets reg ts resolved seen = Inr (resolved', seen')"
  shows "(\<forall>t \<in> set ts. \<exists>d. resolve reg t = Inr d \<and> reference d \<in> set seen')
    \<and> (\<forall>d \<in> set resolved'. d \<in> set resolved \<or> (\<exists>t \<in> set ts. resolve reg t = Inr d))
    \<and> set seen \<subseteq> set seen'"
  using assms
proof (induction reg ts resolved seen rule: push_targets.induct)
  case (2 reg t ts resolved seen)
  then show ?case by (fastforce split: sum.splits if_splits)
qed simp

lemma push_targets_error:
  "push_targets reg ts resolved seen = Inl e \<Longrightarrow> \<exists>t \<in> set ts. resolve reg t = Inl e"
  by (induction reg ts resolved seen rule: push_targets.induct) (auto split: sum.splits if_splits)

lemma closure_inv_step:
  assumes inv: "closure_inv reg root index resolved seen" and "index < length resolved"
    and push: "push_targets reg (switch_targets (resolved ! index)) resolved seen = Inr (resolved', seen')"
  shows "closure_inv reg root (Suc index) resolved' seen'"
proof -
  obtain new where new: "resolved' = resolved @ new" "set seen' = set seen \<union> reference ` set new"
    "distinct (map reference new)" "reference ` set new \<inter> set seen = {}"
    using push_targets_mono [OF push] by blast
  note res = push_targets_result [OF push]
  have cur: "reachable reg root (resolved ! index)"
    using inv assms(2) by (simp add: closure_inv_def)
  have "set seen' = reference ` set resolved'" "distinct (map reference resolved')"
    using inv new by (auto simp: closure_inv_def)
  moreover have "\<forall>c \<in> set resolved'. reachable reg root c"
    using inv res reachable.target [OF cur] by (auto simp: closure_inv_def)
  moreover have "take (Suc index) resolved' = take index resolved @ [resolved ! index]"
    using assms(2) new(1) by (simp add: take_Suc_conv_app_nth)
  ultimately show ?thesis
    using inv new(1) res unfolding closure_inv_def by (auto, blast+)
qed

lemma closure_loop_result:
  assumes "closure_inv reg root index resolved seen"
  shows "case closure_loop reg index resolved seen of
      Inr cs \<Rightarrow> closure_inv reg root (length cs) cs (map reference cs)
    | Inl e \<Rightarrow> \<exists>c t. reachable reg root c \<and> t \<in> set (switch_targets c) \<and> resolve reg t = Inl e"
  using assms
proof (induction reg index resolved seen rule: closure_loop.induct)
  case (1 reg index resolved seen)
  show ?case
  proof (cases "index < length resolved")
    case True
    show ?thesis
    proof (cases "push_targets reg (switch_targets (resolved ! index)) resolved seen")
      case (Inl e)
      with True 1(2) show ?thesis
        using push_targets_error [OF Inl]
        by (subst closure_loop.simps) (force simp: closure_inv_def)
    next
      case (Inr p)
      obtain resolved' seen' where p: "p = (resolved', seen')" by (cases p)
      from 1(1) [OF True Inr p [symmetric] closure_inv_step [OF 1(2) True Inr [unfolded p]]]
      show ?thesis using True Inr p by (subst closure_loop.simps) simp
    qed
  next
    case False
    with 1(2) show ?thesis by (subst closure_loop.simps) (simp add: closure_inv_def)
  qed
qed

text \<open>
  Computing a switch library always ends. When it succeeds the list starts with the root,
  has no reference twice, holds only profiles reachable from the root, and every switch target
  of every profile in it resolves to a reference in it; when it fails, the error is that of a
  switch target of a reachable profile. Cycles of switches are no obstacle.
\<close>

theorem resolve_closure_correct:
  "case resolve_closure reg root of
     Inr cs \<Rightarrow> cs \<noteq> [] \<and> hd cs = root \<and> distinct (map reference cs)
       \<and> (\<forall>c \<in> set cs. reachable reg root c
            \<and> (\<forall>t \<in> set (switch_targets c).
                 \<exists>d. resolve reg t = Inr d \<and> reference d \<in> reference ` set cs))
   | Inl e \<Rightarrow> \<exists>c t. reachable reg root c \<and> t \<in> set (switch_targets c) \<and> resolve reg t = Inl e"
proof -
  have "closure_inv reg root 0 [root] [reference root]"
    by (simp add: closure_inv_def reachable.root)
  from closure_loop_result [OF this] show ?thesis
    unfolding resolve_closure_def by (auto simp: closure_inv_def split: sum.splits)
qed

theorem resolve_closure_correct_witness:
  "\<exists>cs. resolve_closure (registry_new example_externals) (default_profile example_externals) = Inr cs
     \<and> hd cs = default_profile example_externals"
  using resolve_closure_correct [of "registry_new example_externals" "default_profile example_externals"]
  by (auto simp: resolve_closure_def closure_loop.simps switch_targets_def default_profile_def
      default_profile_definition_def map_filter_simps)

section \<open>Libraries survive being stored as documents\<close>

text \<open>What a registry built by \<open>from_library\<close> looks like.\<close>

definition library_shape :: "externals \<Rightarrow> profile_registry \<Rightarrow> bool" where
  "library_shape ext reg \<longleftrightarrow> registry_wf ext reg \<and> reg_default reg = None \<and> reg_allow_drafts reg
     \<and> (\<forall>k e. map_of (reg_entries reg) k = Some e \<longrightarrow>
          en_source e = Host \<or> k = (DEFAULT_PROFILE_ID, 1) \<and> e = builtin_entry ext)"

lemma library_shape_register:
  assumes "library_shape ext reg" and "register ext reg p Host = Inr (c, reg')"
  shows "library_shape ext reg'"
  using assms(2)
proof (cases rule: register_cases)
  case inserted
  with assms registry_wf_register [OF _ assms(2)] show ?thesis
    by (auto simp: library_shape_def)
qed (use assms in simp)

lemma library_shape_library:
  "library_shape ext reg \<Longrightarrow> register_library ext reg ps = Inr reg' \<Longrightarrow> library_shape ext reg'"
  by (induction ext reg ps rule: register_library.induct)
     (auto split: if_splits sum.splits dest: library_shape_register)

lemma library_shape_new: "library_shape ext (allow_drafts (registry_new ext) True)"
  using registry_wf_new [of ext]
  by (auto simp: library_shape_def) (auto simp: allow_drafts_def registry_new_def builtin_entry_def Let_def
      split: if_splits)

text \<open>Registering documents whose keys are new inserts each of them.\<close>

lemma register_fresh_documents:
  assumes "\<forall>(k, e) \<in> set es. entry_wf ext k e \<and> en_source e = Host" and "hm_wf es"
    and "fst ` set es \<inter> fst ` set (reg_entries reg) = {}"
  shows "register_library ext reg (map (\<lambda>(_, e). cp_profile (en_compiled e)) es)
    = Inr (reg\<lparr>reg_entries := fold (\<lambda>(k, e). btree_insert k e) es (reg_entries reg)\<rparr>)"
  using assms
proof (induction es arbitrary: reg)
  case (Cons x es)
  obtain k e where x: "x = (k, e)" by (cases x)
  let ?p = "cp_profile (en_compiled e)"
  from Cons.prems(1) have e: "profile_key (en_compiled e) = k" "compile ext ?p = Inr (en_compiled e)"
    "\<not> prefix RESERVED_PROFILE_PREFIX (bp_id ?p)" "e = \<lparr>en_compiled = en_compiled e, en_source = Host\<rparr>"
    by (auto simp: x entry_wf_def)
  have "map_of (reg_entries reg) k = None"
    using Cons.prems(3) by (auto simp: x map_of_eq_None_iff)
  then have "register ext reg ?p Host
      = Inr (en_compiled e, reg\<lparr>reg_entries := btree_insert k e (reg_entries reg)\<rparr>)"
    using e by (simp add: register_def)
  moreover have "fst ` set es \<inter> fst ` set (btree_insert k e (reg_entries reg)) = {}"
    using Cons.prems(2,3) by (auto simp: x set_keys_btree_insert)
  ultimately show ?case
    using Cons.IH [of "reg\<lparr>reg_entries := btree_insert k e (reg_entries reg)\<rparr>"] Cons.prems(1,2) e(3)
    by (simp add: x)
qed simp

lemma fold_btree_insert:
  assumes "hm_wf es"
  shows "map_of (fold (\<lambda>(k, e). btree_insert k e) es m) = map_of m ++ map_of es"
  using assms
proof (induction es arbitrary: m)
  case (Cons x es)
  obtain k e where x: "x = (k, e)" by (cases x)
  have "map_of es k = None" using Cons.prems by (simp add: x map_of_eq_None_iff)
  then show ?case using Cons by (auto simp: x fun_eq_iff map_add_def split: option.split)
qed simp

lemma btree_wf_fold: "btree_wf m \<Longrightarrow> btree_wf (fold (\<lambda>(k, e). btree_insert k e) es m)"
  by (induction es arbitrary: m) (auto simp: btree_wf_insert)

abbreviation host_entries :: "profile_registry \<Rightarrow> ((profile_id \<times> u64) \<times> registry_entry) list" where
  "host_entries reg \<equiv> filter (\<lambda>(_, e). en_source e \<noteq> BuiltIn) (reg_entries reg)"

lemma library_shape_facts:
  assumes "library_shape ext reg"
  shows "registry_wf ext reg" and "hm_wf (reg_entries reg)" and "btree_wf (reg_entries reg)"
    and "map_of (reg_entries reg) (DEFAULT_PROFILE_ID, 1) = Some (builtin_entry ext)"
  using assms by (auto simp: library_shape_def registry_wf_def btree_wf_distinct)

lemma host_entries_wf:
  assumes "library_shape ext reg"
  shows "hm_wf (host_entries reg)"
    and "\<forall>(k, e) \<in> set (host_entries reg). entry_wf ext k e \<and> en_source e = Host"
    and "(DEFAULT_PROFILE_ID, 1) \<notin> fst ` set (host_entries reg)"
proof -
  note facts = library_shape_facts [OF assms]
  have at: "map_of (reg_entries reg) k = Some e" if "(k, e) \<in> set (reg_entries reg)" for k e
    using facts(2) that by simp
  show "hm_wf (host_entries reg)" using facts(2) by (simp add: distinct_map_filter)
  have "entry_wf ext k e \<and> en_source e = Host" if "(k, e) \<in> set (host_entries reg)" for k e
  proof -
    from that have "map_of (reg_entries reg) k = Some e" "en_source e \<noteq> BuiltIn" using at by auto
    with assms show ?thesis
      unfolding library_shape_def registry_wf_def builtin_entry_def by fastforce
  qed
  then show "\<forall>(k, e) \<in> set (host_entries reg). entry_wf ext k e \<and> en_source e = Host" by blast
  show "(DEFAULT_PROFILE_ID, 1) \<notin> fst ` set (host_entries reg)"
  proof
    assume "(DEFAULT_PROFILE_ID, 1) \<in> fst ` set (host_entries reg)"
    then obtain e where "((DEFAULT_PROFILE_ID, 1), e) \<in> set (reg_entries reg)" "en_source e \<noteq> BuiltIn"
      by auto
    with at facts(4) show False by (force simp: builtin_entry_def)
  qed
qed

lemma library_entries_map:
  assumes "library_shape ext reg"
  shows "map_of (reg_entries reg) k
    = (map_of [((DEFAULT_PROFILE_ID, 1), builtin_entry ext)] ++ map_of (host_entries reg)) k"
proof (cases "map_of (reg_entries reg) k")
  case None
  then have "k \<noteq> (DEFAULT_PROFILE_ID, 1)" using library_shape_facts(4) [OF assms] by force
  moreover have "map_of (host_entries reg) k = None" using None by (auto simp: map_of_eq_None_iff)
  ultimately show ?thesis using None by (auto simp: map_add_def)
next
  case (Some e)
  with assms have "en_source e = Host \<or> k = (DEFAULT_PROFILE_ID, 1) \<and> e = builtin_entry ext"
    by (cases k) (auto simp: library_shape_def)
  then show ?thesis
  proof
    assume "en_source e = Host"
    then have "map_of (host_entries reg) k = Some e"
      using map_of_SomeD [OF Some] host_entries_wf(1) [OF assms] by (intro map_of_is_SomeI) simp_all
    then show ?thesis using Some by (simp add: map_add_def)
  next
    assume "k = (DEFAULT_PROFILE_ID, 1) \<and> e = builtin_entry ext"
    then show ?thesis using Some host_entries_wf(3) [OF assms]
      by (simp add: map_add_def map_of_eq_None_iff [THEN iffD2])
  qed
qed

lemma documents_round_trip:
  assumes "library_shape ext reg"
  shows "from_library ext (documents reg) = Inr reg"
proof -
  let ?es = "host_entries reg" and ?new = "allow_drafts (registry_new ext) True"
  note es = host_entries_wf [OF assms]
  have new: "reg_entries ?new = [((DEFAULT_PROFILE_ID, 1), builtin_entry ext)]"
    by (simp add: allow_drafts_def registry_new_def builtin_entry_def Let_def)
  have "fst ` set ?es \<inter> fst ` set (reg_entries ?new) = {}"
    using es(3) unfolding new by simp
  then have lib: "from_library ext (documents reg)
      = Inr (?new\<lparr>reg_entries := fold (\<lambda>(k, e). btree_insert k e) ?es (reg_entries ?new)\<rparr>)"
    unfolding from_library_def documents_def by (rule register_fresh_documents [OF es(2,1)])
  have "fold (\<lambda>(k, e). btree_insert k e) ?es (reg_entries ?new) = reg_entries reg"
    using library_shape_facts(3) [OF assms] library_entries_map [OF assms] es(1)
    by (intro btree_ext btree_wf_fold) (auto simp: new fold_btree_insert fun_eq_iff)
  with lib assms show ?thesis
    by (simp add: allow_drafts_def registry_new_def Let_def library_shape_def)
qed

text \<open>
  An agent's switch library can be stored as a list of documents and rebuilt: the
  documents of a library give the same registry again, whatever list it was first built from.
\<close>

theorem from_library_documents_round_trip:
  assumes "from_library ext ps = Inr reg"
  shows "from_library ext (documents reg) = Inr reg"
  using assms unfolding from_library_def [of ext ps]
  by (intro documents_round_trip library_shape_library [OF library_shape_new])

theorem from_library_documents_round_trip_witness:
  "\<exists>reg. from_library example_externals [example_profile ''A''] = Inr reg
     \<and> from_library example_externals (documents reg) = Inr reg"
  using from_library_documents_round_trip [of example_externals "[example_profile ''A'']"]
    example_library [of "''A''" example_externals] by simp

end
