(* ===== verification/Behavior_State.thy ===== *)
theory Behavior_State
  imports Behavior_Registry
begin

text \<open>
  The behavior of one agent (\<open>agent-core/src/behavior/state/*.rs\<close>, \<open>rules/notes.rs\<close>,
  \<open>children.rs\<close>): the active profile, the library it may switch within, and the counters of
  the current run with the limits they enforce, plus its durable form.
\<close>

section \<open>State (state/mod.rs)\<close>

definition MAX_SWITCHES_PER_RUN :: u32 where
  "MAX_SWITCHES_PER_RUN = 16"

definition FINAL_TURN_GRACE :: u32 where
  "FINAL_TURN_GRACE = 2"

record executed_call =
  xc_turn :: u32
  xc_tool :: string
  xc_failed :: bool

record call_streak =
  cs_signature :: string
  cs_count :: u32

record run_counters =
  rc_turns :: u32
  rc_tool_calls :: u32
  rc_final_turn :: bool
  rc_final_grace_used :: u32
  rc_fired :: "(string, u32) btree_map"
  rc_executed :: "executed_call list"
  rc_offered_tools :: "string list"
  rc_streak :: "call_streak option"
  rc_pending_request :: "string list"
  rc_last_request :: "string list"
  rc_pending_results :: "(tool_call_id \<times> string) list"
  rc_gate_attempts :: u32
  rc_gate_continuations :: u32
  rc_final_status :: "string option"
  rc_switches :: u32
  rc_entered_from :: "string option"

definition default_counters :: run_counters where
  "default_counters = \<lparr>rc_turns = 0, rc_tool_calls = 0, rc_final_turn = False,
     rc_final_grace_used = 0, rc_fired = [], rc_executed = [], rc_offered_tools = [],
     rc_streak = None, rc_pending_request = [], rc_last_request = [], rc_pending_results = [],
     rc_gate_attempts = 0, rc_gate_continuations = 0, rc_final_status = None, rc_switches = 0,
     rc_entered_from = None\<rparr>"

record entered_from =
  ef_profile :: profile_ref
  ef_name :: string

record behavior_state =
  bs_profile :: compiled_profile
  bs_library :: profile_registry
  bs_entered_from :: "entered_from option"
  bs_commands_trusted :: bool
  bs_run :: run_counters

datatype turn_plan = Normal | Final "string option" | Exceeded

text \<open>\<open>BehaviorState::new\<close>: the empty library holds the built-in only.\<close>

definition behavior_new :: "externals \<Rightarrow> compiled_profile \<Rightarrow> behavior_state" where
  "behavior_new ext profile = \<lparr>bs_profile = profile, bs_library = registry_new ext,
     bs_entered_from = None, bs_commands_trusted = False, bs_run = default_counters\<rparr>"

definition behavior_default :: "externals \<Rightarrow> behavior_state" where
  "behavior_default ext = behavior_new ext (default_profile ext)"

definition with_commands_trusted :: "behavior_state \<Rightarrow> bool \<Rightarrow> behavior_state" where
  "with_commands_trusted b trusted = b\<lparr>bs_commands_trusted := trusted\<rparr>"

definition with_library :: "behavior_state \<Rightarrow> profile_registry \<Rightarrow> behavior_state" where
  "with_library b library = b\<lparr>bs_library := library\<rparr>"

abbreviation bs_reference :: "behavior_state \<Rightarrow> profile_ref" where
  "bs_reference b \<equiv> reference (bs_profile b)"

definition switched_to ::
    "externals \<Rightarrow> behavior_state \<Rightarrow> compiled_profile \<Rightarrow> profile_registry \<Rightarrow> behavior_state" where
  "switched_to ext b profile library =
     (let next = with_commands_trusted (with_library (behavior_new ext profile) library)
                   (bs_commands_trusted b)
      in next\<lparr>bs_run := (bs_run next)\<lparr>rc_switches := rc_switches (bs_run b) + 1\<rparr>,
              bs_entered_from := Some \<lparr>ef_profile = bs_reference b,
                                       ef_name = bp_name (cp_profile (bs_profile b))\<rparr>\<rparr>)"

definition resolve_switch :: "behavior_state \<Rightarrow> profile_ref \<Rightarrow> compiled_profile option" where
  "resolve_switch b target = (case resolve (bs_library b) target of Inl _ \<Rightarrow> None | Inr c \<Rightarrow> Some c)"

definition reset_run :: "behavior_state \<Rightarrow> behavior_state" where
  "reset_run b = b\<lparr>bs_run := default_counters\<rparr>"

section \<open>Turns (state/turns.rs)\<close>

abbreviation bs_limits :: "behavior_state \<Rightarrow> limits" where
  "bs_limits b \<equiv> bp_limits (cp_profile (bs_profile b))"

abbreviation upd_run :: "(run_counters \<Rightarrow> run_counters) \<Rightarrow> behavior_state \<Rightarrow> behavior_state" where
  "upd_run f b \<equiv> b\<lparr>bs_run := f (bs_run b)\<rparr>"

definition begin_turn :: "behavior_state \<Rightarrow> behavior_state \<times> turn_plan" where
  "begin_turn b =
     (let run = bs_run b; prompt = lim_final_turn_prompt (bs_limits b)
      in if rc_final_turn run
         then if rc_final_grace_used run \<ge> FINAL_TURN_GRACE then (b, Exceeded)
              else (upd_run (\<lambda>r. r\<lparr>rc_final_grace_used := rc_final_grace_used r + 1\<rparr>) b, Final prompt)
         else
           (let turns = rc_turns run + 1;
                turns_exhausted = is_some_and (\<lambda>max. turns \<ge> max) (lim_max_turns (bs_limits b));
                tools_exhausted =
                  is_some_and (\<lambda>max. rc_tool_calls run \<ge> max) (lim_max_tool_calls (bs_limits b));
                b' = upd_run (\<lambda>r. r\<lparr>rc_turns := turns\<rparr>) b
            in if turns_exhausted \<or> tools_exhausted
               then (upd_run (\<lambda>r. r\<lparr>rc_final_turn := True\<rparr>) b', Final prompt)
               else (b', Normal)))"

definition admit_tool_call :: "behavior_state \<Rightarrow> behavior_state \<times> bool" where
  "admit_tool_call b =
     (let over_budget =
            is_some_and (\<lambda>max. rc_tool_calls (bs_run b) \<ge> max) (lim_max_tool_calls (bs_limits b))
      in if rc_final_turn (bs_run b) \<or> over_budget then (b, False)
         else (upd_run (\<lambda>r. r\<lparr>rc_tool_calls := rc_tool_calls r + 1\<rparr>) b, True))"

section \<open>Notes (rules/notes.rs)\<close>

definition call_signature :: "externals \<Rightarrow> tool_call \<Rightarrow> string" where
  "call_signature ext call =
     call_name call @ [CHR 0x00] @ ext_json_to_string ext (call_arguments call)"

definition note_tool_request :: "externals \<Rightarrow> behavior_state \<Rightarrow> tool_call \<Rightarrow> behavior_state" where
  "note_tool_request ext b call =
     (let signature = call_signature ext call
      in case rc_streak (bs_run b) of
           Some streak \<Rightarrow>
             if cs_signature streak = signature
             then upd_run (\<lambda>r. r\<lparr>rc_streak := Some (streak\<lparr>cs_count := cs_count streak + 1\<rparr>)\<rparr>) b
             else upd_run (\<lambda>r. r\<lparr>rc_streak := Some \<lparr>cs_signature = signature, cs_count = 1\<rparr>\<rparr>) b
         | None \<Rightarrow> upd_run (\<lambda>r. r\<lparr>rc_streak := Some \<lparr>cs_signature = signature, cs_count = 1\<rparr>\<rparr>) b)"

definition note_executed_with :: "behavior_state \<Rightarrow> string \<Rightarrow> bool \<Rightarrow> behavior_state" where
  "note_executed_with b tool failed =
     upd_run (\<lambda>r. r\<lparr>rc_executed := rc_executed r
       @ [\<lparr>xc_turn = rc_turns r, xc_tool = tool, xc_failed = failed\<rparr>]\<rparr>) b"

definition note_executed :: "behavior_state \<Rightarrow> string \<Rightarrow> behavior_state" where
  "note_executed b tool = note_executed_with b tool False"

definition note_offered :: "behavior_state \<Rightarrow> string list \<Rightarrow> behavior_state" where
  "note_offered b tools = upd_run (\<lambda>r. r\<lparr>rc_offered_tools := remdups_adj (sort tools)\<rparr>) b"

section \<open>Children (children.rs)\<close>

datatype child_policy_error = Unsupported string | Rejected string

definition inherit_parent_profile :: "externals \<Rightarrow> behavior_state \<Rightarrow> behavior_state" where
  "inherit_parent_profile ext parent =
     with_commands_trusted (with_library (behavior_new ext (bs_profile parent)) (bs_library parent))
       (bs_commands_trusted parent)"

definition policy_child_behavior ::
    "externals \<Rightarrow> behavior_state \<Rightarrow> child_policy_error + behavior_state" where
  "policy_child_behavior ext parent =
     (case bp_children (cp_profile (bs_profile parent)) of
        Inherit \<Rightarrow> Inr (inherit_parent_profile ext parent)
      | other \<Rightarrow> Inl (Unsupported (child_policy_name other)))"

section \<open>Durable form (state/stored.rs)\<close>

record stored_behavior =
  sb_profile :: behavior_profile
  sb_content_hash :: string
  sb_run :: run_counters
  sb_library :: "behavior_profile list"
  sb_entered_from :: "entered_from option"
  sb_commands_trusted :: bool

datatype behavior_restore_error =
    Malformed string
  | Restore_Invalid "profile_issue list"
  | HashMismatch profile_ref
  | Restore_Library profile_registry_error

text \<open>\<open>enc\<close> and \<open>dec\<close> are the serde encoding and decoding of \<open>StoredBehavior\<close>.\<close>

definition stored_of :: "behavior_state \<Rightarrow> stored_behavior" where
  "stored_of b = \<lparr>
     sb_profile = cp_profile (bs_profile b),
     sb_content_hash = cp_content_hash (bs_profile b),
     sb_run = bs_run b,
     sb_library = documents (bs_library b),
     sb_entered_from = bs_entered_from b,
     sb_commands_trusted = bs_commands_trusted b\<rparr>"

definition to_stored :: "(stored_behavior \<Rightarrow> json) \<Rightarrow> behavior_state \<Rightarrow> json" where
  "to_stored enc b = enc (stored_of b)"

definition from_stored ::
    "externals \<Rightarrow> (json \<Rightarrow> string + stored_behavior) \<Rightarrow> json option
      \<Rightarrow> behavior_restore_error + behavior_state" where
  "from_stored ext dec value =
     (if value = None \<or> value = Some JNull then Inr (behavior_default ext)
      else case dec (the value) of
        Inl e \<Rightarrow> Inl (Malformed e)
      | Inr stored \<Rightarrow>
          (case compile ext (sb_profile stored) of
             Inl issues \<Rightarrow> Inl (Restore_Invalid issues)
           | Inr compiled \<Rightarrow>
               if cp_content_hash compiled \<noteq> sb_content_hash stored
               then Inl (HashMismatch (reference compiled))
               else case from_library ext (sb_library stored) of
                 Inl e \<Rightarrow> Inl (Restore_Library e)
               | Inr library \<Rightarrow>
                   Inr \<lparr>bs_profile = compiled, bs_library = library,
                        bs_entered_from = sb_entered_from stored,
                        bs_commands_trusted = sb_commands_trusted stored,
                        bs_run = sb_run stored\<rparr>))"

section \<open>The turns of a run\<close>

text \<open>The plans for the next requests of a run, one after the other.\<close>

primrec turn_plans :: "nat \<Rightarrow> behavior_state \<Rightarrow> turn_plan list" where
  "turn_plans 0 b = []"
| "turn_plans (Suc n) b = (let (b', plan) = begin_turn b in plan # turn_plans n b')"

text \<open>The state after \<open>k\<close> requests under a limit of \<open>m\<close> turns, and the plan for request \<open>k\<close>.\<close>

definition turn_state :: "u32 \<Rightarrow> nat \<Rightarrow> behavior_state \<Rightarrow> behavior_state" where
  "turn_state m k b = upd_run (\<lambda>r. r\<lparr>rc_turns := of_nat (min k (unat m)), rc_final_turn := unat m \<le> k,
     rc_final_grace_used := of_nat (min (k - unat m) 2)\<rparr>) (reset_run b)"

definition limited_plan :: "behavior_state \<Rightarrow> u32 \<Rightarrow> nat \<Rightarrow> turn_plan" where
  "limited_plan b m k =
     (if k < unat m then Normal
      else if k \<le> unat m + 2 then Final (lim_final_turn_prompt (bs_limits b)) else Exceeded)"

lemma begin_turn_state:
  assumes "lim_max_turns (bs_limits b) = Some m" "lim_max_tool_calls (bs_limits b) = None"
  shows "begin_turn (turn_state m k b) = (turn_state m (Suc k) b, limited_plan b m (Suc k))"
proof (cases "k < unat m")
  case True
  then have "Suc k \<le> unat m" "unat (of_nat (Suc k) :: u32) = Suc k"
    using unat_bound [of m] by (simp_all add: unsigned_of_nat take_bit_nat_eq_self del: of_nat_Suc)
  then have "m \<le> of_nat k + 1 \<longleftrightarrow> unat m \<le> Suc k"
    by (simp only: word_le_nat_alt of_nat_Suc add.commute)
  with True assms show ?thesis
    by (simp add: begin_turn_def turn_state_def limited_plan_def reset_run_def default_counters_def Let_def)
next
  case False
  consider "k = unat m" | "k = Suc (unat m)" | "unat m + 2 \<le> k"
    using False by linarith
  moreover have "\<not> (2 :: u32) \<le> 1"
    by (simp add: word_le_nat_alt)
  ultimately show ?thesis
    using assms
    by cases (simp_all add: begin_turn_def turn_state_def limited_plan_def reset_run_def FINAL_TURN_GRACE_def
        Let_def)
qed

lemma turn_plans_state:
  assumes "lim_max_turns (bs_limits b) = Some m" "lim_max_tool_calls (bs_limits b) = None"
  shows "turn_plans n (turn_state m k b) = map (limited_plan b m) [Suc k..<Suc (k + n)]"
proof (induction n arbitrary: k)
  case (Suc n)
  show ?case
    using begin_turn_state [OF assms, of k] Suc [of "Suc k"] upt_conv_Cons [of "Suc k" "Suc (k + Suc n)"]
    by simp
qed simp


definition limited_example :: behavior_state where
  "limited_example = (behavior_new example_externals (example_compiled example_externals ''A''))
     \<lparr>bs_profile := \<lparr>cp_profile = (example_profile ''A'')\<lparr>bp_limits :=
        \<lparr>lim_max_turns = Some 1, lim_max_tool_calls = None, lim_final_turn_prompt = None\<rparr>\<rparr>,
        cp_content_hash = []\<rparr>\<rparr>"


section \<open>Restoring and inheriting\<close>

text \<open>
  An agent's behavior survives being stored. If the stored form decodes to itself, except
  for the field serde skips, then a state whose profile was compiled and whose library was
  built from documents is restored unchanged; and a stored profile whose recorded hash is not
  that of its document is never restored.
\<close>

theorem stored_behavior_round_trip:
  assumes serde: "dec (to_stored enc b) =
      Inr ((stored_of b)\<lparr>sb_run := (bs_run b)\<lparr>rc_entered_from := None\<rparr>\<rparr>)"
    and "to_stored enc b \<noteq> JNull"
    and "compile ext (cp_profile (bs_profile b)) = Inr (bs_profile b)"
    and "from_library ext ps = Inr (bs_library b)"
  shows "from_stored ext dec (Some (to_stored enc b)) =
      Inr (b\<lparr>bs_run := (bs_run b)\<lparr>rc_entered_from := None\<rparr>\<rparr>)
    \<and> (dec v = Inr s \<and> v \<noteq> JNull \<and>
        sb_content_hash s \<noteq> content_hash (ext_profile_to_vec ext (sb_profile s)) \<longrightarrow>
        (\<forall>b'. from_stored ext dec (Some v) \<noteq> Inr b'))"
proof
  have "from_library ext (documents (bs_library b)) = Inr (bs_library b)"
    using assms(4) unfolding from_library_def [of ext ps]
    by (intro documents_round_trip library_shape_library [OF library_shape_new])
  with assms show "from_stored ext dec (Some (to_stored enc b)) =
      Inr (b\<lparr>bs_run := (bs_run b)\<lparr>rc_entered_from := None\<rparr>\<rparr>)"
    by (simp add: from_stored_def stored_of_def)
  show "dec v = Inr s \<and> v \<noteq> JNull \<and>
      sb_content_hash s \<noteq> content_hash (ext_profile_to_vec ext (sb_profile s)) \<longrightarrow>
      (\<forall>b'. from_stored ext dec (Some v) \<noteq> Inr b')"
    by (auto simp: from_stored_def compile_Inr_iff split: sum.splits)
qed

theorem stored_behavior_round_trip_witness:
  "\<exists>library. from_library example_externals [example_profile ''A''] = Inr library \<and>
     (let b = with_library (behavior_default example_externals) library
      in from_stored example_externals (\<lambda>_. Inr (stored_of b)) (Some (to_stored (\<lambda>_. JBool True) b)) = Inr b)"
proof -
  let ?ext = example_externals
  obtain library where lib: "from_library ?ext [example_profile ''A''] = Inr library"
    by (simp add: example_library)
  let ?b = "with_library (behavior_default ?ext) library"
  have b: "bs_run ?b\<lparr>rc_entered_from := None\<rparr> = bs_run ?b" "bs_profile ?b = default_profile ?ext"
      "bs_library ?b = library"
    by (simp_all add: with_library_def behavior_default_def behavior_new_def default_counters_def)
  then have "stored_of ?b\<lparr>sb_run := bs_run ?b\<lparr>rc_entered_from := None\<rparr>\<rparr> = stored_of ?b"
    by (simp add: stored_of_def)
  with stored_behavior_round_trip [of "\<lambda>_. Inr (stored_of ?b)" "\<lambda>_. JBool True" ?b ?ext "[example_profile ''A'']"]
    lib b compile_default [of ?ext]
  show ?thesis by (auto simp: to_stored_def Let_def)
qed

text \<open>
  Neither switching profiles nor spawning a child gains the trust to run shell commands,
  and both start with fresh counters, so a limit or a used-up rule of one profile does not
  carry over; only the number of switches does.
\<close>

theorem switch_and_inherit_keep_trust:
  "bs_commands_trusted (switched_to ext b profile library) = bs_commands_trusted b
   \<and> bs_run (switched_to ext b profile library)
       = default_counters\<lparr>rc_switches := rc_switches (bs_run b) + 1\<rparr>
   \<and> (policy_child_behavior ext b = Inr child \<longrightarrow>
        bs_commands_trusted child = bs_commands_trusted b \<and> bs_profile child = bs_profile b
        \<and> bs_library child = bs_library b \<and> bs_run child = default_counters)
   \<and> (compile ext (cp_profile (bs_profile b)) = Inr (bs_profile b) \<longrightarrow>
        policy_child_behavior ext b = Inr (inherit_parent_profile ext b))"
  by (auto simp: switched_to_def policy_child_behavior_def inherit_parent_profile_def
      with_library_def with_commands_trusted_def behavior_new_def Let_def compile_Inr_iff
      profile_fits_def split: child_policy.splits)

theorem switch_and_inherit_keep_trust_witness:
  "policy_child_behavior example_externals (behavior_default example_externals)
     = Inr (inherit_parent_profile example_externals (behavior_default example_externals))"
  using switch_and_inherit_keep_trust [of example_externals "behavior_default example_externals"]
    compile_default [of example_externals]
  by (simp add: behavior_default_def behavior_new_def)

end
