(* ===== verification/Behavior_Rules.thy ===== *)
theory Behavior_Rules
  imports Behavior_State
begin

text \<open>
  Rule evaluation (\<open>agent-core/src/behavior/rules/*.rs\<close>): glob and condition matching, which
  rules fire for an event and what they ask for, JSON merge patches, result rewriting, and the
  status a final answer declares.
\<close>

section \<open>Rewriting (rules/mod.rs)\<close>

datatype result_rewrite = Rewrite_Replace string | Rewrite_Append string

fun rewrite_apply :: "result_rewrite \<Rightarrow> string \<Rightarrow> string" where
  "rewrite_apply (Rewrite_Replace replacement) text = replacement"
| "rewrite_apply (Rewrite_Append extra) text =
     (if text \<noteq> [] then text @ newline @ newline else text) @ extra"

text \<open>\<open>merge_patch\<close>, with its loop over the fields of an object patch.\<close>

fun merge_patch :: "json \<Rightarrow> json \<Rightarrow> json"
  and merge_fields :: "(string, json) btree_map \<Rightarrow> (string \<times> json) list \<Rightarrow> (string, json) btree_map"
  where
  "merge_patch target (JObject patch) = JObject (merge_fields (as_object target) patch)"
| "merge_patch target patch = patch"
| "merge_fields target [] = target"
| "merge_fields target ((key, val) # patch) =
     (if val = JNull then merge_fields (btree_remove key target) patch
      else merge_fields
             (btree_insert key (merge_patch (unwrap_or JNull (map_of target key)) val) target) patch)"

definition system_reminder :: "string \<Rightarrow> string \<Rightarrow> string" where
  "system_reminder source text =
     ''<system-reminder source='' @ [CHR 0x22] @ source @ [CHR 0x22] @ ''>'' @ text
     @ ''</system-reminder>''"

section \<open>Outcomes (rules/mod.rs)\<close>

record tool_event =
  te_call :: tool_call
  te_result :: "string option"

datatype tool_decision =
    Decide_Deny string string
  | Decide_Ask string
  | Decide_Allow string

record rule_stop =
  stop_rule_id :: string
  stop_reason :: string

record injection =
  ij_rule_id :: string
  ij_placement :: placement
  ij_text :: string

record fired_rule =
  fr_rule_id :: string
  fr_event :: rule_event
  fr_action :: string

record rule_outcome =
  ro_decision :: "tool_decision option"
  ro_stop :: "rule_stop option"
  ro_injections :: "injection list"
  ro_fired :: "fired_rule list"
  ro_switch :: "(string \<times> profile_ref) option"
  ro_rewrite_args :: "(string \<times> json) list"
  ro_rewrite_result :: "(string \<times> result_rewrite) list"

definition default_outcome :: rule_outcome where
  "default_outcome = \<lparr>ro_decision = None, ro_stop = None, ro_injections = [], ro_fired = [],
     ro_switch = None, ro_rewrite_args = [], ro_rewrite_result = []\<rparr>"

section \<open>Conditions (rules/conditions.rs)\<close>

definition tails :: "'a list \<Rightarrow> 'a list list" where
  "tails text = map (\<lambda>skip. drop skip text) [0..<Suc (length text)]"

text \<open>The suffixes that \<open>*\<close> may skip to: everything before them is free of \<open>/\<close>.\<close>

definition segment_tails :: "string list \<Rightarrow> string list list" where
  "segment_tails text =
     map (\<lambda>skip. drop skip text)
       (takeWhile (\<lambda>skip. skip = 0 \<or> text ! (skip - 1) \<noteq> ''/'') [0..<Suc (length text)])"

function glob_chars :: "string list \<Rightarrow> string list \<Rightarrow> bool" where
  "glob_chars [] text = (text = [])"
| "glob_chars (p # rest) text =
     (if p = ''*'' \<and> rest \<noteq> [] \<and> hd rest = ''*'' then
        (let after = tl rest; stripped = (if after \<noteq> [] \<and> hd after = ''/'' then tl after else after)
         in list_ex (glob_chars stripped) (tails text)
            \<or> (length (p # rest) > 2 \<and> glob_chars after text))
      else if p = ''*'' then list_ex (glob_chars rest) (segment_tails text)
      else if p = ''?'' then
        text \<noteq> [] \<and> hd text \<noteq> ''/'' \<and> glob_chars rest (tl text)
      else text \<noteq> [] \<and> hd text = p \<and> glob_chars rest (tl text))"
  by pat_completeness auto

termination
  by (relation "measure (length \<circ> fst)") (auto simp: less_Suc_eq_le le_diff_conv)

definition glob_match :: "string \<Rightarrow> string \<Rightarrow> bool" where
  "glob_match pattern text = glob_chars (utf8_chars pattern) (utf8_chars text)"

definition name_matches :: "name_match \<Rightarrow> string \<Rightarrow> bool" where
  "name_matches names name = list_ex (\<lambda>pattern. glob_match pattern name) (patterns names)"

definition tool_name_matches :: "name_match \<Rightarrow> string \<Rightarrow> bool" where
  "tool_name_matches names tool \<longleftrightarrow>
     name_matches names tool \<or> is_some_and (name_matches names) (followed_tool tool)"

definition arg_matches :: "externals \<Rightarrow> arg_match \<Rightarrow> json \<Rightarrow> bool" where
  "arg_matches ext arg arguments =
     (case ext_json_pointer ext arguments (am_pointer arg) of
        None \<Rightarrow> False
      | Some val \<Rightarrow>
          (let text = (case val of JString s \<Rightarrow> s | other \<Rightarrow> ext_json_to_string ext other)
           in is_none_or (\<lambda>pattern. glob_match pattern text) (am_glob arg)
              \<and> is_none_or (\<lambda>needle. str_contains text needle) (am_contains arg)
              \<and> is_none_or (\<lambda>expected. ext_json_eq ext val expected) (am_equals arg)))"

text \<open>\<open>u32::try_from(count).unwrap_or(u32::MAX)\<close>.\<close>

definition saturate :: "nat \<Rightarrow> u32" where
  "saturate n = (if n < 2 ^ 32 then of_nat n else - 1)"

definition counted_call :: "call_outcome \<Rightarrow> name_match \<Rightarrow> executed_call \<Rightarrow> bool" where
  "counted_call outcome names call \<longleftrightarrow>
     admits outcome (xc_failed call) \<and> tool_name_matches names (xc_tool call)"

text \<open>The calls after the last one that matches, if there is one.\<close>

fun since_last :: "('a \<Rightarrow> bool) \<Rightarrow> 'a list \<Rightarrow> 'a list option" where
  "since_last p [] = None"
| "since_last p (x # xs) =
     (case since_last p xs of Some ys \<Rightarrow> Some ys | None \<Rightarrow> if p x then Some xs else None)"

fun holds :: "externals \<Rightarrow> condition \<Rightarrow> tool_event option \<Rightarrow> run_counters \<Rightarrow> bool" where
  "holds ext (Cond_Tool names) tool run =
     is_some_and (\<lambda>t. tool_name_matches names (call_name (te_call t))) tool"
| "holds ext (Cond_Arg arg) tool run =
     is_some_and (\<lambda>t. arg_matches ext arg (call_arguments (te_call t))) tool"
| "holds ext (ResultContains needle) tool run =
     is_some_and (\<lambda>result. str_contains result needle) (Option.bind tool te_result)"
| "holds ext (Turn c) tool run = comparison_holds c (rc_turns run)"
| "holds ext (Calls n) tool run =
     comparison_holds (cnt_comparison n)
       (saturate (length (filter (counted_call (cnt_outcome n) (cnt_tool n)) (rc_executed run))))"
| "holds ext (TurnsSinceCall n) tool run =
     (let last = (case List.find (counted_call (cnt_outcome n) (cnt_tool n)) (rev (rc_executed run)) of
                    None \<Rightarrow> 0 | Some call \<Rightarrow> xc_turn call)
      in comparison_holds (cnt_comparison n) (saturating_sub (rc_turns run) last))"
| "holds ext (SinceLastCall s) tool run =
     (case since_last (\<lambda>call. tool_name_matches (slc_of s) (xc_tool call)) (rc_executed run) of
        None \<Rightarrow> False
      | Some later \<Rightarrow> comparison_holds (slc_comparison s)
          (saturate (length (filter (counted_call (slc_outcome s) (slc_called s)) later))))"
| "holds ext (ToolOffered names) tool run =
     list_ex (tool_name_matches names) (rc_offered_tools run)"
| "holds ext (RepeatedCall c) tool run =
     comparison_holds c (case rc_streak run of None \<Rightarrow> 0 | Some streak \<Rightarrow> cs_count streak)"
| "holds ext (ProfileEnteredFrom names) tool run =
     is_some_and (name_matches names) (rc_entered_from run)"
| "holds ext (FinalStatus names) tool run =
     is_some_and (\<lambda>status. status \<noteq> [] \<and> name_matches names status) (rc_final_status run)"
| "holds ext (Cond_All cs) tool run = list_all (\<lambda>c. holds ext c tool run) cs"
| "holds ext (Cond_Any cs) tool run = list_ex (\<lambda>c. holds ext c tool run) cs"
| "holds ext (Cond_Not c) tool run = (\<not> holds ext c tool run)"

section \<open>Evaluation (rules/evaluate.rs)\<close>

definition is_decision :: "action \<Rightarrow> bool" where
  "is_decision a = (case a of Act_Deny _ \<Rightarrow> True | Act_Ask _ \<Rightarrow> True | Act_Allow \<Rightarrow> True | _ \<Rightarrow> False)"

definition is_switch :: "action \<Rightarrow> bool" where
  "is_switch a = (case a of SwitchProfile _ \<Rightarrow> True | _ \<Rightarrow> False)"

definition already_decided :: "rule \<Rightarrow> rule_outcome \<Rightarrow> bool" where
  "already_decided r outcome \<longleftrightarrow>
     is_decision (rule_action r) \<and> ro_decision outcome \<noteq> None
     \<or> is_switch (rule_action r) \<and> ro_switch outcome \<noteq> None"

abbreviation fired_count :: "run_counters \<Rightarrow> string \<Rightarrow> u32" where
  "fired_count run r \<equiv> unwrap_or 0 (map_of (rc_fired run) r)"

definition rule_may_fire ::
    "externals \<Rightarrow> behavior_state \<Rightarrow> rule \<Rightarrow> tool_event option \<Rightarrow> rule_outcome \<Rightarrow> bool" where
  "rule_may_fire ext b r tool outcome \<longleftrightarrow>
     \<not> is_some_and (\<lambda>max. fired_count (bs_run b) (rule_id r) \<ge> max) (rule_max_fires r)
     \<and> is_none_or (\<lambda>condition. holds ext condition tool (bs_run b)) (rule_when r)
     \<and> \<not> already_decided r outcome"

text \<open>\<open>apply_action\<close> returns the outcome and whether the remaining rules still get a turn.\<close>

definition apply_action ::
    "rule_outcome \<Rightarrow> rule \<Rightarrow> rule_event \<Rightarrow> profile_ref \<Rightarrow> rule_outcome \<times> bool" where
  "apply_action outcome r event ref =
     (case rule_action r of
        Inject i \<Rightarrow>
          (outcome\<lparr>ro_injections := ro_injections outcome @ [\<lparr>
             ij_rule_id = rule_id r,
             ij_placement = unwrap_or (default_for event) (inj_placement i),
             ij_text = system_reminder (''profile:'' @ fmt_profile_ref ref @ '' rule:'' @ rule_id r)
                         (inj_text i)\<rparr>]\<rparr>, True)
      | Act_Deny reason \<Rightarrow> (outcome\<lparr>ro_decision := Some (Decide_Deny (rule_id r) reason)\<rparr>, True)
      | Act_Ask _ \<Rightarrow> (outcome\<lparr>ro_decision := Some (Decide_Ask (rule_id r))\<rparr>, True)
      | Act_Allow \<Rightarrow> (outcome\<lparr>ro_decision := Some (Decide_Allow (rule_id r))\<rparr>, True)
      | StopRun reason \<Rightarrow>
          (outcome\<lparr>ro_stop := Some \<lparr>stop_rule_id = rule_id r, stop_reason = reason\<rparr>\<rparr>, False)
      | SwitchProfile target \<Rightarrow> (outcome\<lparr>ro_switch := Some (rule_id r, target)\<rparr>, True)
      | RewriteArgs merge \<Rightarrow>
          (outcome\<lparr>ro_rewrite_args := ro_rewrite_args outcome @ [(rule_id r, merge)]\<rparr>, True)
      | RewriteResult replaced appended \<Rightarrow>
          (case (replaced, appended) of
             (Some text, _) \<Rightarrow> (outcome\<lparr>ro_rewrite_result :=
               ro_rewrite_result outcome @ [(rule_id r, Rewrite_Replace text)]\<rparr>, True)
           | (None, Some text) \<Rightarrow> (outcome\<lparr>ro_rewrite_result :=
               ro_rewrite_result outcome @ [(rule_id r, Rewrite_Append text)]\<rparr>, True)
           | (None, None) \<Rightarrow> (outcome, True)))"

definition fire_rule :: "behavior_state \<Rightarrow> rule \<Rightarrow> behavior_state" where
  "fire_rule b r =
     upd_run (\<lambda>run. run\<lparr>rc_fired :=
       btree_insert (rule_id r) (fired_count run (rule_id r) + 1) (rc_fired run)\<rparr>) b"

fun evaluate_rules ::
    "externals \<Rightarrow> rule_event \<Rightarrow> tool_event option \<Rightarrow> profile_ref \<Rightarrow> rule list
      \<Rightarrow> behavior_state \<Rightarrow> rule_outcome \<Rightarrow> behavior_state \<times> rule_outcome" where
  "evaluate_rules ext event tool ref [] b outcome = (b, outcome)"
| "evaluate_rules ext event tool ref (r # rules) b outcome =
     (if \<not> rule_may_fire ext b r tool outcome
      then evaluate_rules ext event tool ref rules b outcome
      else
        (let b = fire_rule b r;
             outcome = outcome\<lparr>ro_fired := ro_fired outcome
               @ [\<lparr>fr_rule_id = rule_id r, fr_event = event, fr_action = action_name (rule_action r)\<rparr>]\<rparr>
         in case apply_action outcome r event ref of
              (outcome, proceed) \<Rightarrow>
                if proceed then evaluate_rules ext event tool ref rules b outcome
                else (b, outcome)))"

definition evaluate ::
    "externals \<Rightarrow> behavior_state \<Rightarrow> rule_event \<Rightarrow> tool_event option \<Rightarrow> behavior_state \<times> rule_outcome" where
  "evaluate ext b event tool =
     evaluate_rules ext event tool (bs_reference b)
       (filter (\<lambda>r. rule_on r = event) (bp_rules (cp_profile (bs_profile b)))) b default_outcome"

definition evaluate_entered ::
    "externals \<Rightarrow> behavior_state \<Rightarrow> string \<Rightarrow> behavior_state \<times> rule_outcome" where
  "evaluate_entered ext b from =
     (case evaluate ext (upd_run (\<lambda>r. r\<lparr>rc_entered_from := Some from\<rparr>) b) ProfileEntered None of
        (b', outcome) \<Rightarrow> (upd_run (\<lambda>r. r\<lparr>rc_entered_from := None\<rparr>) b', outcome))"

definition condition_holds :: "externals \<Rightarrow> behavior_state \<Rightarrow> condition \<Rightarrow> bool" where
  "condition_holds ext b condition = holds ext condition None (bs_run b)"

section \<open>The status of a final answer (rules/final_status.rs)\<close>

text \<open>\<open>str::lines\<close>: a line ends at a newline, a carriage return before it is dropped, and a
  final newline starts no further line.\<close>

definition strip_cr :: "string \<Rightarrow> string" where
  "strip_cr line = (if line \<noteq> [] \<and> last line = CHR 0x0D then butlast line else line)"

fun str_lines :: "string \<Rightarrow> string \<Rightarrow> string list" where
  "str_lines current [] = (if current = [] then [] else [current])"
| "str_lines current (c # text) =
     (if c = CHR 0x0A then strip_cr current # str_lines [] text else str_lines (current @ [c]) text)"

text \<open>\<open>trim_start_matches\<close> with a string pattern removes it repeatedly.\<close>

function strip_prefixes :: "string \<Rightarrow> string \<Rightarrow> string" where
  "strip_prefixes pat text =
     (if pat \<noteq> [] \<and> prefix pat text then strip_prefixes pat (drop (length pat) text) else text)"
  by pat_completeness auto

termination
  by (relation "measure (length \<circ> snd)") (auto simp: prefix_def)

declare strip_prefixes.simps [simp del]

definition bare :: "string \<Rightarrow> string" where
  "bare line = trim_matches (\<lambda>c. is_whitespace c
     \<or> c \<in> set [''#'', ''*'', ''_'', ''`'', ''>'', ''-'', [CHR 0x22]]) line"

definition ascii_lower :: "char \<Rightarrow> char" where
  "ascii_lower c = (let n = (of_char c :: nat) in if 65 \<le> n \<and> n \<le> 90 then char_of (n + 32) else c)"

text \<open>\<open>line.get(..6)\<close> is there when the sixth byte is a character boundary.\<close>

definition status_rest :: "string \<Rightarrow> string option" where
  "status_rest line =
     (if 6 \<le> length line \<and> is_char_boundary line 6
          \<and> map ascii_lower (take 6 line) = ''status''
      then Some (bare (drop 6 line)) else None)"

text \<open>The loop over the lines from the last one: \<open>later\<close> are the lines after the current one.\<close>

fun status_from :: "string list \<Rightarrow> string list \<Rightarrow> string option" where
  "status_from [] later = None"
| "status_from (line # earlier) later =
     (case status_rest (bare line) of
        None \<Rightarrow> status_from earlier (line # later)
      | Some rest \<Rightarrow>
          if rest \<noteq> [] \<and> hd rest = CHR '':'' \<and> bare (tl rest) \<noteq> [] then Some (bare (tl rest))
          else if rest = [] \<or> rest = '':'' then
            (case List.find (\<lambda>l. l \<noteq> []) (map bare later) of
               Some next \<Rightarrow> Some next
             | None \<Rightarrow> status_from earlier (line # later))
          else status_from earlier (line # later))"

definition status_line :: "string \<Rightarrow> string option" where
  "status_line answer = status_from (rev (str_lines [] answer)) []"

definition SEPARATORS :: "string list" where
  "SEPARATORS = [[CHR 0xE2, CHR 0x80, CHR 0x94], [CHR 0xE2, CHR 0x80, CHR 0x93], '' - '',
     '':'', '';'', '','', ''.'', ''('']"

text \<open>\<open>str::find\<close>: the first byte offset at which the needle occurs.\<close>

definition str_find :: "string \<Rightarrow> string \<Rightarrow> nat option" where
  "str_find text needle = List.find (\<lambda>i. prefix needle (drop i text)) [0..<Suc (length text)]"

fun split_words :: "(string \<Rightarrow> bool) \<Rightarrow> string \<Rightarrow> string list \<Rightarrow> string list" where
  "split_words p current [] = [current]"
| "split_words p current (c # cs) =
     (if p c then current # split_words p [] cs else split_words p (current @ c) cs)"

definition normalize_status :: "externals \<Rightarrow> string \<Rightarrow> string" where
  "normalize_status ext raw =
     (let val = ext_to_lowercase ext raw;
          cuts = List.map_filter (str_find val) SEPARATORS;
          cut = (if cuts = [] then length val else Min (set cuts))
      in join '' '' (filter (\<lambda>w. w \<noteq> [])
           (split_words (\<lambda>c. is_whitespace c \<or> c \<in> set [''*'', ''_'', ''`'', [CHR 0x22]]) []
             (utf8_chars (take cut val)))))"

definition json_status :: "externals \<Rightarrow> string \<Rightarrow> string option" where
  "json_status ext answer =
     (let unfenced = trim (trim_matches (\<lambda>c. c = ''`'') (strip_prefixes ''```json'' (trim answer)))
      in case ext_json_from_str ext unfenced of
           Some (JObject members) \<Rightarrow>
             (case map_of members ''status'' of Some (JString s) \<Rightarrow> Some s | _ \<Rightarrow> None)
         | _ \<Rightarrow> None)"

definition final_status :: "externals \<Rightarrow> string \<Rightarrow> string" where
  "final_status ext answer =
     (case (case json_status ext answer of Some s \<Rightarrow> Some s | None \<Rightarrow> status_line answer) of
        None \<Rightarrow> []
      | Some raw \<Rightarrow> normalize_status ext raw)"

section \<open>Merge patches follow RFC 7396\<close>

text \<open>JSON values whose objects are ordered maps, as \<open>serde_json\<close> builds them.\<close>

fun json_wf :: "json \<Rightarrow> bool" where
  "json_wf (JArray vs) = list_all json_wf vs"
| "json_wf (JObject members) = (btree_wf members \<and> list_all (\<lambda>(_, v). json_wf v) members)"
| "json_wf _ = True"

lemma map_of_btree_remove: "map_of (btree_remove k m) = (map_of m)(k := None)"
  by (simp add: delete_conv')

lemma lookup_merge_fields:
  assumes "hm_wf patch"
  shows "map_of (merge_fields target patch) k =
    (case map_of patch k of
       None \<Rightarrow> map_of target k
     | Some v \<Rightarrow> if v = JNull then None
                else Some (merge_patch (unwrap_or JNull (map_of target k)) v))"
  using assms
proof (induction patch arbitrary: target)
  case (Cons entry patch)
  obtain key val where entry: "entry = (key, val)" by (cases entry)
  have "map_of patch key = None" using Cons.prems by (simp add: entry map_of_eq_None_iff)
  then show ?case
    using Cons by (auto simp: entry map_of_btree_remove split: option.split)
qed simp

lemma btree_wf_merge_fields: "btree_wf target \<Longrightarrow> btree_wf (merge_fields target patch)"
proof (induction patch arbitrary: target)
  case (Cons entry patch)
  then show ?case by (cases entry) (simp add: btree_wf_insert btree_wf_remove)
qed simp

lemma json_wf_object: "json_wf (JObject members) \<Longrightarrow> btree_wf members"
  by simp

lemma merge_patch_idempotent_aux:
  "json_wf patch \<Longrightarrow> json_wf target \<Longrightarrow> merge_patch (merge_patch target patch) patch = merge_patch target patch"
proof (induction patch arbitrary: target rule: measure_induct_rule [where f = size])
  case (less patch)
  show ?case
  proof (cases patch)
    case (JObject members)
    let ?t = "as_object target"
    have wf: "btree_wf members" "btree_wf ?t" "hm_wf members"
      using less.prems JObject
      by (auto simp: as_object_def btree_wf_distinct split: json.splits)
    have target_wf: "json_wf (unwrap_or JNull (map_of ?t k))" for k
      using less.prems(2)
      by (cases "map_of ?t k")
         (auto simp: as_object_def list_all_iff dest!: map_of_SomeD split: json.splits)
    have "map_of (merge_fields (merge_fields ?t members) members) k = map_of (merge_fields ?t members) k" for k
    proof (cases "map_of members k")
      case (Some v)
      then have "(k, v) \<in> set members" by (rule map_of_SomeD)
      then have "size v < size patch" "json_wf v"
        using less.prems(1) size_list_estimation' [of "(k, v)" members "size v" "size_prod (\<lambda>_. 0) size"]
        by (auto simp: JObject list_all_iff intro: le_imp_less_Suc)
      with Some less.IH [of v "unwrap_or JNull (map_of ?t k)"] target_wf wf(3) show ?thesis
        by (simp add: lookup_merge_fields)
    qed (simp add: lookup_merge_fields wf(3))
    then have "merge_fields (merge_fields ?t members) members = merge_fields ?t members"
      by (intro btree_ext btree_wf_merge_fields wf) (simp add: fun_eq_iff)
    then show ?thesis by (simp add: JObject as_object_def)
  qed simp_all
qed

text \<open>
  Applying a merge patch is what RFC 7396 says: a patch that is not an object replaces the
  target; an object patch gives an object in which a key absent from the patch keeps its
  value, a key patched with null is gone, and any other key holds the patch of its old value;
  and applying the same patch twice is applying it once.
\<close>

theorem merge_patch_rfc7396:
  assumes "json_wf patch" and "json_wf target"
  shows "(case patch of
       JObject members \<Rightarrow> \<exists>merged. merge_patch target patch = JObject merged \<and>
         (\<forall>k. map_of merged k =
            (case map_of members k of
               None \<Rightarrow> map_of (as_object target) k
             | Some v \<Rightarrow> if v = JNull then None
                else Some (merge_patch (unwrap_or JNull (map_of (as_object target) k)) v)))
     | _ \<Rightarrow> merge_patch target patch = patch)
    \<and> merge_patch (merge_patch target patch) patch = merge_patch target patch"
proof
  show "merge_patch (merge_patch target patch) patch = merge_patch target patch"
    using assms by (rule merge_patch_idempotent_aux)
qed (use assms in \<open>auto simp: lookup_merge_fields btree_wf_distinct split: json.split\<close>)

theorem merge_patch_rfc7396_witness:
  "let target = JObject [(''a'', JBool True), (''b'', JBool False)];
       patch = JObject [(''a'', JNull), (''c'', JString ''x'')]
   in merge_patch target patch = JObject [(''b'', JBool False), (''c'', JString ''x'')]
      \<and> merge_patch (merge_patch target patch) patch = merge_patch target patch"
  using merge_patch_rfc7396 [of "JObject [(''a'', JNull), (''c'', JString ''x'')]"
      "JObject [(''a'', JBool True), (''b'', JBool False)]"]
  by (simp add: as_object_def)

section \<open>What a glob matches\<close>

text \<open>
  The language of a pattern as its documentation has it: \<open>*\<close> within a segment, \<open>**\<close> across
  segments, \<open>?\<close> one character other than a slash, everything else itself. Two stars in a row
  are always read as \<open>**\<close>.
\<close>

inductive globs :: "string list \<Rightarrow> string list \<Rightarrow> bool" where
  finished: "globs [] []"
| across: "globs ps text \<Longrightarrow> globs (''*'' # ''*'' # ps) (skipped @ text)"
| within: "globs ps text \<Longrightarrow> ps = [] \<or> hd ps \<noteq> ''*'' \<Longrightarrow> ''/'' \<notin> set skipped \<Longrightarrow>
    globs (''*'' # ps) (skipped @ text)"
| one: "globs ps text \<Longrightarrow> c \<noteq> ''/'' \<Longrightarrow> globs (''?'' # ps) (c # text)"
| literal: "globs ps text \<Longrightarrow> c \<noteq> ''*'' \<Longrightarrow> c \<noteq> ''?'' \<Longrightarrow> globs (c # ps) (c # text)"

inductive_cases globs_NilE: "globs [] text"

lemma list_ex_tails: "list_ex P (tails text) \<longleftrightarrow> (\<exists>skipped rest. text = skipped @ rest \<and> P rest)"
proof -
  have "list_ex P (tails text) \<longleftrightarrow> (\<exists>k \<le> length text. P (drop k text))"
    by (auto simp: tails_def list_ex_iff less_Suc_eq_le simp del: upt_Suc)
  also have "\<dots> \<longleftrightarrow> (\<exists>skipped rest. text = skipped @ rest \<and> P rest)"
    by (metis append_eq_conv_conj append_take_drop_id length_append le_add1)
  finally show ?thesis .
qed

lemma takeWhile_upt:
  "k \<in> set (takeWhile Q [0..<n]) \<longleftrightarrow> k < n \<and> (\<forall>j \<le> k. Q j)"
proof (induction n)
  case (Suc n)
  show ?case
  proof (cases "\<forall>j \<in> set [0..<n]. Q j")
    case True
    then have "takeWhile Q [0..<Suc n] = [0..<n] @ (if Q n then [n] else [])"
      by (simp add: takeWhile_append)
    with True show ?thesis by (auto simp: less_Suc_eq)
  next
    case False
    then obtain j where "j < n" "\<not> Q j" by auto
    then have "takeWhile Q [0..<Suc n] = takeWhile Q [0..<n]"
      by (simp add: takeWhile_append1)
    with Suc \<open>j < n\<close> \<open>\<not> Q j\<close> show ?thesis by (auto simp: less_Suc_eq)
  qed
qed simp

lemma list_ex_segment_tails:
  "list_ex P (segment_tails text) \<longleftrightarrow>
     (\<exists>skipped rest. text = skipped @ rest \<and> ''/'' \<notin> set skipped \<and> P rest)"
proof -
  have free: "(\<forall>j \<le> k. j = 0 \<or> text ! (j - 1) \<noteq> ''/'') \<longleftrightarrow> ''/'' \<notin> set (take k text)"
    if "k \<le> length text" for k
  proof -
    have "''/'' \<notin> set (take k text) \<longleftrightarrow> (\<forall>i < k. text ! i \<noteq> ''/'')"
      using that by (auto simp: in_set_conv_nth)
    also have "\<dots> \<longleftrightarrow> (\<forall>j \<le> k. j = 0 \<or> text ! (j - 1) \<noteq> ''/'')"
      by (metis Suc_le_eq diff_Suc_1 gr0_conv_Suc le_zero_eq not_gr_zero)
    finally show ?thesis by simp
  qed
  have "list_ex P (segment_tails text) \<longleftrightarrow>
      (\<exists>k. (k < Suc (length text) \<and> (\<forall>j \<le> k. j = 0 \<or> text ! (j - 1) \<noteq> ''/'')) \<and> P (drop k text))"
    unfolding segment_tails_def list_ex_iff set_map by (auto simp: takeWhile_upt simp del: upt_Suc)
  also have "\<dots> \<longleftrightarrow> (\<exists>k \<le> length text. ''/'' \<notin> set (take k text) \<and> P (drop k text))"
    using free by (intro iff_exI) (auto simp: less_Suc_eq_le)
  also have "\<dots> \<longleftrightarrow> (\<exists>skipped rest. text = skipped @ rest \<and> ''/'' \<notin> set skipped \<and> P rest)"
    by (metis append_eq_conv_conj append_take_drop_id length_append le_add1)
  finally show ?thesis .
qed

lemma globs_star_star:
  "globs (''*'' # ''*'' # ps) text \<longleftrightarrow> (\<exists>skipped rest. text = skipped @ rest \<and> globs ps rest)" (is "?lhs \<longleftrightarrow> ?rhs")
proof
  assume ?lhs
  then show ?rhs by (cases rule: globs.cases) auto
qed (auto intro: globs.across)

lemma globs_star:
  assumes "ps = [] \<or> hd ps \<noteq> ''*''"
  shows "globs (''*'' # ps) text \<longleftrightarrow>
     (\<exists>skipped rest. text = skipped @ rest \<and> ''/'' \<notin> set skipped \<and> globs ps rest)" (is "?lhs \<longleftrightarrow> ?rhs")
proof
  assume ?lhs
  then show ?rhs using assms by (cases rule: globs.cases) auto
next
  assume ?rhs
  then show ?lhs using assms by (auto intro: globs.within)
qed

lemma globs_other:
  assumes "p \<noteq> ''*''"
  shows "globs (p # ps) text \<longleftrightarrow>
     text \<noteq> [] \<and> (if p = ''?'' then hd text \<noteq> ''/'' else hd text = p) \<and> globs ps (tl text)"
    (is "?lhs \<longleftrightarrow> ?rhs")
proof
  assume ?lhs
  then show ?rhs using assms by (cases rule: globs.cases) auto
next
  assume ?rhs
  then show ?lhs using assms
    by (cases "text") (auto intro: globs.one globs.literal split: if_splits)
qed

lemma globs_Nil: "globs [] text \<longleftrightarrow> text = []"
  by (auto elim: globs_NilE intro: globs.finished)

text \<open>The matcher never misses a text of the pattern's language.\<close>

lemma glob_chars_literal: "p \<noteq> ''*'' \<Longrightarrow> p \<noteq> ''?'' \<Longrightarrow>
   glob_chars (p # ps) text \<longleftrightarrow> (\<exists>rest. text = p # rest \<and> glob_chars ps rest)"
  by (cases "text") auto

lemma globs_glob_chars: "globs ps text \<Longrightarrow> glob_chars ps text"
proof (induction rule: globs.induct)
  case (across ps "text" skipped)
  show ?case
  proof (cases "ps \<noteq> [] \<and> hd ps = ''/''")
    case True
    then obtain qs where ps: "ps = ''/'' # qs" by (cases ps) auto
    then obtain rest where "text = ''/'' # rest" "glob_chars qs rest"
      using across.IH glob_chars_literal [of "''/''" qs "text"] by auto
    then have "list_ex (glob_chars qs) (tails (skipped @ text))"
      unfolding list_ex_tails by (metis append_Cons append_Nil append_assoc)
    with ps show ?thesis by simp
  next
    case False
    then have "list_ex (glob_chars ps) (tails (skipped @ text))"
      unfolding list_ex_tails using across.IH by blast
    with False show ?thesis by (simp add: Let_def) blast
  qed
next
  case (within ps "text" skipped)
  then have "list_ex (glob_chars ps) (segment_tails (skipped @ text))"
    unfolding list_ex_segment_tails by blast
  with within.hyps(2) show ?case by (cases ps) auto
qed simp_all

text \<open>Where no \<open>**\<close> stands before a slash it matches nothing else.\<close>

definition dir_stars :: "string list \<Rightarrow> bool" where
  "dir_stars ps \<longleftrightarrow> (\<exists>before after. ps = before @ [''*'', ''*'', ''/''] @ after)"

lemma dir_stars_Cons: "dir_stars ps \<Longrightarrow> dir_stars (p # ps)"
  unfolding dir_stars_def by (metis append_Cons)

lemma dir_stars_here: "dir_stars (''*'' # ''*'' # ''/'' # ps)"
  unfolding dir_stars_def by (rule exI [of _ "[]"]) simp

lemma glob_chars_globs: "\<not> dir_stars ps \<Longrightarrow> glob_chars ps ts \<Longrightarrow> globs ps ts"
proof (induction ps arbitrary: ts rule: measure_induct_rule [where f = length])
  case (less ps)
  show ?case
  proof (cases ps)
    case Nil
    with less.prems(2) show ?thesis by (simp add: globs_Nil)
  next
    case (Cons p rest)
    have IH: "globs qs us" if "length qs \<le> length rest" "\<not> dir_stars qs" "glob_chars qs us" for qs us
      using less.IH [of qs us] that Cons by simp
    consider (double) after where "p = ''*''" "rest = ''*'' # after"
      | (star) "p = ''*''" "rest = [] \<or> hd rest \<noteq> ''*''" | (other) "p \<noteq> ''*''" by (cases rest) auto
    then show ?thesis
    proof cases
      case double
      then have plain: "\<not> (after \<noteq> [] \<and> hd after = ''/'')" "\<not> dir_stars after"
        using less.prems(1) Cons dir_stars_here [of "tl after"] dir_stars_Cons by (cases after; fastforce)+
      then have "list_ex (glob_chars after) (tails ts) \<or> glob_chars after ts"
        using less.prems(2) Cons double by (auto simp: Let_def)
      then obtain skipped kept where "ts = skipped @ kept" "glob_chars after kept"
        unfolding list_ex_tails by (metis append_Nil)
      with IH [of after kept] double plain Cons show ?thesis by (auto intro: globs.across)
    next
      case star
      then have "\<not> dir_stars rest"
        using less.prems(1) Cons dir_stars_Cons by blast
      moreover have "list_ex (glob_chars rest) (segment_tails ts)"
        using less.prems(2) Cons star by auto
      ultimately show ?thesis
        unfolding list_ex_segment_tails using IH [of rest] Cons star globs.within by blast
    next
      case other
      then have "\<not> dir_stars rest"
        using less.prems(1) Cons dir_stars_Cons by blast
      with less.prems(2) Cons IH [of rest "tl ts"] other show ?thesis
        by (auto simp: globs_other split: if_splits)
    qed
  qed
qed

text \<open>
  C40: the glob matcher decides the documented language of a pattern in which no \<open>**\<close> stands
  right before a slash: \<open>?\<close> is one character other than a slash, \<open>*\<close> any run of them, a
  \<open>**\<close> any text at all, and every other character itself. Of any other pattern too it matches every
  text of that language, and a pattern without wildcards matches its own text only.
\<close>

theorem glob_match_correct:
  "(globs (utf8_chars pattern) (utf8_chars text) \<longrightarrow> glob_match pattern text)
   \<and> (\<not> str_contains pattern ''**/'' \<longrightarrow>
        (glob_match pattern text \<longleftrightarrow> globs (utf8_chars pattern) (utf8_chars text)))
   \<and> (''*'' \<notin> set (utf8_chars pattern) \<and> ''?'' \<notin> set (utf8_chars pattern) \<longrightarrow>
        (glob_match pattern text \<longleftrightarrow> text = pattern))"
proof -
  have dir: "str_contains pattern ''**/''" if dir: "dir_stars (utf8_chars pattern)"
  proof -
    obtain before after where "utf8_chars pattern = before @ [''*'', ''*'', ''/''] @ after"
      using dir unfolding dir_stars_def by blast
    then have "pattern = concat before @ ''**/'' @ concat after"
      using concat_utf8_chars [of pattern] by simp
    then show ?thesis unfolding str_contains_iff by blast
  qed
  have plain: "globs ps ts \<longleftrightarrow> ts = ps" if "''*'' \<notin> set ps" "''?'' \<notin> set ps" for ps ts
    using that
  proof (induction ps arbitrary: ts)
    case Nil
    show ?case by (simp add: globs_Nil)
  next
    case (Cons p ps)
    then have "p \<noteq> ''*''" "p \<noteq> ''?''" "globs ps = (\<lambda>ts. ts = ps)" by auto
    then have "globs (p # ps) ts \<longleftrightarrow> ts \<noteq> [] \<and> hd ts = p \<and> tl ts = ps"
      using globs_other [of p ps ts] by simp
    then show ?case by (cases ts) simp_all
  qed
  have stars: "''*'' \<in> set ps" if "dir_stars ps" for ps
    using that unfolding dir_stars_def by auto
  show ?thesis
    unfolding glob_match_def
    using globs_glob_chars glob_chars_globs dir plain stars utf8_chars_inject by blast
qed

theorem glob_match_correct_witness:
  "glob_match ''src/**.rs'' ''src/a/b.rs'' \<and> \<not> glob_match ''src/*.rs'' ''src/a/b.rs''"
proof -
  have chars: "utf8_chars ''src/**.rs'' = [''s'', ''r'', ''c'', ''/'', ''*'', ''*'', ''.'', ''r'', ''s'']"
    "utf8_chars ''src/*.rs'' = [''s'', ''r'', ''c'', ''/'', ''*'', ''.'', ''r'', ''s'']"
    "utf8_chars ''src/a/b.rs'' = [''s'', ''r'', ''c'', ''/'', ''a'', ''/'', ''b'', ''.'', ''r'', ''s'']"
    by (simp_all add: is_continuation_def)
  have "globs (utf8_chars ''src/**.rs'') (utf8_chars ''src/a/b.rs'')"
    unfolding chars using globs.across [of "[''.'', ''r'', ''s'']" "[''.'', ''r'', ''s'']" "[''a'', ''/'', ''b'']"]
    by (simp add: globs.literal globs.finished)
  moreover have "\<not> globs (utf8_chars ''src/*.rs'') (utf8_chars ''src/a/b.rs'')"
    unfolding chars
    by (simp add: globs_other globs_star globs_Nil) (auto simp: Cons_eq_append_conv globs_other)
  moreover have "\<not> str_contains ''src/*.rs'' ''**/''"
    by code_simp
  ultimately show ?thesis
    using glob_match_correct [of "''src/**.rs''" "''src/a/b.rs''"]
      glob_match_correct [of "''src/*.rs''" "''src/a/b.rs''"] by blast
qed

text \<open>
  A \<open>**/\<close> in a pattern does not require a slash: \<open>**/x\<close> matches every text that ends in
  \<open>x\<close>, also in the middle of a path segment, although the documentation of the matcher calls
  everything but the wildcards literal.
\<close>

theorem glob_double_star_slash_not_literal:
  "glob_match ''**/x'' ''ax'' \<and> \<not> glob_match ''/x'' ''ax''"
  by (simp add: glob_match_def is_continuation_def tails_def)

section \<open>Which rules fire\<close>

definition is_stop :: "action \<Rightarrow> bool" where
  "is_stop a = (case a of StopRun _ \<Rightarrow> True | _ \<Rightarrow> False)"

text \<open>The outcome of a list of rules that all fire.\<close>

definition fired_outcome :: "rule_event \<Rightarrow> profile_ref \<Rightarrow> rule_outcome \<Rightarrow> rule \<Rightarrow> rule_outcome" where
  "fired_outcome event ref outcome r =
     fst (apply_action (outcome\<lparr>ro_fired := ro_fired outcome @ [\<lparr>fr_rule_id = rule_id r,
            fr_event = event, fr_action = action_name (rule_action r)\<rparr>]\<rparr>) r event ref)"

lemma fired_outcome_fields:
  "ro_fired (fired_outcome event ref outcome r) = ro_fired outcome @ [\<lparr>fr_rule_id = rule_id r,
     fr_event = event, fr_action = action_name (rule_action r)\<rparr>]"
  "ro_decision (fired_outcome event ref outcome r) = None \<longleftrightarrow>
     ro_decision outcome = None \<and> \<not> is_decision (rule_action r)"
  "ro_switch (fired_outcome event ref outcome r) = None \<longleftrightarrow>
     ro_switch outcome = None \<and> \<not> is_switch (rule_action r)"
  "ro_stop (fired_outcome event ref outcome r) = None \<longleftrightarrow>
     ro_stop outcome = None \<and> \<not> is_stop (rule_action r)"
  by (cases "rule_action r";
      auto simp: fired_outcome_def apply_action_def is_decision_def is_switch_def is_stop_def
        split: option.splits)+

lemma apply_action_proceeds: "snd (apply_action outcome r event ref) \<longleftrightarrow> \<not> is_stop (rule_action r)"
  by (cases "rule_action r") (auto simp: apply_action_def is_stop_def split: option.splits)

lemma evaluate_rules_Cons:
  "evaluate_rules ext event tool ref (r # rs) b outcome =
     (if \<not> rule_may_fire ext b r tool outcome then evaluate_rules ext event tool ref rs b outcome
      else if is_stop (rule_action r) then (fire_rule b r, fired_outcome event ref outcome r)
      else evaluate_rules ext event tool ref rs (fire_rule b r) (fired_outcome event ref outcome r))"
proof -
  let ?o = "outcome\<lparr>ro_fired := ro_fired outcome @ [\<lparr>fr_rule_id = rule_id r,
      fr_event = event, fr_action = action_name (rule_action r)\<rparr>]\<rparr>"
  obtain o' go where "apply_action ?o r event ref = (o', go)" by fastforce
  then show ?thesis
    using apply_action_proceeds [of ?o r event ref] by (simp add: fired_outcome_def Let_def)
qed

declare evaluate_rules.simps(2) [simp del]

lemma fire_rule_fields [simp]:
  "bs_profile (fire_rule b r) = bs_profile b" "bs_library (fire_rule b r) = bs_library b"
  "bs_run (fire_rule b r) = (bs_run b)\<lparr>rc_fired := rc_fired (bs_run (fire_rule b r))\<rparr>"
  "fired_count (bs_run (fire_rule b r)) i =
     (if i = rule_id r then fired_count (bs_run b) i + 1 else fired_count (bs_run b) i)"
  by (simp_all add: fire_rule_def)

lemma evaluate_rules_fired:
  assumes "evaluate_rules ext event tool ref rs b outcome = (b', outcome')"
  shows "\<exists>fs. subseq fs rs \<and> outcome' = foldl (fired_outcome event ref) outcome fs
    \<and> b' = foldl fire_rule b fs
    \<and> length (filter (is_decision \<circ> rule_action) fs) \<le> (if ro_decision outcome = None then 1 else 0)
    \<and> length (filter (is_switch \<circ> rule_action) fs) \<le> (if ro_switch outcome = None then 1 else 0)
    \<and> (\<forall>r \<in> set (butlast fs). \<not> is_stop (rule_action r))"
  using assms
proof (induction rs arbitrary: b outcome)
  case (Cons r rs)
  show ?case
  proof (cases "rule_may_fire ext b r tool outcome")
    case False
    with Cons.prems Cons.IH [of b outcome] show ?thesis
      by (auto simp: evaluate_rules_Cons intro: list_emb_Cons)
  next
    case True
    let ?o = "fired_outcome event ref outcome r"
    note fields = fired_outcome_fields(2,3) [of event ref outcome r]
    have once: "is_decision (rule_action r) \<Longrightarrow> ro_decision outcome = None"
        "is_switch (rule_action r) \<Longrightarrow> ro_switch outcome = None"
      using True unfolding rule_may_fire_def already_decided_def by blast+
    show ?thesis
    proof (cases "is_stop (rule_action r)")
      case stop: True
      with True Cons.prems once show ?thesis
        by (intro exI [of _ "[r]"])
           (auto simp: evaluate_rules_Cons is_stop_def is_decision_def is_switch_def split: action.splits)
    next
      case False
      with True Cons.prems have "evaluate_rules ext event tool ref rs (fire_rule b r) ?o = (b', outcome')"
        by (simp add: evaluate_rules_Cons)
      from Cons.IH [OF this] obtain fs where
        fs: "subseq fs rs" "outcome' = foldl (fired_outcome event ref) ?o fs"
          "b' = foldl fire_rule (fire_rule b r) fs"
          "length (filter (is_decision \<circ> rule_action) fs) \<le> (if ro_decision ?o = None then 1 else 0)"
          "length (filter (is_switch \<circ> rule_action) fs) \<le> (if ro_switch ?o = None then 1 else 0)"
          "\<forall>r \<in> set (butlast fs). \<not> is_stop (rule_action r)"
        by blast
      with False fields once show ?thesis
        by (intro exI [of _ "r # fs"]) (auto simp: o_def split: if_splits)
    qed
  qed
next
  case Nil
  then show ?case by (intro exI [of _ "[]"]) simp
qed

text \<open>
  Evaluating an event fires some of the profile's rules for that event, in their order,
  each recorded once; at most one of them decides about the tool call and at most one switches
  the profile, and a rule that stops the run is the last to fire. The outcome and the firing
  counters are exactly those of the rules that fired, so the first decision wins.
\<close>

theorem evaluate_fires_in_order:
  "case evaluate ext b event tool of (b', outcome) \<Rightarrow>
     \<exists>fs. subseq fs (filter (\<lambda>r. rule_on r = event) (bp_rules (cp_profile (bs_profile b))))
       \<and> map fr_rule_id (ro_fired outcome) = map rule_id fs
       \<and> b' = foldl fire_rule b fs
       \<and> outcome = foldl (fired_outcome event (bs_reference b)) default_outcome fs
       \<and> length (filter (is_decision \<circ> rule_action) fs) \<le> 1
       \<and> length (filter (is_switch \<circ> rule_action) fs) \<le> 1
       \<and> (ro_decision outcome \<noteq> None \<longleftrightarrow> list_ex (is_decision \<circ> rule_action) fs)
       \<and> (ro_stop outcome \<noteq> None \<longleftrightarrow> fs \<noteq> [] \<and> is_stop (rule_action (last fs)))"
proof -
  obtain b' outcome where ev: "evaluate ext b event tool = (b', outcome)" by fastforce
  from evaluate_rules_fired [OF ev [unfolded evaluate_def]] obtain fs where
    fs: "subseq fs (filter (\<lambda>r. rule_on r = event) (bp_rules (cp_profile (bs_profile b))))"
      "outcome = foldl (fired_outcome event (bs_reference b)) default_outcome fs"
      "b' = foldl fire_rule b fs"
      "length (filter (is_decision \<circ> rule_action) fs) \<le> 1"
      "length (filter (is_switch \<circ> rule_action) fs) \<le> 1"
      "\<forall>r \<in> set (butlast fs). \<not> is_stop (rule_action r)"
    by (auto simp: default_outcome_def)
  have "map fr_rule_id (ro_fired (foldl (fired_outcome event ref) start fs))
          = map fr_rule_id (ro_fired start) @ map rule_id fs"
      "ro_decision (foldl (fired_outcome event ref) start fs) = None \<longleftrightarrow>
         ro_decision start = None \<and> \<not> list_ex (is_decision \<circ> rule_action) fs"
      "ro_stop (foldl (fired_outcome event ref) start fs) = None \<longleftrightarrow>
         ro_stop start = None \<and> \<not> list_ex (is_stop \<circ> rule_action) fs" for ref start
    by (induction fs arbitrary: start) (simp_all add: fired_outcome_fields)
  moreover have "list_ex (is_stop \<circ> rule_action) fs \<longleftrightarrow> fs \<noteq> [] \<and> is_stop (rule_action (last fs))"
    using fs(6) by (induction fs) (auto split: if_splits)
  ultimately have "map fr_rule_id (ro_fired outcome) = map rule_id fs
      \<and> (ro_decision outcome \<noteq> None \<longleftrightarrow> list_ex (is_decision \<circ> rule_action) fs)
      \<and> (ro_stop outcome \<noteq> None \<longleftrightarrow> fs \<noteq> [] \<and> is_stop (rule_action (last fs)))"
    unfolding fs(2) by (simp add: default_outcome_def)
  with fs ev show ?thesis by auto
qed

section \<open>Firing limits hold for every run\<close>

text \<open>
  A run as its rules see it: fresh counters, any number of evaluations, and steps in between
  that leave profile and firing counters alone. \<open>log\<close> lists the identifiers that fired.
\<close>

inductive rule_run :: "externals \<Rightarrow> behavior_state \<Rightarrow> string list \<Rightarrow> behavior_state \<Rightarrow> bool"
  for ext b0 where
  start: "rule_run ext b0 [] (reset_run b0)"
| evaluated: "rule_run ext b0 log b \<Longrightarrow> evaluate ext b event tool = (b', outcome) \<Longrightarrow>
    rule_run ext b0 (log @ map fr_rule_id (ro_fired outcome)) b'"
| between: "rule_run ext b0 log b \<Longrightarrow> bs_profile b' = bs_profile b \<Longrightarrow>
    rc_fired (bs_run b') = rc_fired (bs_run b) \<Longrightarrow> rule_run ext b0 log b'"

definition fires_kept :: "rule list \<Rightarrow> string list \<Rightarrow> behavior_state \<Rightarrow> bool" where
  "fires_kept rs log b \<longleftrightarrow> (\<forall>r \<in> set rs. \<forall>m. rule_max_fires r = Some m \<longrightarrow>
     unat (fired_count (bs_run b) (rule_id r)) = count_list log (rule_id r)
     \<and> fired_count (bs_run b) (rule_id r) \<le> m)"

lemma fire_keeps:
  assumes "fires_kept rs log b" and "distinct (map rule_id rs)" and "r \<in> set rs"
    and "rule_may_fire ext b r tool outcome"
  shows "fires_kept rs (log @ [rule_id r]) (fire_rule b r)"
  unfolding fires_kept_def
proof (intro ballI allI impI)
  fix q m assume q: "q \<in> set rs" "rule_max_fires q = Some m"
  show "unat (fired_count (bs_run (fire_rule b r)) (rule_id q)) = count_list (log @ [rule_id r]) (rule_id q)
      \<and> fired_count (bs_run (fire_rule b r)) (rule_id q) \<le> m"
  proof (cases "rule_id q = rule_id r")
    case True
    then have "q = r" using assms(2,3) q(1) by (metis distinct_map inj_onD)
    then have "fired_count (bs_run b) (rule_id r) < m"
      using assms(4) q(2) by (auto simp: rule_may_fire_def not_le)
    then show ?thesis
      using assms(1) q \<open>q = r\<close> word_Suc_no_wrap [of "fired_count (bs_run b) (rule_id r)" m]
      by (auto simp: fires_kept_def word_le_nat_alt word_less_nat_alt simp del: fire_rule_fields(3))
  next
    case False
    then show ?thesis using assms(1) q by (auto simp: fires_kept_def simp del: fire_rule_fields(3))
  qed
qed

lemma evaluate_rules_keeps:
  assumes "evaluate_rules ext event tool ref qs b outcome = (b', outcome')"
    and "fires_kept rs (log @ map fr_rule_id (ro_fired outcome)) b"
    and "distinct (map rule_id rs)" and "set qs \<subseteq> set rs"
  shows "fires_kept rs (log @ map fr_rule_id (ro_fired outcome')) b' \<and> bs_profile b' = bs_profile b"
  using assms
proof (induction qs arbitrary: b outcome)
  case (Cons q qs)
  show ?case
  proof (cases "rule_may_fire ext b q tool outcome")
    case True
    let ?o = "fired_outcome event ref outcome q"
    have "fires_kept rs (log @ map fr_rule_id (ro_fired ?o)) (fire_rule b q)"
      using fire_keeps [OF Cons.prems(2,3) _ True] Cons.prems(4)
      by (simp add: fired_outcome_fields)
    with True Cons.prems Cons.IH [of "fire_rule b q" ?o] show ?thesis
      by (auto simp: evaluate_rules_Cons split: if_splits)
  qed (use Cons in \<open>simp add: evaluate_rules_Cons\<close>)
qed simp

lemma rule_run_keeps:
  assumes "rule_run ext b0 log b" and "distinct (map rule_id (bp_rules (cp_profile (bs_profile b0))))"
  shows "bs_profile b = bs_profile b0 \<and> fires_kept (bp_rules (cp_profile (bs_profile b0))) log b"
  using assms(1)
proof (induction rule: rule_run.induct)
  case start
  then show ?case by (simp add: reset_run_def default_counters_def fires_kept_def)
next
  case (evaluated log b event tool b' outcome)
  then show ?case
    using evaluate_rules_keeps [of ext event tool "bs_reference b" _ b default_outcome b' outcome
        "bp_rules (cp_profile (bs_profile b0))" log] assms(2)
    by (simp add: evaluate_def default_outcome_def)
qed (simp add: fires_kept_def)

text \<open>
  In a run under a compiled profile a rule fires at most \<open>max_fires\<close> times, over any
  sequence of events, and its counter is the number of times it really fired.
\<close>

theorem max_fires_enforced:
  assumes "rule_run ext b0 log b"
    and "compile ext (cp_profile (bs_profile b0)) = Inr (bs_profile b0)"
    and "r \<in> set (bp_rules (cp_profile (bs_profile b0)))" and "rule_max_fires r = Some m"
  shows "count_list log (rule_id r) \<le> unat m
    \<and> unat (fired_count (bs_run b) (rule_id r)) = count_list log (rule_id r)"
  using rule_run_keeps [OF assms(1)] assms(2-4)
  by (auto simp: compile_Inr_iff profile_fits_def fires_kept_def word_le_nat_alt)

definition once_rule :: rule where
  "once_rule = \<lparr>rule_id = ''A'', rule_on = RunStart, rule_when = None, rule_action = StopRun ''B'',
     rule_max_fires = Some 1, rule_metadata = JNull\<rparr>"

definition once_profile :: compiled_profile where
  "once_profile = \<lparr>cp_profile = (example_profile ''A'')\<lparr>bp_rules := [once_rule]\<rparr>,
     cp_content_hash = content_hash (ext_profile_to_vec example_externals
       ((example_profile ''A'')\<lparr>bp_rules := [once_rule]\<rparr>))\<rparr>"

lemma once_profile_compiles: "compile example_externals (cp_profile once_profile) = Inr once_profile"
proof -
  have "\<not> blank ''A''" "\<not> blank ''B''"
    by (simp_all add: blank_def trim_def trim_matches_def trim_chars_def is_continuation_def
        is_whitespace_def code_bytes_def)
  then have "profile_fits example_externals (cp_profile once_profile)"
    using example_profile_fits [of "''A''" example_externals]
    by (simp add: profile_fits_def once_profile_def rule_fits_def once_rule_def)
  then show ?thesis by (simp add: compile_Inr_iff once_profile_def)
qed

theorem max_fires_enforced_witness:
  "\<exists>log b. rule_run example_externals (behavior_new example_externals once_profile) log b
     \<and> count_list log ''A'' \<le> unat (1 :: u32)"
proof -
  let ?b = "behavior_new example_externals once_profile"
  have "count_list [] (rule_id once_rule) \<le> unat (1 :: u32)"
    using max_fires_enforced [OF rule_run.start [of example_externals ?b], of once_rule 1]
      once_profile_compiles
    by (simp add: behavior_new_def once_profile_def once_rule_def)
  moreover have "rule_run example_externals ?b [] (reset_run ?b)" by (rule rule_run.start)
  ultimately show ?thesis by (auto simp: once_rule_def)
qed

end
