(* ===== verification/Agent_State.thy ===== *)
theory Agent_State
  imports Usage_Ledger Transcript Behavior_Rules
begin

text \<open>
  The agent entity (\<open>agent-core/src/agent.rs\<close>, \<open>agent_state.rs\<close>) and the operations every
  transition builds on: identifiers and timestamps (\<open>transitions/ids.rs\<close>), the assembly of
  assistant messages (\<open>assistant_text.rs\<close>), failing a run (\<open>lifecycle.rs\<close>) and the children
  of an agent (\<open>children.rs\<close>). An operation on \<open>&mut self\<close> is a function from the agent to the
  agent and the effects.
\<close>

section \<open>State (agent.rs, agent_state.rs)\<close>

record pending_tool_call =
  pt_call :: tool_call
  pt_started_at :: timestamp

record agent_state =
  st_status :: agent_status
  st_current_operation :: "agent_operation option"
  st_system_prompt :: string
  st_execution_params :: execution_params
  st_messages :: "agent_message list"
  st_context :: agent_context_state
  st_active_run :: "run_id option"
  st_backend_in_flight :: bool
  st_queued_inputs :: "user_input list"
  st_pending_tools :: "(tool_call_id, pending_tool_call) hash_map"
  st_pending_permissions :: "(permission_id, tool_call_id) hash_map"
  st_children :: "agent_id list"
  st_last_error :: "agent_error option"
  st_consecutive_tool_timeouts :: u32
  st_transition_sequence :: u64
  st_depth :: u32
  st_behavior :: behavior_state
  st_pending_profile :: "(compiled_profile \<times> profile_registry) option"

record 'd agent =
  ag_id :: agent_id
  ag_session_id :: session_id
  ag_parent_id :: "agent_id option"
  ag_state :: agent_state
  ag_backend :: backend_binding
  ag_capabilities :: agent_capabilities
  ag_usage :: "'d usage_ledger"
  ag_budget :: "'d agent_budget"

type_synonym 'd step = "'d agent \<times> 'd agent_effect list"

text \<open>
  What the transitions call in other packages, on top of the functions of the behavior layer:
  decimal addition, printing of identifiers, \<open>chrono\<close>'s conversions, reading a profile
  document, writing an evaluator and the derived debug output of a backend error.
\<close>

record 'd agent_externals =
  ax_behavior :: externals
  ax_dec_add :: "'d \<Rightarrow> 'd \<Rightarrow> 'd"
  ax_fmt_uuid :: "uuid \<Rightarrow> string"
  ax_from_timestamp :: "int \<Rightarrow> timestamp option"
  ax_max_utc :: timestamp
  ax_rfc3339 :: "timestamp \<Rightarrow> string"
  ax_profile_from_value :: "json \<Rightarrow> behavior_profile option"
  ax_evaluator_to_value :: "evaluator_spec \<Rightarrow> string + json"
  ax_fmt_execution_error :: "execution_error \<Rightarrow> string"

definition agent_new ::
    "'d agent_externals \<Rightarrow> agent_id \<Rightarrow> session_id \<Rightarrow> agent_id option \<Rightarrow> u32 \<Rightarrow> string
      \<Rightarrow> backend_binding \<Rightarrow> agent_capabilities \<Rightarrow> 'd agent_budget \<Rightarrow> 'd agent" where
  "agent_new ax i session parent depth prompt backend capabilities budget = \<lparr>
     ag_id = i, ag_session_id = session, ag_parent_id = parent,
     ag_state = \<lparr>st_status = Idle, st_current_operation = None, st_system_prompt = prompt,
       st_execution_params = default_params, st_messages = [], st_context = default_context_state,
       st_active_run = None, st_backend_in_flight = False, st_queued_inputs = [],
       st_pending_tools = [], st_pending_permissions = [], st_children = [],
       st_last_error = None, st_consecutive_tool_timeouts = 0, st_transition_sequence = 0,
       st_depth = depth, st_behavior = behavior_default (ax_behavior ax),
       st_pending_profile = None\<rparr>,
     ag_backend = backend, ag_capabilities = capabilities, ag_usage = default_ledger,
     ag_budget = budget\<rparr>"

definition is_root :: "'d agent \<Rightarrow> bool" where
  "is_root a \<longleftrightarrow> ag_parent_id a = None"

abbreviation upd_state :: "(agent_state \<Rightarrow> agent_state) \<Rightarrow> 'd agent \<Rightarrow> 'd agent" where
  "upd_state f a \<equiv> a\<lparr>ag_state := f (ag_state a)\<rparr>"

abbreviation set_status :: "agent_status \<Rightarrow> 'd agent \<Rightarrow> 'd agent" where
  "set_status status a \<equiv> upd_state (\<lambda>s. s\<lparr>st_status := status\<rparr>) a"

abbreviation upd_behavior :: "(behavior_state \<Rightarrow> behavior_state) \<Rightarrow> 'd agent \<Rightarrow> 'd agent" where
  "upd_behavior f a \<equiv> upd_state (\<lambda>s. s\<lparr>st_behavior := f (st_behavior s)\<rparr>) a"

abbreviation status :: "'d agent \<Rightarrow> agent_status" where
  "status a \<equiv> st_status (ag_state a)"

abbreviation messages :: "'d agent \<Rightarrow> agent_message list" where
  "messages a \<equiv> st_messages (ag_state a)"

abbreviation active_run :: "'d agent \<Rightarrow> run_id option" where
  "active_run a \<equiv> st_active_run (ag_state a)"

abbreviation pending_tools :: "'d agent \<Rightarrow> (tool_call_id, pending_tool_call) hash_map" where
  "pending_tools a \<equiv> st_pending_tools (ag_state a)"

abbreviation behavior :: "'d agent \<Rightarrow> behavior_state" where
  "behavior a \<equiv> st_behavior (ag_state a)"

section \<open>Identifiers and timestamps (ids.rs)\<close>

definition take_sequence :: "'d agent \<Rightarrow> 'd agent \<times> u64" where
  "take_sequence a =
     (let current = st_transition_sequence (ag_state a)
      in (upd_state (\<lambda>s. s\<lparr>st_transition_sequence := saturating_add current 1\<rparr>) a, current))"

definition next_id :: "u64 \<Rightarrow> 'd agent \<Rightarrow> 'd agent \<times> uuid" where
  "next_id namespace a = (let (a, s) = take_sequence a in (a, derived (ag_id a) s namespace))"

definition next_run_id :: "'d agent \<Rightarrow> 'd agent \<times> run_id" where
  "next_run_id a = next_id 1 a"

definition next_request_id :: "'d agent \<Rightarrow> 'd agent \<times> request_id" where
  "next_request_id a = next_id 2 a"

definition next_message_id :: "'d agent \<Rightarrow> 'd agent \<times> message_id" where
  "next_message_id a = next_id 3 a"

definition next_permission_id :: "'d agent \<Rightarrow> 'd agent \<times> permission_id" where
  "next_permission_id a = next_id 4 a"

definition next_timestamp :: "'d agent_externals \<Rightarrow> 'd agent \<Rightarrow> 'd agent \<times> timestamp" where
  "next_timestamp ax a =
     (let (a, s) = take_sequence a
      in (a, timestamp_from_sequence (ax_from_timestamp ax) (ax_max_utc ax) s))"

text \<open>A new message at the end of the transcript: identifier first, then the timestamp.\<close>

definition push_message ::
    "'d agent_externals \<Rightarrow> message_role \<Rightarrow> content_block list \<Rightarrow> 'd agent \<Rightarrow> 'd agent \<times> message_id" where
  "push_message ax role content a =
     (let (a, mid) = next_message_id a; (a, created_at) = next_timestamp ax a
      in (upd_state (\<lambda>s. s\<lparr>st_messages := st_messages s @
            [\<lparr>msg_id = mid, msg_role = role, msg_content = content, msg_created_at = created_at\<rparr>]\<rparr>) a,
          mid))"

section \<open>Assistant messages (assistant_text.rs)\<close>

definition MAX_ASSISTANT_TEXT_BYTES :: nat where
  "MAX_ASSISTANT_TEXT_BYTES = 4 * 1024 * 1024"

definition TRUNCATION_MARKER :: string where
  "TRUNCATION_MARKER = newline @ ''... (truncated, exceeds assistant message size limit)''"

text \<open>The loop that backs up to a character boundary.\<close>

fun boundary_cut :: "string \<Rightarrow> nat \<Rightarrow> nat" where
  "boundary_cut delta 0 = 0"
| "boundary_cut delta (Suc k) =
     (if is_char_boundary delta (Suc k) then Suc k else boundary_cut delta k)"

definition push_bounded :: "string \<Rightarrow> string \<Rightarrow> string" where
  "push_bounded txt delta =
     (if delta = [] then txt
      else if suffix TRUNCATION_MARKER txt then txt
      else if length txt \<ge> MAX_ASSISTANT_TEXT_BYTES then txt @ TRUNCATION_MARKER
      else
        (let remaining = MAX_ASSISTANT_TEXT_BYTES - length txt
         in if length delta \<le> remaining then txt @ delta
            else txt @ take (boundary_cut delta remaining) delta @ TRUNCATION_MARKER))"

text \<open>The trailing assistant message, and the transcript with it replaced.\<close>

definition trailing_assistant_message :: "'d agent \<Rightarrow> agent_message option" where
  "trailing_assistant_message a =
     (if messages a \<noteq> [] \<and> msg_role (last (messages a)) = Role_Assistant
      then Some (last (messages a)) else None)"

definition upd_last_message :: "(agent_message \<Rightarrow> agent_message) \<Rightarrow> 'd agent \<Rightarrow> 'd agent" where
  "upd_last_message f a =
     upd_state (\<lambda>s. s\<lparr>st_messages := butlast (st_messages s) @ [f (last (st_messages s))]\<rparr>) a"

definition is_text :: "content_block \<Rightarrow> bool" where
  "is_text b = (case b of Text _ \<Rightarrow> True | _ \<Rightarrow> False)"

fun push_first_text :: "string \<Rightarrow> content_block list \<Rightarrow> content_block list" where
  "push_first_text delta [] = []"
| "push_first_text delta (Text txt # blocks) = Text (push_bounded txt delta) # blocks"
| "push_first_text delta (b # blocks) = b # push_first_text delta blocks"

definition append_assistant_text ::
    "'d agent_externals \<Rightarrow> string \<Rightarrow> 'd agent \<Rightarrow> 'd agent \<times> message_id" where
  "append_assistant_text ax delta a =
     (let fresh = push_message ax Role_Assistant [Text (push_bounded [] delta)] a
      in case trailing_assistant_message a of
           Some message \<Rightarrow>
             if list_ex is_text (msg_content message)
             then (upd_last_message (\<lambda>m. m\<lparr>msg_content := push_first_text delta (msg_content m)\<rparr>) a,
                   msg_id message)
             else if \<not> list_ex (\<lambda>b. tool_use_id b \<noteq> None) (msg_content message)
             then (upd_last_message
                     (\<lambda>m. m\<lparr>msg_content := msg_content m @ [Text (push_bounded [] delta)]\<rparr>) a,
                   msg_id message)
             else fresh
         | None \<Rightarrow> fresh)"

definition assistant_message_id :: "'d agent_externals \<Rightarrow> 'd agent \<Rightarrow> 'd agent \<times> message_id" where
  "assistant_message_id ax a =
     (case trailing_assistant_message a of
        Some message \<Rightarrow> (a, msg_id message)
      | None \<Rightarrow> push_message ax Role_Assistant [] a)"

definition push_tool_use :: "'d agent_externals \<Rightarrow> tool_call \<Rightarrow> 'd agent \<Rightarrow> 'd agent \<times> message_id" where
  "push_tool_use ax call a =
     (let fresh = push_message ax Role_Assistant [ToolUse call] a
      in case trailing_assistant_message a of
           Some message \<Rightarrow>
             if msg_content message = []
             then (upd_last_message (\<lambda>m. m\<lparr>msg_content := msg_content m @ [ToolUse call]\<rparr>) a,
                   msg_id message)
             else fresh
         | None \<Rightarrow> fresh)"

definition discard_trailing_empty :: "'d agent \<Rightarrow> 'd agent" where
  "discard_trailing_empty a =
     (if is_some_and (\<lambda>m. msg_content m = []) (trailing_assistant_message a)
      then upd_state (\<lambda>s. s\<lparr>st_messages := butlast (st_messages s)\<rparr>) a else a)"

section \<open>Lifecycle and usage (lifecycle.rs, children.rs)\<close>

definition state_changed :: "agent_status \<Rightarrow> agent_status \<Rightarrow> 'd agent_effect" where
  "state_changed from to = Emit (StateChanged from to)"

definition terminal_usage_summary :: "'d agent_externals \<Rightarrow> 'd agent \<Rightarrow> 'd agent_usage_summary" where
  "terminal_usage_summary ax a =
     compute_agent_usage_summary (ax_dec_add ax) (self_metrics (ax_dec_add ax) (ag_usage a))
       (map snd (ul_child_usage (ag_usage a)))"

definition count_run :: "'d agent \<Rightarrow> 'd agent" where
  "count_run a = a\<lparr>ag_usage := (ag_usage a)\<lparr>ul_runs := saturating_add (ul_runs (ag_usage a)) 1\<rparr>\<rparr>"

definition fail_run :: "'d agent_externals \<Rightarrow> string \<Rightarrow> string \<Rightarrow> 'd agent \<Rightarrow> 'd step" where
  "fail_run ax code message a =
     (let a = discard_trailing_empty a;
          from = status a;
          error = \<lparr>err_message = message, err_code = code, err_details = None\<rparr>;
          a = upd_state (\<lambda>s. s\<lparr>st_status := Failed, st_active_run := None,
                st_backend_in_flight := False, st_last_error := Some error\<rparr>) a;
          a = count_run a
      in (a, [state_changed from Failed, Emit (Ev_Failed error),
              FinishRun \<lparr>res_summary = message, res_usage = terminal_usage_summary ax a,
                         res_gate_passed = None\<rparr>]))"

definition finish_success ::
    "'d agent_externals \<Rightarrow> string \<Rightarrow> bool option \<Rightarrow> 'd agent \<Rightarrow> 'd step" where
  "finish_success ax summary gate_passed a =
     (let from = status a;
          a = count_run (upd_state (\<lambda>s. s\<lparr>st_status := Idle, st_active_run := None\<rparr>) a)
      in (a, [state_changed from Idle, Emit (Ev_Completed Outcome_Success),
              FinishRun \<lparr>res_summary = summary, res_usage = terminal_usage_summary ax a,
                         res_gate_passed = gate_passed\<rparr>]))"

definition child_settled :: "agent_id \<Rightarrow> agent_outcome \<Rightarrow> 'd agent \<Rightarrow> 'd step" where
  "child_settled agent_id outcome a =
     (let effects = [Emit (ChildAgentCompleted agent_id outcome)]
      in if st_children (ag_state a) = [] \<and> status a = WaitingForChildren
         then (set_status Idle a, effects @ [Emit (StateChanged WaitingForChildren Idle)])
         else (a, effects))"

definition child_completed :: "agent_id \<Rightarrow> 'd agent_result \<Rightarrow> 'd agent \<Rightarrow> 'd step" where
  "child_completed agent_id result a =
     (let a = upd_state (\<lambda>s. s\<lparr>st_children := filter (\<lambda>c. c \<noteq> agent_id) (st_children s)\<rparr>) a;
          a = a\<lparr>ag_usage := add_child_summary agent_id (res_usage result) (ag_usage a)\<rparr>
      in child_settled agent_id Outcome_Success a)"

definition child_failed :: "agent_id \<Rightarrow> agent_error \<Rightarrow> 'd agent \<Rightarrow> 'd step" where
  "child_failed agent_id error a =
     child_settled agent_id Outcome_Failed
       (upd_state (\<lambda>s. s\<lparr>st_children := filter (\<lambda>c. c \<noteq> agent_id) (st_children s),
                         st_last_error := Some error\<rparr>) a)"

definition child_spawned :: "agent_id \<Rightarrow> bool \<Rightarrow> 'd agent \<Rightarrow> 'd step" where
  "child_spawned agent_id awaiting a =
     (let a = (if agent_id \<in> set (st_children (ag_state a)) then a
               else upd_state (\<lambda>s. s\<lparr>st_children := st_children s @ [agent_id]\<rparr>) a)
      in if \<not> awaiting \<or> status a = WaitingForChildren then (a, [])
         else (set_status WaitingForChildren a, [state_changed (status a) WaitingForChildren]))"

end
