(* ===== verification/Agent_Turns.thy ===== *)
theory Agent_Turns
  imports Agent_State
begin

text \<open>
  Installing and switching profiles and applying what rules decide
  (\<open>transitions/behavior_profile.rs\<close>), preparing a turn and its model request (\<open>turn.rs\<close>),
  starting and queueing runs (\<open>run_start.rs\<close>), and cancel, pause and resume (\<open>control.rs\<close>).
  A \<open>Result<Vec<AgentEffect>, Vec<AgentEffect>>\<close> is a sum with the failure effects on the left.
\<close>

type_synonym 'd attempt = "'d agent \<times> ('d agent_effect list + 'd agent_effect list)"

section \<open>Rule outcomes (behavior_profile.rs)\<close>

definition behavior_stop :: "'d agent_externals \<Rightarrow> rule_stop \<Rightarrow> 'd agent \<Rightarrow> 'd step" where
  "behavior_stop ax stop a =
     fail_run ax ''BEHAVIOR_STOP''
       (''stopped by rule '' @ stop_rule_id stop @ '': '' @ stop_reason stop) a"

definition push_pending_request :: "string \<Rightarrow> 'd agent \<Rightarrow> 'd agent" where
  "push_pending_request txt a =
     upd_behavior (upd_run (\<lambda>r. r\<lparr>rc_pending_request := rc_pending_request r @ [txt]\<rparr>)) a"

definition push_pending_result :: "tool_call_id \<Rightarrow> string \<Rightarrow> 'd agent \<Rightarrow> 'd agent" where
  "push_pending_result cid txt a =
     upd_behavior (upd_run (\<lambda>r. r\<lparr>rc_pending_results := rc_pending_results r @ [(cid, txt)]\<rparr>)) a"

text \<open>Where one injected text goes.\<close>

definition route_injection :: "tool_call_id option \<Rightarrow> injection \<Rightarrow> 'd agent \<Rightarrow> 'd agent" where
  "route_injection cid i a =
     (case (ij_placement i, cid) of
        (WithResult, Some cid) \<Rightarrow> push_pending_result cid (ij_text i) a
      | (Persistent, _) \<Rightarrow>
          if messages a \<noteq> [] \<and> msg_role (last (messages a)) = Role_User
          then upd_last_message (\<lambda>m. m\<lparr>msg_content := msg_content m @ [Text (ij_text i)]\<rparr>) a
          else a
      | _ \<Rightarrow> push_pending_request (ij_text i) a)"

definition char_count :: "string \<Rightarrow> u64" where
  "char_count txt = of_nat (length (utf8_chars txt))"

definition apply_rule_outcome :: "rule_outcome \<Rightarrow> tool_call_id option \<Rightarrow> 'd agent \<Rightarrow> 'd step" where
  "apply_rule_outcome ro cid a =
     (let profile = fmt_profile_ref (bs_reference (behavior a));
          fired = map (\<lambda>f. Emit (BehaviorRuleFired profile (fr_rule_id f) (event_name (fr_event f))
                         (fr_action f))) (ro_fired ro);
          a = fold (route_injection cid) (ro_injections ro) a;
          injected = map (\<lambda>i. Emit (ContextInjected
                         (''profile:'' @ profile @ '' rule:'' @ ij_rule_id i)
                         (placement_name (ij_placement i)) (char_count (ij_text i))))
                       (ro_injections ro);
          a = (case ro_switch ro of
                 Some (_, target) \<Rightarrow>
                   (case resolve_switch (behavior a) target of
                      Some c \<Rightarrow> upd_state (\<lambda>s. s\<lparr>st_pending_profile :=
                                 Some (c, bs_library (st_behavior s))\<rparr>) a
                    | None \<Rightarrow> a)
               | None \<Rightarrow> a)
      in (a, fired @ injected))"

section \<open>Switching profiles (behavior_profile.rs)\<close>

definition apply_switch ::
    "'d agent_externals \<Rightarrow> compiled_profile \<Rightarrow> profile_registry \<Rightarrow> 'd agent \<Rightarrow> 'd step" where
  "apply_switch ax profile library a =
     (let from = bs_reference (behavior a)
      in if cp_content_hash (bs_profile (behavior a)) = cp_content_hash profile
         then (upd_behavior (\<lambda>b. b\<lparr>bs_library := library\<rparr>) a, [])
         else
           (let a = upd_behavior (\<lambda>b. switched_to (ax_behavior ax) b profile library) a;
                changed = [Emit (ProfileChanged (fmt_profile_ref from)
                             (fmt_profile_ref (bs_reference (behavior a))))]
            in if active_run a \<noteq> None \<and> rc_switches (bs_run (behavior a)) > MAX_SWITCHES_PER_RUN
               then (let (a, failure) = fail_run ax ''BEHAVIOR_SWITCH_LOOP''
                           (''more than '' @ show_word MAX_SWITCHES_PER_RUN
                            @ '' profile switches in one run (last to ''
                            @ fmt_profile_ref (bs_reference (behavior a)) @ '')'') a
                     in (a, changed @ failure))
               else (a, changed)))"

text \<open>\<open>self.state.pending_profile.take()\<close> with the switch it causes.\<close>

definition take_pending_profile :: "'d agent_externals \<Rightarrow> 'd agent \<Rightarrow> 'd step" where
  "take_pending_profile ax a =
     (case st_pending_profile (ag_state a) of
        None \<Rightarrow> (a, [])
      | Some (profile, library) \<Rightarrow>
          apply_switch ax profile library (upd_state (\<lambda>s. s\<lparr>st_pending_profile := None\<rparr>) a))"

definition entered_rules :: "'d agent_externals \<Rightarrow> profile_ref \<Rightarrow> 'd agent \<Rightarrow> 'd attempt" where
  "entered_rules ax from a =
     (let (b, ro) = evaluate_entered (ax_behavior ax) (behavior a) (pref_id from);
          (a, effects) = apply_rule_outcome ro None (upd_behavior (\<lambda>_. b) a)
      in case ro_stop ro of
           Some stop \<Rightarrow> (let (a, failure) = behavior_stop ax stop a in (a, Inl (effects @ failure)))
         | None \<Rightarrow> (a, Inr effects))"

definition mode_change_text :: "'d agent \<Rightarrow> entered_from \<Rightarrow> string" where
  "mode_change_text a from =
     (let b = behavior a;
          tools = sort (filter (allows_tool (bs_profile b))
                    (map td_name (enabled_descriptors (cap_tools (ag_capabilities a)))))
      in ''Your operating mode changed from '' @ ef_name from @ '' to ''
         @ bp_name (cp_profile (bs_profile b)) @ ''. Tools available now: ''
         @ (if tools = [] then ''none'' else join '', '' tools)
         @ ''. Follow the instructions for this mode from here on.'')"

definition enter_profile :: "'d agent_externals \<Rightarrow> entered_from \<Rightarrow> 'd agent \<Rightarrow> 'd attempt" where
  "enter_profile ax from a =
     (if list_ex (\<lambda>m. msg_role m = Role_Assistant) (messages a) then
        (let source = ''profile:'' @ fmt_profile_ref (bs_reference (behavior a));
             reminder = system_reminder source (mode_change_text a from);
             (a, result) = entered_rules ax (ef_profile from) (push_pending_request reminder a)
         in case result of
              Inl failure \<Rightarrow> (a, Inl failure)
            | Inr effects \<Rightarrow>
                (a, Inr (Emit (ContextInjected source (placement_name NextRequest)
                          (char_count reminder)) # effects)))
      else entered_rules ax (ef_profile from) a)"

text \<open>\<open>install_bundle\<close>: documents that do not parse, compile or resolve give nothing.\<close>

definition install_bundle ::
    "'d agent_externals \<Rightarrow> json \<Rightarrow> json list \<Rightarrow> (compiled_profile \<times> profile_registry) option" where
  "install_bundle ax profile library =
     (case ax_profile_from_value ax profile of
        None \<Rightarrow> None
      | Some document \<Rightarrow>
          (case compile (ax_behavior ax) document of
             Inl _ \<Rightarrow> None
           | Inr compiled \<Rightarrow>
               (let parsed = map (ax_profile_from_value ax) library
                in if None \<in> set parsed then None
                   else case from_library (ax_behavior ax) (map the parsed @ [cp_profile compiled]) of
                     Inl _ \<Rightarrow> None
                   | Inr registry \<Rightarrow>
                       (case resolve_closure registry compiled of
                          Inl _ \<Rightarrow> None
                        | Inr _ \<Rightarrow> Some (compiled, registry)))))"

definition set_behavior_profile ::
    "'d agent_externals \<Rightarrow> json \<Rightarrow> json list \<Rightarrow> bool \<Rightarrow> 'd agent \<Rightarrow> 'd step" where
  "set_behavior_profile ax profile library allow_commands a =
     (let a = upd_behavior (\<lambda>b. b\<lparr>bs_commands_trusted := allow_commands\<rparr>) a
      in case install_bundle ax profile library of
           None \<Rightarrow> (a, [])
         | Some (compiled, registry) \<Rightarrow>
             if active_run a \<noteq> None
             then (upd_state (\<lambda>s. s\<lparr>st_pending_profile := Some (compiled, registry)\<rparr>) a, [])
             else apply_switch ax compiled registry a)"

section \<open>One turn (turn.rs)\<close>

definition append_text :: "string \<Rightarrow> agent_message \<Rightarrow> agent_message" where
  "append_text txt m = m\<lparr>msg_content := msg_content m @ [Text txt]\<rparr>"

fun append_to_last_result :: "string \<Rightarrow> content_block list \<Rightarrow> content_block list" where
  "append_to_last_result txt [] = []"
| "append_to_last_result txt (b # blocks) =
     (if list_ex (\<lambda>c. tool_result_id c \<noteq> None) blocks then b # append_to_last_result txt blocks
      else (case b of
              ToolResult c r \<Rightarrow> ToolResult c (r\<lparr>trs_output_preview :=
                trs_output_preview r @ newline @ newline @ txt\<rparr>) # blocks
            | _ \<Rightarrow> b # blocks))"

definition append_to_request_tail :: "string \<Rightarrow> agent_message list \<Rightarrow> agent_message list" where
  "append_to_request_tail txt ms =
     (if ms = [] then []
      else butlast ms @ [
        let m = last ms
        in if msg_role m = Role_Tool \<and> list_ex (\<lambda>c. tool_result_id c \<noteq> None) (msg_content m)
           then m\<lparr>msg_content := append_to_last_result txt (msg_content m)\<rparr>
           else append_text txt m])"

text \<open>The three parts of \<open>begin_turn\<close> after a pending profile: entry, limits, rules.\<close>

definition enter_switched :: "'d agent_externals \<Rightarrow> 'd agent \<Rightarrow> 'd attempt" where
  "enter_switched ax a =
     (let a' = upd_behavior (\<lambda>b. b\<lparr>bs_entered_from := None\<rparr>) a
      in case bs_entered_from (behavior a) of
           None \<Rightarrow> (a', Inr [])
         | Some from \<Rightarrow> enter_profile ax from a')"

definition before_request_rules :: "'d agent_externals \<Rightarrow> 'd agent \<Rightarrow> 'd attempt" where
  "before_request_rules ax a =
     (let (b, ro) = evaluate (ax_behavior ax) (behavior a) BeforeModelRequest None;
          (a, effects) = apply_rule_outcome ro None (upd_behavior (\<lambda>_. b) a)
      in case ro_stop ro of
           Some stop \<Rightarrow> (let (a, failure) = behavior_stop ax stop a in (a, Inl (effects @ failure)))
         | None \<Rightarrow> (a, Inr effects))"

definition agent_begin_turn :: "'d agent_externals \<Rightarrow> 'd agent \<Rightarrow> 'd attempt" where
  "agent_begin_turn ax a =
     (let pending = st_pending_profile (ag_state a);
          (a, switched) = take_pending_profile ax a
      in if pending \<noteq> None \<and> status a = Failed then (a, Inl switched)
         else
           (let (a, entry) = enter_switched ax a
            in case entry of
                 Inl failure \<Rightarrow> (a, Inl (switched @ failure))
               | Inr entered \<Rightarrow>
                   (let (b, plan) = begin_turn (behavior a);
                        a = upd_behavior (\<lambda>_. b) a
                    in if plan = Exceeded
                       then (let (a, failure) = fail_run ax ''BEHAVIOR_LIMIT_EXCEEDED''
                                   (''the model requested tools after its final turn under profile ''
                                    @ fmt_profile_ref (bs_reference (behavior a))) a
                             in (a, Inl failure))
                       else
                         (let (a, rules) = before_request_rules ax a;
                              after = (\<lambda>effects. switched @ entered @ effects)
                          in (a, map_sum after after rules)))))"

definition configure_execution :: "execution_params \<Rightarrow> 'd agent \<Rightarrow> 'd step" where
  "configure_execution params a =
     (upd_state (\<lambda>s. s\<lparr>st_execution_params := merge_over (st_execution_params s) params\<rparr>) a, [])"

text \<open>The tools a request offers: enabled by the session and admitted by the profile.\<close>

definition offered_tools :: "'d agent \<Rightarrow> tool_descriptor list" where
  "offered_tools a =
     (let profile = bs_profile (behavior a)
      in map (\<lambda>d. d\<lparr>td_description := tool_description profile (td_name d) (td_description d)\<rparr>)
           (filter (\<lambda>d. allows_tool profile (td_name d))
             (enabled_descriptors (cap_tools (ag_capabilities a)))))"

definition build_request ::
    "'d agent_externals \<Rightarrow> run_id \<Rightarrow> bool \<Rightarrow> 'd agent \<Rightarrow> 'd agent \<times> execution_request" where
  "build_request ax run_id reissue a =
     (let a = upd_state (\<lambda>s. s\<lparr>st_backend_in_flight := True\<rparr>) a;
          profile = bs_profile (behavior a);
          final_turn = rc_final_turn (bs_run (behavior a));
          tools = (if final_turn then [] else offered_tools a);
          a = (if final_turn then a else upd_behavior (\<lambda>b. note_offered b (map td_name tools)) a);
          params = execution_params_of profile (st_execution_params (ag_state a));
          prompt = system_prompt (ax_behavior ax) profile (st_system_prompt (ag_state a))
                     (ep_model params);
          a = (if reissue then a
               else upd_behavior (upd_run (\<lambda>r. r\<lparr>rc_last_request := rc_pending_request r,
                      rc_pending_request := []\<rparr>)) a);
          ms = fold append_to_request_tail (rc_last_request (bs_run (behavior a))) (messages a);
          ms = (case (final_turn, lim_final_turn_prompt (bp_limits (cp_profile profile))) of
                  (True, Some final_prompt) \<Rightarrow>
                    append_to_request_tail
                      (system_reminder (''profile:'' @ fmt_profile_ref (reference profile)) final_prompt)
                      ms
                | _ \<Rightarrow> ms);
          (a, request_id) = next_request_id a
      in (a, \<lparr>req_request_id = request_id, req_run_id = run_id, req_system_prompt = prompt,
              req_messages = ms, req_tools = tools,
              req_extended_thinking = unwrap_or False (ep_extended_thinking params),
              req_params = params\<rparr>))"

definition agent_execution_request ::
    "'d agent_externals \<Rightarrow> run_id \<Rightarrow> 'd agent \<Rightarrow> 'd agent \<times> execution_request" where
  "agent_execution_request ax run_id a = build_request ax run_id False a"

section \<open>Starting a run (run_start.rs)\<close>

definition MAX_ATTACHMENT_BYTES :: nat where
  "MAX_ATTACHMENT_BYTES = 10 * 1024 * 1024"

fun validate_attachments :: "nat \<Rightarrow> attachment list \<Rightarrow> string + unit" where
  "validate_attachments index [] = Inr ()"
| "validate_attachments index (attachment # rest) =
     (if length (att_data attachment) > MAX_ATTACHMENT_BYTES
      then Inl (''attachment '' @ show_nat index @ '' ('' @ show_nat (length (att_data attachment))
                @ '' bytes, '' @ att_mime_type attachment @ '') exceeds the ''
                @ show_nat MAX_ATTACHMENT_BYTES @ ''-byte limit'')
      else validate_attachments (Suc index) rest)"

definition attachment_to_content_block :: "attachment \<Rightarrow> content_block" where
  "attachment_to_content_block attachment =
     (if prefix ''image/'' (att_mime_type attachment)
      then Image (att_mime_type attachment) (att_data attachment)
      else Text (''[attachment: '' @ show_nat (length (att_data attachment)) @ '' bytes, ''
                 @ att_mime_type attachment @ '' '' @ [CHR 0xE2, CHR 0x80, CHR 0x94]
                 @ '' non-image attachments are not yet forwarded as model input]''))"

definition fmt_transcript_error :: "(uuid \<Rightarrow> string) \<Rightarrow> transcript_error \<Rightarrow> string" where
  "fmt_transcript_error fmt e =
     (case e of
        DanglingToolCall c \<Rightarrow> ''Dangling unresolved tool call: '' @ fmt c
      | OrphanToolResult c \<Rightarrow> ''Tool result '' @ fmt c @ '' without preceding tool call''
      | OutOfOrderToolResult c \<Rightarrow>
          ''Tool result '' @ fmt c @ '' appears before the assistant message that made the call''
      | UnresolvedToolCall c \<Rightarrow> ''Tool call '' @ fmt c @ '' has no corresponding result'')"

text \<open>
  \<open>start_run\<close> after the checks: opening the run, and its first turn (the rules on
  \<open>RunStart\<close>, then the request).
\<close>

definition open_run :: "'d agent_externals \<Rightarrow> user_input \<Rightarrow> 'd agent \<Rightarrow> 'd agent \<times> run_id" where
  "open_run ax input a =
     (let (a, run_id) = next_run_id a;
          (a, _) = push_message ax Role_User (Text (in_text input)
                     # map attachment_to_content_block (in_attachments input)) a
      in (upd_state (\<lambda>s. s\<lparr>st_status := PreparingContext, st_active_run := Some run_id\<rparr>) a, run_id))"

definition first_turn ::
    "'d agent_externals \<Rightarrow> run_id \<Rightarrow> agent_status \<Rightarrow> 'd agent \<Rightarrow> 'd step" where
  "first_turn ax run_id from a =
     (let (b, ro) = evaluate (ax_behavior ax) (behavior a) RunStart None;
          (a, rule_effects) = apply_rule_outcome ro None (upd_behavior (\<lambda>_. b) a)
      in case ro_stop ro of
           Some stop \<Rightarrow> (let (a, failure) = behavior_stop ax stop a in (a, rule_effects @ failure))
         | None \<Rightarrow>
             (let (a, turn) = agent_begin_turn ax a
              in case turn of
                   Inl failure \<Rightarrow> (a, rule_effects @ failure)
                 | Inr turn_effects \<Rightarrow>
                     (let (a, request) = agent_execution_request ax run_id a
                      in (a, rule_effects @ turn_effects
                             @ [state_changed from PreparingContext, ExecuteBackend request,
                                Emit (RunStarted run_id)]))))"

definition start_run :: "'d agent_externals \<Rightarrow> user_input \<Rightarrow> 'd agent \<Rightarrow> 'd step" where
  "start_run ax input a =
     (case validate_transcript (messages a) of
        Inl e \<Rightarrow> fail_run ax ''INVALID_TRANSCRIPT'' (fmt_transcript_error (ax_fmt_uuid ax) e) a
      | Inr _ \<Rightarrow>
          (case validate_attachments 0 (in_attachments input) of
             Inl e \<Rightarrow> fail_run ax ''ATTACHMENT_TOO_LARGE'' e a
           | Inr _ \<Rightarrow>
               (let (a, switched) = take_pending_profile ax a;
                    a = upd_behavior reset_run a;
                    from = status a;
                    (a, run_id) = open_run ax input a;
                    (a, effects) = first_turn ax run_id from a
                in (a, switched @ effects))))"

definition start_or_queue :: "'d agent_externals \<Rightarrow> user_input \<Rightarrow> 'd agent \<Rightarrow> 'd step" where
  "start_or_queue ax input a =
     (if active_run a \<noteq> None
      then (upd_state (\<lambda>s. s\<lparr>st_queued_inputs := st_queued_inputs s @ [input]\<rparr>) a, [])
      else start_run ax input a)"

definition start_next_queued_run :: "'d agent_externals \<Rightarrow> 'd agent \<Rightarrow> 'd step" where
  "start_next_queued_run ax a =
     (case st_queued_inputs (ag_state a) of
        [] \<Rightarrow> (a, [])
      | input # rest \<Rightarrow> start_run ax input (upd_state (\<lambda>s. s\<lparr>st_queued_inputs := rest\<rparr>) a))"

section \<open>Cancel, pause and resume (control.rs)\<close>

definition cancel :: "'d agent \<Rightarrow> 'd step" where
  "cancel a =
     (let from = status a
      in if from \<in> {Idle, Cancelled, Failed} \<and> active_run a = None then (a, [])
         else
           (let run_effects = (case active_run a of
                  Some run_id \<Rightarrow> CancelBackend run_id
                    # (if from = Verifying then [CancelEvaluation run_id] else [])
                | None \<Rightarrow> []);
                calls = sort (map fst (pending_tools a));
                children = sort (st_children (ag_state a));
                a = upd_state (\<lambda>s. s\<lparr>st_status := Cancelled, st_active_run := None,
                      st_backend_in_flight := False, st_pending_tools := [],
                      st_pending_permissions := [], st_children := []\<rparr>) a
            in (a, run_effects @ map CancelTool calls @ map CancelChild children
                   @ [state_changed from Cancelled, Emit (Ev_Completed Outcome_Cancelled)])))"

definition pause :: "'d agent \<Rightarrow> 'd step" where
  "pause a =
     (if status a \<in> {Paused, Cancelled, Failed, Verifying} then (a, [])
      else (set_status Paused a, [state_changed (status a) Paused]))"

definition resume :: "'d agent_externals \<Rightarrow> 'd agent \<Rightarrow> 'd step" where
  "resume ax a =
     (if status a \<noteq> Paused then (a, [])
      else case active_run a of
        Some run_id \<Rightarrow>
          (let (a, request) = build_request ax run_id True (set_status WaitingForBackend a)
           in (a, [state_changed Paused WaitingForBackend, ExecuteBackend request]))
      | None \<Rightarrow> (set_status Idle a, [state_changed Paused Idle]))"

end
