(* ===== verification/Agent_Machine.thy ===== *)
theory Agent_Machine
  imports Agent_Turns
begin

text \<open>
  The agent reducer: results of tool calls (\<open>transitions/tool_result.rs\<close>), requested tool calls
  and their admission (\<open>tool_request/*.rs\<close>), the completion gate (\<open>completion/*.rs\<close>), backend
  events (\<open>backend_events.rs\<close>) and the command table \<open>Agent::apply\<close> (\<open>transitions/mod.rs\<close>).
\<close>

section \<open>Tool results (tool_result.rs)\<close>

definition MAX_CONSECUTIVE_TOOL_TIMEOUTS :: u32 where
  "MAX_CONSECUTIVE_TOOL_TIMEOUTS = 3"

definition continue_after_tools :: "'d agent_externals \<Rightarrow> 'd agent \<Rightarrow> 'd step" where
  "continue_after_tools ax a =
     (if pending_tools a = [] \<and> \<not> st_backend_in_flight (ag_state a) then
        (case active_run a of
           None \<Rightarrow> (a, [])
         | Some run_id \<Rightarrow>
             (let (a, turn) = agent_begin_turn ax a
              in case turn of
                   Inl failure \<Rightarrow> (a, failure)
                 | Inr turn_effects \<Rightarrow>
                     (let from = status a;
                          (a, request) = agent_execution_request ax run_id
                                           (set_status WaitingForBackend a)
                      in (a, turn_effects
                             @ (if from \<noteq> WaitingForBackend
                                then [state_changed from WaitingForBackend] else [])
                             @ [ExecuteBackend request]))))
      else (a, []))"

definition next_after_result ::
    "'d agent_externals \<Rightarrow> rule_stop option \<Rightarrow> 'd agent \<Rightarrow> 'd step" where
  "next_after_result ax stop a =
     (let timeouts = st_consecutive_tool_timeouts (ag_state a)
      in case stop of
           Some stop \<Rightarrow> behavior_stop ax stop a
         | None \<Rightarrow>
             if timeouts \<ge> MAX_CONSECUTIVE_TOOL_TIMEOUTS
             then fail_run ax ''TOOL_TIMEOUT''
                    (show_word timeouts @ '' consecutive tool calls timed out'')
                    (upd_state (\<lambda>s. s\<lparr>st_consecutive_tool_timeouts := 0\<rparr>) a)
             else continue_after_tools ax a)"

definition run_post_tool_rules ::
    "'d agent_externals \<Rightarrow> tool_call \<Rightarrow> bool \<Rightarrow> string \<Rightarrow> 'd agent
      \<Rightarrow> 'd agent \<times> 'd agent_effect list \<times> string \<times> rule_stop option" where
  "run_post_tool_rules ax call has_error preview a =
     (let b = note_executed_with (behavior a) (call_name call) has_error;
          event = (if has_error then PostToolUseFailure else PostToolUse);
          (b, ro) = evaluate (ax_behavior ax) b event
                      (Some \<lparr>te_call = call, te_result = Some preview\<rparr>);
          (a, effects) = apply_rule_outcome ro (Some (call_id call)) (upd_behavior (\<lambda>_. b) a)
      in (a, effects, fold (\<lambda>(_, rewrite). rewrite_apply rewrite) (ro_rewrite_result ro) preview,
          ro_stop ro))"

definition append_pending_notes :: "tool_call_id \<Rightarrow> string \<Rightarrow> 'd agent \<Rightarrow> 'd agent \<times> string" where
  "append_pending_notes cid preview a =
     (let notes = rc_pending_results (bs_run (behavior a))
      in (upd_behavior (upd_run (\<lambda>r. r\<lparr>rc_pending_results :=
              filter (\<lambda>(c, _). c \<noteq> cid) notes\<rparr>)) a,
          fold (\<lambda>(_, txt) preview. preview @ newline @ newline @ txt)
            (filter (\<lambda>(c, _). c = cid) notes) preview))"

definition count_tool_call :: "'d agent \<Rightarrow> 'd agent" where
  "count_tool_call a =
     a\<lparr>ag_usage := (ag_usage a)\<lparr>ul_tool_calls := saturating_add (ul_tool_calls (ag_usage a)) 1\<rparr>\<rparr>"

definition record_tool_result ::
    "'d agent_externals \<Rightarrow> tool_call \<Rightarrow> bool \<Rightarrow> bool \<Rightarrow> string \<Rightarrow> 'd agent \<Rightarrow> 'd step" where
  "record_tool_result ax call executed has_error preview a =
     (let (a, rule_effects, preview, stop) =
            (if executed then run_post_tool_rules ax call has_error preview a
             else (a, [], preview, None));
          (a, preview) = append_pending_notes (call_id call) preview a;
          a = count_tool_call a;
          summary = \<lparr>trs_has_error = has_error, trs_output_preview = preview\<rparr>;
          (a, _) = push_message ax Role_Tool [ToolResult (call_id call) summary] a;
          (a, later) = next_after_result ax stop a
      in (a, rule_effects @ [Emit (ToolCallCompleted (call_id call) summary)] @ later))"

text \<open>Taking a pending call out, with the permissions that refer to it.\<close>

definition settle_call :: "tool_call_id \<Rightarrow> 'd agent \<Rightarrow> 'd agent" where
  "settle_call cid a =
     upd_state (\<lambda>s. s\<lparr>st_pending_tools := AList.delete cid (st_pending_tools s),
       st_pending_permissions := filter (\<lambda>(_, c). c \<noteq> cid) (st_pending_permissions s)\<rparr>) a"

definition tool_completed ::
    "'d agent_externals \<Rightarrow> tool_call_id \<Rightarrow> tool_result \<Rightarrow> 'd agent \<Rightarrow> 'd step" where
  "tool_completed ax cid result a =
     (case map_of (pending_tools a) cid of
        None \<Rightarrow> (a, [])
      | Some pending \<Rightarrow>
          record_tool_result ax (pt_call pending) True (tr_is_error result)
            (ext_json_to_string (ax_behavior ax) (tr_output result))
            (upd_state (\<lambda>s. s\<lparr>st_consecutive_tool_timeouts := 0\<rparr>) (settle_call cid a)))"

fun tool_error_preview :: "string \<Rightarrow> tool_error \<Rightarrow> string" where
  "tool_error_preview tool (Denied reason) = ''Denied: '' @ reason"
| "tool_error_preview tool Timeout = ''Tool call `'' @ tool
     @ ''` timed out and was cancelled. Try a narrower request or a different approach.''"
| "tool_error_preview tool ExecutionFailed = ''ExecutionFailed''"
| "tool_error_preview tool PermissionDenied = ''PermissionDenied''"
| "tool_error_preview tool Internal = ''Internal''"

definition never_ran :: "tool_error \<Rightarrow> bool" where
  "never_ran e = (case e of PermissionDenied \<Rightarrow> True | Denied _ \<Rightarrow> True | _ \<Rightarrow> False)"

definition tool_failed ::
    "'d agent_externals \<Rightarrow> tool_call_id \<Rightarrow> tool_error \<Rightarrow> 'd agent \<Rightarrow> 'd step" where
  "tool_failed ax cid error a =
     (case map_of (pending_tools a) cid of
        None \<Rightarrow> (a, [])
      | Some pending \<Rightarrow>
          record_tool_result ax (pt_call pending) (\<not> never_ran error) True
            (tool_error_preview (call_name (pt_call pending)) error)
            (upd_state (\<lambda>s. s\<lparr>st_consecutive_tool_timeouts :=
                 (if error = Timeout then st_consecutive_tool_timeouts s + 1 else 0)\<rparr>)
               (settle_call cid a)))"

section \<open>Requested tool calls (tool_request/*.rs)\<close>

datatype approval = Approval_Allow | Approval_Ask

definition deny_tool ::
    "'d agent_externals \<Rightarrow> tool_call_id \<Rightarrow> string option \<Rightarrow> string \<Rightarrow> 'd agent \<Rightarrow> 'd step" where
  "deny_tool ax cid rule reason a =
     (let (a, effects) = tool_failed ax cid (Denied reason) a
      in (a, Emit (ToolCallDenied cid rule reason) # effects))"

definition record_tool_request :: "'d agent_externals \<Rightarrow> tool_call \<Rightarrow> 'd agent \<Rightarrow> 'd step" where
  "record_tool_request ax call a =
     (let (a, _) = push_tool_use ax call a;
          (a, started_at) = next_timestamp ax a
      in (upd_state (\<lambda>s. s\<lparr>st_pending_tools := AList.update (call_id call)
              \<lparr>pt_call = call, pt_started_at = started_at\<rparr> (st_pending_tools s)\<rparr>) a,
          [Emit (ToolCallRequested call)]))"

text \<open>What the session grants: the permission of an enabled capability of that name.\<close>

definition session_grant :: "'d agent \<Rightarrow> string \<Rightarrow> permission_mode option" where
  "session_grant a name =
     map_option (tp_permission \<circ> tc_policy)
       (List.find (\<lambda>c. td_name (tc_descriptor c) = name \<and> tp_enabled (tc_policy c))
         (map snd (ts_tools (cap_tools (ag_capabilities a)))))"

text \<open>How session, profile and rule decision combine.\<close>

fun decided_mode :: "permission_mode \<Rightarrow> tool_decision option \<Rightarrow> permission_mode" where
  "decided_mode Allow (Some (Decide_Ask _)) = Ask"
| "decided_mode Ask (Some (Decide_Ask _)) = Ask"
| "decided_mode Ask (Some (Decide_Allow _)) = Allow"
| "decided_mode mode _ = mode"

definition approval_for ::
    "'d agent_externals \<Rightarrow> tool_call \<Rightarrow> permission_mode \<Rightarrow> rule_outcome \<Rightarrow> 'd agent
      \<Rightarrow> 'd agent \<times> ('d agent_effect list + approval)" where
  "approval_for ax call session_mode ro a =
     (let profile = bs_profile (behavior a);
          mode = permission profile (call_name call) session_mode
      in case ro_decision ro of
           Some (Decide_Deny rule reason) \<Rightarrow>
             (let (a, refusal) = deny_tool ax (call_id call) (Some rule) reason a in (a, Inl refusal))
         | decision \<Rightarrow>
             (case decided_mode mode decision of
                Allow \<Rightarrow> (a, Inr Approval_Allow)
              | Ask \<Rightarrow> (a, Inr Approval_Ask)
              | Deny \<Rightarrow>
                  if session_mode = Deny
                  then (let (a, refusal) = tool_failed ax (call_id call) PermissionDenied a
                        in (a, Inl refusal))
                  else (let (a, refusal) = deny_tool ax (call_id call) None
                              (''Tool '' @ call_name call @ '' is denied by profile ''
                               @ fmt_profile_ref (reference profile) @ ''.'') a
                        in (a, Inl refusal))))"

definition rewrite_arguments ::
    "'d agent_externals \<Rightarrow> tool_call \<Rightarrow> rule_outcome \<Rightarrow> 'd agent \<Rightarrow> 'd agent \<times> tool_call" where
  "rewrite_arguments ax call ro a =
     (if ro_rewrite_args ro = [] then (a, call)
      else
        (let arguments = fold (\<lambda>(_, patch) args. merge_patch args patch) (ro_rewrite_args ro)
                           (call_arguments call);
             call = call\<lparr>call_arguments := arguments\<rparr>;
             a = (case map_of (pending_tools a) (call_id call) of
                    None \<Rightarrow> a
                  | Some pending \<Rightarrow> upd_state (\<lambda>s. s\<lparr>st_pending_tools := AList.update (call_id call)
                      (pending\<lparr>pt_call := (pt_call pending)\<lparr>call_arguments := arguments\<rparr>\<rparr>)
                      (st_pending_tools s)\<rparr>) a);
             note = system_reminder
               (''profile:'' @ fmt_profile_ref (bs_reference (behavior a)) @ '' rule:''
                @ join '','' (map fst (ro_rewrite_args ro)))
               (''The harness adjusted this call's arguments before running it: ''
                @ ext_json_to_string (ax_behavior ax) arguments)
         in (push_pending_result (call_id call) note a, call)))"

definition require_tool_budget ::
    "'d agent_externals \<Rightarrow> tool_call_id \<Rightarrow> 'd agent \<Rightarrow> 'd agent \<times> ('d agent_effect list + unit)" where
  "require_tool_budget ax cid a =
     (let (b, admitted) = admit_tool_call (behavior a);
          a = upd_behavior (\<lambda>_. b) a
      in if admitted then (a, Inr ())
         else
           (let reason = (if rc_final_turn (bs_run (behavior a))
                          then ''No tools are available on the final turn. Answer in text.''
                          else ''The tool-call budget for this run is exhausted. Answer with what you have.'');
                (a, refusal) = deny_tool ax cid None reason a
            in (a, Inl refusal)))"

definition evaluate_request_rules ::
    "'d agent_externals \<Rightarrow> tool_call \<Rightarrow> 'd agent
      \<Rightarrow> 'd agent \<times> 'd agent_effect list \<times> ('d agent_effect list + rule_outcome)" where
  "evaluate_request_rules ax call a =
     (let b = note_tool_request (ax_behavior ax) (behavior a) call;
          (b, ro) = evaluate (ax_behavior ax) b PreToolUse
                      (Some \<lparr>te_call = call, te_result = None\<rparr>);
          (a, effects) = apply_rule_outcome ro (Some (call_id call)) (upd_behavior (\<lambda>_. b) a)
      in case ro_stop ro of
           None \<Rightarrow> (a, effects, Inr ro)
         | Some stop \<Rightarrow>
             (let (a, refusal) = deny_tool ax (call_id call) (Some (stop_rule_id stop))
                                   (stop_reason stop) a;
                  (a, failure) = behavior_stop ax stop a
              in (a, effects, Inl (refusal @ failure))))"

text \<open>
  \<open>admit_tool_call\<close>: every check in order. The second component is what the rules produced on
  the way, the third the refusal or the admitted call.
\<close>

definition agent_admit_tool_call ::
    "'d agent_externals \<Rightarrow> tool_call \<Rightarrow> 'd agent
      \<Rightarrow> 'd agent \<times> 'd agent_effect list \<times> ('d agent_effect list + tool_call \<times> approval)" where
  "agent_admit_tool_call ax call a =
     (case session_grant a (call_name call) of
        None \<Rightarrow>
          (let (a, refusal) = tool_failed ax (call_id call) PermissionDenied a
           in (a, [], Inl refusal))
      | Some session_mode \<Rightarrow>
          if \<not> allows_tool (bs_profile (behavior a)) (call_name call)
          then
            (let (a, refusal) = deny_tool ax (call_id call) None
                   (''Tool '' @ call_name call @ '' is not available under profile ''
                    @ fmt_profile_ref (bs_reference (behavior a)) @ ''.'') a
             in (a, [], Inl refusal))
          else
            (let (a, effects, rules) = evaluate_request_rules ax call a
             in case rules of
                  Inl refusal \<Rightarrow> (a, effects, Inl refusal)
                | Inr ro \<Rightarrow>
                    (let (a, approved) = approval_for ax call session_mode ro a
                     in case approved of
                          Inl refusal \<Rightarrow> (a, effects, Inl refusal)
                        | Inr approval \<Rightarrow>
                            (let (a, call) = rewrite_arguments ax call ro a;
                                 (a, budget) = require_tool_budget ax (call_id call) a
                             in case budget of
                                  Inl refusal \<Rightarrow> (a, effects, Inl refusal)
                                | Inr _ \<Rightarrow> (a, effects, Inr (call, approval))))))"

definition execute_now :: "agent_status \<Rightarrow> tool_call \<Rightarrow> 'd agent \<Rightarrow> 'd step" where
  "execute_now from call a =
     (set_status Executing a,
      [state_changed from Executing, ExecuteTool \<lparr>trq_call = call, trq_permission = Allow\<rparr>])"

definition ask_permission :: "agent_status \<Rightarrow> tool_call \<Rightarrow> 'd agent \<Rightarrow> 'd step" where
  "ask_permission from call a =
     (let (a, pid) = next_permission_id (set_status WaitingForPermission a);
          a = upd_state (\<lambda>s. s\<lparr>st_pending_permissions :=
                AList.update pid (call_id call) (st_pending_permissions s)\<rparr>) a;
          request = \<lparr>prq_id = pid, prq_tool_call = call, prq_agent_id = ag_id a\<rparr>
      in (a, [state_changed from WaitingForPermission, Emit (PermissionRequested request),
              RequestPermission request]))"

definition tool_requested :: "'d agent_externals \<Rightarrow> tool_call \<Rightarrow> 'd agent \<Rightarrow> 'd step" where
  "tool_requested ax call a =
     (let from = status a;
          (a, effects) = record_tool_request ax call a;
          (a, rule_effects, admission) = agent_admit_tool_call ax call a
      in case admission of
           Inl refusal \<Rightarrow> (a, effects @ rule_effects @ refusal)
         | Inr (call, approval) \<Rightarrow>
             (let (a, started) =
                    (case approval of
                       Approval_Allow \<Rightarrow> execute_now from call a
                     | Approval_Ask \<Rightarrow> ask_permission from call a)
              in (a, effects @ rule_effects @ started)))"

definition permission_resolved ::
    "'d agent_externals \<Rightarrow> permission_id \<Rightarrow> permission_decision \<Rightarrow> 'd agent \<Rightarrow> 'd step" where
  "permission_resolved ax pid decision a =
     (case map_of (st_pending_permissions (ag_state a)) pid of
        None \<Rightarrow> (a, [])
      | Some cid \<Rightarrow>
          (let a = upd_state (\<lambda>s. s\<lparr>st_pending_permissions :=
                     AList.delete pid (st_pending_permissions s)\<rparr>) a
           in case map_of (pending_tools a) cid of
                None \<Rightarrow> (a, [])
              | Some pending \<Rightarrow>
                  (case decision of
                     Approved \<Rightarrow>
                       (set_status Executing a,
                        [state_changed WaitingForPermission Executing,
                         ExecuteTool \<lparr>trq_call = pt_call pending, trq_permission = Allow\<rparr>])
                   | Decision_Denied \<Rightarrow> tool_failed ax cid PermissionDenied a)))"

section \<open>The completion gate (completion/*.rs)\<close>

type_synonym check_failure = "string \<times> string"

definition COMMAND_TRANSCRIPT_MESSAGES :: nat where
  "COMMAND_TRANSCRIPT_MESSAGES = 20"

definition final_response_text :: "'d agent \<Rightarrow> string" where
  "final_response_text a =
     (case List.find (\<lambda>m. msg_role m = Role_Assistant) (rev (messages a)) of
        None \<Rightarrow> []
      | Some message \<Rightarrow>
          join [] (List.map_filter (\<lambda>b. case b of Text txt \<Rightarrow> Some txt | _ \<Rightarrow> None)
            (msg_content message)))"

definition note_gate_attempt :: "'d agent_externals \<Rightarrow> 'd agent \<Rightarrow> 'd agent" where
  "note_gate_attempt ax a =
     upd_behavior (upd_run (\<lambda>r. r\<lparr>rc_gate_attempts := rc_gate_attempts r + 1,
       rc_final_status := Some (final_status (ax_behavior ax) (final_response_text a))\<rparr>)) a"

definition failed_declarative_checks ::
    "'d agent_externals \<Rightarrow> completion_gate \<Rightarrow> 'd agent \<Rightarrow> check_failure list" where
  "failed_declarative_checks ax gate a =
     List.map_filter (\<lambda>check. case gc_require check of
         None \<Rightarrow> None
       | Some c \<Rightarrow> if condition_holds (ax_behavior ax) (behavior a) c then None
                   else Some (gc_id check, unwrap_or [] (gc_feedback check)))
       (gate_checks gate)"

fun evaluator_specs ::
    "'d agent_externals \<Rightarrow> gate_check list \<Rightarrow> completion_check_spec list \<times> check_failure list" where
  "evaluator_specs ax [] = ([], [])"
| "evaluator_specs ax (check # checks) =
     (let (specs, unpreparable) = evaluator_specs ax checks
      in case gc_evaluator check of
           None \<Rightarrow> (specs, unpreparable)
         | Some evaluator \<Rightarrow>
             (case ax_evaluator_to_value ax evaluator of
                Inr evaluator_value \<Rightarrow>
                  (\<lparr>ccs_id = gc_id check, ccs_evaluator = evaluator_value\<rparr> # specs, unpreparable)
              | Inl error \<Rightarrow>
                  (specs, (gc_id check, ''the check could not be prepared: '' @ error)
                          # unpreparable)))"

fun evaluator_transcript :: "evaluator_spec option \<Rightarrow> nat option" where
  "evaluator_transcript (Some (Eval_Model _ _ transcript_messages)) = Some (unat transcript_messages)"
| "evaluator_transcript (Some (Eval_Agent _ _ _ transcript_messages _)) =
     Some (unat transcript_messages)"
| "evaluator_transcript (Some (Eval_Command _ _)) = Some COMMAND_TRANSCRIPT_MESSAGES"
| "evaluator_transcript _ = None"

definition longest_transcript_needed :: "completion_gate \<Rightarrow> nat" where
  "longest_transcript_needed gate =
     fold max (List.map_filter (evaluator_transcript \<circ> gc_evaluator) (gate_checks gate)) 0"

definition transcript_tail :: "nat \<Rightarrow> 'd agent \<Rightarrow> agent_message list" where
  "transcript_tail n a = drop (length (messages a) - n) (messages a)"

definition start_verifying ::
    "run_id \<Rightarrow> completion_gate \<Rightarrow> completion_check_spec list \<Rightarrow> 'd agent \<Rightarrow> 'd step" where
  "start_verifying run_id gate evaluators a =
     (set_status Verifying a,
      [state_changed (status a) Verifying,
       EvaluateCompletion \<lparr>cer_run_id = run_id,
         cer_attempt = rc_gate_attempts (bs_run (behavior a)), cer_checks = evaluators,
         cer_final_response = final_response_text a,
         cer_transcript = transcript_tail (longest_transcript_needed gate) a\<rparr>])"

datatype gate_step = Accept | SendBack | Exhausted

definition gate_step_of :: "completion_gate \<Rightarrow> string list \<Rightarrow> 'd agent \<Rightarrow> gate_step" where
  "gate_step_of gate failed_checks a =
     (let run = bs_run (behavior a)
      in if failed_checks = [] then Accept
         else if rc_gate_continuations run < gate_max_continuations gate \<and> \<not> rc_final_turn run
         then SendBack
         else if list_all (\<lambda>i. list_ex (\<lambda>check. gc_id check = i \<and> gc_waive_when_exhausted check)
                (gate_checks gate)) failed_checks
         then Accept else Exhausted)"

definition gate_evaluated :: "gate_step \<Rightarrow> string list \<Rightarrow> 'd agent \<Rightarrow> 'd agent_effect" where
  "gate_evaluated gs failed_checks a =
     Emit (CompletionGateEvaluated (rc_gate_attempts (bs_run (behavior a)))
       (gs = Accept) (gs = SendBack) failed_checks)"

definition end_exhausted_gate ::
    "'d agent_externals \<Rightarrow> completion_gate \<Rightarrow> string list \<Rightarrow> string \<Rightarrow> 'd agent \<Rightarrow> 'd step" where
  "end_exhausted_gate ax gate failed_checks summary a =
     (case unwrap_or Exhausted_Accept (gate_on_exhausted gate) of
        Exhausted_Accept \<Rightarrow> finish_success ax summary (Some False) a
      | Exhausted_Fail \<Rightarrow>
          fail_run ax ''GATE_EXHAUSTED''
            (''completion gate still failing after ''
             @ show_word (rc_gate_continuations (bs_run (behavior a)))
             @ '' continuation(s): '' @ join '', '' failed_checks) a)"

definition rejection_text :: "check_failure list \<Rightarrow> string" where
  "rejection_text failures =
     ''Your answer was not accepted yet. Address the following before finishing:''
     @ concat (map (\<lambda>(i, feedback). newline @ ''- ['' @ i @ ''] '' @ feedback) failures)"

definition push_gate_rejection ::
    "'d agent_externals \<Rightarrow> profile_ref \<Rightarrow> check_failure list \<Rightarrow> 'd agent \<Rightarrow> 'd agent" where
  "push_gate_rejection ax profile_reference failures a =
     fst (push_message ax Role_User
       [Text (system_reminder (''gate:'' @ fmt_profile_ref profile_reference)
               (rejection_text failures))] a)"

definition send_answer_back ::
    "'d agent_externals \<Rightarrow> run_id \<Rightarrow> profile_ref \<Rightarrow> check_failure list \<Rightarrow> 'd agent \<Rightarrow> 'd step" where
  "send_answer_back ax run_id profile_reference failures a =
     (let a = upd_behavior (upd_run (\<lambda>r. r\<lparr>rc_gate_continuations :=
                rc_gate_continuations r + 1\<rparr>)) a;
          a = push_gate_rejection ax profile_reference failures a;
          (a, turn) = agent_begin_turn ax a
      in case turn of
           Inl failure \<Rightarrow> (a, failure)
         | Inr effects \<Rightarrow>
             (let from = status a;
                  (a, request) = agent_execution_request ax run_id (set_status WaitingForBackend a)
              in (a, effects @ [state_changed from WaitingForBackend, ExecuteBackend request])))"

definition gate_decided ::
    "'d agent_externals \<Rightarrow> run_id \<Rightarrow> check_failure list \<Rightarrow> string \<Rightarrow> 'd agent \<Rightarrow> 'd step" where
  "gate_decided ax run_id failures summary a =
     (let profile = bs_profile (behavior a)
      in case bp_completion_gate (cp_profile profile) of
           None \<Rightarrow> finish_success ax summary None a
         | Some gate \<Rightarrow>
             (let failed_checks = map fst failures;
                  gs = gate_step_of gate failed_checks a;
                  evaluated = gate_evaluated gs failed_checks a;
                  (a, effects) =
                    (case gs of
                       Accept \<Rightarrow> finish_success ax summary (Some True) a
                     | Exhausted \<Rightarrow> end_exhausted_gate ax gate failed_checks summary a
                     | SendBack \<Rightarrow> send_answer_back ax run_id (reference profile) failures a)
              in (a, evaluated # effects)))"

definition propose_completion ::
    "'d agent_externals \<Rightarrow> run_id \<Rightarrow> string \<Rightarrow> 'd agent \<Rightarrow> 'd step" where
  "propose_completion ax run_id summary a =
     (case bp_completion_gate (cp_profile (bs_profile (behavior a))) of
        None \<Rightarrow> finish_success ax summary None a
      | Some gate \<Rightarrow>
          (let a = note_gate_attempt ax a;
               (evaluators, unpreparable) = evaluator_specs ax (gate_checks gate);
               failures = failed_declarative_checks ax gate a @ unpreparable
           in if failures \<noteq> [] \<or> evaluators = []
              then gate_decided ax run_id failures summary a
              else start_verifying run_id gate evaluators a))"

text \<open>How one evaluator check is judged by the verdicts that came back (\<open>evaluated.rs\<close>).\<close>

definition judge_check :: "check_verdict list \<Rightarrow> gate_check \<Rightarrow> check_failure option" where
  "judge_check verdicts check =
     (let verdict = (case List.find (\<lambda>v. cv_id v = gc_id check) verdicts of
                       Some v \<Rightarrow> cv_outcome v
                     | None \<Rightarrow> Verdict_Error ''no verdict was produced'');
          failed = (\<lambda>feedback. Some (gc_id check, unwrap_or feedback (gc_feedback check)))
      in case verdict of
           Verdict_Pass \<Rightarrow> None
         | Verdict_Fail feedback \<Rightarrow> failed feedback
         | Verdict_Error message \<Rightarrow>
             if gc_error_policy check = Policy_Pass then None
             else failed (''the check could not be evaluated: '' @ message))"

definition count_evaluator_usage ::
    "'d agent_externals \<Rightarrow> 'd usage_record list \<Rightarrow> 'd agent \<Rightarrow> 'd step" where
  "count_evaluator_usage ax usage a =
     (if usage = [] then (a, [])
      else
        (let a = a\<lparr>ag_usage := (ag_usage a)\<lparr>ul_records := ul_records (ag_usage a) @ usage\<rparr>\<rparr>;
             metrics = self_metrics (ax_dec_add ax) (ag_usage a);
             (a, now) = next_timestamp ax a
         in (a, [Emit (UsageUpdated \<lparr>snap_agent_id = ax_fmt_uuid ax (ag_id a),
                   snap_model = ep_model (st_execution_params (ag_state a)),
                   snap_metrics = metrics, snap_timestamp = ax_rfc3339 ax now\<rparr>)])))"

definition completion_evaluated ::
    "'d agent_externals \<Rightarrow> run_id \<Rightarrow> u32 \<Rightarrow> check_verdict list \<Rightarrow> 'd usage_record list
      \<Rightarrow> 'd agent \<Rightarrow> 'd step" where
  "completion_evaluated ax run_id attempt verdicts usage a =
     (let (a, effects) = count_evaluator_usage ax usage a
      in if status a \<noteq> Verifying \<or> active_run a \<noteq> Some run_id
            \<or> rc_gate_attempts (bs_run (behavior a)) \<noteq> attempt
         then (a, effects)
         else case bp_completion_gate (cp_profile (bs_profile (behavior a))) of
           None \<Rightarrow> (a, [])
         | Some gate \<Rightarrow>
             (let failures = List.map_filter (judge_check verdicts)
                    (filter (\<lambda>check. gc_evaluator check \<noteq> None) (gate_checks gate));
                  (a, decided) = gate_decided ax run_id failures ''Run completed: end_turn'' a
              in (a, effects @ decided)))"

section \<open>Backend events (backend_events.rs)\<close>

text \<open>A status change is reported only when it is one.\<close>

definition changed_to :: "agent_status \<Rightarrow> agent_status \<Rightarrow> 'd agent_effect list" where
  "changed_to to from = (if from \<noteq> to then [state_changed from to] else [])"

definition text_delta :: "'d agent_externals \<Rightarrow> string \<Rightarrow> 'd agent \<Rightarrow> 'd step" where
  "text_delta ax delta a =
     (let from = status a;
          (a, mid) = append_assistant_text ax delta (set_status Streaming a)
      in (a, changed_to Streaming from @ [Emit (AssistantTextDelta mid delta)]))"

definition reasoning_delta :: "'d agent_externals \<Rightarrow> string \<Rightarrow> 'd agent \<Rightarrow> 'd step" where
  "reasoning_delta ax delta a =
     (let (a, mid) = assistant_message_id ax a in (a, [Emit (Ev_ReasoningDelta mid delta)]))"

definition tool_started :: "'d agent_externals \<Rightarrow> tool_call \<Rightarrow> 'd agent \<Rightarrow> 'd step" where
  "tool_started ax call a =
     (let from = status a;
          (a, _) = push_tool_use ax call (set_status Executing a)
      in (a, changed_to Executing from
             @ [Emit (ToolCallRequested call), Emit (ToolCallStarted (call_id call))]))"

definition backend_tool_completed ::
    "'d agent_externals \<Rightarrow> tool_call_id \<Rightarrow> tool_result_summary \<Rightarrow> 'd agent \<Rightarrow> 'd step" where
  "backend_tool_completed ax cid result a =
     (let from = status a;
          (a, _) = push_message ax Role_Tool [ToolResult cid result]
                     (count_tool_call (set_status Streaming a))
      in (a, changed_to Streaming from @ [Emit (ToolCallCompleted cid result)]))"

definition usage_update :: "'d agent_externals \<Rightarrow> model_usage \<Rightarrow> 'd agent \<Rightarrow> 'd step" where
  "usage_update ax usage a =
     (let (a, now) = next_timestamp ax a
      in (a, [Emit (UsageUpdated \<lparr>snap_agent_id = ax_fmt_uuid ax (ag_id a),
                snap_model = ep_model (st_execution_params (ag_state a)),
                snap_metrics = \<lparr>um_total_runs = ul_runs (ag_usage a),
                  um_total_requests = of_nat (length (ul_records (ag_usage a))),
                  um_total_tool_calls = ul_tool_calls (ag_usage a),
                  um_total_tokens = mu_total_tokens usage,
                  um_input_tokens = mu_input_tokens usage,
                  um_output_tokens = mu_output_tokens usage,
                  um_cache_read_tokens = mu_cache_read_tokens usage,
                  um_cache_write_tokens = mu_cache_write_tokens usage,
                  um_reasoning_tokens = mu_reasoning_tokens usage,
                  um_total_cost = None\<rparr>,
                snap_timestamp = ax_rfc3339 ax now\<rparr>)]))"

definition completed ::
    "'d agent_externals \<Rightarrow> run_id \<Rightarrow> 'd execution_result \<Rightarrow> 'd agent \<Rightarrow> 'd step" where
  "completed ax run_id result a =
     (let a = discard_trailing_empty (upd_state (\<lambda>s. s\<lparr>st_backend_in_flight := False\<rparr>) a);
          reason = er_finish_reason result;
          a = a\<lparr>ag_usage := (ag_usage a)\<lparr>ul_records := ul_records (ag_usage a)
                @ [\<lparr>ur_model_usage = er_usage result, ur_cost = er_cost result,
                    ur_tool_usage = None\<rparr>]\<rparr>\<rparr>
      in if reason \<in> {''max_tokens'', ''length'', ''max_output_tokens''}
         then fail_run ax ''OUTPUT_LIMIT_REACHED''
                (''The model stopped at its output token limit ('' @ reason
                 @ ''); the response is incomplete.'') a
         else if reason = ''tool_use'' then continue_after_tools ax a
         else propose_completion ax run_id (''Run completed: '' @ reason) a)"

fun handle_backend_event ::
    "'d agent_externals \<Rightarrow> run_id \<Rightarrow> 'd execution_event \<Rightarrow> 'd agent \<Rightarrow> 'd step" where
  "handle_backend_event ax run_id (TextDelta _ delta) a = text_delta ax delta a"
| "handle_backend_event ax run_id (ReasoningDelta _ delta) a = reasoning_delta ax delta a"
| "handle_backend_event ax run_id (EE_ToolCallRequested _ call) a = tool_requested ax call a"
| "handle_backend_event ax run_id (EE_ToolCallStarted _ call) a = tool_started ax call a"
| "handle_backend_event ax run_id (EE_ToolCallCompleted _ cid result) a =
     backend_tool_completed ax cid result a"
| "handle_backend_event ax run_id (UsageUpdate _ usage) a = usage_update ax usage a"
| "handle_backend_event ax run_id (EE_Completed _ result) a = completed ax run_id result a"
| "handle_backend_event ax run_id (EE_Error _ error) a =
     fail_run ax ''BACKEND_ERROR'' (ax_fmt_execution_error ax error) a"

definition backend_event ::
    "'d agent_externals \<Rightarrow> run_id \<Rightarrow> 'd execution_event \<Rightarrow> 'd agent \<Rightarrow> 'd step" where
  "backend_event ax run_id event a =
     (if active_run a \<noteq> Some run_id then (a, []) else handle_backend_event ax run_id event a)"

section \<open>The command table (transitions/mod.rs)\<close>

fun agent_apply :: "'d agent_externals \<Rightarrow> 'd agent \<Rightarrow> 'd agent_command \<Rightarrow> 'd step" where
  "agent_apply ax a (StartRun input) = start_or_queue ax input a"
| "agent_apply ax a (Steer input) = start_or_queue ax input a"
| "agent_apply ax a (FollowUp input) = start_or_queue ax input a"
| "agent_apply ax a StartNextQueuedRun = start_next_queued_run ax a"
| "agent_apply ax a (BackendEvent run_id event) = backend_event ax run_id event a"
| "agent_apply ax a (ToolCompleted cid result) = tool_completed ax cid result a"
| "agent_apply ax a (ToolFailed cid error) = tool_failed ax cid error a"
| "agent_apply ax a (PermissionResolved pid decision) = permission_resolved ax pid decision a"
| "agent_apply ax a (SpawnChild spec) = (a, [SpawnAgent spec])"
| "agent_apply ax a (ChildSpawned child awaiting) = child_spawned child awaiting a"
| "agent_apply ax a (ChildCompleted child result) = child_completed child result a"
| "agent_apply ax a (ChildFailed child error) = child_failed child error a"
| "agent_apply ax a Cancel = cancel a"
| "agent_apply ax a Pause = pause a"
| "agent_apply ax a Resume = resume ax a"
| "agent_apply ax a (ConfigureExecution params) = configure_execution params a"
| "agent_apply ax a (SetBehaviorProfile profile library allow_commands) =
     set_behavior_profile ax profile library allow_commands a"
| "agent_apply ax a (CompletionEvaluated run_id attempt verdicts usage) =
     completion_evaluated ax run_id attempt verdicts usage a"

end
