(* ===== verification/Agent_Contract.thy ===== *)
theory Agent_Contract
  imports Agent_Machine
begin

text \<open>
  What every operation of the agent reducer keeps. \<open>quiet\<close> is the contract of the operations
  inside one command: they never launch a tool, never start a run, only settle pending calls,
  count every finished run and leave identity, capabilities and the input queue alone.
  \<open>moves\<close> is the weaker contract of a whole command. Both are instances of the effect contract
  of the prelude.
\<close>

section \<open>The contract of internal operations\<close>

fun is_finish :: "'d agent_effect \<Rightarrow> bool" where
  "is_finish (FinishRun _) = True"
| "is_finish _ = False"

fun is_launch :: "'d agent_effect \<Rightarrow> bool" where
  "is_launch (ExecuteTool _) = True"
| "is_launch (RequestPermission _) = True"
| "is_launch _ = False"

definition finished_runs :: "'d agent_effect list \<Rightarrow> nat" where
  "finished_runs es = length (filter is_finish es)"

definition count_up :: "u64 \<Rightarrow> nat \<Rightarrow> u64 \<Rightarrow> bool" where
  "count_up before n after \<longleftrightarrow> unat after = min (2 ^ 64 - 1) (unat before + n)"

abbreviation sequence :: "'d agent \<Rightarrow> u64" where
  "sequence a \<equiv> st_transition_sequence (ag_state a)"

abbreviation queued :: "'d agent \<Rightarrow> user_input list" where
  "queued a \<equiv> st_queued_inputs (ag_state a)"

abbreviation permissions :: "'d agent \<Rightarrow> (permission_id, tool_call_id) hash_map" where
  "permissions a \<equiv> st_pending_permissions (ag_state a)"

definition same_identity :: "'d agent \<Rightarrow> 'd agent \<Rightarrow> bool" where
  "same_identity a t \<longleftrightarrow>
     ag_id t = ag_id a \<and> ag_session_id t = ag_session_id a \<and> ag_parent_id t = ag_parent_id a
     \<and> ag_backend t = ag_backend a \<and> ag_capabilities t = ag_capabilities a
     \<and> ag_budget t = ag_budget a \<and> st_depth (ag_state t) = st_depth (ag_state a)"

text \<open>
  What a consistent agent never shows: a request in flight or a verification with no run, or
  both at once.
\<close>

definition inconsistent :: "'d agent \<Rightarrow> bool" where
  "inconsistent a \<longleftrightarrow>
     st_backend_in_flight (ag_state a) \<and> (active_run a = None \<or> status a = Verifying)
     \<or> status a = Verifying \<and> active_run a = None"

text \<open>
  Pending calls and permissions are only settled, except for the calls in \<open>X\<close>, and a permission
  that stays keeps its call.
\<close>

definition settles :: "tool_call_id set \<Rightarrow> 'd agent \<Rightarrow> 'd agent \<Rightarrow> bool" where
  "settles X a t \<longleftrightarrow>
     (hm_wf (pending_tools a) \<longrightarrow> hm_wf (pending_tools t))
     \<and> (hm_wf (permissions a) \<longrightarrow> hm_wf (permissions t))
     \<and> set (permissions t) \<subseteq> set (permissions a)
     \<and> (\<forall>c p. map_of (pending_tools t) c = Some p \<longrightarrow> c \<notin> X \<longrightarrow>
          map_of (pending_tools a) c = Some p)
     \<and> (\<forall>c \<in> snd ` set (permissions t) - X.
          map_of (pending_tools t) c = map_of (pending_tools a) c)"

definition quiet_except ::
    "tool_call_id set \<Rightarrow> 'd agent \<Rightarrow> 'd agent_effect list \<Rightarrow> 'd agent \<Rightarrow> bool" where
  "quiet_except X a es t \<longleftrightarrow>
     same_identity a t \<and> queued t = queued a \<and> sequence a \<le> sequence t
     \<and> count_up (ul_runs (ag_usage a)) (finished_runs es) (ul_runs (ag_usage t))
     \<and> (active_run t = active_run a \<or> active_run t = None)
     \<and> (inconsistent t \<longrightarrow> inconsistent a)
     \<and> list_all (\<lambda>e. \<not> is_launch e) es \<and> settles X a t"

abbreviation quiet :: "'d agent \<Rightarrow> 'd agent_effect list \<Rightarrow> 'd agent \<Rightarrow> bool" where
  "quiet \<equiv> quiet_except {}"

lemma finished_runs_simps [simp]:
  "finished_runs [] = 0"
  "finished_runs (e # es) = (if is_finish e then 1 else 0) + finished_runs es"
  "finished_runs (es @ fs) = finished_runs es + finished_runs fs"
  by (simp_all add: finished_runs_def)

lemma count_up_0 [simp]: "count_up x 0 x"
  using unat_bound [of x] by (simp add: count_up_def)

lemma count_up_trans: "count_up x m y \<Longrightarrow> count_up y n z \<Longrightarrow> count_up x (m + n) z"
  by (auto simp: count_up_def)

lemma same_identity_refl [simp]: "same_identity a a"
  by (simp add: same_identity_def)

lemma settles_refl [simp]: "settles X a a"
  by (simp add: settles_def)

lemma settles_trans:
  assumes at: "settles X a t" and tu: "settles X t u"
  shows "settles X a u"
  unfolding settles_def
proof (intro conjI)
  note at' = at [unfolded settles_def] and tu' = tu [unfolded settles_def]
  show "set (permissions u) \<subseteq> set (permissions a)" using at' tu' by blast
  show "\<forall>c p. map_of (pending_tools u) c = Some p \<longrightarrow> c \<notin> X \<longrightarrow>
      map_of (pending_tools a) c = Some p" using at' tu' by blast
  have sub: "snd ` set (permissions u) - X \<subseteq> snd ` set (permissions t) - X" using tu' by blast
  show "\<forall>c \<in> snd ` set (permissions u) - X.
      map_of (pending_tools u) c = map_of (pending_tools a) c"
  proof
    fix c assume u: "c \<in> snd ` set (permissions u) - X"
    with sub have "c \<in> snd ` set (permissions t) - X" by blast
    with u at' tu' show "map_of (pending_tools u) c = map_of (pending_tools a) c" by metis
  qed
qed (use at tu in \<open>simp_all add: settles_def\<close>)

lemma quiet_except_refl: "quiet_except X a [] a"
  by (simp add: quiet_except_def)

lemma quiet_except_trans:
  "quiet_except X a es t \<Longrightarrow> quiet_except X t fs u \<Longrightarrow> quiet_except X a (es @ fs) u"
  unfolding quiet_except_def same_identity_def
  by (auto intro: count_up_trans settles_trans)

interpretation q: effect_contract "quiet_except X"
  by unfold_locales (rule quiet_except_refl, erule (1) quiet_except_trans)

lemmas quiet_refl = quiet_except_refl [of "{}"]
lemmas quiet_def = quiet_except_def [of "{}"]

text \<open>A call that is settled in the end was no exception.\<close>

lemma quiet_forget:
  assumes "quiet_except {c} a es t" "map_of (pending_tools t) c = None"
    and "c \<notin> snd ` set (permissions t)"
  shows "quiet a es t"
proof -
  have "settles {c} a t" using assms(1) by (simp add: quiet_except_def)
  with assms(2,3) have "settles {} a t"
    unfolding settles_def by (metis Diff_empty Diff_insert0 empty_iff insertE option.distinct(1))
  with assms(1) show ?thesis by (simp add: quiet_except_def)
qed

lemma quiet_weaken: "quiet a es t \<Longrightarrow> quiet_except X a es t"
  by (auto simp: quiet_except_def settles_def)

lemmas quiet_defs = quiet_except_def same_identity_def inconsistent_def settles_def

lemma saturating_inc_mono: "x \<le> saturating_add x (1 :: u64)"
  using unat_bound [of x] by (auto simp: word_le_nat_alt unat_saturating_add)

lemma count_up_inc: "count_up x (Suc 0) (saturating_add x 1)"
  by (simp add: count_up_def unat_saturating_add)

text \<open>Identifiers, the transcript and assistant messages.\<close>

lemma take_sequence_quiet: "take_sequence a = (t, s) \<Longrightarrow> quiet a [] t"
  by (auto simp: take_sequence_def Let_def quiet_defs saturating_inc_mono)

lemma next_id_quiet: "next_id n a = (t, i) \<Longrightarrow> quiet a [] t"
  by (auto simp: next_id_def split: prod.splits dest: take_sequence_quiet)

lemma next_ids_quiet:
  "next_run_id a = (t, i) \<Longrightarrow> quiet a [] t"
  "next_request_id a = (t, i) \<Longrightarrow> quiet a [] t"
  "next_message_id a = (t, i) \<Longrightarrow> quiet a [] t"
  "next_permission_id a = (t, i) \<Longrightarrow> quiet a [] t"
  by (simp_all add: next_run_id_def next_request_id_def next_message_id_def
      next_permission_id_def next_id_quiet)

lemma next_timestamp_quiet: "next_timestamp ax a = (t, i) \<Longrightarrow> quiet a [] t"
  by (auto simp: next_timestamp_def split: prod.splits dest: take_sequence_quiet)

lemma upd_messages_quiet: "quiet a [] (upd_state (\<lambda>s. s\<lparr>st_messages := f s\<rparr>) a)"
  by (simp add: quiet_defs)

lemma upd_behavior_quiet: "quiet a [] (upd_behavior f a)"
  by (simp add: quiet_defs)

lemma set_behavior_quiet [simp]: "quiet a [] (upd_behavior (\<lambda>_. b) a)"
  by (rule upd_behavior_quiet)

lemma upd_pending_profile_quiet: "quiet a [] (upd_state (\<lambda>s. s\<lparr>st_pending_profile := f s\<rparr>) a)"
  by (simp add: quiet_defs)

lemma upd_timeouts_quiet:
  "quiet a [] (upd_state (\<lambda>s. s\<lparr>st_consecutive_tool_timeouts := f s\<rparr>) a)"
  by (simp add: quiet_defs)

lemma set_status_quiet: "st \<noteq> Verifying \<Longrightarrow> quiet a [] (set_status st a)"
  by (auto simp: quiet_defs)

lemma quiet_sandwich: "quiet a [] t \<Longrightarrow> quiet t es u \<Longrightarrow> quiet u [] v \<Longrightarrow> quiet a es v"
  by (blast intro: q.keeps_after_silent q.keeps_before_silent)

lemma push_message_quiet: "push_message ax role content a = (t, i) \<Longrightarrow> quiet a [] t"
  by (auto simp: push_message_def Let_def split: prod.splits
      intro!: quiet_sandwich [OF next_ids_quiet(3) next_timestamp_quiet upd_messages_quiet])

lemma upd_last_message_quiet: "quiet a [] (upd_last_message f a)"
  unfolding upd_last_message_def by (rule upd_messages_quiet)

lemma append_assistant_text_quiet: "append_assistant_text ax delta a = (t, i) \<Longrightarrow> quiet a [] t"
  by (auto simp: append_assistant_text_def Let_def upd_last_message_quiet
      split: option.splits if_splits dest: push_message_quiet)

lemma assistant_message_id_quiet: "assistant_message_id ax a = (t, i) \<Longrightarrow> quiet a [] t"
  by (auto simp: assistant_message_id_def quiet_refl split: option.splits dest: push_message_quiet)

lemma push_tool_use_quiet: "push_tool_use ax call a = (t, i) \<Longrightarrow> quiet a [] t"
  by (auto simp: push_tool_use_def Let_def upd_last_message_quiet
      split: option.splits if_splits dest: push_message_quiet)

lemma discard_trailing_empty_quiet: "quiet a [] (discard_trailing_empty a)"
  using upd_messages_quiet [of a "\<lambda>s. butlast (st_messages s)"]
  by (simp add: discard_trailing_empty_def quiet_refl)

lemma discard_trailing_empty_frame [frame_simps]:
  "active_run (discard_trailing_empty a) = active_run a"
  "ag_usage (discard_trailing_empty a) = ag_usage a"
  "behavior (discard_trailing_empty a) = behavior a"
  "status (discard_trailing_empty a) = status a"
  by (simp_all add: discard_trailing_empty_def)

text \<open>Ending a run.\<close>

lemma end_run_quiet:
  "quiet b [state_changed from st, Emit ev, FinishRun result]
     (count_run (upd_state (\<lambda>s. s\<lparr>st_status := Failed, st_active_run := None,
        st_backend_in_flight := False, st_last_error := err\<rparr>) b))"
  by (simp add: quiet_defs count_run_def state_changed_def count_up_inc)

lemma fail_run_quiet: "fail_run ax code message a = (t, es) \<Longrightarrow> quiet a es t"
  by (auto simp only: fail_run_def Let_def prod.inject
      intro!: q.keeps_after_silent [OF discard_trailing_empty_quiet end_run_quiet])

lemma fail_run_no_run: "fail_run ax code message a = (t, es) \<Longrightarrow> active_run t = None"
  by (auto simp: fail_run_def Let_def count_run_def)

lemma behavior_stop_quiet: "behavior_stop ax stop a = (t, es) \<Longrightarrow> quiet a es t"
  unfolding behavior_stop_def by (rule fail_run_quiet)

lemma finish_success_quiet:
  "finish_success ax summary passed a = (t, es) \<Longrightarrow>
   \<not> st_backend_in_flight (ag_state a) \<or> status a = Verifying \<Longrightarrow> quiet a es t"
  by (auto simp: finish_success_def Let_def quiet_defs count_run_def state_changed_def count_up_inc)

text \<open>Rule outcomes and profile switches.\<close>

definition emits_only :: "'d agent_effect list \<Rightarrow> bool" where
  "emits_only es \<longleftrightarrow> (\<forall>e \<in> set es. \<exists>ev. e = Emit ev)"

lemma emits_only_simps [simp]:
  "emits_only []" "emits_only (es @ fs) \<longleftrightarrow> emits_only es \<and> emits_only fs"
  "emits_only (e # es) \<longleftrightarrow> (\<exists>ev. e = Emit ev) \<and> emits_only es"
  by (auto simp: emits_only_def)

lemma quiet_emits: "emits_only es \<Longrightarrow> quiet_except X a es t \<longleftrightarrow> quiet_except X a [] t"
proof -
  assume "emits_only es"
  then have "finished_runs es = 0 \<and> list_all (\<lambda>e. \<not> is_launch e) es"
    by (induction es) auto
  then show ?thesis by (simp add: quiet_except_def)
qed

lemmas quiet_emitsI = quiet_emits [THEN iffD2]
lemmas quiet_emitsD = quiet_emits [THEN iffD1]

lemma push_pending_quiet:
  "quiet a [] (push_pending_request txt a)" "quiet a [] (push_pending_result cid txt a)"
  by (simp_all add: push_pending_request_def push_pending_result_def quiet_defs)

lemma push_pending_frame [frame_simps]:
  "active_run (push_pending_request txt a) = active_run a"
  "status (push_pending_request txt a) = status a"
  "active_run (push_pending_result cid txt a) = active_run a"
  "status (push_pending_result cid txt a) = status a"
  by (simp_all add: push_pending_request_def push_pending_result_def)

lemma route_injection_quiet: "quiet a [] (route_injection cid i a)"
  by (auto simp: route_injection_def push_pending_quiet upd_last_message_quiet quiet_refl
      split: placement.splits option.splits)

lemma upd_last_message_frame [frame_simps]:
  "active_run (upd_last_message f a) = active_run a" "status (upd_last_message f a) = status a"
  by (simp_all add: upd_last_message_def)

lemma route_injection_frame [frame_simps]:
  "active_run (route_injection cid i a) = active_run a"
  "status (route_injection cid i a) = status a"
  by (simp_all add: route_injection_def frame_simps split: placement.splits option.splits)

lemma fold_quiet: "(\<And>x a. quiet a [] (f x a)) \<Longrightarrow> quiet a [] (fold f xs a)"
  by (induction xs arbitrary: a) (auto intro: quiet_refl q.keeps_after_silent)

lemma fold_route_frame [frame_simps]:
  "active_run (fold (route_injection cid) is a) = active_run a"
  "status (fold (route_injection cid) is a) = status a"
  by (induction "is" arbitrary: a) (simp_all add: frame_simps)

lemma apply_rule_outcome_quiet:
  assumes eq: "apply_rule_outcome ro cid a = (t, es)"
  shows "quiet a [] t" "emits_only es" "active_run t = active_run a" "status t = status a"
proof -
  define b where "b = fold (route_injection cid) (ro_injections ro) a"
  have ab: "quiet a [] b"
    unfolding b_def by (rule fold_quiet) (rule route_injection_quiet)
  have "t = b \<or> (\<exists>p. t = upd_state (\<lambda>s. s\<lparr>st_pending_profile := p s\<rparr>) b)"
    using eq by (auto simp: apply_rule_outcome_def Let_def b_def split: option.splits prod.splits)
  then have "quiet b [] t \<and> active_run t = active_run b \<and> status t = status b"
    using upd_pending_profile_quiet quiet_refl by auto
  then show "quiet a [] t" "active_run t = active_run a" "status t = status a"
    using q.keeps_after_silent [OF ab] by (simp_all add: b_def frame_simps)
  show "emits_only es"
    using eq by (auto simp: apply_rule_outcome_def Let_def emits_only_def)
qed

lemma fail_run_status: "fail_run ax code message a = (t, es) \<Longrightarrow> status t = Failed"
  by (auto simp: fail_run_def Let_def count_run_def)

lemma apply_switch_quiet: "apply_switch ax profile library a = (t, es) \<Longrightarrow> quiet a es t"
proof -
  assume eq: "apply_switch ax profile library a = (t, es)"
  let ?b = "upd_behavior (\<lambda>b. switched_to (ax_behavior ax) b profile library) a"
  show ?thesis
  proof (cases "cp_content_hash (bs_profile (behavior a)) = cp_content_hash profile")
    case True
    with eq show ?thesis by (auto simp: apply_switch_def Let_def upd_behavior_quiet)
  next
    case False
    have changed: "quiet a [Emit ev] ?b" for ev
      by (rule quiet_emitsI [OF _ upd_behavior_quiet]) simp
    from False eq show ?thesis
      by (auto simp: apply_switch_def Let_def changed split: if_splits prod.splits
          dest!: fail_run_quiet intro: q.keeps_cons [OF changed])
  qed
qed

lemma apply_switch_continues:
  "apply_switch ax profile library a = (t, es) \<Longrightarrow>
   (active_run t = active_run a \<and> status t = status a \<and> emits_only es) \<or> status t = Failed"
  by (auto simp: apply_switch_def Let_def split: if_splits prod.splits dest!: fail_run_status)

lemma take_pending_profile_quiet: "take_pending_profile ax a = (t, es) \<Longrightarrow> quiet a es t"
  by (auto simp: take_pending_profile_def quiet_refl split: option.splits
      dest!: apply_switch_quiet
      intro: q.keeps_after_silent [OF upd_pending_profile_quiet [where f = "\<lambda>_. None"]])

lemma take_pending_profile_continues:
  "take_pending_profile ax a = (t, es) \<Longrightarrow>
   (active_run t = active_run a \<and> status t = status a \<and> emits_only es)
   \<or> (st_pending_profile (ag_state a) \<noteq> None \<and> status t = Failed)"
  by (auto simp: take_pending_profile_def split: option.splits dest!: apply_switch_continues)

lemma rules_applied_quiet:
  assumes "apply_rule_outcome ro cid (upd_behavior (\<lambda>_. b) a) = (t, es)"
  shows "quiet a [] t \<and> emits_only es \<and> active_run t = active_run a \<and> status t = status a"
  using apply_rule_outcome_quiet [OF assms] q.keeps_after_silent [OF upd_behavior_quiet]
  by simp

section \<open>Turns\<close>

text \<open>An attempt that succeeds goes on with the same run and status and only announces.\<close>

fun quiet_attempt ::
    "'d agent \<Rightarrow> 'd agent_effect list + 'd agent_effect list \<Rightarrow> 'd agent \<Rightarrow> bool" where
  "quiet_attempt a (Inl es) t \<longleftrightarrow> quiet a es t"
| "quiet_attempt a (Inr es) t \<longleftrightarrow>
     quiet a [] t \<and> emits_only es \<and> active_run t = active_run a \<and> status t = status a"

lemma rules_attempt_quiet:
  assumes rules: "apply_rule_outcome ro None (upd_behavior (\<lambda>_. b) a) = (c, es)"
    and result: "(case ro_stop ro of
          Some stop \<Rightarrow> (let (a, failure) = behavior_stop ax stop c in (a, Inl (es @ failure)))
        | None \<Rightarrow> (c, Inr es)) = (t, r)"
  shows "quiet_attempt a r t"
proof -
  note q = rules_applied_quiet [OF rules]
  then have "quiet a es c" by (simp add: quiet_emitsI)
  note after = q.keeps_trans [OF this behavior_stop_quiet]
  from q result show ?thesis
    by (auto split: option.splits prod.splits dest: after)
qed

lemma entered_rules_quiet: "entered_rules ax from a = (t, r) \<Longrightarrow> quiet_attempt a r t"
  unfolding entered_rules_def by (auto split: prod.splits elim!: rules_attempt_quiet)

lemma before_request_rules_quiet: "before_request_rules ax a = (t, r) \<Longrightarrow> quiet_attempt a r t"
  unfolding before_request_rules_def by (auto split: prod.splits elim!: rules_attempt_quiet)

lemma quiet_attempt_after:
  assumes "quiet a [] b" "emits_only es" "active_run b = active_run a" "status b = status a"
    and "quiet_attempt b r t"
  shows "quiet_attempt a (map_sum ((@) es) ((@) es) r) t"
proof -
  have "quiet a es b" using assms(1,2) by (simp add: quiet_emitsI)
  with assms show ?thesis
    by (cases r) (auto dest: q.keeps_trans [OF \<open>quiet a es b\<close>] q.keeps_after_silent [OF assms(1)])
qed

lemma quiet_attempt_silent:
  assumes "quiet a [] b" "active_run b = active_run a" "status b = status a" "quiet_attempt b r t"
  shows "quiet_attempt a r t"
  using assms by (cases r) (auto dest: q.keeps_after_silent [OF assms(1)])

lemma enter_profile_quiet: "enter_profile ax from a = (t, r) \<Longrightarrow> quiet_attempt a r t"
  by (auto simp: enter_profile_def Let_def frame_simps split: prod.splits sum.splits if_splits
      dest!: entered_rules_quiet q.keeps_after_silent [OF push_pending_quiet(1)])

lemma enter_switched_quiet: "enter_switched ax a = (t, r) \<Longrightarrow> quiet_attempt a r t"
  using quiet_attempt_silent [OF upd_behavior_quiet]
  by (auto simp: enter_switched_def Let_def upd_behavior_quiet split: option.splits
      dest!: enter_profile_quiet)

lemma agent_begin_turn_quiet: "agent_begin_turn ax a = (t, r) \<Longrightarrow> quiet_attempt a r t"
proof -
  assume eq: "agent_begin_turn ax a = (t, r)"
  obtain a1 switched where sw: "take_pending_profile ax a = (a1, switched)" by fastforce
  obtain a2 entry where en: "enter_switched ax a1 = (a2, entry)" by fastforce
  have q1: "quiet a switched a1" by (rule take_pending_profile_quiet [OF sw])
  show ?thesis
  proof (cases "st_pending_profile (ag_state a) \<noteq> None \<and> status a1 = Failed")
    case True
    with eq sw q1 show ?thesis by (auto simp: agent_begin_turn_def Let_def)
  next
    case False
    with take_pending_profile_continues [OF sw]
    have kept1: "active_run a1 = active_run a" "status a1 = status a" "emits_only switched" by auto
    with q1 have silent1: "quiet a [] a1" by (blast intro: quiet_emitsD)
    have e: "quiet_attempt a1 entry a2" by (rule enter_switched_quiet [OF en])
    show ?thesis
    proof (cases entry)
      case (Inl failure)
      with e q1 have "quiet a (switched @ failure) a2" by (auto intro: q.keeps_trans)
      with Inl eq sw en False show ?thesis
        by (auto simp: agent_begin_turn_def Let_def)
    next
      case (Inr entered)
      obtain b plan where bt: "begin_turn (behavior a2) = (b, plan)" by fastforce
      let ?a3 = "upd_behavior (\<lambda>_. b) a2"
      have silent3: "quiet a [] ?a3"
        using e Inr by (auto intro: quiet_sandwich [OF silent1 _ upd_behavior_quiet])
      obtain a4 rules where br: "before_request_rules ax ?a3 = (a4, rules)" by fastforce
      have "quiet_attempt a (map_sum ((@) (switched @ entered)) ((@) (switched @ entered)) rules) a4"
        using kept1 e Inr
        by (intro quiet_attempt_after [OF silent3 _ _ _ before_request_rules_quiet [OF br]]) auto
      with eq sw en False Inr bt br show ?thesis
        by (auto simp: agent_begin_turn_def Let_def append_assoc [symmetric] simp del: append_assoc
            split: if_splits prod.splits
            dest!: fail_run_quiet q.keeps_after_silent [OF silent3])
    qed
  qed
qed

text \<open>A request needs a run, and no verification in progress.\<close>

lemma build_request_quiet:
  assumes eq: "build_request ax run_id reissue a = (t, request)"
    and run: "active_run a \<noteq> None" and st: "status a \<noteq> Verifying"
  shows "quiet a [] t"
proof -
  define a1 where "a1 = upd_state (\<lambda>s. s\<lparr>st_backend_in_flight := True\<rparr>) a"
  define a2 where "a2 = (if rc_final_turn (bs_run (behavior a1)) then a1
     else upd_behavior (\<lambda>b. note_offered b (map td_name (offered_tools a1))) a1)"
  define a3 where "a3 = (if reissue then a2
     else upd_behavior (upd_run (\<lambda>r. r\<lparr>rc_last_request := rc_pending_request r,
            rc_pending_request := []\<rparr>)) a2)"
  have "quiet a [] a1" using run st by (auto simp: a1_def quiet_defs)
  moreover have "quiet a1 [] a2" "quiet a2 [] a3"
    by (simp_all add: a2_def a3_def quiet_refl)
  moreover have "fst (next_request_id a3) = t"
    using eq unfolding build_request_def Let_def
    by (auto simp: a1_def a2_def a3_def split: prod.splits if_splits)
  then have "quiet a3 [] t" by (metis next_ids_quiet(2) prod.collapse)
  ultimately show ?thesis by (meson q.keeps_after_silent)
qed

lemma quiet_request:
  "quiet a es t \<Longrightarrow> quiet a (es @ [ExecuteBackend request]) t"
  "quiet a es t \<Longrightarrow> quiet a (es @ [state_changed from to, ExecuteBackend request]) t"
  by (simp_all add: quiet_def state_changed_def)

lemma continue_after_tools_quiet:
  assumes eq: "continue_after_tools ax a = (t, es)"
  shows "quiet a es t"
proof (cases "pending_tools a = [] \<and> \<not> st_backend_in_flight (ag_state a) \<and> active_run a \<noteq> None")
  case False
  with eq show ?thesis
    by (auto simp: continue_after_tools_def quiet_refl split: if_splits option.splits)
next
  case True
  then obtain run_id where run: "active_run a = Some run_id" by auto
  obtain a1 turn where bt: "agent_begin_turn ax a = (a1, turn)" by fastforce
  note q1 = agent_begin_turn_quiet [OF bt]
  show ?thesis
  proof (cases turn)
    case (Inl failure)
    with True run bt q1 eq show ?thesis by (auto simp: continue_after_tools_def)
  next
    case (Inr turn_effects)
    let ?a2 = "set_status WaitingForBackend a1"
    obtain request where er: "agent_execution_request ax run_id ?a2 = (t, request)"
      using True run bt Inr eq by (auto simp: continue_after_tools_def Let_def split: prod.splits)
    have request_q: "quiet ?a2 [] t"
      using q1 Inr run er by (intro build_request_quiet) (auto simp: agent_execution_request_def)
    have waiting_q: "quiet a1 [] ?a2" by (rule set_status_quiet) simp
    have "quiet a turn_effects a1" using q1 Inr by (auto intro: quiet_emitsI)
    then have "quiet a turn_effects t"
      using q.keeps_before_silent waiting_q request_q by blast
    then have "quiet a ((turn_effects @ (if status a1 \<noteq> WaitingForBackend
        then [state_changed (status a1) WaitingForBackend] else [])) @ [ExecuteBackend request]) t"
      by (intro quiet_request) (simp add: quiet_def state_changed_def)
    with True run bt Inr er eq show ?thesis
      by (auto simp: continue_after_tools_def Let_def split: if_splits)
  qed
qed

section \<open>Tool results\<close>

lemma next_after_result_quiet: "next_after_result ax stop a = (t, es) \<Longrightarrow> quiet a es t"
  using q.keeps_after_silent [OF upd_timeouts_quiet [where f = "\<lambda>_. 0"] fail_run_quiet]
  by (auto simp: next_after_result_def Let_def split: option.splits if_splits
      dest: behavior_stop_quiet continue_after_tools_quiet)

lemma run_post_tool_rules_quiet:
  "run_post_tool_rules ax call has_error preview a = (t, es, p, stop) \<Longrightarrow> quiet a es t"
  by (auto simp: run_post_tool_rules_def Let_def split: prod.splits
      dest!: rules_applied_quiet intro: quiet_emitsI)

lemma append_pending_notes_quiet:
  "append_pending_notes cid preview a = (t, p) \<Longrightarrow> quiet a [] t"
  by (auto simp: append_pending_notes_def Let_def)

lemma count_tool_call_quiet: "quiet a [] (count_tool_call a)"
  by (simp add: count_tool_call_def quiet_defs)

lemma record_tool_result_quiet:
  assumes eq: "record_tool_result ax call executed has_error preview a = (t, es)"
  shows "quiet a es t"
proof -
  obtain a1 rule_effects p1 stop where
    rules: "(if executed then run_post_tool_rules ax call has_error preview a
             else (a, [], preview, None)) = (a1, rule_effects, p1, stop)"
    by (metis surj_pair)
  obtain a2 p2 where noted: "append_pending_notes (call_id call) p1 a1 = (a2, p2)" by fastforce
  let ?summary = "\<lparr>trs_has_error = has_error, trs_output_preview = p2\<rparr>"
  obtain a3 i where msg: "push_message ax Role_Tool [ToolResult (call_id call) ?summary]
      (count_tool_call a2) = (a3, i)" by fastforce
  obtain later where nxt: "next_after_result ax stop a3 = (t, later)"
    using eq rules noted msg by (auto simp: record_tool_result_def Let_def split: prod.splits)
  have rules_q: "quiet a rule_effects a1"
    using rules by (auto simp: quiet_refl split: if_splits dest: run_post_tool_rules_quiet)
  have "quiet a1 [] a3"
    using quiet_sandwich [OF append_pending_notes_quiet [OF noted] count_tool_call_quiet
        push_message_quiet [OF msg]] .
  then have result_q: "quiet a1 [Emit (ToolCallCompleted (call_id call) ?summary)] a3"
    by (auto intro: quiet_emitsI)
  from q.keeps_trans [OF rules_q q.keeps_cons [OF result_q next_after_result_quiet [OF nxt]]]
  show ?thesis using eq rules noted msg nxt by (simp add: record_tool_result_def Let_def)
qed

text \<open>Settling a call takes the permissions that refer to it along.\<close>

lemma settle_call_quiet: "quiet a [] (settle_call cid a)"
proof -
  have "distinct (map fst (filter (\<lambda>(_, c). c \<noteq> cid) (permissions a)))"
    if "hm_wf (permissions a)"
    using that by (induction "permissions a" arbitrary: a) (auto simp: distinct_map inj_on_def)
  then show ?thesis
    by (auto simp: settle_call_def quiet_defs map_le_def delete_conv fun_upd_def split: if_splits)
qed

lemma tool_completed_quiet: "tool_completed ax cid result a = (t, es) \<Longrightarrow> quiet a es t"
  using q.keeps_after_silent [OF settle_call_quiet
      q.keeps_after_silent [OF upd_timeouts_quiet record_tool_result_quiet]]
  by (auto simp: tool_completed_def quiet_refl split: option.splits)

lemma tool_failed_quiet: "tool_failed ax cid error a = (t, es) \<Longrightarrow> quiet a es t"
  using q.keeps_after_silent [OF settle_call_quiet
      q.keeps_after_silent [OF upd_timeouts_quiet record_tool_result_quiet]]
  by (auto simp: tool_failed_def quiet_refl split: option.splits)

lemma deny_tool_quiet: "deny_tool ax cid rule reason a = (t, es) \<Longrightarrow> quiet a es t"
  by (auto simp: deny_tool_def split: prod.splits dest!: tool_failed_quiet simp: quiet_def)

section \<open>Requested calls\<close>

text \<open>The rules a request meets, and when their outcome lets it through.\<close>

definition request_rules :: "'d agent_externals \<Rightarrow> tool_call \<Rightarrow> 'd agent \<Rightarrow> rule_outcome" where
  "request_rules ax call a =
     snd (evaluate (ax_behavior ax) (note_tool_request (ax_behavior ax) (behavior a) call)
       PreToolUse (Some \<lparr>te_call = call, te_result = None\<rparr>))"

definition rule_denies :: "rule_outcome \<Rightarrow> bool" where
  "rule_denies ro \<longleftrightarrow> (case ro_decision ro of Some (Decide_Deny _ _) \<Rightarrow> True | _ \<Rightarrow> False)"

fun approval_mode :: "approval \<Rightarrow> permission_mode" where
  "approval_mode Approval_Allow = Allow"
| "approval_mode Approval_Ask = Ask"

definition within_budget :: "behavior_state \<Rightarrow> bool" where
  "within_budget b \<longleftrightarrow> \<not> rc_final_turn (bs_run b)
     \<and> is_none_or (\<lambda>max. rc_tool_calls (bs_run b) < max) (lim_max_tool_calls (bs_limits b))"

definition admissible :: "'d agent_externals \<Rightarrow> tool_call \<Rightarrow> approval \<Rightarrow> 'd agent \<Rightarrow> bool" where
  "admissible ax call approval a \<longleftrightarrow>
     (let ro = request_rules ax call a; profile = bs_profile (behavior a); name = call_name call
      in (case session_grant a name of
            None \<Rightarrow> False
          | Some session_mode \<Rightarrow>
              decided_mode (permission profile name session_mode) (ro_decision ro)
                = approval_mode approval)
         \<and> allows_tool profile name \<and> ro_stop ro = None \<and> \<not> rule_denies ro
         \<and> within_budget (behavior a))"

definition rewritten_call :: "'d agent_externals \<Rightarrow> tool_call \<Rightarrow> 'd agent \<Rightarrow> tool_call" where
  "rewritten_call ax call a =
     call\<lparr>call_arguments := fold (\<lambda>(_, patch) args. merge_patch args patch)
       (ro_rewrite_args (request_rules ax call a)) (call_arguments call)\<rparr>"

lemma admit_tool_call_iff: "snd (admit_tool_call b) \<longleftrightarrow> within_budget b"
  by (auto simp: admit_tool_call_def within_budget_def Let_def is_some_and_def is_none_or_def
      split: option.splits)

text \<open>What the steps before the budget check leave alone.\<close>

definition same_limits :: "behavior_state \<Rightarrow> behavior_state \<Rightarrow> bool" where
  "same_limits b c \<longleftrightarrow> bs_profile c = bs_profile b
     \<and> rc_final_turn (bs_run c) = rc_final_turn (bs_run b)
     \<and> rc_tool_calls (bs_run c) = rc_tool_calls (bs_run b)"

lemma same_limits_refl [simp]: "same_limits b b"
  by (simp add: same_limits_def)

lemma same_limits_trans: "same_limits b c \<Longrightarrow> same_limits c d \<Longrightarrow> same_limits b d"
  by (simp add: same_limits_def)

lemma within_budget_same: "same_limits b c \<Longrightarrow> within_budget c = within_budget b"
  by (simp add: same_limits_def within_budget_def)

lemma note_tool_request_same_limits: "same_limits b (note_tool_request ext b call)"
  by (auto simp: same_limits_def note_tool_request_def Let_def split: option.splits)

lemma evaluate_rules_same_limits:
  "evaluate_rules ext event tool ref rs b outcome = (b', outcome') \<Longrightarrow> same_limits b b'"
proof (induction rs arbitrary: b outcome)
  case (Cons r rs)
  have "same_limits b (fire_rule b r)" by (simp add: same_limits_def fire_rule_def)
  with Cons show ?case
    by (auto simp: evaluate_rules_Cons split: if_splits intro: same_limits_trans)
qed simp

lemma evaluate_same_limits: "evaluate ext b event tool = (b', outcome) \<Longrightarrow> same_limits b b'"
  unfolding evaluate_def by (rule evaluate_rules_same_limits)

lemma route_injection_same_limits: "same_limits (behavior a) (behavior (route_injection cid i a))"
  by (auto simp: same_limits_def route_injection_def push_pending_result_def
      push_pending_request_def upd_last_message_def split: placement.splits option.splits)

lemma fold_route_same_limits:
  "same_limits (behavior a) (behavior (fold (route_injection cid) is a))"
  by (induction "is" arbitrary: a) (auto intro: same_limits_trans route_injection_same_limits)

lemma apply_rule_outcome_same_limits:
  "apply_rule_outcome ro cid a = (t, es) \<Longrightarrow> same_limits (behavior a) (behavior t)"
  using fold_route_same_limits [of a cid "ro_injections ro"]
  by (auto simp: apply_rule_outcome_def Let_def split: option.splits prod.splits)

lemma rules_applied_same_limits:
  "apply_rule_outcome ro cid (upd_behavior (\<lambda>_. b) a) = (t, es) \<Longrightarrow>
   same_limits (behavior a) b \<Longrightarrow> same_limits (behavior a) (behavior t)"
  by (drule apply_rule_outcome_same_limits) (auto intro: same_limits_trans)

text \<open>A refused call is settled, whatever follows.\<close>

definition refused :: "tool_call_id \<Rightarrow> 'd agent \<Rightarrow> 'd agent_effect list \<Rightarrow> 'd agent \<Rightarrow> bool" where
  "refused cid a es t \<longleftrightarrow> quiet a es t \<and> map_of (pending_tools t) cid = None
     \<and> cid \<notin> snd ` set (permissions t)"

lemma refused_after: "quiet a es b \<Longrightarrow> refused cid b fs t \<Longrightarrow> refused cid a (es @ fs) t"
  by (auto simp: refused_def intro: q.keeps_trans)

lemma quiet_settles:
  assumes "quiet b fs t"
  shows "map_of (pending_tools b) cid = None \<Longrightarrow> map_of (pending_tools t) cid = None"
    and "set (permissions t) \<subseteq> set (permissions b)"
proof -
  have s: "settles {} b t" using assms by (simp add: quiet_except_def)
  then show "set (permissions t) \<subseteq> set (permissions b)" by (simp add: settles_def)
  from s have "map_of (pending_tools t) c = Some p \<Longrightarrow> map_of (pending_tools b) c = Some p" for c p
    by (simp add: settles_def)
  then show "map_of (pending_tools b) cid = None \<Longrightarrow> map_of (pending_tools t) cid = None"
    by (metis option.exhaust)
qed

lemma refused_then: "refused cid a es b \<Longrightarrow> quiet b fs t \<Longrightarrow> refused cid a (es @ fs) t"
  using quiet_settles [of b fs t] by (auto simp: refused_def intro: q.keeps_trans)

lemma quiet_refused:
  assumes "quiet_except {cid} a es b" "refused cid b fs t"
  shows "quiet a (es @ fs) t"
proof (rule quiet_forget)
  show "quiet_except {cid} a (es @ fs) t"
    using assms by (auto simp: refused_def intro: q.keeps_trans quiet_weaken)
qed (use assms(2) in \<open>auto simp: refused_def\<close>)

lemma tool_failed_refused:
  assumes "tool_failed ax cid error a = (t, es)" "map_of (pending_tools a) cid = Some p"
  shows "refused cid a es t"
proof -
  let ?s = "upd_state (\<lambda>s. s\<lparr>st_consecutive_tool_timeouts :=
                 (if error = Timeout then st_consecutive_tool_timeouts s + 1 else 0)\<rparr>)
               (settle_call cid a)"
  have "record_tool_result ax (pt_call p) (\<not> never_ran error) True
      (tool_error_preview (call_name (pt_call p)) error) ?s = (t, es)"
    using assms by (simp add: tool_failed_def)
  note q = record_tool_result_quiet [OF this]
  have "quiet a [] ?s"
    by (rule q.keeps_after_silent [OF settle_call_quiet upd_timeouts_quiet])
  moreover have "refused cid ?s [] ?s"
    by (auto simp: refused_def quiet_refl settle_call_def delete_conv)
  ultimately show ?thesis
    using refused_then [OF _ q] refused_after by fastforce
qed

lemma deny_tool_refused:
  assumes "deny_tool ax cid rule reason a = (t, es)" "map_of (pending_tools a) cid = Some p"
  shows "refused cid a es t"
proof -
  obtain fs where fs: "tool_failed ax cid (Denied reason) a = (t, fs)"
    "es = Emit (ToolCallDenied cid rule reason) # fs"
    using assms(1) by (auto simp: deny_tool_def split: prod.splits)
  then show ?thesis
    using refused_after [OF quiet_emitsI [OF _ quiet_refl], of "[Emit (ToolCallDenied cid rule reason)]"]
      tool_failed_refused [OF fs(1) assms(2)] by auto
qed

lemma rules_effects_pending:
  "apply_rule_outcome ro cid a = (t, es) \<Longrightarrow> pending_tools t = pending_tools a"
proof -
  have "pending_tools (route_injection cid i a) = pending_tools a" for i and a :: "'a agent"
    by (simp add: route_injection_def push_pending_result_def push_pending_request_def
        upd_last_message_def split: placement.splits option.splits)
  then have "pending_tools (fold (route_injection cid) is a) = pending_tools a" for "is"
    by (induction "is" arbitrary: a) simp_all
  then show "apply_rule_outcome ro cid a = (t, es) \<Longrightarrow> pending_tools t = pending_tools a"
    by (auto simp: apply_rule_outcome_def Let_def split: option.splits prod.splits)
qed

lemma evaluate_request_rules_cases:
  assumes "evaluate_request_rules ax call a = (t, effects, r)"
    and pending: "map_of (pending_tools a) (call_id call) = Some p"
  obtains (refused) refusal where "r = Inl refusal" "emits_only effects"
      "refused (call_id call) a refusal t"
  | (passed) "r = Inr (request_rules ax call a)" "ro_stop (request_rules ax call a) = None"
      "emits_only effects" "quiet a [] t" "active_run t = active_run a"
      "same_limits (behavior a) (behavior t)" "pending_tools t = pending_tools a"
proof -
  let ?b0 = "note_tool_request (ax_behavior ax) (behavior a) call"
  obtain b ro where ev: "evaluate (ax_behavior ax) ?b0 PreToolUse
      (Some \<lparr>te_call = call, te_result = None\<rparr>) = (b, ro)" by fastforce
  then have ro: "ro = request_rules ax call a" by (simp add: request_rules_def)
  obtain c es where ap: "apply_rule_outcome ro (Some (call_id call)) (upd_behavior (\<lambda>_. b) a) = (c, es)"
    by fastforce
  note rq = rules_applied_quiet [OF ap]
  have pend: "pending_tools c = pending_tools a" using rules_effects_pending [OF ap] by simp
  have lim: "same_limits (behavior a) (behavior c)"
    by (rule rules_applied_same_limits [OF ap])
       (rule same_limits_trans [OF note_tool_request_same_limits evaluate_same_limits [OF ev]])
  show thesis
  proof (cases "ro_stop ro")
    case None
    with assms(1) ev ap have "t = c" "effects = es" "r = Inr ro"
      by (auto simp: evaluate_request_rules_def Let_def)
    with None ro rq lim pend show thesis by (auto intro: passed)
  next
    case (Some stop)
    obtain d refusal where d: "deny_tool ax (call_id call) (Some (stop_rule_id stop))
        (stop_reason stop) c = (d, refusal)" by fastforce
    obtain failure where f: "behavior_stop ax stop d = (t, failure)"
      using Some assms(1) ev ap d
      by (auto simp: evaluate_request_rules_def Let_def split: prod.splits)
    have "refused (call_id call) c (refusal @ failure) t"
      using refused_then [OF deny_tool_refused [OF d] behavior_stop_quiet [OF f]] pending pend
      by simp
    then have "refused (call_id call) a (refusal @ failure) t"
      using refused_after [of a "[]" c] rq by simp
    moreover have "effects = es" "r = Inl (refusal @ failure)"
      using Some assms(1) ev ap d f by (auto simp: evaluate_request_rules_def Let_def)
    ultimately show thesis using rq by (auto intro: refused)
  qed
qed

lemma approval_for_cases:
  assumes "approval_for ax call session_mode ro a = (t, r)"
    and pending: "map_of (pending_tools a) (call_id call) = Some p"
  obtains (refused) refusal where "r = Inl refusal" "refused (call_id call) a refusal t"
  | (approved) approval where "r = Inr approval" "t = a" "\<not> rule_denies ro"
      "decided_mode (permission (bs_profile (behavior a)) (call_name call) session_mode)
         (ro_decision ro) = approval_mode approval"
proof (cases "rule_denies ro")
  case True
  then obtain rule reason where "ro_decision ro = Some (Decide_Deny rule reason)"
    by (auto simp: rule_denies_def split: option.splits tool_decision.splits)
  with assms show thesis
    by (auto simp: approval_for_def Let_def split: prod.splits
        intro!: refused dest: deny_tool_refused)
next
  case False
  let ?mode = "decided_mode (permission (bs_profile (behavior a)) (call_name call) session_mode)
         (ro_decision ro)"
  have "approval_for ax call session_mode ro a =
      (case ?mode of Allow \<Rightarrow> (a, Inr Approval_Allow) | Ask \<Rightarrow> (a, Inr Approval_Ask)
       | Deny \<Rightarrow>
          if session_mode = Deny
          then (let (a, refusal) = tool_failed ax (call_id call) PermissionDenied a in (a, Inl refusal))
          else (let (a, refusal) = deny_tool ax (call_id call) None
                  (''Tool '' @ call_name call @ '' is denied by profile ''
                   @ fmt_profile_ref (reference (bs_profile (behavior a))) @ ''.'') a
                in (a, Inl refusal)))"
    using False
    by (auto simp: approval_for_def Let_def rule_denies_def
        split: option.splits tool_decision.splits)
  with assms False show thesis
    by (cases ?mode) (auto split: if_splits prod.splits intro: approved refused
        dest: deny_tool_refused tool_failed_refused)
qed

lemma retool_quiet:
  "quiet_except {cid} a [] (upd_state (\<lambda>s. s\<lparr>st_pending_tools :=
     AList.update cid p (st_pending_tools s)\<rparr>) a)"
  by (auto simp: quiet_defs update_conv' distinct_update)

lemma rewrite_arguments_quiet:
  assumes "rewrite_arguments ax call ro a = (t, call')"
    and pending: "map_of (pending_tools a) (call_id call) = Some p" "pt_call p = call"
  shows "quiet_except {call_id call} a [] t"
    and "call' = call\<lparr>call_arguments := fold (\<lambda>(_, patch) args. merge_patch args patch)
           (ro_rewrite_args ro) (call_arguments call)\<rparr>"
    and "\<exists>p'. map_of (pending_tools t) (call_id call) = Some p' \<and> pt_call p' = call'"
    and "same_limits (behavior a) (behavior t)" and "active_run t = active_run a"
proof -
  let ?args = "fold (\<lambda>(_, patch) args. merge_patch args patch) (ro_rewrite_args ro)
    (call_arguments call)"
  let ?b = "upd_state (\<lambda>s. s\<lparr>st_pending_tools := AList.update (call_id call)
     (p\<lparr>pt_call := (pt_call p)\<lparr>call_arguments := ?args\<rparr>\<rparr>) (st_pending_tools s)\<rparr>) a"
  have none: "t = a \<and> call' = call" if "ro_rewrite_args ro = []"
    using that assms(1) by (simp add: rewrite_arguments_def)
  have some: "\<exists>note. t = push_pending_result (call_id call) note ?b
      \<and> call' = call\<lparr>call_arguments := ?args\<rparr>" if "ro_rewrite_args ro \<noteq> []"
    using that assms by (auto simp: rewrite_arguments_def Let_def)
  show "quiet_except {call_id call} a [] t"
    using none some q.keeps_after_silent [OF retool_quiet quiet_weaken [OF push_pending_quiet(2)]]
    by (cases "ro_rewrite_args ro = []") (auto simp: quiet_except_refl)
  show "call' = call\<lparr>call_arguments := ?args\<rparr>"
    using none some by (cases "ro_rewrite_args ro = []") auto
  show "\<exists>p'. map_of (pending_tools t) (call_id call) = Some p' \<and> pt_call p' = call'"
    using none some pending
    by (cases "ro_rewrite_args ro = []") (auto simp: push_pending_result_def update_conv')
  show "same_limits (behavior a) (behavior t)"
    using none some
    by (cases "ro_rewrite_args ro = []") (auto simp: push_pending_result_def same_limits_def)
  show "active_run t = active_run a"
    using none some by (cases "ro_rewrite_args ro = []") (auto simp: push_pending_result_def)
qed

lemma require_tool_budget_cases:
  assumes "require_tool_budget ax cid a = (t, r)"
    and pending: "map_of (pending_tools a) cid = Some p"
  obtains (refused) refusal where "r = Inl refusal" "refused cid a refusal t"
  | (admitted) "r = Inr ()" "within_budget (behavior a)" "quiet a [] t"
      "pending_tools t = pending_tools a" "active_run t = active_run a"
proof -
  obtain b ok where ad: "admit_tool_call (behavior a) = (b, ok)" by fastforce
  then have ok: "ok = within_budget (behavior a)" using admit_tool_call_iff by (metis snd_conv)
  let ?a = "upd_behavior (\<lambda>_. b) a"
  have silent: "quiet a [] ?a" by (rule upd_behavior_quiet)
  show thesis
  proof (cases ok)
    case True
    with assms(1) ad ok silent show thesis by (auto simp: require_tool_budget_def intro: admitted)
  next
    case False
    with assms ad show thesis
      by (auto simp: require_tool_budget_def Let_def split: prod.splits
          dest!: deny_tool_refused intro: refused [OF _ refused_after [OF silent, simplified]])
  qed
qed

lemma admit_cases:
  assumes admit: "agent_admit_tool_call ax call a = (t, effects, r)"
    and pending: "map_of (pending_tools a) (call_id call) = Some p" "pt_call p = call"
  obtains (refused) refusal b where "r = Inl refusal" "emits_only effects"
      "quiet_except {call_id call} a [] b" "refused (call_id call) b refusal t"
  | (admitted) approval p' where "r = Inr (rewritten_call ax call a, approval)"
      "emits_only effects" "quiet_except {call_id call} a [] t" "admissible ax call approval a"
      "map_of (pending_tools t) (call_id call) = Some p'" "pt_call p' = rewritten_call ax call a"
      "active_run t = active_run a"
proof (cases "session_grant a (call_name call)")
  case None
  with admit pending show thesis
    by (auto simp: agent_admit_tool_call_def split: prod.splits
        intro: refused quiet_except_refl dest: tool_failed_refused)
next
  case (Some session_mode)
  show thesis
  proof (cases "allows_tool (bs_profile (behavior a)) (call_name call)")
    case False
    with Some admit pending show thesis
      by (auto simp: agent_admit_tool_call_def split: prod.splits
          intro: refused quiet_except_refl dest: deny_tool_refused)
  next
    case True
    obtain a1 es rules where ev: "evaluate_request_rules ax call a = (a1, es, rules)"
      by (metis surj_pair)
    show thesis using ev pending(1)
    proof (cases rule: evaluate_request_rules_cases)
      case (refused refusal)
      with Some True admit ev show thesis
        by (auto simp: agent_admit_tool_call_def intro: that(1) quiet_except_refl)
    next
      case passed
      let ?ro = "request_rules ax call a"
      have p1: "map_of (pending_tools a1) (call_id call) = Some p" using passed pending by simp
      obtain a2 ap where ap: "approval_for ax call session_mode ?ro a1 = (a2, ap)" by fastforce
      show thesis using ap p1
      proof (cases rule: approval_for_cases)
        case (refused refusal)
        with Some True admit ev passed ap show thesis
          by (auto simp: agent_admit_tool_call_def intro: that(1) quiet_weaken)
      next
        case (approved approval)
        obtain a3 call' where rw: "rewrite_arguments ax call ?ro a1 = (a3, call')" by fastforce
        note rwq = rewrite_arguments_quiet [OF rw p1 pending(2)]
        have call': "call' = rewritten_call ax call a" using rwq(2) by (simp add: rewritten_call_def)
        then have id': "call_id call' = call_id call" by (simp add: rewritten_call_def)
        from rwq(3) obtain p3 where p3: "map_of (pending_tools a3) (call_id call) = Some p3"
          "pt_call p3 = call'" by blast
        have q13: "quiet_except {call_id call} a [] a3"
          by (rule q.keeps_after_silent [OF quiet_weaken [OF passed(4)] rwq(1)])
        obtain budget where bu: "require_tool_budget ax (call_id call') a3 = (t, budget)"
          using Some True admit ev passed ap approved rw
          by (auto simp: agent_admit_tool_call_def split: prod.splits sum.splits)
        show thesis using bu p3(1) [folded id']
        proof (cases rule: require_tool_budget_cases)
          case (refused refusal)
          with Some True admit ev passed ap approved rw bu id' q13 show thesis
            by (auto simp: agent_admit_tool_call_def intro: that(1))
        next
          case admitted
          have lim: "same_limits (behavior a) (behavior a3)"
            using same_limits_trans [OF passed(6) rwq(4)] .
          have "admissible ax call approval a"
            using Some True approved passed admitted within_budget_same [OF lim]
            by (simp add: admissible_def Let_def same_limits_def)
          moreover have "quiet_except {call_id call} a [] t"
            by (rule q.keeps_before_silent [OF q13 quiet_weaken [OF admitted(3)]])
          ultimately show thesis
            using Some True admit ev passed ap approved rw bu admitted p3 call' rwq(5)
            by (intro that(2) [of approval p3]) (auto simp: agent_admit_tool_call_def)
        qed
      qed
    qed
  qed
qed

lemma take_sequence_frame:
  "take_sequence a = (t, s) \<Longrightarrow> t = upd_state (\<lambda>st. st\<lparr>st_transition_sequence :=
     saturating_add (sequence a) 1\<rparr>) a \<and> s = sequence a"
  by (auto simp: take_sequence_def Let_def)

lemma next_id_frame:
  "next_id n a = (t, i) \<Longrightarrow> t = upd_state (\<lambda>st. st\<lparr>st_transition_sequence :=
     saturating_add (sequence a) 1\<rparr>) a \<and> i = derived (ag_id a) (sequence a) n"
  by (auto simp: next_id_def split: prod.splits dest!: take_sequence_frame)

lemma push_message_frame:
  "push_message ax role content a = (t, i) \<Longrightarrow> behavior t = behavior a \<and> active_run t = active_run a
     \<and> status t = status a \<and> pending_tools t = pending_tools a"
  by (auto simp: push_message_def next_message_id_def next_timestamp_def Let_def split: prod.splits
      dest!: next_id_frame take_sequence_frame)

lemma push_tool_use_frame:
  "push_tool_use ax call a = (t, i) \<Longrightarrow> behavior t = behavior a \<and> active_run t = active_run a
     \<and> status t = status a \<and> pending_tools t = pending_tools a"
  by (auto simp: push_tool_use_def Let_def upd_last_message_def split: option.splits if_splits
      dest: push_message_frame)

lemma record_tool_request_quiet:
  assumes "record_tool_request ax call a = (t, es)"
  shows "quiet_except {call_id call} a [] t" "emits_only es" "behavior t = behavior a"
    "\<exists>p. map_of (pending_tools t) (call_id call) = Some p \<and> pt_call p = call"
    "active_run t = active_run a"
proof -
  obtain a1 i where pu: "push_tool_use ax call a = (a1, i)" by fastforce
  obtain a2 now where ts: "next_timestamp ax a1 = (a2, now)" by fastforce
  have t: "t = upd_state (\<lambda>s. s\<lparr>st_pending_tools := AList.update (call_id call)
              \<lparr>pt_call = call, pt_started_at = now\<rparr> (st_pending_tools s)\<rparr>) a2"
    and es: "es = [Emit (ToolCallRequested call)]"
    using assms pu ts by (auto simp: record_tool_request_def Let_def)
  have q: "quiet a [] a2"
    by (rule q.keeps_after_silent [OF push_tool_use_quiet [OF pu] next_timestamp_quiet [OF ts]])
  show "quiet_except {call_id call} a [] t"
    unfolding t by (rule q.keeps_after_silent [OF quiet_weaken [OF q] retool_quiet])
  show "emits_only es" by (simp add: es)
  have "behavior a2 = behavior a \<and> active_run a2 = active_run a"
    using push_tool_use_frame [OF pu] ts
    by (auto simp: next_timestamp_def split: prod.splits dest!: take_sequence_frame)
  then show "behavior t = behavior a" "active_run t = active_run a"
    "\<exists>p. map_of (pending_tools t) (call_id call) = Some p \<and> pt_call p = call"
    by (auto simp: t update_conv')
qed

text \<open>Whether a call is admissible depends on the capabilities and the behavior only.\<close>

lemma admissible_cong:
  "ag_capabilities b = ag_capabilities a \<Longrightarrow> behavior b = behavior a \<Longrightarrow>
   admissible ax call approval b = admissible ax call approval a
   \<and> rewritten_call ax call b = rewritten_call ax call a"
  by (simp add: admissible_def rewritten_call_def request_rules_def session_grant_def Let_def)

lemma tool_requested_cases:
  assumes eq: "tool_requested ax call a = (t, es)"
  obtains (refused) "quiet a es t"
  | (admitted) approval b p pre where
      "quiet_except {call_id call} a [] b" "emits_only pre" "active_run b = active_run a"
      "admissible ax call approval a"
      "map_of (pending_tools b) (call_id call) = Some p" "pt_call p = rewritten_call ax call a"
      "(t, es) = (case approval of
          Approval_Allow \<Rightarrow> apsnd ((@) pre) (execute_now (status a) (rewritten_call ax call a) b)
        | Approval_Ask \<Rightarrow> apsnd ((@) pre) (ask_permission (status a) (rewritten_call ax call a) b))"
proof -
  obtain a1 es1 where rec: "record_tool_request ax call a = (a1, es1)" by fastforce
  note r = record_tool_request_quiet [OF rec]
  from r(4) obtain p where p: "map_of (pending_tools a1) (call_id call) = Some p" "pt_call p = call"
    by blast
  have caps: "ag_capabilities a1 = ag_capabilities a"
    using r(1) by (simp add: quiet_except_def same_identity_def)
  note cong = admissible_cong [OF caps r(3)]
  obtain a2 es2 adm where ad: "agent_admit_tool_call ax call a1 = (a2, es2, adm)"
    by (metis surj_pair)
  show thesis using ad p
  proof (cases rule: admit_cases)
    case (refused refusal b)
    have t: "t = a2" "es = es1 @ es2 @ refusal"
      using eq rec ad refused by (auto simp: tool_requested_def Let_def)
    have "quiet_except {call_id call} a (es1 @ es2) b"
      by (rule quiet_emitsI)
         (auto simp: r(2) refused intro: q.keeps_after_silent [OF r(1) refused(3)])
    from quiet_refused [OF this refused(4)] show thesis
      using t that(1) by simp
  next
    case (admitted approval p')
    have "quiet_except {call_id call} a [] a2"
      by (rule q.keeps_after_silent [OF r(1) admitted(3)])
    moreover have "emits_only (es1 @ es2)" using r(2) admitted by simp
    ultimately show thesis
      using admitted cong eq rec ad r(5)
      by (intro that(2) [of a2 "es1 @ es2" approval p'])
         (auto simp: tool_requested_def Let_def split: prod.splits approval.splits)
  qed
qed

section \<open>The completion gate and backend events\<close>

lemma turn_request_quiet:
  assumes "quiet_attempt a (Inr effects) b" "active_run a \<noteq> None"
    and "agent_execution_request ax run_id (set_status WaitingForBackend b) = (t, request)"
  shows "quiet a effects t"
proof -
  have "quiet b [] (set_status WaitingForBackend b)" by (rule set_status_quiet) simp
  moreover have "quiet (set_status WaitingForBackend b) [] t"
    using assms by (intro build_request_quiet) (auto simp: agent_execution_request_def)
  ultimately have "quiet b [] t" by (rule q.keeps_after_silent)
  moreover have "quiet a effects b" using assms(1) by (auto intro: quiet_emitsI)
  ultimately show ?thesis using q.keeps_before_silent by blast
qed

lemma send_answer_back_quiet:
  assumes eq: "send_answer_back ax run_id ref failures a = (t, es)" and run: "active_run a \<noteq> None"
  shows "quiet a es t"
proof -
  define b where "b = upd_behavior (upd_run (\<lambda>r. r\<lparr>rc_gate_continuations :=
                rc_gate_continuations r + 1\<rparr>)) a"
  define c where "c = push_gate_rejection ax ref failures b"
  have pushed: "\<exists>i. push_message ax Role_User
       [Text (system_reminder (''gate:'' @ fmt_profile_ref ref) (rejection_text failures))] b = (c, i)"
    unfolding c_def push_gate_rejection_def by (metis prod.collapse)
  then have "quiet b [] c" "active_run c = active_run a"
    using push_message_quiet push_message_frame by (fastforce simp: b_def)+
  then have ac: "quiet a [] c"
    using q.keeps_after_silent [OF upd_behavior_quiet] by (simp add: b_def)
  obtain d turn where bt: "agent_begin_turn ax c = (d, turn)" by fastforce
  note bq = agent_begin_turn_quiet [OF bt]
  show ?thesis
  proof (cases turn)
    case (Inl failure)
    with eq bt bq ac show ?thesis
      by (auto simp: send_answer_back_def Let_def b_def c_def dest: q.keeps_after_silent)
  next
    case (Inr effects)
    obtain request where er:
      "agent_execution_request ax run_id (set_status WaitingForBackend d) = (t, request)"
      "es = effects @ [state_changed (status d) WaitingForBackend, ExecuteBackend request]"
      using eq bt Inr
      by (auto simp: send_answer_back_def Let_def b_def c_def split: prod.splits)
    have "quiet c effects t"
      using turn_request_quiet [OF _ _ er(1), of c effects] bq Inr run \<open>active_run c = active_run a\<close>
      by simp
    then show ?thesis using quiet_request(2) q.keeps_after_silent [OF ac] er(2) by blast
  qed
qed

definition may_finish :: "'d agent \<Rightarrow> bool" where
  "may_finish a \<longleftrightarrow> \<not> st_backend_in_flight (ag_state a) \<or> status a = Verifying"

lemma quiet_cons: "quiet a es t \<Longrightarrow> quiet a (Emit ev # es) t"
  by (simp add: quiet_except_def)

lemma gate_decided_quiet:
  assumes "gate_decided ax run_id failures summary a = (t, es)"
    and "active_run a \<noteq> None" "may_finish a"
  shows "quiet a es t"
  using assms
  by (auto simp: gate_decided_def Let_def gate_evaluated_def end_exhausted_gate_def may_finish_def
      split: option.splits prod.splits gate_step.splits on_exhausted.splits
      dest: finish_success_quiet fail_run_quiet send_answer_back_quiet intro!: quiet_cons)

lemma start_verifying_quiet:
  "start_verifying run_id gate evaluators a = (t, es) \<Longrightarrow> active_run a \<noteq> None \<Longrightarrow>
   \<not> st_backend_in_flight (ag_state a) \<Longrightarrow> quiet a es t"
  by (auto simp: start_verifying_def quiet_defs state_changed_def)

lemma propose_completion_quiet:
  assumes "propose_completion ax run_id summary a = (t, es)"
    and "active_run a \<noteq> None" "\<not> st_backend_in_flight (ag_state a)"
  shows "quiet a es t"
proof -
  let ?b = "note_gate_attempt ax a"
  have "quiet a [] ?b" "active_run ?b = active_run a"
    "st_backend_in_flight (ag_state ?b) = st_backend_in_flight (ag_state a)"
    by (simp_all add: note_gate_attempt_def)
  then show ?thesis using assms
    by (auto simp: propose_completion_def Let_def may_finish_def
        split: option.splits prod.splits if_splits
        dest: finish_success_quiet gate_decided_quiet start_verifying_quiet
        intro: q.keeps_after_silent [OF \<open>quiet a [] ?b\<close>])
qed

lemma count_evaluator_usage_quiet:
  "count_evaluator_usage ax usage a = (t, es) \<Longrightarrow> quiet a es t"
  by (auto simp: count_evaluator_usage_def Let_def next_timestamp_def quiet_defs saturating_inc_mono
      split: if_splits prod.splits dest!: take_sequence_frame)

lemma count_evaluator_usage_emits:
  "count_evaluator_usage ax usage a = (t, es) \<Longrightarrow> emits_only es"
  by (auto simp: count_evaluator_usage_def Let_def split: if_splits prod.splits)

lemma completion_evaluated_quiet:
  assumes "completion_evaluated ax run_id attempt verdicts usage a = (t, es)"
  shows "quiet a es t"
proof -
  obtain b es1 where b: "count_evaluator_usage ax usage a = (b, es1)" by fastforce
  note bq = count_evaluator_usage_quiet [OF b]
  have "quiet a [] b" by (rule quiet_emitsD [OF count_evaluator_usage_emits [OF b] bq])
  with assms b bq show ?thesis
    by (auto simp: completion_evaluated_def Let_def may_finish_def
        split: option.splits prod.splits if_splits
        dest!: gate_decided_quiet intro: q.keeps_trans [OF bq])
qed

lemma changed_to_emits [simp]: "emits_only (changed_to to from)"
  by (simp add: changed_to_def state_changed_def)

lemma upd_records_quiet:
  "quiet a [] (a\<lparr>ag_usage := (ag_usage a)\<lparr>ul_records := rs\<rparr>\<rparr>)"
  by (simp add: quiet_defs)

lemma completed_quiet:
  assumes "completed ax run_id result a = (t, es)" and "active_run a \<noteq> None"
  shows "quiet a es t"
proof -
  let ?r = "\<lparr>ur_model_usage = er_usage result, ur_cost = er_cost result, ur_tool_usage = None\<rparr>"
  define b where "b = upd_state (\<lambda>s. s\<lparr>st_backend_in_flight := False\<rparr>) a"
  define c where "c = discard_trailing_empty b"
  define d where "d = c\<lparr>ag_usage := (ag_usage c)\<lparr>ul_records := ul_records (ag_usage c) @ [?r]\<rparr>\<rparr>"
  have "quiet a [] b" using assms(2) by (auto simp: b_def quiet_defs)
  then have ad: "quiet a [] d"
    using quiet_sandwich [OF _ discard_trailing_empty_quiet upd_records_quiet]
    by (simp add: c_def d_def)
  have run: "active_run d \<noteq> None" "\<not> st_backend_in_flight (ag_state d)"
    using assms(2) by (auto simp: b_def c_def d_def discard_trailing_empty_def)
  from assms(1) have "quiet d es t"
    unfolding completed_def Let_def b_def [symmetric] c_def [symmetric] d_def [symmetric]
    by (auto split: if_splits dest: propose_completion_quiet [OF _ run]
        continue_after_tools_quiet fail_run_quiet)
  then show ?thesis by (rule q.keeps_after_silent [OF ad])
qed

text \<open>Every backend event but a requested call.\<close>

lemma quiet_chain: "quiet a [] b \<Longrightarrow> quiet b [] t \<Longrightarrow> emits_only es \<Longrightarrow> quiet a es t"
  by (rule quiet_emitsI, assumption, rule q.keeps_after_silent)

lemma text_delta_quiet: "text_delta ax delta a = (t, es) \<Longrightarrow> quiet a es t"
  by (auto simp: text_delta_def Let_def split: prod.splits
      intro!: quiet_chain [OF set_status_quiet [of Streaming] append_assistant_text_quiet])

lemma reasoning_delta_quiet: "reasoning_delta ax delta a = (t, es) \<Longrightarrow> quiet a es t"
  by (auto simp: reasoning_delta_def split: prod.splits
      intro!: quiet_chain [OF quiet_refl assistant_message_id_quiet])

lemma tool_started_quiet: "tool_started ax call a = (t, es) \<Longrightarrow> quiet a es t"
  by (auto simp: tool_started_def Let_def split: prod.splits
      intro!: quiet_chain [OF set_status_quiet [of Executing] push_tool_use_quiet])

lemma backend_tool_completed_quiet:
  "backend_tool_completed ax cid result a = (t, es) \<Longrightarrow> quiet a es t"
  by (auto simp: backend_tool_completed_def Let_def split: prod.splits
      intro!: quiet_chain [OF q.keeps_after_silent [OF set_status_quiet [of Streaming] count_tool_call_quiet]
        push_message_quiet])

lemma usage_update_quiet: "usage_update ax usage a = (t, es) \<Longrightarrow> quiet a es t"
  by (auto simp: usage_update_def split: prod.splits
      intro!: quiet_chain [OF quiet_refl next_timestamp_quiet])

lemma backend_event_quiet:
  assumes "backend_event ax run_id event a = (t, es)"
    and "\<nexists>r call. event = EE_ToolCallRequested r call"
  shows "quiet a es t"
proof (cases "active_run a = Some run_id")
  case True
  with assms show ?thesis
    by (cases event) (auto simp: backend_event_def dest: text_delta_quiet reasoning_delta_quiet
        tool_started_quiet backend_tool_completed_quiet usage_update_quiet completed_quiet
        fail_run_quiet)
qed (use assms in \<open>simp add: backend_event_def quiet_refl\<close>)

section \<open>Profiles, children and control\<close>

lemma set_behavior_profile_quiet:
  "set_behavior_profile ax profile library allow a = (t, es) \<Longrightarrow> quiet a es t"
proof -
  assume eq: "set_behavior_profile ax profile library allow a = (t, es)"
  define b where "b = upd_behavior (\<lambda>b. b\<lparr>bs_commands_trusted := allow\<rparr>) a"
  have ab: "quiet a [] b" unfolding b_def by (rule upd_behavior_quiet)
  from eq have "quiet b es t"
    unfolding set_behavior_profile_def Let_def b_def [symmetric]
    by (auto simp: quiet_refl split: option.splits if_splits
        intro: apply_switch_quiet upd_pending_profile_quiet [of b "\<lambda>_. Some p" for p])
  then show ?thesis by (rule q.keeps_after_silent [OF ab])
qed

lemma configure_execution_quiet: "configure_execution params a = (t, es) \<Longrightarrow> quiet a es t"
  by (auto simp: configure_execution_def quiet_defs)

lemma child_settled_quiet: "child_settled child result a = (t, es) \<Longrightarrow> quiet a es t"
  by (auto simp: child_settled_def Let_def quiet_defs split: if_splits)

lemma child_completed_quiet: "child_completed child result a = (t, es) \<Longrightarrow> quiet a es t"
  unfolding child_completed_def Let_def
  by (drule child_settled_quiet, erule q.keeps_after_silent [rotated])
     (simp add: quiet_defs add_child_summary_def)

lemma child_failed_quiet: "child_failed child error a = (t, es) \<Longrightarrow> quiet a es t"
  unfolding child_failed_def
  by (drule child_settled_quiet, erule q.keeps_after_silent [rotated]) (simp add: quiet_defs)

lemma child_spawned_quiet: "child_spawned child awaiting a = (t, es) \<Longrightarrow> quiet a es t"
  by (auto simp: child_spawned_def Let_def quiet_defs state_changed_def split: if_splits)

lemma cancel_quiet: "cancel a = (t, es) \<Longrightarrow> quiet a es t"
  by (auto simp: cancel_def Let_def quiet_defs state_changed_def list_all_iff finished_runs_def
      filter_empty_conv split: if_splits option.splits)

lemma pause_quiet: "pause a = (t, es) \<Longrightarrow> quiet a es t"
  by (auto simp: pause_def quiet_defs state_changed_def split: if_splits)

lemma resume_quiet: "resume ax a = (t, es) \<Longrightarrow> quiet a es t"
proof (cases "active_run a")
  case None
  then show "resume ax a = (t, es) \<Longrightarrow> quiet a es t"
    by (auto simp: resume_def quiet_defs state_changed_def split: if_splits)
next
  case (Some run_id)
  assume eq: "resume ax a = (t, es)"
  let ?b = "set_status WaitingForBackend a"
  have ab: "quiet a [] ?b" by (rule set_status_quiet) simp
  show ?thesis
  proof (cases "status a = Paused")
    case True
    then obtain request where r: "build_request ax run_id True ?b = (t, request)"
      "es = [state_changed Paused WaitingForBackend, ExecuteBackend request]"
      using eq Some by (auto simp: resume_def split: prod.splits)
    have "quiet ?b [] t" using Some by (intro build_request_quiet [OF r(1)]) auto
    then have "quiet a [] t" by (rule q.keeps_after_silent [OF ab])
    from quiet_request(2) [OF this] show ?thesis using r(2) by simp
  qed (use eq in \<open>auto simp: resume_def quiet_refl\<close>)
qed

section \<open>The contract of a command\<close>

text \<open>
  A command may start a run or ask for a permission, but only under an identifier minted from the
  agent's own sequence, so an identifier that is no longer current never becomes current again
  (until the 64-bit sequence saturates).
\<close>

definition minted :: "u64 \<Rightarrow> 'd agent \<Rightarrow> 'd agent \<Rightarrow> uuid \<Rightarrow> bool" where
  "minted n a t i \<longleftrightarrow> (\<exists>s. sequence a \<le> s \<and> s < sequence t \<and> i = derived (ag_id a) s n)"

definition moves :: "'d agent \<Rightarrow> 'd agent_effect list \<Rightarrow> 'd agent \<Rightarrow> bool" where
  "moves a es t \<longleftrightarrow> same_identity a t \<and> sequence a \<le> sequence t
     \<and> count_up (ul_runs (ag_usage a)) (finished_runs es) (ul_runs (ag_usage t))
     \<and> (sequence t \<noteq> - 1 \<longrightarrow>
          (\<forall>r. active_run t = Some r \<longrightarrow> active_run a = Some r \<or> minted 1 a t r)
          \<and> (\<forall>pid \<in> fst ` set (permissions t).
               pid \<in> fst ` set (permissions a) \<or> minted 4 a t pid))"

lemma moves_refl: "moves a [] a"
  by (simp add: moves_def)

lemma minted_weaken:
  "same_identity a t \<Longrightarrow> sequence a \<le> sequence t \<Longrightarrow> sequence t \<le> sequence u \<Longrightarrow>
   minted n t u i \<Longrightarrow> minted n a u i"
  "sequence t \<le> sequence u \<Longrightarrow> minted n a t i \<Longrightarrow> minted n a u i"
  unfolding minted_def same_identity_def by (auto intro: order.trans order.strict_trans2)

lemma moves_trans:
  assumes at: "moves a es t" and tu: "moves t fs u"
  shows "moves a (es @ fs) u"
proof -
  have seqs: "sequence a \<le> sequence t" "sequence t \<le> sequence u" "same_identity a t"
    using at tu by (simp_all add: moves_def)
  have *: "sequence u \<noteq> - 1 \<Longrightarrow> sequence t \<noteq> - 1"
    using seqs(2) by (metis word_order.extremum_uniqueI)
  note weaken = minted_weaken(1) [OF seqs(3,1,2)] minted_weaken(2) [OF seqs(2)]
  show ?thesis
    unfolding moves_def
  proof (intro conjI impI allI ballI)
    show "same_identity a u" using at tu by (auto simp: moves_def same_identity_def)
    show "sequence a \<le> sequence u" using seqs by simp
    show "count_up (ul_runs (ag_usage a)) (finished_runs (es @ fs)) (ul_runs (ag_usage u))"
      using at tu by (auto simp: moves_def intro: count_up_trans)
    fix r assume "sequence u \<noteq> - 1" "active_run u = Some r"
    with * at tu show "active_run a = Some r \<or> minted 1 a u r"
      unfolding moves_def by (meson weaken)
  next
    fix pid assume "sequence u \<noteq> - 1" "pid \<in> fst ` set (permissions u)"
    with * at tu show "pid \<in> fst ` set (permissions a) \<or> minted 4 a u pid"
      unfolding moves_def by (meson weaken)
  qed
qed

interpretation m: effect_contract moves
  by unfold_locales (rule moves_refl, erule (1) moves_trans)

lemma quiet_moves: "quiet_except X a es t \<Longrightarrow> moves a es t"
  unfolding quiet_except_def moves_def settles_def by (auto simp: image_iff)

text \<open>
  The invariant of the agent: calls are filed under their own identifier, every open permission
  belongs to a pending call of a tool the session grants, and a request in flight or a
  verification belongs to a run.
\<close>

definition granted :: "'d agent \<Rightarrow> string \<Rightarrow> bool" where
  "granted a name \<longleftrightarrow> session_grant a name \<in> {Some Allow, Some Ask}"

definition agent_inv :: "'d agent \<Rightarrow> bool" where
  "agent_inv a \<longleftrightarrow> hm_wf (pending_tools a) \<and> hm_wf (permissions a) \<and> \<not> inconsistent a
     \<and> (\<forall>cid \<in> snd ` set (permissions a). \<exists>p. map_of (pending_tools a) cid = Some p
          \<and> granted a (call_name (pt_call p)))
     \<and> (\<forall>cid p. map_of (pending_tools a) cid = Some p \<longrightarrow> call_id (pt_call p) = cid)"

lemma granted_same: "same_identity a t \<Longrightarrow> granted t = granted a"
  by (simp add: granted_def session_grant_def same_identity_def fun_eq_iff)

lemma quiet_inv: "quiet a es t \<Longrightarrow> agent_inv a \<Longrightarrow> agent_inv t"
proof -
  assume q: "quiet a es t" and inv: "agent_inv a"
  have s: "settles {} a t" "same_identity a t" "inconsistent t \<longrightarrow> inconsistent a"
    using q by (simp_all add: quiet_except_def)
  have sub: "snd ` set (permissions t) \<subseteq> snd ` set (permissions a)"
    and keep: "\<And>c. c \<in> snd ` set (permissions t) \<Longrightarrow>
       map_of (pending_tools t) c = map_of (pending_tools a) c"
    and old: "\<And>c p. map_of (pending_tools t) c = Some p \<Longrightarrow> map_of (pending_tools a) c = Some p"
    using s(1) by (auto simp: settles_def)
  have perms: "\<exists>p. map_of (pending_tools t) c = Some p \<and> granted t (call_name (pt_call p))"
    if "c \<in> snd ` set (permissions t)" for c
  proof -
    have "c \<in> snd ` set (permissions a)" using sub that by blast
    with inv obtain p where "map_of (pending_tools a) c = Some p" "granted a (call_name (pt_call p))"
      unfolding agent_inv_def by blast
    with keep [OF that] granted_same [OF s(2)] show ?thesis by simp
  qed
  have "call_id (pt_call p) = c" if "map_of (pending_tools t) c = Some p" for c p
    using inv old [OF that] unfolding agent_inv_def by blast
  with perms inv s show ?thesis unfolding agent_inv_def settles_def by blast
qed

section \<open>Starting a run\<close>

text \<open>The step that opens a run, between two quiet phases.\<close>

definition opens_run :: "'d agent \<Rightarrow> 'd agent \<Rightarrow> bool" where
  "opens_run b c \<longleftrightarrow> (\<exists>ax content b1 run_id b2 i. next_run_id b = (b1, run_id)
     \<and> push_message ax Role_User content b1 = (b2, i)
     \<and> c = upd_state (\<lambda>s. s\<lparr>st_status := PreparingContext, st_active_run := Some run_id\<rparr>) b2)"

lemma opens_run_quiet_before:
  assumes "opens_run b c"
  obtains b2 run_id where "quiet b [] b2" "run_id = derived (ag_id b) (sequence b) 1"
    "saturating_add (sequence b) 1 \<le> sequence b2"
    "c = upd_state (\<lambda>s. s\<lparr>st_status := PreparingContext, st_active_run := Some run_id\<rparr>) b2"
proof -
  from assms obtain ax content b1 run_id b2 i where b1: "next_run_id b = (b1, run_id)"
    and b2: "push_message ax Role_User content b1 = (b2, i)"
    and c: "c = upd_state (\<lambda>s. s\<lparr>st_status := PreparingContext, st_active_run := Some run_id\<rparr>) b2"
    unfolding opens_run_def by blast
  note f = next_id_frame [OF b1 [unfolded next_run_id_def]]
  note q2 = push_message_quiet [OF b2]
  have "quiet b [] b2" by (rule q.keeps_after_silent [OF next_ids_quiet(1) [OF b1] q2])
  moreover have "saturating_add (sequence b) 1 \<le> sequence b2"
    using q2 f by (simp add: quiet_except_def)
  ultimately show thesis using f c by (intro that) auto
qed

lemma saturating_inc_less: "saturating_add x 1 \<noteq> - 1 \<Longrightarrow> x < saturating_add x (1 :: u64)"
proof -
  assume "saturating_add x (1 :: u64) \<noteq> - 1"
  then have "unat x + 1 < 2 ^ 64"
    by (auto simp: saturating_add_def split: if_splits)
  then show ?thesis by (simp add: word_less_nat_alt unat_saturating_add)
qed

lemma opens_run_moves:
  assumes "opens_run b c"
  shows "moves b [] c"
proof -
  from assms obtain b2 run_id where q: "quiet b [] b2"
    and rid: "run_id = derived (ag_id b) (sequence b) 1"
    and seqs: "saturating_add (sequence b) 1 \<le> sequence b2"
    and c: "c = upd_state (\<lambda>s. s\<lparr>st_status := PreparingContext, st_active_run := Some run_id\<rparr>) b2"
    by (rule opens_run_quiet_before)
  have "sequence b < sequence b2" if "sequence b2 \<noteq> - 1"
  proof -
    have "saturating_add (sequence b) 1 \<noteq> - 1"
      using that seqs by (metis word_order.extremum_uniqueI)
    then show ?thesis using saturating_inc_less seqs by (blast intro: less_le_trans)
  qed
  then have "sequence c \<noteq> - 1 \<Longrightarrow> minted 1 b c run_id"
    using rid c by (auto simp: minted_def)
  with quiet_moves [OF q] c show ?thesis
    by (auto simp: moves_def same_identity_def minted_def)
qed

lemma opens_run_inv:
  assumes "opens_run b c" and "agent_inv b"
  shows "agent_inv c"
proof -
  from assms(1) obtain b2 run_id where q: "quiet b [] b2"
    and c: "c = upd_state (\<lambda>s. s\<lparr>st_status := PreparingContext, st_active_run := Some run_id\<rparr>) b2"
    by (rule opens_run_quiet_before)
  from quiet_inv [OF q assms(2)] show ?thesis
    by (simp add: agent_inv_def c inconsistent_def granted_def session_grant_def
        del: map_of_eq_Some_iff)
qed

lemma opens_run_frame:
  "opens_run b c \<Longrightarrow> queued c = queued b \<and> status c = PreparingContext \<and> active_run c \<noteq> None"
  by (erule opens_run_quiet_before) (auto simp: quiet_except_def)

lemma open_run_opens: "open_run ax input b = (c, run_id) \<Longrightarrow> opens_run b c"
  unfolding opens_run_def open_run_def by (auto split: prod.splits)

lemma first_turn_quiet:
  assumes eq: "first_turn ax run_id from c = (t, es)"
    and run: "active_run c \<noteq> None" "status c \<noteq> Verifying"
  shows "quiet c es t"
proof -
  obtain b ro where ev: "evaluate (ax_behavior ax) (behavior c) RunStart None = (b, ro)"
    by fastforce
  obtain d rule_effects where ap:
    "apply_rule_outcome ro None (upd_behavior (\<lambda>_. b) c) = (d, rule_effects)" by fastforce
  note rq = rules_applied_quiet [OF ap]
  then have cd: "quiet c rule_effects d" by (auto intro: quiet_emitsI)
  obtain e turn where bt: "agent_begin_turn ax d = (e, turn)" by fastforce
  note bq = agent_begin_turn_quiet [OF bt]
  show ?thesis
  proof (cases "ro_stop ro")
    case (Some stop)
    then show ?thesis
      using eq ev ap by (auto simp: first_turn_def split: prod.splits
          dest!: behavior_stop_quiet intro: q.keeps_trans [OF cd])
  next
    case None
    show ?thesis
    proof (cases turn)
      case (Inl failure)
      then show ?thesis
        using eq ev ap None bt bq by (auto simp: first_turn_def intro: q.keeps_trans [OF cd])
    next
      case (Inr turn_effects)
      obtain request where er: "agent_execution_request ax run_id e = (t, request)"
        "es = (rule_effects @ turn_effects) @ [state_changed from PreparingContext,
                   ExecuteBackend request, Emit (RunStarted run_id)]"
        using eq ev ap None bt Inr by (auto simp: first_turn_def split: prod.splits)
      have et: "quiet e [] t"
        using bq Inr rq run er(1)
        by (intro build_request_quiet) (auto simp: agent_execution_request_def)
      have "quiet d turn_effects e" using bq Inr by (auto intro: quiet_emitsI)
      from q.keeps_trans [OF cd q.keeps_before_silent [OF this et]] er(2) show ?thesis
        by (simp add: quiet_except_def state_changed_def)
    qed
  qed
qed

lemma start_run_cases:
  assumes eq: "start_run ax input a = (t, es)"
  obtains (rejected) "quiet a es t" "active_run t = None"
  | (opened) b c pre post where "quiet a pre b" "opens_run b c" "quiet c post t" "es = pre @ post"
proof (cases "validate_transcript (messages a)")
  case (Inl e)
  with eq show thesis by (auto simp: start_run_def dest: fail_run_quiet fail_run_no_run intro: rejected)
next
  case ok: (Inr u)
  show thesis
  proof (cases "validate_attachments 0 (in_attachments input)")
    case (Inl e)
    with eq ok show thesis
      by (auto simp: start_run_def dest: fail_run_quiet fail_run_no_run intro: rejected)
  next
    case att: (Inr u)
    obtain a1 pre where tp: "take_pending_profile ax a = (a1, pre)" by fastforce
    let ?b = "upd_behavior reset_run a1"
    obtain c run_id where op: "open_run ax input ?b = (c, run_id)" by fastforce
    obtain post where ft: "first_turn ax run_id (status a1) c = (t, post)" "es = pre @ post"
      using eq ok att tp op by (auto simp: start_run_def Let_def split: prod.splits)
    have ab: "quiet a pre ?b"
      by (rule q.keeps_before_silent [OF take_pending_profile_quiet [OF tp] upd_behavior_quiet])
    note opens = open_run_opens [OF op]
    have "quiet c post t"
      using opens_run_frame [OF opens] by (intro first_turn_quiet [OF ft(1)]) auto
    with ab opens ft(2) opened show thesis by blast
  qed
qed

section \<open>Every command\<close>

text \<open>Asking for a permission and launching a tool.\<close>

lemma quiet_except_inv:
  assumes q: "quiet_except {c} a es t" and inv: "agent_inv a"
    and p: "map_of (pending_tools t) c = Some p" "call_id (pt_call p) = c"
      "granted a (call_name (pt_call p))"
  shows "agent_inv t"
proof -
  have s: "settles {c} a t" "same_identity a t" "inconsistent t \<longrightarrow> inconsistent a"
    using q by (simp_all add: quiet_except_def)
  note [simp del] = map_of_eq_Some_iff
  have perms: "\<exists>p. map_of (pending_tools t) d = Some p \<and> granted t (call_name (pt_call p))"
    if d: "d \<in> snd ` set (permissions t)" for d
  proof (cases "d = c")
    case True
    with p granted_same [OF s(2)] show ?thesis by auto
  next
    case False
    have "d \<in> snd ` set (permissions a)" using s(1) d by (auto simp: settles_def)
    with inv obtain p where "map_of (pending_tools a) d = Some p" "granted a (call_name (pt_call p))"
      unfolding agent_inv_def by blast
    moreover have "map_of (pending_tools t) d = map_of (pending_tools a) d"
      using s(1) d False unfolding settles_def by blast
    ultimately show ?thesis using granted_same [OF s(2)] by simp
  qed
  have "call_id (pt_call x) = d" if "map_of (pending_tools t) d = Some x" for d x
  proof (cases "d = c")
    case True
    with that p show ?thesis by simp
  next
    case False
    then have "map_of (pending_tools a) d = Some x" using s(1) that by (simp add: settles_def)
    with inv show ?thesis unfolding agent_inv_def by blast
  qed
  moreover have "hm_wf (pending_tools t)" "hm_wf (permissions t)" "\<not> inconsistent t"
    using inv s by (simp_all add: agent_inv_def settles_def)
  ultimately show ?thesis using perms unfolding agent_inv_def by blast
qed

lemma permission_Deny: "permission profile name Deny = Deny"
proof -
  have "level_permission (max TP_Deny l) = Deny" for l
    by (cases l) (simp_all add: max_def less_eq_tool_permission_def)
  then show ?thesis by (simp add: permission_def Let_def)
qed

lemma admissible_granted: "admissible ax call approval a \<Longrightarrow> granted a (call_name call)"
proof -
  assume "admissible ax call approval a"
  then obtain mode where m: "session_grant a (call_name call) = Some mode"
    "decided_mode (permission (bs_profile (behavior a)) (call_name call) mode)
       (ro_decision (request_rules ax call a)) = approval_mode approval"
    by (auto simp: admissible_def Let_def split: option.splits)
  have "decided_mode (permission profile name Deny) d = Deny" for profile name d
    by (simp add: permission_Deny)
  with m have "mode \<noteq> Deny" by (cases approval) auto
  with m(1) show ?thesis by (cases mode) (auto simp: granted_def)
qed

lemma launch_moves:
  assumes "moves a [] b" and "t = set_status st b" and "finished_runs es = 0"
  shows "moves a es t"
  using assms by (simp add: moves_def same_identity_def minted_def)

lemma ask_permission_frame:
  assumes "ask_permission from call b = (t, es)"
  shows "\<exists>b1 pid request. next_id 4 (set_status WaitingForPermission b) = (b1, pid)
    \<and> t = upd_state (\<lambda>s. s\<lparr>st_pending_permissions :=
                AList.update pid (call_id call) (st_pending_permissions s)\<rparr>) b1
    \<and> es = [state_changed from WaitingForPermission, Emit (PermissionRequested request),
            RequestPermission request] \<and> prq_tool_call request = call"
  using assms by (auto simp: ask_permission_def next_permission_id_def Let_def split: prod.splits)

lemma ask_permission_moves:
  assumes ask: "ask_permission from call b = (t, es)" and ab: "moves a [] b"
  shows "moves a es t"
proof -
  from ask_permission_frame [OF ask] obtain b1 pid request where
    b1: "next_id 4 (set_status WaitingForPermission b) = (b1, pid)"
    and t: "t = upd_state (\<lambda>s. s\<lparr>st_pending_permissions :=
                AList.update pid (call_id call) (st_pending_permissions s)\<rparr>) b1"
    and es: "es = [state_changed from WaitingForPermission, Emit (PermissionRequested request),
            RequestPermission request]" by blast
  note f = next_id_frame [OF b1]
  have "sequence t \<noteq> - 1 \<Longrightarrow> minted 4 b t pid"
    using f t saturating_inc_less by (auto simp: minted_def)
  then have "moves b es t"
    using f t es saturating_inc_mono
    by (auto simp: moves_def same_identity_def state_changed_def dest: set_hm_update [THEN subsetD])
  from m.keeps_after_silent [OF ab this] show ?thesis .
qed

lemma ask_permission_inv:
  assumes ask: "ask_permission from call b = (t, es)" and inv: "agent_inv b"
    and p: "map_of (pending_tools b) (call_id call) = Some p" "granted b (call_name (pt_call p))"
  shows "agent_inv t"
proof -
  from ask_permission_frame [OF ask] obtain b1 pid where
    b1: "next_id 4 (set_status WaitingForPermission b) = (b1, pid)"
    and t: "t = upd_state (\<lambda>s. s\<lparr>st_pending_permissions :=
                AList.update pid (call_id call) (st_pending_permissions s)\<rparr>) b1" by blast
  have "quiet b [] b1"
    by (rule q.keeps_after_silent [OF set_status_quiet next_id_quiet [OF b1]]) simp
  note inv1 = quiet_inv [OF this inv]
  note f = next_id_frame [OF b1]
  note [simp del] = map_of_eq_Some_iff
  have g: "granted t = granted b" "granted b1 = granted b"
    using f t by (simp_all add: granted_def session_grant_def fun_eq_iff)
  have "\<exists>p. map_of (pending_tools t) c = Some p \<and> granted t (call_name (pt_call p))"
    if "c \<in> snd ` set (permissions t)" for c
  proof -
    have "c = call_id call \<or> c \<in> snd ` set (permissions b1)"
      using that by (auto simp: t dest: set_hm_update [THEN subsetD])
    then show ?thesis
      using inv1 p f g by (auto simp: agent_inv_def t)
  qed
  then show ?thesis
    using inv1 unfolding agent_inv_def by (auto simp: t inconsistent_def)
qed

lemma quiet_keeps:
  "quiet a es t \<Longrightarrow> moves a es t \<and> (agent_inv a \<longrightarrow> agent_inv t) \<and> queued t = queued a"
  using quiet_moves quiet_inv by (simp add: quiet_except_def) blast

text \<open>The two commands that may launch a tool or ask for a permission.\<close>

lemma tool_requested_keeps:
  assumes eq: "tool_requested ax call a = (t, es)"
  shows "moves a es t" and "agent_inv a \<Longrightarrow> agent_inv t" and "queued t = queued a"
proof -
  have "moves a es t \<and> (agent_inv a \<longrightarrow> agent_inv t) \<and> queued t = queued a"
    using eq
  proof (cases rule: tool_requested_cases)
    case refused
    then show ?thesis by (simp add: quiet_keeps)
  next
    case (admitted approval b p pre)
    let ?call = "rewritten_call ax call a"
    have ids: "call_id ?call = call_id call" "call_name ?call = call_name call"
      by (simp_all add: rewritten_call_def)
    have ab: "moves a [] b" "moves a pre b"
      using admitted(1,2) quiet_moves quiet_emitsI by blast+
    have inv: "agent_inv b" if "agent_inv a"
      using quiet_except_inv [OF admitted(1) that admitted(5)] admitted(6) ids
        admissible_granted [OF admitted(4)] by simp
    have same: "same_identity a b" "queued b = queued a"
      using admitted(1) by (simp_all add: quiet_except_def)
    show ?thesis
    proof (cases approval)
      case Approval_Allow
      then have t: "t = set_status Executing b"
        and es: "es = pre @ [state_changed (status a) Executing,
            ExecuteTool \<lparr>trq_call = ?call, trq_permission = Allow\<rparr>]"
        using admitted(7) by (auto simp: execute_now_def)
      have "moves b [state_changed (status a) Executing,
            ExecuteTool \<lparr>trq_call = ?call, trq_permission = Allow\<rparr>] t"
        by (rule launch_moves [OF moves_refl t]) (simp add: state_changed_def)
      moreover have "quiet b [] t" unfolding t by (rule set_status_quiet) simp
      ultimately show ?thesis
        using m.keeps_trans [OF ab(2)] es quiet_inv inv same by (auto simp: t)
    next
      case Approval_Ask
      then obtain es' where ask: "ask_permission (status a) ?call b = (t, es')" "es = pre @ es'"
        using admitted(7) by (cases "ask_permission (status a) ?call b") auto
      have "moves b es' t" by (rule ask_permission_moves [OF ask(1) moves_refl])
      moreover have "agent_inv t" if "agent_inv a"
        using ask_permission_inv [OF ask(1) inv [OF that]] admitted(4,5,6) ids
          granted_same [OF same(1)] admissible_granted [OF admitted(4)] by simp
      moreover have "queued t = queued a"
        using ask_permission_frame [OF ask(1)] same by (auto dest!: next_id_frame)
      ultimately show ?thesis using m.keeps_trans [OF ab(2)] ask(2) by blast
    qed
  qed
  then show "moves a es t" and "agent_inv a \<Longrightarrow> agent_inv t" and "queued t = queued a" by auto
qed

lemma drop_permission_quiet:
  "quiet a [] (upd_state (\<lambda>s. s\<lparr>st_pending_permissions :=
     AList.delete pid (st_pending_permissions s)\<rparr>) a)"
proof -
  have "set (AList.delete pid (permissions a)) \<subseteq> set (permissions a)"
    by (auto simp: AList.delete_eq)
  then show ?thesis by (auto simp: quiet_defs)
qed

lemma permission_resolved_keeps:
  assumes eq: "permission_resolved ax pid decision a = (t, es)"
  shows "moves a es t" and "agent_inv a \<Longrightarrow> agent_inv t" and "queued t = queued a"
proof -
  define b where "b = upd_state (\<lambda>s. s\<lparr>st_pending_permissions :=
     AList.delete pid (st_pending_permissions s)\<rparr>) a"
  have ab: "quiet a [] b" unfolding b_def by (rule drop_permission_quiet)
  have exec: "quiet a [] (set_status Executing b)"
    by (rule q.keeps_after_silent [OF ab set_status_quiet]) simp
  have cases: "quiet a es t \<or> (\<exists>call. t = set_status Executing b
        \<and> es = [state_changed WaitingForPermission Executing,
               ExecuteTool \<lparr>trq_call = call, trq_permission = Allow\<rparr>])"
    using eq ab unfolding permission_resolved_def Let_def b_def [symmetric]
    by (auto split: option.splits permission_decision.splits simp: quiet_refl
        dest!: tool_failed_quiet q.keeps_after_silent [OF ab])
  have "moves a es t \<and> (agent_inv a \<longrightarrow> agent_inv t) \<and> queued t = queued a"
  proof (cases "quiet a es t")
    case False
    with cases have "moves a es t"
      by (auto intro!: launch_moves [OF quiet_moves [OF ab]] simp: state_changed_def)
    with cases False quiet_keeps [OF exec] show ?thesis by auto
  qed (simp add: quiet_keeps)
  then show "moves a es t" and "agent_inv a \<Longrightarrow> agent_inv t" and "queued t = queued a" by auto
qed

lemma start_run_keeps:
  assumes eq: "start_run ax input a = (t, es)"
  shows "moves a es t" and "agent_inv a \<Longrightarrow> agent_inv t" and "queued t = queued a"
proof -
  have "moves a es t \<and> (agent_inv a \<longrightarrow> agent_inv t) \<and> queued t = queued a"
    using eq
  proof (cases rule: start_run_cases)
    case rejected
    then show ?thesis by (simp add: quiet_keeps)
  next
    case (opened b c pre post)
    have "moves a pre c"
      by (rule m.keeps_before_silent [OF quiet_moves [OF opened(1)] opens_run_moves [OF opened(2)]])
    from m.keeps_trans [OF this quiet_moves [OF opened(3)]] show ?thesis
      using quiet_keeps [OF opened(1)] opens_run_inv [OF opened(2)] opens_run_frame [OF opened(2)]
        quiet_keeps [OF opened(3)] opened(4) by simp
  qed
  then show "moves a es t" and "agent_inv a \<Longrightarrow> agent_inv t" and "queued t = queued a" by auto
qed

text \<open>A command is quiet, launches something, or touches the input queue or starts a run.\<close>

abbreviation enqueue :: "user_input \<Rightarrow> 'd agent \<Rightarrow> 'd agent" where
  "enqueue input a \<equiv> upd_state (\<lambda>s. s\<lparr>st_queued_inputs := st_queued_inputs s @ [input]\<rparr>) a"

abbreviation set_queue :: "user_input list \<Rightarrow> 'd agent \<Rightarrow> 'd agent" where
  "set_queue inputs a \<equiv> upd_state (\<lambda>s. s\<lparr>st_queued_inputs := inputs\<rparr>) a"

fun input_of :: "'d agent_command \<Rightarrow> user_input option" where
  "input_of (StartRun input) = Some input"
| "input_of (Steer input) = Some input"
| "input_of (FollowUp input) = Some input"
| "input_of _ = None"

lemma input_command:
  "input_of c = Some input \<Longrightarrow> agent_apply ax a c = start_or_queue ax input a"
  by (cases c) auto

lemma quiet_spawn: "quiet a [SpawnAgent spec] a"
  by (simp add: quiet_except_def)

lemma agent_apply_cases:
  assumes eq: "agent_apply ax a c = (t, es)"
  obtains (quiet) "quiet a es t" "input_of c = None" "c \<noteq> StartNextQueuedRun \<or> queued a = []"
  | (requested) run_id r call where "c = BackendEvent run_id (EE_ToolCallRequested r call)"
      "active_run a = Some run_id" "tool_requested ax call a = (t, es)"
  | (decided) pid decision where "c = PermissionResolved pid decision"
      "permission_resolved ax pid decision a = (t, es)"
  | (started) input where "input_of c = Some input" "active_run a = None"
      "start_run ax input a = (t, es)"
  | (enqueued) input where "input_of c = Some input" "active_run a \<noteq> None"
      "t = enqueue input a" "es = []"
  | (dequeued) input rest where "c = StartNextQueuedRun" "queued a = input # rest"
      "start_run ax input (set_queue rest a) = (t, es)"
proof (cases "input_of c")
  case (Some input)
  with eq show thesis
    by (cases "active_run a")
       (auto simp: input_command start_or_queue_def intro: started enqueued)
next
  case None
  show thesis
  proof (cases "(\<exists>run_id r call. c = BackendEvent run_id (EE_ToolCallRequested r call)
      \<and> active_run a = Some run_id) \<or> (\<exists>pid decision. c = PermissionResolved pid decision)
      \<or> (c = StartNextQueuedRun \<and> queued a \<noteq> [])")
    case True
    then show thesis
      using eq requested decided dequeued
      by (auto simp: backend_event_def start_next_queued_run_def split: list.splits)
  next
    case False
    have "quiet a es t"
    proof (cases c)
      case (BackendEvent run_id event)
      with eq False show ?thesis
        by (cases "active_run a = Some run_id")
           (auto intro: backend_event_quiet simp: backend_event_def quiet_refl)
    qed (use eq None False in \<open>auto simp: quiet_refl quiet_spawn start_next_queued_run_def split: list.splits
        dest: tool_completed_quiet tool_failed_quiet completion_evaluated_quiet
          set_behavior_profile_quiet resume_quiet child_completed_quiet child_failed_quiet
          child_spawned_quiet cancel_quiet pause_quiet configure_execution_quiet\<close>)
    then show thesis using None False by (intro quiet) auto
  qed
qed

lemma queue_change_keeps:
  "moves a [] (set_queue inputs a) \<and> (agent_inv a \<longrightarrow> agent_inv (set_queue inputs a))"
  by (simp add: moves_def same_identity_def agent_inv_def inconsistent_def granted_def
      session_grant_def del: map_of_eq_Some_iff)

lemma agent_apply_keeps:
  assumes "agent_apply ax a c = (t, es)"
  shows "moves a es t \<and> (agent_inv a \<longrightarrow> agent_inv t)"
  using assms
proof (cases rule: agent_apply_cases)
  case quiet
  then show ?thesis by (simp add: quiet_keeps)
next
  case (enqueued input)
  then show ?thesis using queue_change_keeps [of a "queued a @ [input]"] by simp
next
  case (dequeued input rest)
  then show ?thesis
    using queue_change_keeps [of a rest] start_run_keeps [OF dequeued(3)] m.keeps_after_silent
    by blast
qed (auto dest: tool_requested_keeps permission_resolved_keeps start_run_keeps)

interpretation agent: command_machine "agent_apply ax" agent_inv
  by unfold_locales (use agent_apply_keeps in blast)

interpretation agent: contract_machine moves "agent_apply ax"
  by unfold_locales (use agent_apply_keeps in blast)

end
