(* ===== verification/Agent_Properties.thy ===== *)
theory Agent_Properties
  imports Agent_Contract
begin

text \<open>
  The properties of the agent reducer as a whole: which tools run, what happens to runs,
  permissions and queued input over a sequence of commands, what a request may offer, and what
  the completion gate lets through. A concrete agent serves the witnesses.
\<close>

section \<open>A concrete agent\<close>

definition example_ax :: "int agent_externals" where
  "example_ax = \<lparr>ax_behavior = example_externals, ax_dec_add = (+), ax_fmt_uuid = (\<lambda>_. ''id''),
     ax_from_timestamp = Some, ax_max_utc = 0, ax_rfc3339 = (\<lambda>_. ''now''),
     ax_profile_from_value = (\<lambda>_. None), ax_evaluator_to_value = (\<lambda>_. Inr JNull),
     ax_fmt_execution_error = (\<lambda>_. ''error'')\<rparr>"

definition example_backend :: backend_capabilities where
  "example_backend = \<lparr>bc_streaming = True, bc_reasoning_stream = False, bc_tool_calls = True,
     bc_parallel_tool_calls = True, bc_host_managed_tools = True, bc_backend_managed_tools = False,
     bc_permissions = False, bc_images = False, bc_resumable_sessions = False,
     bc_native_subagents = False, bc_model_switching = False, bc_exact_usage = True,
     bc_exact_cost = False, bc_structured_output = False\<rparr>"

definition example_tool :: "tool_id \<Rightarrow> string \<Rightarrow> permission_mode \<Rightarrow> tool_capability" where
  "example_tool i name mode = \<lparr>tc_descriptor = \<lparr>td_id = i, td_name = name, td_description = [],
     td_input_schema = JNull\<rparr>, tc_policy = \<lparr>tp_permission = mode, tp_enabled = True\<rparr>,
     tc_delegatable = True\<rparr>"

definition example_agent :: "int agent" where
  "example_agent = agent_new example_ax 7 1 None 0 ''system''
     \<lparr>bb_reference = \<lparr>br_integration = 1, br_configuration = 2, br_model = None\<rparr>,
      bb_descriptor = \<lparr>bd_id = 3, bd_name = ''model'', bd_description = [],
        bd_capabilities = example_backend\<rparr>\<rparr>
     \<lparr>cap_tools = \<lparr>ts_tools = [(1, example_tool 1 ''read_file'' Allow),
                              (2, example_tool 2 ''bash'' Ask), (3, example_tool 3 ''web'' Deny)]\<rparr>,
      cap_can_spawn_agents = False, cap_max_child_depth = None,
      cap_workspace = \<lparr>ws_can_read = True, ws_can_write = True, ws_can_search = True\<rparr>,
      cap_backend = example_backend\<rparr>
     \<lparr>bud_max_input_tokens = None, bud_max_output_tokens = None, bud_max_total_tokens = None,
      bud_max_cost_usd = None, bud_max_requests = None, bud_max_tool_calls = None,
      bud_max_children = None, bud_max_depth = None\<rparr>"

definition example_input :: "string \<Rightarrow> user_input" where
  "example_input s = \<lparr>in_text = s, in_attachments = []\<rparr>"

definition example_call :: "string \<Rightarrow> tool_call" where
  "example_call name = \<lparr>call_id = 9, call_name = name, call_arguments = JNull\<rparr>"

text \<open>The identifier of the first run of the example agent.\<close>

definition example_run :: run_id where
  "example_run = derived 7 0 1"

text \<open>The built-in profile, which the example agent runs under, has no rules and no limits.\<close>

lemma default_profile_simps [simp]:
  "bp_rules (cp_profile (default_profile ext)) = []"
  "bp_limits (cp_profile (default_profile ext)) =
     \<lparr>lim_max_turns = None, lim_max_tool_calls = None, lim_final_turn_prompt = None\<rparr>"
  "bp_completion_gate (cp_profile (default_profile ext)) = None"
  "allows_tool (default_profile ext) name"
  "override_level (default_profile ext) name = None"
  by (simp_all add: default_profile_def default_profile_definition_def allows_tool_def
      override_level_def)

lemma default_permission [simp]: "permission (default_profile ext) name mode = mode"
  by (cases mode; cases "granted_by name")
     (simp_all add: permission_def max_def less_eq_tool_permission_def)

definition example_counters :: run_counters where
  "example_counters = default_counters\<lparr>rc_turns := 1,
     rc_offered_tools := [''bash'', ''read_file'', ''web'']\<rparr>"

text \<open>The example agent after \<open>StartRun\<close>, and after a call that has to be approved.\<close>

definition example_running :: "int agent" where
  "example_running = upd_state (\<lambda>s. s\<lparr>st_status := PreparingContext,
     st_messages := [\<lparr>msg_id = derived 7 1 3, msg_role = Role_User, msg_content = [Text ''go''],
                      msg_created_at = 2\<rparr>],
     st_active_run := Some example_run, st_backend_in_flight := True, st_transition_sequence := 4,
     st_behavior := (st_behavior s)\<lparr>bs_run := example_counters\<rparr>\<rparr>) example_agent"

lemmas start_eval = Let_def agent_new_def behavior_default_def behavior_new_def
  default_counters_def start_or_queue_def start_run_def take_pending_profile_def reset_run_def
  open_run_def first_turn_def next_run_id_def next_request_id_def next_message_id_def
  next_permission_id_def next_id_def next_timestamp_def take_sequence_def push_message_def
  evaluate_def apply_rule_outcome_def agent_begin_turn_def enter_switched_def begin_turn_def
  before_request_rules_def agent_execution_request_def build_request_def default_outcome_def
  saturating_add_def note_offered_def timestamp_from_sequence_def

lemma example_started:
  "fst (agent_apply example_ax example_agent (StartRun (example_input ''go''))) = example_running"
  by (simp add: start_eval example_ax_def example_agent_def example_input_def example_run_def
    validate_transcript_def example_running_def example_counters_def offered_tools_def
    enabled_descriptors_def example_tool_def)

section \<open>Which tools run\<close>

lemma quiet_launches_nothing: "quiet a es t \<Longrightarrow> ExecuteTool rq \<notin> set es"
  by (auto simp: quiet_except_def list_all_iff)

lemma emits_launch_nothing: "emits_only es \<Longrightarrow> ExecuteTool rq \<notin> set es"
  by (auto simp: emits_only_def)

lemma start_run_launches_nothing:
  assumes "start_run ax input a = (t, es)"
  shows "ExecuteTool rq \<notin> set es"
  using assms by (cases rule: start_run_cases) (auto dest: quiet_launches_nothing)

lemma tool_requested_launches:
  assumes "tool_requested ax call a = (t, es)" and "ExecuteTool rq \<in> set es"
  shows "admissible ax call Approval_Allow a \<and> trq_call rq = rewritten_call ax call a"
  using assms(1)
proof (cases rule: tool_requested_cases)
  case refused
  with assms(2) show ?thesis by (auto dest: quiet_launches_nothing)
next
  case (admitted approval b p pre)
  with assms(2) show ?thesis
    by (cases approval; cases "ask_permission (status a) (rewritten_call ax call a) b")
       (auto simp: execute_now_def state_changed_def
         dest: emits_launch_nothing dest!: ask_permission_frame)
qed

lemma permission_resolved_launches:
  assumes "permission_resolved ax pid decision a = (t, es)" and "ExecuteTool rq \<in> set es"
  shows "decision = Approved \<and> (\<exists>cid p. map_of (permissions a) pid = Some cid
    \<and> map_of (pending_tools a) cid = Some p \<and> trq_call rq = pt_call p)"
  using assms
  by (auto simp: permission_resolved_def Let_def state_changed_def
      split: option.splits permission_decision.splits
      dest!: tool_failed_quiet dest: quiet_launches_nothing)

text \<open>
  C1: a command makes the agent execute a tool only in two ways. Either the backend of the
  active run requested the call and every check let it through: an enabled capability of the
  session grants the tool, the profile's scope admits it, no rule stopped the run or denied the
  call, session, profile and rules together say \<open>Allow\<close>, the run is not on its final turn and
  within its tool budget; then what runs is the requested call with the arguments the rules
  rewrote. Or the user approved an open permission, and what runs is the pending call it stands
  for.
\<close>

theorem only_admitted_tools_execute:
  assumes "agent_apply ax a c = (t, es)" and "ExecuteTool rq \<in> set es"
  shows "(\<exists>run_id r call. c = BackendEvent run_id (EE_ToolCallRequested r call)
            \<and> active_run a = Some run_id \<and> admissible ax call Approval_Allow a
            \<and> trq_call rq = rewritten_call ax call a)
       \<or> (\<exists>pid cid p. c = PermissionResolved pid Approved \<and> map_of (permissions a) pid = Some cid
            \<and> map_of (pending_tools a) cid = Some p \<and> trq_call rq = pt_call p)"
  using assms(1)
proof (cases rule: agent_apply_cases)
  case quiet
  with assms(2) show ?thesis by (auto dest: quiet_launches_nothing)
next
  case (requested run_id r call)
  with assms(2) tool_requested_launches show ?thesis by blast
next
  case (decided pid decision)
  with assms(2) permission_resolved_launches show ?thesis by blast
qed (use assms(2) in \<open>auto dest: start_run_launches_nothing\<close>)

text \<open>The example agent runs an allowed tool at once, and one that needs approval after it.\<close>

lemmas request_eval = backend_event_def tool_requested_def record_tool_request_def push_tool_use_def
  trailing_assistant_message_def agent_admit_tool_call_def session_grant_def
  evaluate_request_rules_def note_tool_request_def approval_for_def
  rewrite_arguments_def require_tool_budget_def admit_tool_call_def execute_now_def
  ask_permission_def example_tool_def

lemma example_reads:
  "ExecuteTool \<lparr>trq_call = example_call ''read_file'', trq_permission = Allow\<rparr> \<in>
     set (snd (agent_apply example_ax example_running
       (BackendEvent example_run (EE_ToolCallRequested 0 (example_call ''read_file'')))))"
  by (simp add: example_running_def start_eval request_eval example_ax_def example_agent_def
      example_call_def example_counters_def)

theorem only_admitted_tools_execute_witness:
  "admissible example_ax (example_call ''read_file'') Approval_Allow example_running"
proof -
  let ?c = "BackendEvent example_run (EE_ToolCallRequested 0 (example_call ''read_file''))"
  obtain t es where "agent_apply example_ax example_running ?c = (t, es)" by fastforce
  with example_reads only_admitted_tools_execute [OF this] show ?thesis by auto
qed

text \<open>Lawful steps: under the invariant only granted tools run, and the invariant stays.\<close>

definition lawful :: "'d agent \<Rightarrow> 'd agent_effect list \<Rightarrow> 'd agent \<Rightarrow> bool" where
  "lawful a es t \<longleftrightarrow> agent_inv a \<longrightarrow> agent_inv t \<and> same_identity a t
     \<and> (\<forall>rq. ExecuteTool rq \<in> set es \<longrightarrow> granted a (call_name (trq_call rq)))"

lemma agent_apply_lawful:
  assumes eq: "agent_apply ax a c = (t, es)"
  shows "lawful a es t"
proof -
  have "granted a (call_name (trq_call rq))" if inv: "agent_inv a" and rq: "ExecuteTool rq \<in> set es" for rq
    using eq
  proof (cases rule: agent_apply_cases)
    case (requested run_id r call)
    from tool_requested_launches [OF requested(3) rq] show ?thesis
      by (auto simp: rewritten_call_def dest: admissible_granted)
  next
    case (decided pid decision)
    from permission_resolved_launches [OF decided(2) rq] obtain cid p where
      p: "map_of (permissions a) pid = Some cid" "map_of (pending_tools a) cid = Some p"
        "trq_call rq = pt_call p" by blast
    have "cid \<in> snd ` set (permissions a)" using p(1) by (force dest: map_of_SomeD)
    with inv obtain p' where "map_of (pending_tools a) cid = Some p'"
      "granted a (call_name (pt_call p'))" unfolding agent_inv_def by blast
    with p show ?thesis by simp
  qed (use rq in \<open>auto dest: quiet_launches_nothing start_run_launches_nothing\<close>)
  with agent_apply_keeps [OF eq] show ?thesis by (auto simp: lawful_def moves_def)
qed

interpretation law: contract_machine lawful "agent_apply ax"
proof unfold_locales
  show "lawful a [] a" for a :: "'a agent" by (simp add: lawful_def)
  show "lawful a (es @ fs) u" if "lawful a es t" "lawful t fs u" for a t u :: "'a agent" and es fs
    using that by (auto simp: lawful_def same_identity_def granted_def session_grant_def)
qed (rule agent_apply_lawful)

lemma agent_new_inv: "agent_inv (agent_new ax i session parent depth prompt backend caps budget)"
  by (simp add: agent_new_def agent_inv_def inconsistent_def)

definition executed_calls :: "'d agent_effect list \<Rightarrow> tool_call set" where
  "executed_calls es = {trq_call rq | rq. ExecuteTool rq \<in> set es}"

text \<open>
  C2: whatever sequence of commands a new agent receives, every tool it ever executes is one its
  session enables with permission \<open>Allow\<close> or \<open>Ask\<close>: neither backend nor user nor a profile can
  make it run a tool that is disabled, denied or not granted at all.
\<close>

theorem executed_tools_are_granted:
  "let a = agent_new ax i session parent depth prompt backend caps budget
   in executed_calls (snd (run_commands (agent_apply ax) a cs))
        \<subseteq> {call. granted a (call_name call)}"
proof -
  let ?a = "agent_new ax i session parent depth prompt backend caps budget"
  obtain t es where run: "run_commands (agent_apply ax) ?a cs = (t, es)" by fastforce
  from law.run_keeps [OF run] show ?thesis
    by (auto simp: lawful_def executed_calls_def run Let_def agent_new_inv)
qed

text \<open>
  C3: the invariant of the agent holds after every sequence of commands. The pending calls and
  open permissions are maps without duplicate keys, a call is filed under its own identifier,
  every open permission belongs to a pending call of a granted tool, a model request in flight
  and a verification belong to an active run, and the two never overlap.
\<close>

theorem agent_invariant_reachable:
  "agent_inv (fst (run_commands (agent_apply ax)
     (agent_new ax i session parent depth prompt backend caps budget) cs))"
  by (metis agent.run_inv agent_new_inv prod.collapse)

section \<open>Runs\<close>

text \<open>
  C4: the ledger's run counter grows by exactly the number of runs reported as finished
  (\<open>FinishRun\<close>), successful or failed, over any sequence of commands, and stays at the largest
  64-bit value instead of wrapping.
\<close>

theorem runs_counted_by_finish:
  "case run_commands (agent_apply ax) a cs of (t, es) \<Rightarrow>
     unat (ul_runs (ag_usage t)) = min (2 ^ 64 - 1) (unat (ul_runs (ag_usage a)) + finished_runs es)"
proof -
  obtain t es where run: "run_commands (agent_apply ax) a cs = (t, es)" by fastforce
  from agent.run_keeps [OF run] show ?thesis by (simp add: run moves_def count_up_def)
qed

text \<open>What a reachable agent's identifiers are made of.\<close>

lemma reachable_minted:
  assumes "run_commands (agent_apply ax)
      (agent_new ax i session parent depth prompt backend caps budget) cs = (a, es)"
    and "sequence a \<noteq> - 1"
  shows "active_run a = Some r \<Longrightarrow> \<exists>s < sequence a. r = derived (ag_id a) s 1"
    and "pid \<in> fst ` set (permissions a) \<Longrightarrow> \<exists>s < sequence a. pid = derived (ag_id a) s 4"
proof -
  let ?a = "agent_new ax i session parent depth prompt backend caps budget"
  have "moves ?a es a" by (rule agent.run_keeps [OF assms(1)])
  moreover have "active_run ?a = None" "permissions ?a = []" by (simp_all add: agent_new_def)
  ultimately show "active_run a = Some r \<Longrightarrow> \<exists>s < sequence a. r = derived (ag_id a) s 1"
    "pid \<in> fst ` set (permissions a) \<Longrightarrow> \<exists>s < sequence a. pid = derived (ag_id a) s 4"
    using assms(2) by (auto simp: moves_def minted_def same_identity_def)
qed

lemma moves_unsaturated: "moves a es t \<Longrightarrow> sequence t \<noteq> - 1 \<Longrightarrow> sequence a \<noteq> - 1"
  unfolding moves_def by (metis word_order.extremum_uniqueI)

lemma moves_current:
  assumes "moves b es t" and "sequence t \<noteq> - 1"
  shows "active_run t = Some r \<Longrightarrow> active_run b = Some r \<or> minted 1 b t r"
    and "pid \<in> fst ` set (permissions t) \<Longrightarrow> pid \<in> fst ` set (permissions b) \<or> minted 4 b t pid"
  using assms unfolding moves_def by blast+

lemma old_id_not_minted:
  assumes "moves a es b" and "s < sequence a" and "minted n b t (derived (ag_id a) s n)"
  shows False
proof -
  from assms(1) have id: "ag_id b = ag_id a" and le: "sequence a \<le> sequence b"
    by (simp_all add: moves_def same_identity_def)
  from assms(3) id obtain s' where "sequence b \<le> s'" "derived (ag_id a) s n = derived (ag_id a) s' n"
    by (auto simp: minted_def)
  with assms(2) le show False by (simp add: derived_eq_iff)
qed

text \<open>
  C5: once a run of an agent is over, for whatever reason, it never becomes active again, and
  every later backend event that carries its identifier is ignored: state unchanged, no effect.
  (Until the 64-bit sequence that identifiers are minted from saturates.)
\<close>

theorem ended_run_stays_ended:
  assumes "run_commands (agent_apply ax)
      (agent_new ax i session parent depth prompt backend caps budget) cs = (a, es)"
    and "active_run a = Some r"
    and "run_commands (agent_apply ax) a ds = (b, fs)" and "active_run b \<noteq> Some r"
    and "run_commands (agent_apply ax) b gs = (t, hs)" and "sequence t \<noteq> - 1"
  shows "agent_apply ax t (BackendEvent r event) = (t, [])"
proof -
  have ab: "moves a fs b" and bt: "moves b hs t" by (rule agent.run_keeps, rule assms)+
  then have "sequence a \<noteq> - 1" using assms(6) by (metis moves_unsaturated)
  from reachable_minted(1) [OF assms(1) this assms(2)] obtain s where
    s: "s < sequence a" "r = derived (ag_id a) s 1" by blast
  have "active_run t \<noteq> Some r"
    using moves_current(1) [OF bt assms(6)] assms(4) old_id_not_minted [OF ab s(1), of 1 t] s(2)
    by blast
  then show ?thesis by (simp add: backend_event_def)
qed

lemma example_cancelled:
  "fst (agent_apply example_ax example_running Cancel) =
     upd_state (\<lambda>s. s\<lparr>st_status := Cancelled, st_active_run := None,
       st_backend_in_flight := False\<rparr>) example_running"
  by (simp add: cancel_def Let_def example_running_def example_agent_def agent_new_def)

lemma example_restarted:
  "active_run (fst (run_commands (agent_apply example_ax)
     (fst (agent_apply example_ax example_running Cancel)) [StartRun (example_input ''again'')]))
     = Some (derived 7 4 1)"
  "sequence (fst (run_commands (agent_apply example_ax)
     (fst (agent_apply example_ax example_running Cancel)) [StartRun (example_input ''again'')])) = 8"
  unfolding example_cancelled
  by (simp_all add: start_eval example_ax_def example_running_def example_agent_def
      example_input_def validate_transcript_def example_counters_def offered_tools_def
      enabled_descriptors_def example_tool_def)

lemma example_run_start:
  "\<exists>es. run_commands (agent_apply example_ax) example_agent [StartRun (example_input ''go'')]
     = (example_running, es)"
  using example_started
  by (cases "agent_apply example_ax example_agent (StartRun (example_input ''go''))") simp

theorem ended_run_stays_ended_witness:
  "\<exists>t. active_run t = Some (derived 7 4 1)
     \<and> agent_apply example_ax t (BackendEvent example_run (TextDelta 0 ''late'')) = (t, [])"
proof -
  obtain es where start: "run_commands (agent_apply example_ax) example_agent
      [StartRun (example_input ''go'')] = (example_running, es)"
    using example_run_start by blast
  obtain b fs where cancel: "run_commands (agent_apply example_ax) example_running [Cancel] = (b, fs)"
    by fastforce
  obtain t hs where again: "run_commands (agent_apply example_ax) b
      [StartRun (example_input ''again'')] = (t, hs)" by fastforce
  have b: "b = fst (agent_apply example_ax example_running Cancel)"
    using cancel by (auto split: prod.splits)
  then have t: "active_run t = Some (derived 7 4 1)" "sequence t = 8"
    using again example_restarted by simp_all
  have "active_run example_running = Some example_run" by (simp add: example_running_def)
  moreover have "active_run b \<noteq> Some example_run" by (simp only: b example_cancelled) simp
  ultimately show ?thesis
    using ended_run_stays_ended [OF start [unfolded example_agent_def] _ cancel _ again] t by auto
qed

lemma resolved_not_open:
  assumes "permission_resolved ax pid decision a = (t, es)"
  shows "pid \<notin> fst ` set (permissions t)"
proof -
  let ?b = "upd_state (\<lambda>s. s\<lparr>st_pending_permissions :=
     AList.delete pid (st_pending_permissions s)\<rparr>) a"
  have gone: "pid \<notin> fst ` set (permissions ?b)" by (auto simp: set_hm_keys_delete)
  have "permissions t = permissions ?b \<or> quiet ?b es t
      \<or> (map_of (permissions a) pid = None \<and> t = a)"
    using assms by (auto simp: permission_resolved_def Let_def
        split: option.splits permission_decision.splits dest: tool_failed_quiet)
  then show ?thesis
    using gone quiet_settles(2) [of ?b es t] by (auto simp: map_of_eq_None_iff)
qed

text \<open>
  C6: an open permission is decided at most once. After its decision, whatever commands follow, a
  further decision under the same identifier is ignored: it can neither execute nor refuse a call.
\<close>

theorem permission_decided_once:
  assumes "run_commands (agent_apply ax)
      (agent_new ax i session parent depth prompt backend caps budget) cs = (a, es)"
    and "pid \<in> fst ` set (permissions a)"
    and "run_commands (agent_apply ax) a (PermissionResolved pid decision # ds) = (t, fs)"
    and "sequence t \<noteq> - 1"
  shows "agent_apply ax t (PermissionResolved pid again) = (t, [])"
proof -
  obtain b es1 where ab: "agent_apply ax a (PermissionResolved pid decision) = (b, es1)" by fastforce
  obtain hs where bt: "run_commands (agent_apply ax) b ds = (t, hs)"
    using assms(3) ab by (auto split: prod.splits)
  have mab: "moves a es1 b" using agent_apply_keeps [OF ab] by blast
  have mbt: "moves b hs t" by (rule agent.run_keeps [OF bt])
  then have "sequence a \<noteq> - 1" using mab assms(4) by (metis moves_unsaturated)
  from reachable_minted(2) [OF assms(1) this assms(2)] obtain s where
    s: "s < sequence a" "pid = derived (ag_id a) s 4" by blast
  have "permission_resolved ax pid decision a = (b, es1)" using ab by simp
  note closed = resolved_not_open [OF this]
  have "pid \<notin> fst ` set (permissions t)"
  proof
    assume "pid \<in> fst ` set (permissions t)"
    from moves_current(2) [OF mbt assms(4) this] closed have "minted 4 b t pid" by simp
    then show False by (rule old_id_not_minted [OF mab s(1), of 4 t, folded s(2)])
  qed
  then have "map_of (permissions t) pid = None" by (simp add: map_of_eq_None_iff)
  then show ?thesis by (simp add: permission_resolved_def)
qed

text \<open>The example agent asks before it runs \<open>bash\<close>.\<close>

definition example_asking :: "int agent" where
  "example_asking = fst (agent_apply example_ax example_running
     (BackendEvent example_run (EE_ToolCallRequested 0 (example_call ''bash''))))"

lemma example_asks:
  "permissions example_asking = [(derived 7 7 4, 9)]" "status example_asking = WaitingForPermission"
  "map pt_call (map snd (pending_tools example_asking)) = [example_call ''bash'']"
  "sequence example_asking = 8"
  by (simp_all add: example_asking_def example_running_def start_eval request_eval example_ax_def
      example_agent_def example_call_def example_counters_def)

theorem permission_decided_once_witness:
  "\<exists>t. agent_apply example_ax t (PermissionResolved (derived 7 7 4) Approved) = (t, [])
     \<and> status t = Executing"
proof -
  let ?ask = "BackendEvent example_run (EE_ToolCallRequested 0 (example_call ''bash''))"
  let ?pid = "derived 7 7 4"
  obtain es where start: "run_commands (agent_apply example_ax) example_agent
      [StartRun (example_input ''go''), ?ask] = (example_asking, es)"
    using example_started
    by (cases "agent_apply example_ax example_agent (StartRun (example_input ''go''))";
        cases "agent_apply example_ax example_running ?ask") (simp add: example_asking_def)
  obtain t fs where decide: "run_commands (agent_apply example_ax) example_asking
      [PermissionResolved ?pid Approved] = (t, fs)" by fastforce
  obtain p where p: "pending_tools example_asking = [(9, p)]"
    by (simp add: example_asking_def example_running_def start_eval request_eval example_ax_def
      example_agent_def example_call_def example_counters_def)
  have t: "status t = Executing" "sequence t = 8"
    using decide p example_asks by (auto simp: permission_resolved_def Let_def)
  have "agent_apply example_ax t (PermissionResolved ?pid Approved) = (t, [])"
    by (rule permission_decided_once [OF start [unfolded example_agent_def] _ decide])
       (simp_all add: example_asks t)
  with t show ?thesis by blast
qed

section \<open>Queued input\<close>

text \<open>The queue as a list: what a command puts at its end and takes from its front.\<close>

definition accepted_input :: "'d agent \<Rightarrow> 'd agent_command \<Rightarrow> user_input list" where
  "accepted_input a c = (case input_of c of
     Some input \<Rightarrow> if active_run a = None then [] else [input] | None \<Rightarrow> [])"

definition taken_input :: "'d agent \<Rightarrow> 'd agent_command \<Rightarrow> user_input list" where
  "taken_input a c = (case c of StartNextQueuedRun \<Rightarrow> take 1 (queued a) | _ \<Rightarrow> [])"

fun inputs_along ::
    "('d agent \<Rightarrow> 'd agent_command \<Rightarrow> user_input list) \<Rightarrow> 'd agent_externals \<Rightarrow> 'd agent
      \<Rightarrow> 'd agent_command list \<Rightarrow> user_input list" where
  "inputs_along f ax a [] = []"
| "inputs_along f ax a (c # cs) = f a c @ inputs_along f ax (fst (agent_apply ax a c)) cs"

lemma quiet_queue: "quiet a es t \<Longrightarrow> queued t = queued a"
  by (simp add: quiet_except_def)

lemma agent_apply_queue:
  assumes "agent_apply ax a c = (t, es)"
  shows "queued a @ accepted_input a c = taken_input a c @ queued t"
  using assms
proof (cases rule: agent_apply_cases)
  case quiet
  then show ?thesis
    by (cases c) (auto simp: accepted_input_def taken_input_def dest: quiet_queue)
next
  case (requested run_id r call)
  then show ?thesis
    using tool_requested_keeps(3) [OF requested(3)]
    by (simp add: accepted_input_def taken_input_def)
next
  case (decided pid decision)
  then show ?thesis
    using permission_resolved_keeps(3) [OF decided(2)]
    by (simp add: accepted_input_def taken_input_def)
next
  case (started input)
  then show ?thesis
    using start_run_keeps(3) [OF started(3)]
    by (cases c) (auto simp: accepted_input_def taken_input_def)
next
  case (enqueued input)
  then show ?thesis by (cases c) (auto simp: accepted_input_def taken_input_def)
next
  case (dequeued input rest)
  then show ?thesis
    using start_run_keeps(3) [OF dequeued(3)] by (simp add: accepted_input_def taken_input_def)
qed

text \<open>
  C7: input sent while a run is active is queued and leaves the queue in the order it came, one
  per \<open>StartNextQueuedRun\<close>: over any sequence of commands, cancellations and failures included,
  what was queued before followed by what was accepted is what was taken followed by what is
  still queued. Nothing is lost, duplicated or reordered.
\<close>

theorem input_queue_fifo:
  "queued a @ inputs_along accepted_input ax a cs =
     inputs_along taken_input ax a cs @ queued (fst (run_commands (agent_apply ax) a cs))"
proof (induction cs arbitrary: a)
  case (Cons c cs)
  obtain t es where t: "agent_apply ax a c = (t, es)" by fastforce
  have "queued a @ accepted_input a c @ inputs_along accepted_input ax t cs =
      taken_input a c @ queued t @ inputs_along accepted_input ax t cs"
    using agent_apply_queue [OF t] by (metis append.assoc)
  with Cons.IH [of t] t show ?case by (simp split: prod.splits)
qed simp

section \<open>Cancelling\<close>

fun cancelled_tool :: "'d agent_effect \<Rightarrow> tool_call_id option" where
  "cancelled_tool (CancelTool cid) = Some cid"
| "cancelled_tool _ = None"

fun cancelled_child :: "'d agent_effect \<Rightarrow> agent_id option" where
  "cancelled_child (CancelChild child) = Some child"
| "cancelled_child _ = None"

lemma map_filter_const_None: "(\<And>x. f x = None) \<Longrightarrow> List.map_filter f xs = []"
  by (simp add: map_filter_def)

lemma map_filter_map: "List.map_filter f (map g xs) = List.map_filter (f \<circ> g) xs"
  by (simp add: map_filter_def filter_map comp_def)

text \<open>
  C8: cancelling an agent that is doing something stops all of it: no run, no request, no pending
  call, permission or child is left, each pending call and each child is cancelled exactly once,
  in the order of their identifiers, the backend of the run and a running evaluation are
  cancelled, and the transcript, the queued input and the counters are kept. Cancelling again
  changes nothing.
\<close>

theorem cancel_stops_everything:
  assumes "agent_apply ax a Cancel = (t, es)"
    and "active_run a \<noteq> None \<or> status a \<notin> {Idle, Cancelled, Failed}"
  shows "status t = Cancelled \<and> active_run t = None \<and> \<not> st_backend_in_flight (ag_state t)
     \<and> pending_tools t = [] \<and> permissions t = [] \<and> st_children (ag_state t) = []
     \<and> List.map_filter cancelled_tool es = sort (map fst (pending_tools a))
     \<and> List.map_filter cancelled_child es = sort (st_children (ag_state a))
     \<and> (\<forall>r. active_run a = Some r \<longrightarrow> CancelBackend r \<in> set es
           \<and> (CancelEvaluation r \<in> set es \<longleftrightarrow> status a = Verifying))
     \<and> messages t = messages a \<and> queued t = queued a \<and> ag_usage t = ag_usage a
     \<and> agent_apply ax t Cancel = (t, [])"
proof -
  let ?es1 = "case active_run a of Some run_id \<Rightarrow> CancelBackend run_id
        # (if status a = Verifying then [CancelEvaluation run_id] else []) | None \<Rightarrow> []"
  have t: "t = upd_state (\<lambda>s. s\<lparr>st_status := Cancelled, st_active_run := None,
       st_backend_in_flight := False, st_pending_tools := [], st_pending_permissions := [],
       st_children := []\<rparr>) a"
    and es: "es = ?es1 @ map CancelTool (sort (map fst (pending_tools a)))
       @ map CancelChild (sort (st_children (ag_state a)))
       @ [state_changed (status a) Cancelled, Emit (Ev_Completed Outcome_Cancelled)]"
    using assms by (auto simp: cancel_def Let_def)
  have none: "List.map_filter cancelled_tool ?es1 = []" "List.map_filter cancelled_child ?es1 = []"
    by (auto simp: map_filter_simps split: option.splits)
  have tools: "List.map_filter cancelled_tool es = sort (map fst (pending_tools a))"
    using none by (simp add: es map_filter_append map_filter_map map_filter_simps comp_def
        map_filter_const_None state_changed_def) (simp add: map_filter_def)
  have children: "List.map_filter cancelled_child es = sort (st_children (ag_state a))"
    using none by (simp add: es map_filter_append map_filter_map map_filter_simps comp_def
        map_filter_const_None state_changed_def) (simp add: map_filter_def)
  show ?thesis
    using tools children by (auto simp: t es state_changed_def cancel_def)
qed

theorem cancel_stops_everything_witness:
  "List.map_filter cancelled_tool (snd (agent_apply example_ax example_asking Cancel)) = [9]
   \<and> permissions (fst (agent_apply example_ax example_asking Cancel)) = []"
proof -
  obtain t es where c: "agent_apply example_ax example_asking Cancel = (t, es)" by fastforce
  obtain p where p: "pending_tools example_asking = [(9, p)]"
    by (simp add: example_asking_def example_running_def start_eval request_eval example_ax_def
      example_agent_def example_call_def example_counters_def)
  have "active_run example_asking \<noteq> None \<or> status example_asking \<notin> {Idle, Cancelled, Failed}"
    by (simp add: example_asks)
  from cancel_stops_everything [OF c this] c p show ?thesis by auto
qed

lemma fail_run_result:
  assumes "fail_run ax code message a = (t, es)"
  shows "status t = Failed \<and> active_run t = None
    \<and> map_option err_code (st_last_error (ag_state t)) = Some code
    \<and> (\<forall>request. ExecuteBackend request \<notin> set es)"
proof -
  define b where "b = discard_trailing_empty a"
  show ?thesis using assms unfolding fail_run_def b_def [symmetric]
    by (auto simp: Let_def count_run_def state_changed_def)
qed

text \<open>An agent whose last message asks for a tool: its transcript cannot be valid.\<close>

definition calls_last :: "'d agent \<Rightarrow> bool" where
  "calls_last a \<longleftrightarrow> messages a \<noteq> [] \<and> msg_role (last (messages a)) = Role_Assistant
     \<and> tool_uses (msg_content (last (messages a))) \<noteq> []"

lemma validate_messages_snoc:
  "validate_messages decls i pending (ms @ [m]) =
     (case validate_messages decls i pending ms of
        Inl e \<Rightarrow> Inl e | Inr left \<Rightarrow> validate_messages decls (i + length ms) left [m])"
proof (induction ms arbitrary: i pending)
  case Nil
  then show ?case by (simp del: validate_messages.simps(2))
next
  case (Cons x ms)
  let ?r = "resolve_results decls i pending (tool_results (msg_content x))"
  have shift: "i + length (x # ms) = Suc i + length ms" by simp
  show ?case
    unfolding shift using Cons by (cases "msg_role x"; cases ?r) (simp_all del: resolve_results.simps add_Suc)
qed

lemma calls_last_invalid:
  assumes "calls_last a"
  obtains e where "validate_transcript (messages a) = Inl e"
proof -
  obtain ms m where ms: "messages a = ms @ [m]" "msg_role m = Role_Assistant" "tool_uses (msg_content m) \<noteq> []"
    using assms unfolding calls_last_def by (metis append_butlast_last_id)
  have "validate_transcript (messages a) \<noteq> Inr ()"
    using ms by (auto simp: validate_transcript_def validate_messages_snoc split: sum.splits list.splits)
  then show thesis
    using that by (cases "validate_transcript (messages a)") auto
qed

text \<open>A call that is admitted leaves the transcript with the request for it at the end.\<close>

lemma take_sequence_messages:
  "messages (fst (take_sequence a)) = messages a" "messages (fst (next_timestamp ax a)) = messages a"
  "messages (fst (next_message_id a)) = messages a" "messages (fst (next_permission_id a)) = messages a"
  by (simp_all add: take_sequence_def next_timestamp_def next_message_id_def next_permission_id_def next_id_def
      Let_def case_prod_unfold)

lemma push_tool_use_calls: "calls_last (fst (push_tool_use ax call a))"
  using take_sequence_messages
  by (auto simp: push_tool_use_def push_message_def calls_last_def upd_last_message_def
      trailing_assistant_message_def map_filter_simps Let_def case_prod_unfold split: option.splits)

lemma route_injection_messages:
  assumes "calls_last a"
  shows "messages (route_injection cid i a) = messages a"
  using assms by (auto simp: route_injection_def calls_last_def push_pending_request_def push_pending_result_def
      split: placement.splits option.splits)

lemma fold_route_messages:
  "calls_last a \<Longrightarrow> messages (fold (route_injection cid) is a) = messages a"
proof (induction "is" arbitrary: a)
  case (Cons i "is")
  then show ?case using route_injection_messages [of a cid i] by (simp add: calls_last_def)
qed simp

lemma apply_rule_outcome_messages:
  "calls_last a \<Longrightarrow> messages (fst (apply_rule_outcome ro cid a)) = messages a"
  using fold_route_messages [of a cid "ro_injections ro"]
  by (auto simp: apply_rule_outcome_def Let_def split: option.splits)

lemma admitted_messages:
  assumes "agent_admit_tool_call ax call a = (t, es, Inr admitted)" "calls_last a"
  shows "messages t = messages a"
proof -
  have rules: "messages b = messages a" if "evaluate_request_rules ax call a = (b, fs, Inr ro)" for b fs ro
    using that apply_rule_outcome_messages [of "upd_behavior f a" for f] assms(2)
    by (auto simp: evaluate_request_rules_def calls_last_def Let_def split: prod.splits option.splits) 
       (metis fst_conv)+
  have approval: "messages c = messages b" if "approval_for ax call mode ro b = (c, Inr ap)" for b c mode ro ap
    using that by (auto simp: approval_for_def Let_def split: prod.splits option.splits tool_decision.splits
        permission_mode.splits if_splits)
  have rewrite: "messages (fst (rewrite_arguments ax call ro b)) = messages b" for b ro
    by (simp add: rewrite_arguments_def push_pending_result_def Let_def split: option.split)
  have budget: "messages c = messages b" if "require_tool_budget ax cid b = (c, Inr u)" for b c cid u
    using that by (auto simp: require_tool_budget_def Let_def split: prod.splits if_splits)
  show ?thesis
    using assms(1) rules approval rewrite budget
    by (auto simp: agent_admit_tool_call_def split: option.splits if_splits prod.splits sum.splits)
       (metis fst_conv)+
qed


lemma requested_call_last:
  assumes "tool_requested ax call a = (b, es)" "map_of (pending_tools b) (call_id call) \<noteq> None"
  shows "calls_last b \<and> active_run b = active_run a \<and> queued b = queued a"
proof -
  obtain a1 es1 where rec: "record_tool_request ax call a = (a1, es1)" by fastforce
  obtain a2 es2 adm where ad: "agent_admit_tool_call ax call a1 = (a2, es2, adm)"
    by (metis surj_pair)
  note r = record_tool_request_quiet [OF rec]
  obtain p where p: "map_of (pending_tools a1) (call_id call) = Some p" "pt_call p = call"
    using r(4) by blast
  have calls: "calls_last a1"
  proof -
    obtain a0 i where u: "push_tool_use ax call a = (a0, i)" by fastforce
    obtain a' ts where ts: "next_timestamp ax a0 = (a', ts)" by fastforce
    have "messages a1 = messages a'"
      using rec u ts by (auto simp: record_tool_request_def Let_def)
    moreover have "messages a' = messages a0" using take_sequence_messages(2) [of ax a0] ts by simp
    ultimately show ?thesis
      using push_tool_use_calls [of ax call a] u by (simp add: calls_last_def)
  qed
  show ?thesis using ad p
  proof (cases rule: admit_cases)
    case (refused refusal c)
    then have "map_of (pending_tools b) (call_id call) = None"
      using assms(1) rec ad by (auto simp: tool_requested_def refused_def Let_def)
    with assms(2) show ?thesis by simp
  next
    case (admitted approval p')
    have "messages a2 = messages a1"
      using admitted_messages [of ax call a1 a2 es2] ad admitted(1) calls by blast
    then have "messages b = messages a1 \<and> active_run b = active_run a2 \<and> queued b = queued a2"
      using assms(1) rec ad admitted(1) take_sequence_messages(4)
      by (auto simp: tool_requested_def execute_now_def ask_permission_def next_permission_id_def next_id_def
          take_sequence_def Let_def split: approval.splits)
    moreover have "active_run a1 = active_run a" "queued a1 = queued a" "queued a2 = queued a1"
      using r(1,5) admitted(3) by (simp_all add: quiet_except_def)
    ultimately show ?thesis
      using calls admitted(7) by (simp add: calls_last_def)
  qed
qed

lemma follow_ups_queued:
  assumes "active_run a \<noteq> None"
  shows "run_commands (agent_apply ax) a (map FollowUp inputs) = (set_queue (queued a @ inputs) a, [])"
  using assms
proof (induction inputs arbitrary: a)
  case (Cons input inputs)
  then show ?case
    using Cons.IH [of "set_queue (queued a @ [input]) a"] by (simp add: start_or_queue_def)
qed simp

lemma invalid_transcript_blocks:
  assumes "validate_transcript (messages a) = Inl e" and "active_run a \<noteq> None"
    and "queued a = input # rest"
    and "run_commands (agent_apply ax) a [Cancel, StartNextQueuedRun] = (t, es)"
  shows "status t = Failed \<and> map_option err_code (st_last_error (ag_state t)) = Some ''INVALID_TRANSCRIPT''
     \<and> queued t = rest \<and> active_run t = None \<and> (\<forall>request. ExecuteBackend request \<notin> set es)"
proof -
  obtain b fs where b: "cancel a = (b, fs)" by fastforce
  have fs: "messages b = messages a" "queued b = input # rest"
    "\<And>request. ExecuteBackend request \<notin> set fs"
    using b assms(2,3) by (auto simp: cancel_def Let_def state_changed_def split: option.splits)
  let ?c = "set_queue rest b"
  obtain hs where f: "fail_run ax ''INVALID_TRANSCRIPT''
      (fmt_transcript_error (ax_fmt_uuid ax) e) ?c = (t, hs)" "es = fs @ hs"
    using assms(1,4) b fs by (auto simp: start_next_queued_run_def start_run_def split: prod.splits)
  have "queued t = rest" using quiet_queue [OF fail_run_quiet [OF f(1)]] by simp
  with f(2) fs(3) fail_run_result [OF f(1)] show ?thesis by auto
qed

text \<open>
  C10: input queued behind a run that is cancelled in a tool call is lost. When the model's request
  for a tool leaves the call pending (it runs or waits for its permission), more input is queued
  and the run is cancelled, then resuming the queue takes the first input off it and the run fails
  with \<open>INVALID_TRANSCRIPT\<close> without a model request: cancelling leaves the request for the tool
  unanswered at the end of the transcript, and a run only starts on a transcript without such.
\<close>

theorem cancelled_tool_call_blocks_queue:
  assumes "active_run a = Some run_id"
    and "agent_apply ax a (BackendEvent run_id (EE_ToolCallRequested rid call)) = (b, fs)"
    and "map_of (pending_tools b) (call_id call) \<noteq> None"
    and "queued a @ inputs = input # rest"
    and "run_commands (agent_apply ax) b (map FollowUp inputs @ [Cancel, StartNextQueuedRun]) = (t, es)"
  shows "status t = Failed \<and> map_option err_code (st_last_error (ag_state t)) = Some ''INVALID_TRANSCRIPT''
     \<and> queued t = rest \<and> active_run t = None \<and> (\<forall>request. ExecuteBackend request \<notin> set es)"
proof -
  have "tool_requested ax call a = (b, fs)"
    using assms(1,2) by (simp add: backend_event_def)
  from requested_call_last [OF this assms(3)]
  have b: "calls_last b" "active_run b = Some run_id" "queued b = queued a"
    using assms(1) by simp_all
  let ?c = "set_queue (queued b @ inputs) b"
  obtain e where "validate_transcript (messages ?c) = Inl e"
    using calls_last_invalid [OF b(1)] by auto
  moreover have "run_commands (agent_apply ax) ?c [Cancel, StartNextQueuedRun] = (t, es)"
    using assms(5) follow_ups_queued [of b ax inputs] b(2)
    by (simp add: run_commands_append Let_def case_prod_unfold del: agent_apply.simps run_commands.simps)
  ultimately show ?thesis
    using assms(4) b by (intro invalid_transcript_blocks [of ?c e input rest ax t es]) simp_all
qed

text \<open>The example agent's call waits for its permission when the next input comes and the run is cancelled.\<close>

theorem cancelled_tool_call_blocks_queue_witness:
  "\<exists>t es. run_commands (agent_apply example_ax) example_running
     [BackendEvent example_run (EE_ToolCallRequested 0 (example_call ''bash'')),
      FollowUp (example_input ''next''), Cancel, StartNextQueuedRun] = (t, es)
     \<and> status t = Failed \<and> queued t = []"
proof -
  let ?ask = "BackendEvent example_run (EE_ToolCallRequested 0 (example_call ''bash''))"
  obtain fs where ask: "agent_apply example_ax example_running ?ask = (example_asking, fs)"
    unfolding example_asking_def by (metis prod.collapse)
  have pending: "map_of (pending_tools example_asking) (call_id (example_call ''bash'')) \<noteq> None"
    by (simp add: example_asking_def example_running_def start_eval request_eval example_ax_def
        example_agent_def example_call_def example_counters_def)
  have active: "active_run example_running = Some example_run" "queued example_running = []"
    by (simp_all add: example_running_def start_eval example_ax_def example_agent_def example_run_def)
  obtain t es where run: "run_commands (agent_apply example_ax) example_asking
      (map FollowUp [example_input ''next''] @ [Cancel, StartNextQueuedRun]) = (t, es)" by fastforce
  from cancelled_tool_call_blocks_queue [OF active(1) ask pending _ run, of "example_input ''next''" "[]"] active(2)
  have "status t = Failed" "queued t = []" by simp_all
  with run ask show ?thesis
    by (auto simp del: agent_apply.simps run_commands.simps(1) simp add: Let_def)
qed

section \<open>What a request offers\<close>

lemma session_grant_iff:
  "session_grant a name \<noteq> None \<longleftrightarrow>
     name \<in> td_name ` set (enabled_descriptors (cap_tools (ag_capabilities a)))"
proof -
  have "name \<in> td_name ` set (enabled_descriptors (cap_tools (ag_capabilities a))) \<longleftrightarrow>
      (\<exists>c \<in> set (map snd (ts_tools (cap_tools (ag_capabilities a)))).
         td_name (tc_descriptor c) = name \<and> tp_enabled (tc_policy c))"
    by (force simp: enabled_descriptors_def Let_def)
  also have "\<dots> \<longleftrightarrow> session_grant a name \<noteq> None"
    unfolding session_grant_def by (simp add: find_None_iff)
  finally show ?thesis by simp
qed

lemma build_request_tools:
  "req_tools (snd (build_request ax run_id reissue a)) =
     (if rc_final_turn (bs_run (behavior a)) then [] else offered_tools a)"
  by (simp add: build_request_def Let_def offered_tools_def split: prod.splits)

text \<open>
  C11: a model request offers exactly the tools a call to which passes the session and scope checks:
  the enabled tools of the session that the profile admits, and none on the final turn. So the
  model is never offered a tool it may not call, and a call that is admitted is always one of a
  tool the agent's request offers.
\<close>

theorem offered_tools_exact:
  "(name \<in> td_name ` set (req_tools (snd (build_request ax run_id reissue a)))) =
     (\<not> rc_final_turn (bs_run (behavior a)) \<and> session_grant a name \<noteq> None
      \<and> allows_tool (bs_profile (behavior a)) name)
   \<and> {call_name call | call approval. admissible ax call approval a}
       \<subseteq> td_name ` set (req_tools (snd (build_request ax run_id reissue a)))"
proof -
  have exact: "(name \<in> td_name ` set (req_tools (snd (build_request ax run_id reissue a)))) =
     (\<not> rc_final_turn (bs_run (behavior a)) \<and> session_grant a name \<noteq> None
      \<and> allows_tool (bs_profile (behavior a)) name)" for name
    unfolding session_grant_iff build_request_tools
    by (auto simp: offered_tools_def Let_def image_iff)
  have "call_name call \<in> td_name ` set (req_tools (snd (build_request ax run_id reissue a)))"
    if "admissible ax call approval a" for call approval
    unfolding exact
    using that by (auto simp: admissible_def within_budget_def Let_def split: option.splits)
  then show ?thesis using exact [of name] by auto
qed

section \<open>Assistant text\<close>

lemma boundary_cut_le: "boundary_cut delta k \<le> k"
  by (induction delta k rule: boundary_cut.induct) auto

definition bounded_text :: "string \<Rightarrow> string \<Rightarrow> bool" where
  "bounded_text sent s \<longleftrightarrow> (\<exists>p. prefix p sent \<and> length p \<le> MAX_ASSISTANT_TEXT_BYTES
     \<and> (s = sent \<and> p = sent \<or> s = p \<and> suffix TRUNCATION_MARKER p \<or> s = p @ TRUNCATION_MARKER))"

lemma push_bounded_step: "bounded_text sent s \<Longrightarrow> bounded_text (sent @ delta) (push_bounded s delta)"
proof -
  assume "bounded_text sent s"
  then obtain p where p: "prefix p sent" "length p \<le> MAX_ASSISTANT_TEXT_BYTES"
    "s = sent \<and> p = sent \<or> s = p \<and> suffix TRUNCATION_MARKER p \<or> s = p @ TRUNCATION_MARKER"
    unfolding bounded_text_def by blast
  have pre: "prefix p (sent @ delta)" using p(1) by (rule prefix_prefix)
  show ?thesis
  proof (cases "suffix TRUNCATION_MARKER s")
    case True
    then have "push_bounded s delta = s" by (simp add: push_bounded_def)
    with True p pre show ?thesis unfolding bounded_text_def by (intro exI [of _ p]) auto
  next
    case False
    then have s: "s = sent" "p = sent" using p(3) by (auto simp: suffix_def)
    let ?rest = "MAX_ASSISTANT_TEXT_BYTES - length sent"
    show ?thesis
    proof (cases "delta = [] \<or> length sent \<ge> MAX_ASSISTANT_TEXT_BYTES \<or> length delta \<le> ?rest")
      case True
      with False s p(2) show ?thesis
        by (auto simp: bounded_text_def push_bounded_def Let_def intro: exI [of _ sent])
    next
      case cut: False
      let ?q = "sent @ take (boundary_cut delta ?rest) delta"
      have "prefix ?q (sent @ delta)" by (simp add: take_is_prefix)
      moreover have "length ?q \<le> MAX_ASSISTANT_TEXT_BYTES"
        using boundary_cut_le [of delta ?rest] cut by (simp, linarith)
      moreover have "push_bounded s delta = ?q @ TRUNCATION_MARKER"
        using False cut s by (auto simp: push_bounded_def Let_def)
      ultimately show ?thesis unfolding bounded_text_def by blast
    qed
  qed
qed

lemma fold_push_bounded:
  "bounded_text sent s \<Longrightarrow> bounded_text (sent @ concat deltas) (fold (\<lambda>d s. push_bounded s d) deltas s)"
proof (induction deltas arbitrary: sent s)
  case (Cons d ds)
  from Cons.IH [OF push_bounded_step [OF Cons.prems, of d]] show ?case by simp
qed simp

text \<open>
  However much text a backend streams, the assistant message stays within 4 MiB plus the
  truncation marker, and is what was streamed, or a prefix of it closed by the marker.
\<close>

theorem assistant_text_bounded:
  "let s = fold (\<lambda>d s. push_bounded s d) deltas []
   in length s \<le> MAX_ASSISTANT_TEXT_BYTES + length TRUNCATION_MARKER
      \<and> (\<exists>p. prefix p (concat deltas) \<and> (s = p \<or> s = p @ TRUNCATION_MARKER))"
proof -
  have "bounded_text [] []" by (auto simp: bounded_text_def)
  from fold_push_bounded [OF this, of deltas] show ?thesis
    by (auto simp: Let_def bounded_text_def)
qed

section \<open>Installing a profile\<close>

text \<open>
  An invalid bundle is not installed, but the trust to run commands that came with it is: the
  installed profile runs under the new setting.
\<close>

lemma invalid_bundle_half_applied:
  "install_bundle ax profile library = None \<Longrightarrow>
   agent_apply ax a (SetBehaviorProfile profile library allow) =
     (upd_behavior (\<lambda>b. b\<lparr>bs_commands_trusted := allow\<rparr>) a, [])"
  by (simp add: set_behavior_profile_def)

section \<open>The completion gate\<close>

definition exhausted :: "completion_gate \<Rightarrow> 'd agent \<Rightarrow> bool" where
  "exhausted gate a \<longleftrightarrow> gate_max_continuations gate \<le> rc_gate_continuations (bs_run (behavior a))
     \<or> rc_final_turn (bs_run (behavior a))"

definition waivable :: "completion_gate \<Rightarrow> string \<Rightarrow> bool" where
  "waivable gate i \<longleftrightarrow> (\<exists>check \<in> set (gate_checks gate). gc_id check = i \<and> gc_waive_when_exhausted check)"

lemma gate_step_of_cases:
  "gate_step_of gate failed a =
     (if failed = [] then Accept else if \<not> exhausted gate a then SendBack
      else if \<forall>i \<in> set failed. waivable gate i then Accept else Exhausted)"
  by (auto simp: gate_step_of_def exhausted_def waivable_def Let_def list_all_iff list_ex_iff not_le)

text \<open>The outcome a step reports: the gate's verdict on each finished run.\<close>

definition reported_gate :: "'d agent_effect list \<Rightarrow> bool option set" where
  "reported_gate es = {res_gate_passed r | r. FinishRun r \<in> set es}"

lemma reported_gate_append [simp]:
  "reported_gate (es @ fs) = reported_gate es \<union> reported_gate fs" "reported_gate [] = {}"
  by (auto simp: reported_gate_def)

lemma reported_gate_Cons [simp]:
  "reported_gate (Emit ev # es) = reported_gate es"
  "reported_gate (ExecuteBackend request # es) = reported_gate es"
  by (auto simp: reported_gate_def)

lemma finish_success_reports: "reported_gate (snd (finish_success ax summary passed a)) = {passed}"
  by (auto simp: finish_success_def Let_def reported_gate_def state_changed_def)

definition unpassed :: "'d agent_effect list \<Rightarrow> bool" where
  "unpassed es \<longleftrightarrow> reported_gate es \<subseteq> {None}"

lemma unpassed_simps [simp]:
  "unpassed []" "unpassed (es @ fs) \<longleftrightarrow> unpassed es \<and> unpassed fs"
  "unpassed (Emit ev # es) \<longleftrightarrow> unpassed es" "unpassed (ExecuteBackend request # es) \<longleftrightarrow> unpassed es"
  "unpassed (state_changed from to # es) \<longleftrightarrow> unpassed es"
  by (simp_all add: unpassed_def state_changed_def)

lemma emits_unpassed: "emits_only es \<Longrightarrow> unpassed es"
  by (auto simp: unpassed_def emits_only_def reported_gate_def)

lemma fail_run_unpassed: "fail_run ax code message a = (t, es) \<Longrightarrow> unpassed es"
  by (auto simp: fail_run_def Let_def reported_gate_def state_changed_def unpassed_def)

lemma behavior_stop_unpassed: "behavior_stop ax stop a = (t, es) \<Longrightarrow> unpassed es"
  unfolding behavior_stop_def by (rule fail_run_unpassed)

lemma apply_switch_unpassed: "apply_switch ax profile library a = (t, es) \<Longrightarrow> unpassed es"
  by (auto simp: apply_switch_def Let_def split: if_splits prod.splits dest: fail_run_unpassed)

lemma take_pending_profile_unpassed: "take_pending_profile ax a = (t, es) \<Longrightarrow> unpassed es"
  by (auto simp: take_pending_profile_def split: option.splits dest: apply_switch_unpassed)

lemma rules_attempt_unpassed:
  assumes rules: "apply_rule_outcome ro None b = (c, es)"
    and result: "(case ro_stop ro of
          Some stop \<Rightarrow> (let (a, failure) = behavior_stop ax stop c in (a, Inl (es @ failure)))
        | None \<Rightarrow> (c, Inr es)) = (t, r)"
  shows "unpassed (case r of Inl es \<Rightarrow> es | Inr es \<Rightarrow> es)"
proof -
  have "unpassed es" by (rule emits_unpassed [OF apply_rule_outcome_quiet(2) [OF rules]])
  with result show ?thesis
    by (auto split: option.splits prod.splits dest: behavior_stop_unpassed)
qed

lemma entered_rules_unpassed:
  "entered_rules ax from a = (t, r) \<Longrightarrow> unpassed (case r of Inl es \<Rightarrow> es | Inr es \<Rightarrow> es)"
  unfolding entered_rules_def by (auto split: prod.splits elim!: rules_attempt_unpassed)

lemma before_request_rules_unpassed:
  "before_request_rules ax a = (t, r) \<Longrightarrow> unpassed (case r of Inl es \<Rightarrow> es | Inr es \<Rightarrow> es)"
  unfolding before_request_rules_def by (auto split: prod.splits elim!: rules_attempt_unpassed)

lemma enter_switched_unpassed:
  "enter_switched ax a = (t, r) \<Longrightarrow> unpassed (case r of Inl es \<Rightarrow> es | Inr es \<Rightarrow> es)"
  by (auto simp: enter_switched_def enter_profile_def Let_def
      split: option.splits if_splits prod.splits sum.splits dest!: entered_rules_unpassed)

lemma agent_begin_turn_unpassed:
  assumes "agent_begin_turn ax a = (t, r)"
  shows "unpassed (case r of Inl es \<Rightarrow> es | Inr es \<Rightarrow> es)"
  using assms
  by (auto simp: agent_begin_turn_def Let_def split: if_splits prod.splits sum.splits
      dest!: take_pending_profile_unpassed enter_switched_unpassed before_request_rules_unpassed
        fail_run_unpassed)

lemma send_answer_back_unpassed:
  "send_answer_back ax run_id ref failures a = (t, es) \<Longrightarrow> unpassed es"
  by (auto simp: send_answer_back_def Let_def split: prod.splits sum.splits
      dest!: agent_begin_turn_unpassed)

text \<open>
  C9: what the gate reports for an answer whose checks failed as listed. The run finishes as
  passed exactly when no check failed, or when no continuation is left and every failed check is
  waivable; it finishes as not passed exactly when no continuation is left, a failed check is not
  waivable and the profile accepts exhausted gates; and as long as continuations are left, a
  failed answer goes back to the model and no run finishes with a verdict.
\<close>

theorem gate_verdict_exact:
  assumes "bp_completion_gate (cp_profile (bs_profile (behavior a))) = Some gate"
    and "gate_decided ax run_id failures summary a = (t, es)"
  shows "(Some True \<in> reported_gate es) = (failures = []
        \<or> exhausted gate a \<and> (\<forall>(i, _) \<in> set failures. waivable gate i))
     \<and> (Some False \<in> reported_gate es) = (failures \<noteq> [] \<and> exhausted gate a
        \<and> \<not> (\<forall>(i, _) \<in> set failures. waivable gate i)
        \<and> gate_on_exhausted gate \<noteq> Some Exhausted_Fail)"
proof -
  let ?gs = "gate_step_of gate (map fst failures) a"
  obtain fs where fs: "(case ?gs of
       Accept \<Rightarrow> finish_success ax summary (Some True) a
     | Exhausted \<Rightarrow> end_exhausted_gate ax gate (map fst failures) summary a
     | SendBack \<Rightarrow> send_answer_back ax run_id (reference (bs_profile (behavior a))) failures a) = (t, fs)"
    and es: "reported_gate es = reported_gate fs"
    using assms by (auto simp: gate_decided_def Let_def gate_evaluated_def split: prod.splits)
  have gs: "?gs = (if failures = [] then Accept else if \<not> exhausted gate a then SendBack
      else if \<forall>(i, _) \<in> set failures. waivable gate i then Accept else Exhausted)"
    by (auto simp: gate_step_of_cases)
  show ?thesis
  proof (cases ?gs)
    case Accept
    then have "reported_gate es = {Some True}"
      using fs es finish_success_reports [of ax summary "Some True" a] by simp
    with gs Accept show ?thesis by (auto split: if_splits)
  next
    case SendBack
    then have "unpassed es"
      using fs es send_answer_back_unpassed by (simp add: unpassed_def) blast
    with gs SendBack show ?thesis by (auto simp: unpassed_def split: if_splits)
  next
    case Exhausted
    then have "reported_gate es = (if gate_on_exhausted gate = Some Exhausted_Fail then {None}
        else {Some False})"
      using fs es finish_success_reports [of ax summary "Some False" a]
      by (auto simp: end_exhausted_gate_def unwrap_or_def fail_run_def Let_def reported_gate_def
          state_changed_def split: option.splits on_exhausted.splits)
    with gs Exhausted show ?thesis by (auto split: if_splits)
  qed
qed

text \<open>A gate with a waivable declarative check and a test command that is not waivable.\<close>

definition example_gate :: completion_gate where
  "example_gate = \<lparr>gate_checks = [
     \<lparr>gc_id = ''keep-going'', gc_require = Some (Turn \<lparr>cmp_eq = None, cmp_gte = Some 5, cmp_lte = None\<rparr>),
      gc_evaluator = None, gc_feedback = Some ''Keep going.'', gc_error_policy = Policy_Fail,
      gc_waive_when_exhausted = True, gc_metadata = JNull\<rparr>,
     \<lparr>gc_id = ''tests'', gc_require = None, gc_evaluator = Some (Eval_Command ''cargo test'' 60),
      gc_feedback = None, gc_error_policy = Policy_Fail, gc_waive_when_exhausted = False,
      gc_metadata = JNull\<rparr>],
     gate_max_continuations = 1, gate_on_exhausted = Some Exhausted_Fail\<rparr>"

definition example_gated :: "int agent" where
  "example_gated = upd_behavior (\<lambda>b. b\<lparr>
     bs_profile := \<lparr>cp_profile = (example_profile ''A'')\<lparr>bp_completion_gate := Some example_gate\<rparr>,
                    cp_content_hash = []\<rparr>,
     bs_run := (bs_run b)\<lparr>rc_gate_continuations := 1\<rparr>\<rparr>) example_running"

lemma example_gated_simps:
  "bp_completion_gate (cp_profile (bs_profile (behavior example_gated))) = Some example_gate"
  "exhausted example_gate example_gated" "waivable example_gate ''keep-going''"
  "\<not> waivable example_gate ''tests''"
  "snd (evaluator_specs example_ax (gate_checks example_gate)) = []"
  "failed_declarative_checks example_ax example_gate (note_gate_attempt example_ax example_gated)
     = [(''keep-going'', ''Keep going.'')]"
  by (simp_all add: example_gated_def exhausted_def waivable_def example_gate_def example_ax_def
      failed_declarative_checks_def note_gate_attempt_def map_filter_simps condition_holds_def
      comparison_holds_def example_running_def example_counters_def default_counters_def
      word_le_nat_alt)

theorem gate_verdict_exact_witness:
  "Some True \<in> reported_gate (snd (gate_decided example_ax example_run
       [(''keep-going'', [])] ''done'' example_gated))
   \<and> Some False \<notin> reported_gate (snd (gate_decided example_ax example_run
       [(''tests'', [])] ''done'' example_gated))"
proof -
  obtain t es where 1: "gate_decided example_ax example_run [(''keep-going'', [])] ''done''
      example_gated = (t, es)" by fastforce
  obtain u fs where 2: "gate_decided example_ax example_run [(''tests'', [])] ''done''
      example_gated = (u, fs)" by fastforce
  from gate_verdict_exact [OF example_gated_simps(1) 1] gate_verdict_exact [OF example_gated_simps(1) 2]
  show ?thesis by (simp add: 1 2 example_gated_simps) (simp add: example_gate_def)
qed

lemma propose_completion_failing:
  assumes "bp_completion_gate (cp_profile (bs_profile (behavior a))) = Some gate"
    and "failed_declarative_checks ax gate (note_gate_attempt ax a) \<noteq> []"
    and "propose_completion ax run_id summary a = (t, es)"
  shows "gate_decided ax run_id (failed_declarative_checks ax gate (note_gate_attempt ax a)
      @ snd (evaluator_specs ax (gate_checks gate))) summary (note_gate_attempt ax a) = (t, es)"
  using assms by (auto simp: propose_completion_def Let_def split: prod.splits)

text \<open>
  When a declarative check fails, the evaluators of the gate are not run. So when no
  continuation is left and every failed declarative check is waivable, the answer is accepted and
  the run reported as passed without a single evaluator having been asked, also when the gate has
  evaluator checks that are not waivable.
\<close>

theorem waived_check_skips_evaluators:
  assumes "bp_completion_gate (cp_profile (bs_profile (behavior a))) = Some gate"
    and "failed_declarative_checks ax gate (note_gate_attempt ax a) = f # fs"
    and "\<forall>(i, _) \<in> set (f # fs). waivable gate i" and "exhausted gate a"
    and "snd (evaluator_specs ax (gate_checks gate)) = []"
    and "propose_completion ax run_id summary a = (t, es)"
  shows "Some True \<in> reported_gate es \<and> (\<forall>request. EvaluateCompletion request \<notin> set es)"
proof -
  let ?b = "note_gate_attempt ax a"
  have gate: "bp_completion_gate (cp_profile (bs_profile (behavior ?b))) = Some gate"
    and ex: "exhausted gate ?b"
    using assms(1,4) by (simp_all add: note_gate_attempt_def exhausted_def)
  have decided: "gate_decided ax run_id (f # fs) summary ?b = (t, es)"
    using propose_completion_failing [OF assms(1) _ assms(6)] assms(2,5) by simp
  have "gate_step_of gate (map fst (f # fs)) ?b = Accept"
    using assms(3) ex by (auto simp: gate_step_of_cases)
  then have "es = gate_evaluated Accept (map fst (f # fs)) ?b
      # snd (finish_success ax summary (Some True) ?b)"
    using decided gate by (auto simp: gate_decided_def Let_def split: prod.splits)
  then show ?thesis
    by (auto simp: gate_evaluated_def finish_success_def Let_def reported_gate_def state_changed_def)
qed

theorem waived_check_skips_evaluators_witness:
  "Some True \<in> reported_gate (snd (propose_completion example_ax example_run ''done'' example_gated))
   \<and> \<not> waivable example_gate ''tests''"
proof -
  obtain t es where p: "propose_completion example_ax example_run ''done'' example_gated = (t, es)"
    by fastforce
  have "\<forall>(i, _) \<in> set [(''keep-going'', ''Keep going.'')]. waivable example_gate i"
    by (simp add: example_gated_simps)
  from waived_check_skips_evaluators [OF example_gated_simps(1,6) this example_gated_simps(2,5) p]
  show ?thesis by (simp add: p example_gated_simps)
qed

end
