(* ===== verification/Float64.thy ===== *)
theory Float64
  imports Rust_Prelude
begin

text \<open>
  The \<open>f64\<close> arithmetic the workflow budgets use: addition with rounding to nearest even,
  \<open>==\<close> and \<open>>=\<close>, on IEEE-754 bit patterns. A finite double is an integer number of units of
  \<open>2 ^ -1074\<close>, so a sum is exact in \<open>int\<close> and rounded once. Rust leaves the payload of a NaN
  that an operation produces unspecified; here it is the canonical quiet NaN.
\<close>

definition f64_magnitude :: "f64 \<Rightarrow> nat" where
  "f64_magnitude x = unat x mod 2 ^ 63"

definition f64_negative :: "f64 \<Rightarrow> bool" where
  "f64_negative x \<longleftrightarrow> 2 ^ 63 \<le> unat x"

abbreviation f64_infinity_magnitude :: nat where
  "f64_infinity_magnitude \<equiv> 0x7FF0000000000000"

definition f64_is_nan :: "f64 \<Rightarrow> bool" where
  "f64_is_nan x \<longleftrightarrow> f64_infinity_magnitude < f64_magnitude x"

definition f64_is_finite :: "f64 \<Rightarrow> bool" where
  "f64_is_finite x \<longleftrightarrow> f64_magnitude x < f64_infinity_magnitude"

abbreviation f64_nan :: f64 where
  "f64_nan \<equiv> 0x7FF8000000000000"

text \<open>The value of a bit pattern without its sign, in units of \<open>2 ^ -1074\<close>.\<close>

definition magnitude_units :: "nat \<Rightarrow> nat" where
  "magnitude_units m =
     (let exponent = m div 2 ^ 52; fraction = m mod 2 ^ 52
      in if exponent = 0 then fraction else (2 ^ 52 + fraction) * 2 ^ (exponent - 1))"

definition f64_units :: "f64 \<Rightarrow> int" where
  "f64_units x =
     (if f64_negative x then - int (magnitude_units (f64_magnitude x))
      else int (magnitude_units (f64_magnitude x)))"

fun excess_bits :: "nat \<Rightarrow> nat" where
  "excess_bits a = (if a < 2 ^ 53 then 0 else Suc (excess_bits (a div 2)))"

declare excess_bits.simps [simp del]

definition round_units :: "nat \<Rightarrow> nat" where
  "round_units a =
     (let k = excess_bits a; q = a div 2 ^ k; r = a mod 2 ^ k;
          up = 2 ^ k < 2 * r \<or> (2 ^ k = 2 * r \<and> odd q)
      in min f64_infinity_magnitude (k * 2 ^ 52 + (if up then q + 1 else q)))"

definition f64_of_units :: "bool \<Rightarrow> int \<Rightarrow> f64" where
  "f64_of_units negative_zero n =
     of_nat ((if n < 0 \<or> (n = 0 \<and> negative_zero) then 2 ^ 63 else 0) + round_units (nat \<bar>n\<bar>))"

definition f64_add :: "f64 \<Rightarrow> f64 \<Rightarrow> f64" where
  "f64_add x y =
     (if f64_is_nan x \<or> f64_is_nan y then f64_nan
      else if f64_is_finite x \<and> f64_is_finite y
      then f64_of_units (f64_negative x \<and> f64_negative y) (f64_units x + f64_units y)
      else if f64_is_finite x then y
      else if f64_is_finite y then x
      else if x = y then x else f64_nan)"

text \<open>
  Infinities are ordered with the finite values by their magnitude, since the units of a bit
  pattern grow with it.
\<close>

definition f64_ge :: "f64 \<Rightarrow> f64 \<Rightarrow> bool" where
  "f64_ge x y \<longleftrightarrow> \<not> f64_is_nan x \<and> \<not> f64_is_nan y \<and> f64_units y \<le> f64_units x"

definition f64_eq :: "f64 \<Rightarrow> f64 \<Rightarrow> bool" where
  "f64_eq x y \<longleftrightarrow> f64_ge x y \<and> f64_ge y x"

lemma f64_add_comm: "f64_add x y = f64_add y x"
  by (auto simp: f64_add_def ac_simps)

lemma excess_bits_small [simp]: "a < 2 ^ 53 \<Longrightarrow> excess_bits a = 0"
  by (simp add: excess_bits.simps)

lemma excess_bits_scaled:
  assumes "2 ^ 52 \<le> q" and "q < 2 ^ 53"
  shows "excess_bits (q * 2 ^ k) = k"
proof (induction k)
  case (Suc k)
  have "\<not> q * 2 ^ Suc k < 2 ^ 53"
    using assms(1) mult_le_mono [of "2 ^ 52" q 2 "2 ^ Suc k"] by simp
  then have "excess_bits (q * 2 ^ Suc k) = Suc (excess_bits (q * 2 ^ Suc k div 2))"
    by (subst excess_bits.simps) simp
  also have "q * 2 ^ Suc k div 2 = q * 2 ^ k" by simp
  finally show ?case using Suc.IH by simp
qed (use assms in simp)

text \<open>Every finite double is represented exactly: rounding its own value gives it back.\<close>

lemma round_magnitude_units:
  assumes "m < f64_infinity_magnitude"
  shows "round_units (magnitude_units m) = m"
proof (cases "m div 2 ^ 52 = 0")
  case True
  then have "m < 2 ^ 52" by (simp add: div_eq_0_iff)
  then show ?thesis using assms by (simp add: magnitude_units_def round_units_def)
next
  case False
  define k where "k = m div 2 ^ 52 - 1"
  define q where "q = 2 ^ 52 + m mod 2 ^ 52"
  have units: "magnitude_units m = q * 2 ^ k"
    using False by (simp add: magnitude_units_def k_def q_def Let_def)
  have q: "2 ^ 52 \<le> q" "q < 2 ^ 53" by (simp_all add: q_def)
  have "m = k * 2 ^ 52 + q"
    using False div_mult_mod_eq [of m "2 ^ 52"] by (simp add: k_def q_def algebra_simps)
  with assms show ?thesis
    unfolding units round_units_def Let_def excess_bits_scaled [OF q] by (simp add: min_def)
qed

lemma f64_add_zero:
  assumes "f64_is_finite x" and "\<not> f64_negative x"
  shows "f64_add x 0 = x"
proof -
  have m: "f64_magnitude x = unat x"
    using assms(2) by (simp add: f64_magnitude_def f64_negative_def)
  have "f64_of_units False (f64_units x) = x"
    using assms round_magnitude_units [of "unat x"]
    by (simp add: f64_of_units_def f64_units_def f64_is_finite_def m)
  moreover have "f64_units 0 = 0" "f64_is_finite 0" "\<not> f64_is_nan 0" "\<not> f64_negative 0"
    by (simp_all add: f64_units_def f64_is_finite_def f64_is_nan_def f64_magnitude_def
        f64_negative_def magnitude_units_def)
  ultimately show ?thesis
    using assms by (simp add: f64_add_def f64_is_finite_def f64_is_nan_def)
qed

text \<open>The common case of two zeros, which evaluation can decide without unary naturals.\<close>

lemma f64_eq_code [code]:
  "f64_eq x y = (if x = 0 \<and> y = 0 then True else f64_ge x y \<and> f64_ge y x)"
  by (simp add: f64_eq_def f64_ge_def f64_magnitude_def f64_is_nan_def f64_negative_def)

end
