(* ===== verification/Workflow_Definition.thy ===== *)
theory Workflow_Definition
  imports Behavior_Definition Float64
begin

text \<open>
  Workflow documents (\<open>workflow-core/src/definition.rs\<close> and \<open>definition/*.rs\<close>): nodes, edges,
  bindings, retry and budget policies, task queues, the one-step flow of a subflow step, the
  task plan schema (\<open>task_plan.rs\<close>) and the built-in workflow (\<open>default.rs\<close>). Identifiers are
  transparent newtypes of strings.
\<close>

type_synonym definition_id = string
type_synonym node_id = string
type_synonym edge_id = string
type_synonym workflow_run_id = string

section \<open>Edges, bindings and schemas (bindings.rs)\<close>

definition ORCHESTRATION_SCHEMA_VERSION :: u32 where
  "ORCHESTRATION_SCHEMA_VERSION = 1"

datatype edge_condition = OnSuccess | OnFailure

record orchestration_edge =
  oe_id :: edge_id
  oe_source :: node_id
  oe_target :: node_id
  oe_condition :: edge_condition
  oe_metadata :: json

datatype output_binding = RunInput string | NodeOutput node_id string

record input_binding =
  ib_target :: string
  ib_source :: output_binding

datatype schema_reference = Inline string json | Schema_Registry string u64

record output_contract =
  oc_schema :: schema_reference
  oc_source :: "output_binding option"
  oc_strict :: bool

text \<open>The object the \<open>json!\<close> macro builds: the entries inserted in order into an ordered map.\<close>

definition json_object :: "(string \<times> json) list \<Rightarrow> json" where
  "json_object entries = JObject (fold (\<lambda>(key, val). btree_insert key val) entries [])"

abbreviation json_strings :: "string list \<Rightarrow> json" where
  "json_strings names \<equiv> JArray (map JString names)"

abbreviation json_nat :: "u64 \<Rightarrow> json" where
  "json_nat n \<equiv> JNumber (PosInt n)"

definition type_schema :: "string \<Rightarrow> json" where
  "type_schema name = json_object [(''type'', JString name)]"

definition default_output_contract :: output_contract where
  "default_output_contract =
     \<lparr>oc_schema = Inline ''result'' (type_schema ''string''), oc_source = None, oc_strict = False\<rparr>"

section \<open>Policies (policies.rs)\<close>

datatype retry_reason =
    BackendRateLimited
  | BackendTimeout
  | ToolTimeout
  | InvalidStructuredOutput
  | VerificationFailed
  | ChangesRequested

record retry_policy =
  rp_max_attempts :: u32
  rp_retry_on :: "retry_reason list"

definition default_retry_policy :: retry_policy where
  "default_retry_policy = \<lparr>rp_max_attempts = 1, rp_retry_on = []\<rparr>"

definition MAX_STEP_ATTEMPTS :: u32 where
  "MAX_STEP_ATTEMPTS = 10"

record research_policy =
  rs_max_per_attempt :: u32
  rs_profile :: "profile_ref option"

definition default_research_policy :: research_policy where
  "default_research_policy = \<lparr>rs_max_per_attempt = 2, rs_profile = None\<rparr>"

record orchestration_policies =
  op_max_steps :: "u32 option"
  op_max_total_attempts :: "u32 option"
  op_max_elapsed_ms :: "u64 option"
  op_stall_timeout_ms :: "u64 option"
  op_max_model_requests :: "u64 option"
  op_max_tool_calls :: "u64 option"
  op_max_tokens :: "u64 option"
  op_max_cost_usd :: "f64 option"
  op_research :: "research_policy option"

definition default_policies :: orchestration_policies where
  "default_policies =
     \<lparr>op_max_steps = None, op_max_total_attempts = None, op_max_elapsed_ms = None,
      op_stall_timeout_ms = None, op_max_model_requests = None, op_max_tool_calls = None,
      op_max_tokens = None, op_max_cost_usd = None, op_research = None\<rparr>"

section \<open>Node configurations (definition.rs, task\_queue.rs)\<close>

datatype subflow_target =
    Flow definition_id "u64 option"
  | Step string "profile_ref option" tool_scope "string option"

definition MAX_SUBFLOW_DEPTH :: u32 where
  "MAX_SUBFLOW_DEPTH = 3"

record task_planner_config =
  tpc_profile :: profile_ref
  tpc_instructions :: string

datatype task_failure_policy = OnTask_Ask | OnTask_Stop | OnTask_Skip

record task_queue_config =
  tq_plan_pointer :: string
  tq_review_profile :: profile_ref
  tq_review_instructions :: string
  tq_task_planner :: "task_planner_config option"
  tq_max_repairs :: u32
  tq_on_task_failure :: task_failure_policy
  tq_flows :: "(string, subflow_target) btree_map"

datatype context_access = Own | All_Steps | Steps "node_id list"

datatype structured_output_mode = SO_Text | SO_Require | SO_HostValidatedFallback | SO_HostValidated

datatype agent_context_mode = SharedSession | IsolatedChild

record input_node_config =
  inc_defaults :: "(string, json) btree_map"

record agent_node_config =
  anc_instructions :: string
  anc_task_queue :: "task_queue_config option"
  anc_tools :: tool_scope
  anc_context_mode :: agent_context_mode
  anc_model :: "string option"
  anc_structured_output :: structured_output_mode
  anc_profile :: "profile_ref option"
  anc_context_access :: context_access

datatype verification_check =
    RequirementsSatisfied string string
  | Check_Schema
  | RequiredStatus string string
  | ArtifactExists string
  | ArtifactsResolvable string
  | Criteria string "string option" "string list" "string list" "u32 option"

record verify_node_config =
  vnc_checks :: "verification_check list"
  vnc_retry_target :: "node_id option"

record approval_node_config =
  apc_subject :: output_binding
  apc_prompt :: string
  apc_revise_target :: "node_id option"
  apc_max_revisions :: u32
  apc_allow_auto_approve :: bool
  apc_skip_if_empty :: "string option"
  apc_revise_on_notes :: bool

definition MAX_REVISIONS :: u32 where
  "MAX_REVISIONS = 10"

record subflow_node_config =
  snc_target :: subflow_target

record output_node_config =
  onc_source :: output_binding
  onc_strict :: bool

datatype orchestration_node_kind =
    Node_Input input_node_config
  | Node_Agent agent_node_config
  | Node_Verify verify_node_config
  | Node_Approval approval_node_config
  | Node_Subflow subflow_node_config
  | Node_Output output_node_config

fun type_name :: "orchestration_node_kind \<Rightarrow> string" where
  "type_name (Node_Input _) = ''input''"
| "type_name (Node_Agent _) = ''agent''"
| "type_name (Node_Verify _) = ''verify''"
| "type_name (Node_Approval _) = ''approval''"
| "type_name (Node_Subflow _) = ''subflow''"
| "type_name (Node_Output _) = ''output''"

definition is_agent_node :: "orchestration_node_kind \<Rightarrow> bool" where
  "is_agent_node kind \<longleftrightarrow> (case kind of Node_Agent _ \<Rightarrow> True | _ \<Rightarrow> False)"

definition is_output_node :: "orchestration_node_kind \<Rightarrow> bool" where
  "is_output_node kind \<longleftrightarrow> (case kind of Node_Output _ \<Rightarrow> True | _ \<Rightarrow> False)"

definition is_input_node :: "orchestration_node_kind \<Rightarrow> bool" where
  "is_input_node kind \<longleftrightarrow> (case kind of Node_Input _ \<Rightarrow> True | _ \<Rightarrow> False)"

record orchestration_node =
  on_id :: node_id
  on_name :: string
  on_kind :: orchestration_node_kind
  on_input_bindings :: "input_binding list"
  on_output_schema :: "schema_reference option"
  on_retry :: retry_policy
  on_timeout_ms :: "u64 option"
  on_metadata :: json

record orchestration_definition =
  od_schema_version :: u32
  od_id :: definition_id
  od_revision :: u64
  od_name :: string
  od_description :: "string option"
  od_status :: definition_status
  od_input_schema :: "schema_reference option"
  od_output_contract :: output_contract
  od_nodes :: "orchestration_node list"
  od_edges :: "orchestration_edge list"
  od_policies :: orchestration_policies
  od_metadata :: json

section \<open>Questions about a configuration\<close>

fun binding_node :: "output_binding \<Rightarrow> node_id option" where
  "binding_node (RunInput _) = None"
| "binding_node (NodeOutput node _) = Some node"

definition revise_target :: "approval_node_config \<Rightarrow> node_id option" where
  "revise_target config = or_opt (apc_revise_target config) (binding_node (apc_subject config))"

fun context_includes :: "context_access \<Rightarrow> node_id \<Rightarrow> bool" where
  "context_includes Own step = False"
| "context_includes All_Steps step = True"
| "context_includes (Steps steps) step = (step \<in> set steps)"

definition is_own :: "context_access \<Rightarrow> bool" where
  "is_own access \<longleftrightarrow> access = Own"

fun check_id :: "verification_check \<Rightarrow> string" where
  "check_id (RequirementsSatisfied _ _) = ''requirements_satisfied''"
| "check_id Check_Schema = ''schema''"
| "check_id (RequiredStatus pointer _) = ''required_status:'' @ pointer"
| "check_id (ArtifactExists pointer) = ''artifact_exists:'' @ pointer"
| "check_id (ArtifactsResolvable pointer) = ''artifacts_resolvable:'' @ pointer"
| "check_id (Criteria pointer _ _ _ _) = ''criteria:'' @ pointer"

definition queue_profiles :: "task_queue_config \<Rightarrow> profile_ref list" where
  "queue_profiles queue =
     tq_review_profile queue #
     (case tq_task_planner queue of None \<Rightarrow> [] | Some planner \<Rightarrow> [tpc_profile planner])"

text \<open>The first segment of the plan pointer: the text between its leading slash and the next.\<close>

definition plan_binding :: "task_queue_config \<Rightarrow> string option" where
  "plan_binding queue =
     (case tq_plan_pointer queue of
        [] \<Rightarrow> None
      | first # rest \<Rightarrow>
          if first \<noteq> CHR ''/'' then None
          else (let segment = takeWhile (\<lambda>c. c \<noteq> CHR ''/'') rest
                in if segment = [] then None else Some segment))"

definition binding_named :: "string \<Rightarrow> orchestration_node \<Rightarrow> input_binding option" where
  "binding_named target node = List.find (\<lambda>b. ib_target b = target) (on_input_bindings node)"

definition task_plan_source :: "orchestration_node \<Rightarrow> node_id option" where
  "task_plan_source node =
     (case on_kind node of
        Node_Agent config \<Rightarrow>
          Option.bind (anc_task_queue config) (\<lambda>queue.
            Option.bind (plan_binding queue) (\<lambda>target.
              Option.bind (binding_named target node) (\<lambda>b. binding_node (ib_source b))))
      | _ \<Rightarrow> None)"

section \<open>The flow of a single step (subflow\_step.rs)\<close>

definition plain_node :: "node_id \<Rightarrow> string \<Rightarrow> orchestration_node_kind \<Rightarrow> orchestration_node" where
  "plain_node node_id name kind =
     \<lparr>on_id = node_id, on_name = name, on_kind = kind, on_input_bindings = [],
      on_output_schema = None, on_retry = default_retry_policy, on_timeout_ms = None,
      on_metadata = JNull\<rparr>"

definition named_edge :: "edge_id \<Rightarrow> node_id \<Rightarrow> node_id \<Rightarrow> orchestration_edge" where
  "named_edge edge_id source target =
     \<lparr>oe_id = edge_id, oe_source = source, oe_target = target, oe_condition = OnSuccess,
      oe_metadata = JNull\<rparr>"

definition step_success_edge :: "node_id \<Rightarrow> node_id \<Rightarrow> orchestration_edge" where
  "step_success_edge source target = named_edge (source @ ''-'' @ target) source target"

definition run_input_binding :: "string \<Rightarrow> input_binding" where
  "run_input_binding name = \<lparr>ib_target = name, ib_source = RunInput (''/'' @ name)\<rparr>"

definition default_input_node :: orchestration_node where
  "default_input_node = plain_node ''input'' ''Input'' (Node_Input \<lparr>inc_defaults = []\<rparr>)"

definition step_output_node :: orchestration_node where
  "step_output_node =
     plain_node ''output'' ''Output''
       (Node_Output \<lparr>onc_source = NodeOutput ''step'' [], onc_strict = False\<rparr>)"

definition step_agent_node :: "subflow_target \<Rightarrow> string list \<Rightarrow> orchestration_node option" where
  "step_agent_node target inputs =
     (case target of
        Flow _ _ \<Rightarrow> None
      | Step instructions profile tools model \<Rightarrow>
          let config =
            \<lparr>anc_instructions = instructions, anc_task_queue = None, anc_tools = tools,
             anc_context_mode = IsolatedChild, anc_model = model,
             anc_structured_output = SO_Text, anc_profile = profile, anc_context_access = Own\<rparr>
          in Some ((plain_node ''step'' ''Step'' (Node_Agent config))
               \<lparr>on_input_bindings := map run_input_binding inputs,
                on_output_schema := Some (Inline ''step'' (type_schema ''string''))\<rparr>))"

definition step_definition ::
    "subflow_target \<Rightarrow> node_id \<Rightarrow> string list \<Rightarrow> orchestration_definition option" where
  "step_definition target node inputs =
     map_option (\<lambda>agent_node.
       \<lparr>od_schema_version = ORCHESTRATION_SCHEMA_VERSION,
        od_id = ''subflow.step.'' @ node,
        od_revision = 1,
        od_name = ''Step '' @ node,
        od_description = None,
        od_status = Published,
        od_input_schema = None,
        od_output_contract = default_output_contract,
        od_nodes = [default_input_node, agent_node, step_output_node],
        od_edges = [step_success_edge ''input'' ''step'', step_success_edge ''step'' ''output''],
        od_policies = default_policies,
        od_metadata = JNull\<rparr>)
     (step_agent_node target inputs)"

section \<open>Task plans (task\_plan.rs)\<close>

text \<open>
  JSON objects are listed in key order, the iteration order of \<open>serde_json::Map\<close>. \<open>json_field\<close>
  is \<open>Value::get\<close> with a string key, \<open>None\<close> on anything but an object; indexing with a
  missing key gives \<open>Null\<close>.
\<close>

definition json_field :: "json \<Rightarrow> string \<Rightarrow> json option" where
  "json_field v key = (case v of JObject entries \<Rightarrow> map_of entries key | _ \<Rightarrow> None)"

definition json_index :: "json \<Rightarrow> string \<Rightarrow> json" where
  "json_index v key = unwrap_or JNull (json_field v key)"

definition json_array :: "json \<Rightarrow> json list option" where
  "json_array v = (case v of JArray items \<Rightarrow> Some items | _ \<Rightarrow> None)"

definition TASK_PLAN_SCHEMA_ID :: string where
  "TASK_PLAN_SCHEMA_ID = ''rusty.task_plan''"

definition TASK_PLAN_SCHEMA_REVISION :: u64 where
  "TASK_PLAN_SCHEMA_REVISION = 1"

definition is_task_plan_schema :: "schema_reference \<Rightarrow> bool" where
  "is_task_plan_schema reference \<longleftrightarrow>
     (case reference of
        Schema_Registry schema_id _ \<Rightarrow> schema_id = TASK_PLAN_SCHEMA_ID
      | Inline _ schema \<Rightarrow>
          (let properties = json_index schema ''properties''
           in json_field properties ''requirements'' \<noteq> None \<and> json_field properties ''tasks'' \<noteq> None))"

definition nonempty_text_schema :: json where
  "nonempty_text_schema = json_object [(''type'', JString ''string''), (''minLength'', json_nat 1)]"

definition task_plan_criterion_schema :: json where
  "task_plan_criterion_schema =
     json_object
       [(''type'', JString ''object''),
        (''additionalProperties'', JBool False),
        (''required'', json_strings [''id'', ''text'']),
        (''properties'', json_object
          [(''id'', type_schema ''string''), (''text'', nonempty_text_schema)])]"

definition task_plan_requirement_schema :: json where
  "task_plan_requirement_schema =
     json_object
       [(''type'', JString ''object''),
        (''additionalProperties'', JBool False),
        (''required'', json_strings [''id'', ''text'', ''criteria'']),
        (''properties'', json_object
          [(''id'', type_schema ''string''),
           (''text'', nonempty_text_schema),
           (''criteria'', json_object
             [(''type'', JString ''array''),
              (''minItems'', json_nat 1),
              (''description'', JString ''Observable acceptance criteria''),
              (''items'', task_plan_criterion_schema)])])]"

definition task_plan_task_schema :: json where
  "task_plan_task_schema =
     (let ids = json_object [(''type'', JString ''array''), (''items'', type_schema ''string'')]
      in json_object
       [(''type'', JString ''object''),
        (''additionalProperties'', JBool False),
        (''required'', json_strings
          [''id'', ''instructions'', ''requirement_ids'', ''criterion_ids'', ''depends_on'']),
        (''properties'', json_object
          [(''id'', type_schema ''string''),
           (''instructions'', nonempty_text_schema),
           (''requirement_ids'', ids),
           (''criterion_ids'', ids),
           (''depends_on'', ids),
           (''flow'', json_object
             [(''type'', JString ''string''),
              (''description'', JString
                ''Optional: the name of a flow to run for this task instead of building it directly'')])])])"

definition task_plan_schema :: json where
  "task_plan_schema =
     json_object
       [(''type'', JString ''object''),
        (''additionalProperties'', JBool False),
        (''required'', json_strings [''status'', ''summary'', ''requirements'', ''tasks'']),
        (''properties'', json_object
          [(''status'', json_object
             [(''type'', JString ''string''),
              (''enum'', json_strings [''ready'']),
              (''description'', JString ''ready once the plan can be executed'')]),
           (''summary'', json_object
             [(''type'', JString ''string''),
              (''minLength'', json_nat 1),
              (''description'', JString
                ''The plan in a few sentences, plus follow-ups only someone outside the workspace can do'')]),
           (''requirements'', json_object
             [(''type'', JString ''array''),
              (''minItems'', json_nat 1),
              (''items'', task_plan_requirement_schema)]),
           (''tasks'', json_object
             [(''type'', JString ''array''),
              (''minItems'', json_nat 1),
              (''maxItems'', json_nat 128),
              (''description'', JString ''Ordered tasks; each changes the workspace''),
              (''items'', task_plan_task_schema)])])]"

section \<open>The built-in workflow (default.rs)\<close>

definition request_schema :: schema_reference where
  "request_schema = Inline ''orchestration_input''
     (json_object
       [(''type'', JString ''object''),
        (''additionalProperties'', JBool False),
        (''required'', json_strings [''request'']),
        (''properties'', json_object
          [(''request'', nonempty_text_schema),
           (''attachments'', json_object
             [(''type'', JString ''array''), (''default'', JArray [])])])])"

definition execution_report_schema :: json where
  "execution_report_schema =
     json_object
       [(''type'', JString ''object''),
        (''additionalProperties'', JBool False),
        (''required'', json_strings [''summary'', ''status'', ''artifacts'', ''claimsToVerify'']),
        (''properties'', json_object
          [(''summary'', type_schema ''string''),
           (''status'', json_object
             [(''enum'', json_strings [''completed'', ''blocked'', ''failed''])]),
           (''artifacts'', json_object
             [(''type'', JString ''array''),
              (''items'', json_object
                [(''type'', JString ''object''),
                 (''additionalProperties'', JBool False),
                 (''required'', json_strings [''kind'', ''reference'']),
                 (''properties'', json_object
                   [(''kind'', type_schema ''string''), (''reference'', type_schema ''string'')])])]),
           (''claimsToVerify'', json_object
             [(''type'', JString ''array''), (''items'', type_schema ''string'')])])]"

definition report_schema_reference :: schema_reference where
  "report_schema_reference = Inline ''execution_report'' execution_report_schema"

definition execute_output :: output_binding where
  "execute_output = NodeOutput ''execute'' []"

definition execute_node :: orchestration_node where
  "execute_node =
     (plain_node ''execute'' ''Execute''
       (Node_Agent
         \<lparr>anc_instructions = ''Complete the user'' @ [CHR 0x27] @ ''s request and return the execution report.'',
          anc_task_queue = None, anc_tools = Scope_Inherit, anc_context_mode = IsolatedChild,
          anc_model = None, anc_structured_output = SO_Require, anc_profile = None,
          anc_context_access = Own\<rparr>))
     \<lparr>on_input_bindings := [\<lparr>ib_target = ''request'', ib_source = NodeOutput ''input'' ''/request''\<rparr>],
      on_output_schema := Some report_schema_reference,
      on_retry := \<lparr>rp_max_attempts = 2,
        rp_retry_on =
          [BackendRateLimited, BackendTimeout, InvalidStructuredOutput, VerificationFailed]\<rparr>\<rparr>"

definition verify_node :: orchestration_node where
  "verify_node =
     (plain_node ''verify'' ''Verify''
       (Node_Verify
         \<lparr>vnc_checks =
            [Check_Schema,
             RequiredStatus ''/report/status'' ''completed'',
             ArtifactsResolvable ''/report/artifacts''],
          vnc_retry_target = Some ''execute''\<rparr>))
     \<lparr>on_input_bindings := [\<lparr>ib_target = ''report'', ib_source = execute_output\<rparr>]\<rparr>"

definition output_node :: orchestration_node where
  "output_node =
     plain_node ''output'' ''Output''
       (Node_Output \<lparr>onc_source = execute_output, onc_strict = True\<rparr>)"

text \<open>The description's arrows are the UTF-8 bytes of U+2192.\<close>

definition default_orchestration_definition :: orchestration_definition where
  "default_orchestration_definition =
     (let arrow = [CHR '' '', CHR 0xE2, CHR 0x86, CHR 0x92, CHR '' '']
      in \<lparr>od_schema_version = ORCHESTRATION_SCHEMA_VERSION,
        od_id = ''rusty.default'',
        od_revision = 1,
        od_name = ''Default orchestration'',
        od_description =
          Some (''Input'' @ arrow @ ''Agent'' @ arrow @ ''Verify'' @ arrow @ ''Output''),
        od_status = Published,
        od_input_schema = Some request_schema,
        od_output_contract =
          \<lparr>oc_schema = report_schema_reference, oc_source = Some execute_output, oc_strict = True\<rparr>,
        od_nodes = [default_input_node, execute_node, verify_node, output_node],
        od_edges =
          [named_edge ''input-execute'' ''input'' ''execute'',
           named_edge ''execute-verify'' ''execute'' ''verify'',
           named_edge ''verify-output'' ''verify'' ''output''],
        od_policies = default_policies,
        od_metadata = JNull\<rparr>)"

end
