(* ===== verification/Workflow_Graph.thy ===== *)
theory Workflow_Graph
  imports Workflow_Definition
begin

text \<open>
  The graph algorithms of the workflow compiler (\<open>workflow-core/src/compiler/graph.rs\<close>):
  ordering by Kahn's algorithm and the breadth-first closures upstream and downstream. They
  are proved against the edge relation: a traversal computes its transitive closure, and all
  nodes are ranked exactly when it is acyclic, every edge then pointing to a higher rank.
\<close>

type_synonym nodes = "(node_id, orchestration_node) btree_map"
type_synonym edges = "(node_id, orchestration_edge list) btree_map"

definition edges_of :: "edges \<Rightarrow> node_id \<Rightarrow> orchestration_edge list" where
  "edges_of outgoing node = unwrap_or [] (map_of outgoing node)"

definition all_edges :: "edges \<Rightarrow> orchestration_edge list" where
  "all_edges outgoing = concat (map snd outgoing)"

section \<open>Kahn's algorithm\<close>

definition count_edge ::
    "orchestration_edge \<Rightarrow> (node_id, nat) btree_map \<Rightarrow> (node_id, nat) btree_map" where
  "count_edge edge degree =
     btree_insert (oe_target edge) (unwrap_or 0 (map_of degree (oe_target edge)) + 1) degree"

definition indegrees :: "nodes \<Rightarrow> edges \<Rightarrow> (node_id, nat) btree_map" where
  "indegrees nodes outgoing =
     fold count_edge (all_edges outgoing) (map (\<lambda>(node, _). (node, 0)) nodes)"

text \<open>
  Following the edges of a ranked node. The decrement \<open>*degree -= 1\<close> would overflow on zero,
  where this definition stays at zero: \<open>relax_safe\<close> says that it never meets a zero, and
  \<open>kahn_never_underflows\<close> that it holds throughout.
\<close>

fun relax_edges ::
    "orchestration_edge list \<Rightarrow> node_id list \<Rightarrow> (node_id, nat) btree_map
      \<Rightarrow> node_id list \<times> (node_id, nat) btree_map" where
  "relax_edges [] queue degree = (queue, degree)"
| "relax_edges (edge # rest) queue degree =
     (case map_of degree (oe_target edge) of
        None \<Rightarrow> relax_edges rest queue degree
      | Some d \<Rightarrow>
          relax_edges rest (if d = 1 then queue @ [oe_target edge] else queue)
            (AList.update (oe_target edge) (d - 1) degree))"

fun relax_safe :: "orchestration_edge list \<Rightarrow> (node_id, nat) btree_map \<Rightarrow> bool" where
  "relax_safe [] degree = True"
| "relax_safe (edge # rest) degree =
     (case map_of degree (oe_target edge) of
        None \<Rightarrow> relax_safe rest degree
      | Some d \<Rightarrow> 1 \<le> d \<and> relax_safe rest (AList.update (oe_target edge) (d - 1) degree))"

lemma sum_list_update_le:
  "map_of m k = Some d \<Longrightarrow>
     sum_list (map snd (AList.update k (d - 1) m)) + (if d = 0 then 0 else 1) = sum_list (map snd m)"
  for m :: "('k \<times> nat) list"
  by (induction m) (auto split: if_splits)

lemma relax_edges_measure:
  "relax_edges es queue degree = (queue', degree') \<Longrightarrow>
     length queue' + sum_list (map snd degree') \<le> length queue + sum_list (map snd degree)"
proof (induction es queue degree rule: relax_edges.induct)
  case (2 edge rest queue degree)
  show ?case
  proof (cases "map_of degree (oe_target edge)")
    case None
    with 2 show ?thesis by simp
  next
    case (Some d)
    show ?thesis
      using "2.IH"(2) [OF Some] "2.prems" Some sum_list_update_le [OF Some]
      by (cases d) (auto split: if_splits)
  qed
qed simp

function kahn_loop ::
    "edges \<Rightarrow> node_id list \<Rightarrow> (node_id, nat) btree_map \<Rightarrow> (node_id, nat) btree_map
      \<Rightarrow> (node_id, nat) btree_map" where
  "kahn_loop outgoing [] degree ranks = ranks"
| "kahn_loop outgoing (node # queue) degree ranks =
     (let (queue', degree') = relax_edges (edges_of outgoing node) queue degree
      in kahn_loop outgoing queue' degree' (btree_insert node (length ranks) ranks))"
  by pat_completeness auto
termination
  by (relation "measure (\<lambda>(_, queue, degree, _). length queue + sum_list (map snd degree))")
     (auto dest!: relax_edges_measure [OF sym])

declare kahn_loop.simps [simp del]

definition topological_ranks :: "nodes \<Rightarrow> edges \<Rightarrow> (node_id, nat) btree_map" where
  "topological_ranks nodes outgoing =
     (let degree = indegrees nodes outgoing
      in kahn_loop outgoing (map fst (filter (\<lambda>(_, d). d = 0) degree)) degree [])"

section \<open>Breadth-first closures\<close>

fun visit :: "node_id list \<Rightarrow> node_id list \<Rightarrow> node_id list \<Rightarrow> node_id list \<times> node_id list" where
  "visit [] seen queue = (seen, queue)"
| "visit (node # rest) seen queue =
     (if node \<in> set seen then visit rest seen queue
      else visit rest (insort node seen) (queue @ [node]))"

definition next_nodes :: "(node_id, node_id list) btree_map \<Rightarrow> node_id \<Rightarrow> node_id list" where
  "next_nodes adjacency node = unwrap_or [] (map_of adjacency node)"

definition all_next :: "(node_id, node_id list) btree_map \<Rightarrow> node_id set" where
  "all_next adjacency = set (concat (map snd adjacency))"

lemma visit_seen:
  "visit ns seen queue = (seen', queue') \<Longrightarrow>
     set seen' = set seen \<union> set ns
   \<and> (\<exists>fresh. queue' = queue @ fresh \<and> distinct fresh \<and> set fresh = set ns - set seen)"
proof (induction ns seen queue rule: visit.induct)
  case (2 node rest seen queue)
  then show ?case
    by (cases "node \<in> set seen") (force simp: set_insort_key)+
qed simp

lemma next_nodes_subset: "set (next_nodes adjacency node) \<subseteq> all_next adjacency"
  by (cases "map_of adjacency node") (auto simp: next_nodes_def all_next_def dest!: map_of_SomeD)

lemma finite_all_next [simp]: "finite (all_next adjacency)"
  by (simp add: all_next_def)

lemma visit_measure:
  assumes "visit ns seen queue = (seen', queue')" and "set ns \<subseteq> S" and "finite S"
  shows "card (S - set seen') + length queue' \<le> card (S - set seen) + length queue"
proof -
  obtain fresh where fresh: "queue' = queue @ fresh" "distinct fresh" "set fresh = set ns - set seen"
    and seen': "set seen' = set seen \<union> set ns"
    using visit_seen [OF assms(1)] by auto
  have "S - set seen = (S - set seen') \<union> set fresh"
    using fresh(3) seen' assms(2) by auto
  moreover have "(S - set seen') \<inter> set fresh = {}" using fresh(3) seen' by auto
  ultimately have "card (S - set seen) = card (S - set seen') + length fresh"
    using assms(3) fresh(2) by (metis List.finite_set card_Un_disjoint distinct_card finite_Diff)
  then show ?thesis using fresh(1) by simp
qed

function traverse ::
    "(node_id, node_id list) btree_map \<Rightarrow> node_id list \<Rightarrow> node_id list \<Rightarrow> node_id list" where
  "traverse adjacency seen [] = seen"
| "traverse adjacency seen (current # queue) =
     (let (seen', queue') = visit (next_nodes adjacency current) seen queue
      in traverse adjacency seen' queue')"
  by pat_completeness auto
termination
proof (relation "measure (\<lambda>(adjacency, seen, queue).
    card (all_next adjacency - set seen) + length queue)", goal_cases)
  case (2 adjacency seen current queue x seen' queue')
  then have "visit (next_nodes adjacency current) seen queue = (seen', queue')" by simp
  from visit_measure [OF this next_nodes_subset finite_all_next] show ?case by simp
qed simp

declare traverse.simps [simp del]

definition descendants :: "node_id \<Rightarrow> edges \<Rightarrow> node_id list" where
  "descendants node outgoing =
     traverse (map (\<lambda>(source, es). (source, map oe_target es)) outgoing) [] [node]"

definition descendants_or_self :: "node_id \<Rightarrow> edges \<Rightarrow> node_id list" where
  "descendants_or_self node outgoing = insort_insert node (descendants node outgoing)"

definition push_incoming ::
    "orchestration_edge \<Rightarrow> (node_id, node_id list) btree_map \<Rightarrow> (node_id, node_id list) btree_map" where
  "push_incoming edge incoming =
     btree_insert (oe_target edge)
       (unwrap_or [] (map_of incoming (oe_target edge)) @ [oe_source edge]) incoming"

definition ancestors :: "node_id \<Rightarrow> edges \<Rightarrow> node_id list" where
  "ancestors node outgoing = traverse (fold push_incoming (all_edges outgoing) []) [] [node]"

section \<open>The edge relation\<close>

definition edge_rel :: "edges \<Rightarrow> (node_id \<times> node_id) set" where
  "edge_rel outgoing = {(u, v). v \<in> oe_target ` set (edges_of outgoing u)}"

definition next_rel :: "(node_id, node_id list) btree_map \<Rightarrow> (node_id \<times> node_id) set" where
  "next_rel adjacency = {(u, v). v \<in> set (next_nodes adjacency u)}"

text \<open>The shape of the edge maps the compiler builds for a set of nodes.\<close>

definition edges_wf :: "node_id set \<Rightarrow> edges \<Rightarrow> bool" where
  "edges_wf ids outgoing \<longleftrightarrow>
     hm_wf outgoing \<and> fst ` set outgoing = ids
   \<and> (\<forall>u es. map_of outgoing u = Some es \<longrightarrow>
        (\<forall>e \<in> set es. oe_source e = u \<and> oe_target e \<in> ids))"

text \<open>
  What a traversal returns is closed under the successors of everything it has queued or
  seen, and holds nothing else.
\<close>

lemma traverse_closed:
  assumes "\<And>u. u \<in> set seen - set queue \<Longrightarrow> next_rel adj `` {u} \<subseteq> set seen"
  shows "set seen \<subseteq> set (traverse adj seen queue)
    \<and> (\<forall>u \<in> set (traverse adj seen queue) \<union> set queue.
         next_rel adj `` {u} \<subseteq> set (traverse adj seen queue))
    \<and> set (traverse adj seen queue) \<subseteq> set seen \<union> (next_rel adj)\<^sup>+ `` set queue"
  using assms
proof (induction adj seen queue rule: traverse.induct)
  case (1 adj seen)
  then show ?case by (simp add: traverse.simps)
next
  case (2 adj seen current queue)
  obtain seen' queue' where v: "visit (next_nodes adj current) seen queue = (seen', queue')"
    by fastforce
  obtain fresh where fresh: "queue' = queue @ fresh" "set fresh = set (next_nodes adj current) - set seen"
    and seen': "set seen' = set seen \<union> set (next_nodes adj current)"
    using visit_seen [OF v] by auto
  have succ: "next_rel adj `` {current} = set (next_nodes adj current)"
    by (auto simp: next_rel_def)
  have *: "next_rel adj `` {u} \<subseteq> set seen'" if "u \<in> set seen' - set queue'" for u
    using that "2.prems" [of u] succ fresh seen' by (cases "u = current") auto
  have eq: "traverse adj seen (current # queue) = traverse adj seen' queue'"
    by (simp add: traverse.simps v)
  let ?R = "set (traverse adj seen' queue')"
  have IH: "set seen' \<subseteq> ?R" "\<And>u. u \<in> ?R \<union> set queue' \<Longrightarrow> next_rel adj `` {u} \<subseteq> ?R"
    "?R \<subseteq> set seen' \<union> (next_rel adj)\<^sup>+ `` set queue'"
    using "2.IH" [OF v [symmetric] refl *] by blast+
  have "?R \<subseteq> set seen \<union> (next_rel adj)\<^sup>+ `` set (current # queue)"
  proof
    fix x assume "x \<in> ?R"
    with IH(3) consider "x \<in> set seen'" | u where "u \<in> set queue'" "(u, x) \<in> (next_rel adj)\<^sup>+" by blast
    then show "x \<in> set seen \<union> (next_rel adj)\<^sup>+ `` set (current # queue)"
    proof cases
      case 1
      then show ?thesis using seen' succ by (auto intro: r_into_trancl)
    next
      case 2
      then have "u \<in> set queue \<or> (current, u) \<in> next_rel adj" using fresh succ by auto
      then show ?thesis using 2 by (auto intro: trancl_into_trancl2)
    qed
  qed
  moreover have "next_rel adj `` {u} \<subseteq> ?R" if "u \<in> ?R \<union> set (current # queue)" for u
    using that IH succ seen' fresh by (cases "u = current") auto
  ultimately show ?case using IH(1) seen' unfolding eq by blast
qed

lemma traverse_trancl: "set (traverse adj [] [node]) = (next_rel adj)\<^sup>+ `` {node}"
proof -
  let ?R = "set (traverse adj [] [node])"
  have R: "\<And>u. u \<in> ?R \<union> {node} \<Longrightarrow> next_rel adj `` {u} \<subseteq> ?R" "?R \<subseteq> (next_rel adj)\<^sup>+ `` {node}"
    using traverse_closed [of "[]" "[node]" adj] by auto
  have "x \<in> ?R" if "(node, x) \<in> (next_rel adj)\<^sup>+" for x
    using that by (induction rule: trancl_induct) (use R(1) in blast)+
  with R(2) show ?thesis by auto
qed

lemma next_rel_targets:
  "next_rel (map (\<lambda>(source, es). (source, map oe_target es)) outgoing) = edge_rel outgoing"
proof -
  have "map_of (map (\<lambda>(source, es). (source, map oe_target es)) outgoing) u
      = map_option (map oe_target) (map_of outgoing u)" for u
    by (induction outgoing) auto
  then show ?thesis
    by (auto simp: next_rel_def edge_rel_def next_nodes_def edges_of_def unwrap_or_def
        split: option.splits)
qed

lemma set_descendants: "set (descendants node outgoing) = (edge_rel outgoing)\<^sup>+ `` {node}"
  by (simp add: descendants_def traverse_trancl next_rel_targets)

lemma set_descendants_or_self:
  "set (descendants_or_self node outgoing) = (edge_rel outgoing)\<^sup>* `` {node}"
  by (auto simp: descendants_or_self_def set_insort_insert set_descendants
      dest: trancl_into_rtrancl rtranclD)

lemma map_of_push_incoming:
  "unwrap_or [] (map_of (fold push_incoming es incoming) v)
     = unwrap_or [] (map_of incoming v) @ map oe_source (filter (\<lambda>e. oe_target e = v) es)"
  by (induction es arbitrary: incoming) (auto simp: push_incoming_def)

lemma edge_rel_wf_iff:
  assumes "edges_wf ids outgoing"
  shows "(u, v) \<in> edge_rel outgoing
    \<longleftrightarrow> (\<exists>e \<in> set (all_edges outgoing). oe_source e = u \<and> oe_target e = v)"
proof
  assume "(u, v) \<in> edge_rel outgoing"
  then obtain e es where *: "map_of outgoing u = Some es" "e \<in> set es" "oe_target e = v"
    by (cases "map_of outgoing u") (auto simp: edge_rel_def edges_of_def)
  then have "oe_source e = u" using assms unfolding edges_wf_def by blast
  moreover have "e \<in> set (all_edges outgoing)"
    using map_of_SomeD [OF *(1)] *(2) by (force simp: all_edges_def)
  ultimately show "\<exists>e \<in> set (all_edges outgoing). oe_source e = u \<and> oe_target e = v"
    using *(3) by blast
next
  assume "\<exists>e \<in> set (all_edges outgoing). oe_source e = u \<and> oe_target e = v"
  then obtain w es e where *: "(w, es) \<in> set outgoing" "e \<in> set es" "oe_source e = u" "oe_target e = v"
    by (auto simp: all_edges_def)
  have "map_of outgoing w = Some es"
    using assms *(1) by (auto simp: edges_wf_def intro: map_of_is_SomeI)
  moreover from this have "u = w" using assms * unfolding edges_wf_def by blast
  ultimately show "(u, v) \<in> edge_rel outgoing" using * by (force simp: edge_rel_def edges_of_def)
qed

lemma set_ancestors:
  assumes "edges_wf ids outgoing"
  shows "set (ancestors node outgoing) = {u. (u, node) \<in> (edge_rel outgoing)\<^sup>+}"
proof -
  have "next_rel (fold push_incoming (all_edges outgoing) []) = (edge_rel outgoing)\<inverse>"
    unfolding set_eq_iff converse_iff split_paired_All edge_rel_wf_iff [OF assms]
    by (auto simp: next_rel_def next_nodes_def map_of_push_incoming)
  then show ?thesis
    by (simp add: ancestors_def traverse_trancl trancl_converse Image_def)
qed

section \<open>Correctness of Kahn's algorithm\<close>

abbreviation targets :: "edges \<Rightarrow> node_id \<Rightarrow> node_id list" where
  "targets outgoing u \<equiv> map oe_target (edges_of outgoing u)"

text \<open>
  The edges into \<open>v\<close> that leave the nodes \<open>S\<close>. While the algorithm runs, the degree of a node
  is the number of edges into it from the nodes not ranked yet.
\<close>

definition edges_into :: "edges \<Rightarrow> node_id set \<Rightarrow> node_id \<Rightarrow> nat" where
  "edges_into outgoing S v = (\<Sum>u\<in>S. count_list (targets outgoing u) v)"

lemma relax_edges_spec:
  assumes "relax_edges es queue degree = (queue', degree')"
    and "\<And>v. map_of degree v = map_option (\<lambda>r. r + count_list (map oe_target es) v) (left v)"
  shows "map_of degree' = left \<and> relax_safe es degree
    \<and> (\<exists>fresh. queue' = queue @ fresh \<and> distinct fresh
         \<and> set fresh = {v. left v = Some 0 \<and> v \<in> oe_target ` set es})"
  using assms
proof (induction es queue degree rule: relax_edges.induct)
  case (1 queue degree)
  then show ?case by (auto simp: fun_eq_iff option.map_ident)
next
  case (2 edge rest queue degree)
  let ?t = "oe_target edge"
  show ?case
  proof (cases "left ?t")
    case None
    then have lookup: "map_of degree ?t = None" using "2.prems"(2) [of ?t] by simp
    have "map_of degree v = map_option (\<lambda>r. r + count_list (map oe_target rest) v) (left v)" for v
      using "2.prems"(2) [of v] None by (cases "v = ?t") auto
    then show ?thesis
      using "2.IH"(1) [OF lookup] "2.prems"(1) lookup None by auto
  next
    case (Some r)
    let ?d = "r + Suc (count_list (map oe_target rest) ?t)"
    let ?degree = "AList.update ?t (?d - 1) degree"
    have lookup: "map_of degree ?t = Some ?d" using "2.prems"(2) [of ?t] Some by simp
    have step: "map_of ?degree v = map_option (\<lambda>r. r + count_list (map oe_target rest) v) (left v)" for v
      using "2.prems"(2) [of v] Some by (cases "v = ?t") (auto simp: update_conv')
    have run: "relax_edges rest (if ?d = 1 then queue @ [?t] else queue) ?degree = (queue', degree')"
      using "2.prems"(1) lookup by simp
    obtain fresh where IH: "map_of degree' = left" "relax_safe rest ?degree"
      "queue' = (if ?d = 1 then queue @ [?t] else queue) @ fresh" "distinct fresh"
      "set fresh = {v. left v = Some 0 \<and> v \<in> oe_target ` set rest}"
      using "2.IH"(2) [OF lookup run step] by auto
    let ?fresh = "(if ?d = 1 then [?t] else []) @ fresh"
    have "queue' = queue @ ?fresh" using IH(3) by simp
    moreover have "?d = 1 \<longleftrightarrow> r = 0 \<and> ?t \<notin> oe_target ` set rest"
      by (auto simp: count_list_0_iff)
    then have "distinct ?fresh"
      "set ?fresh = {v. left v = Some 0 \<and> v \<in> oe_target ` set (edge # rest)}"
      using IH(4,5) Some by (auto split: if_splits)
    ultimately show ?thesis using IH(1,2) lookup by auto
  qed
qed

record kahn_state =
  ks_queue :: "node_id list"
  ks_degree :: "(node_id, nat) btree_map"
  ks_ranks :: "(node_id, nat) btree_map"

definition kahn_inv :: "node_id set \<Rightarrow> edges \<Rightarrow> kahn_state \<Rightarrow> bool" where
  "kahn_inv ids outgoing k \<longleftrightarrow>
     (let ranked = fst ` set (ks_ranks k)
      in distinct (ks_queue k) \<and> set (ks_queue k) \<subseteq> ids \<and> ranked \<subseteq> ids
       \<and> set (ks_queue k) \<inter> ranked = {}
       \<and> hm_wf (ks_ranks k)
       \<and> map_of (ks_degree k)
           = (\<lambda>v. if v \<in> ids then Some (edges_into outgoing (ids - ranked) v) else None)
       \<and> (\<forall>v \<in> ids. edges_into outgoing (ids - ranked) v = 0 \<longleftrightarrow> v \<in> ranked \<union> set (ks_queue k))
       \<and> (\<forall>v r. map_of (ks_ranks k) v = Some r \<longrightarrow> r < length (ks_ranks k))
       \<and> (\<forall>(u, v) \<in> edge_rel outgoing. v \<in> ranked \<longrightarrow>
            (\<exists>i j. map_of (ks_ranks k) u = Some i \<and> map_of (ks_ranks k) v = Some j \<and> i < j)))"

definition kahn_next :: "edges \<Rightarrow> kahn_state \<Rightarrow> kahn_state" where
  "kahn_next outgoing k =
     (let (queue, degree) =
        relax_edges (edges_of outgoing (hd (ks_queue k))) (tl (ks_queue k)) (ks_degree k)
      in \<lparr>ks_queue = queue, ks_degree = degree,
          ks_ranks = btree_insert (hd (ks_queue k)) (length (ks_ranks k)) (ks_ranks k)\<rparr>)"

lemma length_btree_insert_fresh:
  "k \<notin> fst ` set m \<Longrightarrow> length (btree_insert k v m) = Suc (length m)"
  by (induction m) auto

lemma hm_wf_btree_insert_fresh:
  "hm_wf m \<Longrightarrow> k \<notin> fst ` set m \<Longrightarrow> hm_wf (btree_insert k v m)"
  by (induction m) (auto simp: set_keys_btree_insert)

lemma edges_into_remove:
  assumes "finite S" and "u \<in> S"
  shows "edges_into outgoing S v = count_list (targets outgoing u) v + edges_into outgoing (S - {u}) v"
  using assms by (simp add: edges_into_def sum.remove)

lemma edges_into_pos:
  assumes "finite S" and "u \<in> S" and "(u, v) \<in> edge_rel outgoing"
  shows "edges_into outgoing S v \<noteq> 0"
  using assms by (auto simp: edges_into_def edge_rel_def count_list_0_iff)

lemma kahn_relax:
  assumes inv: "kahn_inv ids outgoing k" and "finite ids" and queue: "ks_queue k = node # queue"
    and relax: "relax_edges (edges_of outgoing node) queue (ks_degree k) = (queue', degree')"
  shows "map_of degree' = (\<lambda>v. if v \<in> ids
      then Some (edges_into outgoing (ids - fst ` set (ks_ranks k) - {node}) v) else None)"
    and "relax_safe (edges_of outgoing node) (ks_degree k)"
    and "\<exists>fresh. queue' = queue @ fresh \<and> distinct fresh
      \<and> set fresh = {v \<in> ids. edges_into outgoing (ids - fst ` set (ks_ranks k) - {node}) v = 0
          \<and> (node, v) \<in> edge_rel outgoing}"
proof -
  let ?S = "ids - fst ` set (ks_ranks k)"
  let ?left = "\<lambda>v. if v \<in> ids then Some (edges_into outgoing (?S - {node}) v) else None"
  have "node \<in> ?S" using inv queue by (auto simp: kahn_inv_def Let_def)
  then have "map_of (ks_degree k) v = map_option (\<lambda>r. r + count_list (targets outgoing node) v) (?left v)" for v
    using inv edges_into_remove [of ?S node outgoing v] \<open>finite ids\<close>
    by (simp add: kahn_inv_def Let_def)
  note spec = relax_edges_spec [OF relax this]
  from spec show "map_of degree' = ?left" "relax_safe (edges_of outgoing node) (ks_degree k)" by simp_all
  have eq: "{v. ?left v = Some 0 \<and> v \<in> oe_target ` set (edges_of outgoing node)}
      = {v \<in> ids. edges_into outgoing (?S - {node}) v = 0 \<and> (node, v) \<in> edge_rel outgoing}"
    unfolding edge_rel_def by (auto split: if_splits)
  show "\<exists>fresh. queue' = queue @ fresh \<and> distinct fresh
      \<and> set fresh = {v \<in> ids. edges_into outgoing (?S - {node}) v = 0 \<and> (node, v) \<in> edge_rel outgoing}"
    by (rule spec [THEN conjunct2, THEN conjunct2, unfolded eq])
qed

lemma kahn_inv_next:
  assumes inv: "kahn_inv ids outgoing k" and fin: "finite ids" and wf: "edges_wf ids outgoing"
    and queue: "ks_queue k = node # queue"
  shows "kahn_inv ids outgoing (kahn_next outgoing k)"
proof -
  obtain queue' degree' where relax:
    "relax_edges (edges_of outgoing node) queue (ks_degree k) = (queue', degree')" by fastforce
  define ranked where "ranked = fst ` set (ks_ranks k)"
  define S where "S = ids - insert node ranked"
  have S_eq: "ids - ranked - {node} = S" "ids - ranked = insert node S"
    and node: "node \<in> ids" "node \<notin> ranked" "node \<notin> set queue"
    using inv queue by (auto simp: kahn_inv_def Let_def S_def ranked_def)
  note relaxed = kahn_relax [OF inv fin queue relax, folded ranked_def, unfolded S_eq(1)]
  obtain fresh where fresh: "queue' = queue @ fresh" "distinct fresh"
    "set fresh = {v \<in> ids. edges_into outgoing S v = 0 \<and> (node, v) \<in> edge_rel outgoing}"
    using relaxed(3) by (elim exE conjE)
  note degree' = relaxed(1)
  have zero: "edges_into outgoing (insert node S) v = 0 \<longleftrightarrow> v \<in> ranked \<or> v = node \<or> v \<in> set queue"
    if "v \<in> ids" for v
    using inv that queue S_eq(2) by (auto simp: kahn_inv_def Let_def ranked_def)
  have into: "edges_into outgoing (insert node S) v = 0
      \<longleftrightarrow> edges_into outgoing S v = 0 \<and> (node, v) \<notin> edge_rel outgoing" for v
    using fin by (auto simp: edges_into_def S_def edge_rel_def count_list_0_iff)
  have queue_ok: "set queue \<subseteq> ids" "distinct queue" "set queue \<inter> ranked = {}" "ranked \<subseteq> ids"
    using inv queue unfolding kahn_inv_def Let_def ranked_def by auto
  have old: "hm_wf (ks_ranks k)" "\<And>v r. map_of (ks_ranks k) v = Some r \<Longrightarrow> r < length (ks_ranks k)"
      "\<And>u v. (u, v) \<in> edge_rel outgoing \<Longrightarrow> v \<in> ranked \<Longrightarrow>
         \<exists>i j. map_of (ks_ranks k) u = Some i \<and> map_of (ks_ranks k) v = Some j \<and> i < j"
    using inv unfolding kahn_inv_def Let_def ranked_def by blast+
  have fresh_new: "set fresh \<inter> (insert node ranked \<union> set queue) = {}"
    using fresh(3) zero into by auto
  let ?ranks = "btree_insert node (length (ks_ranks k)) (ks_ranks k)"
  have lookup: "map_of (ks_ranks k) u = None \<longleftrightarrow> u \<notin> ranked" for u
    by (simp add: ranked_def map_of_eq_None_iff)
  have forward: "\<exists>i j. map_of ?ranks u = Some i \<and> map_of ?ranks v = Some j \<and> i < j"
    if e: "(u, v) \<in> edge_rel outgoing" and v: "v \<in> insert node ranked" for u v
  proof (cases "v = node")
    case True
    have u: "u \<in> ids" using wf e map_of_eq_None_iff [of outgoing u]
      by (auto simp: edges_wf_def edge_rel_def edges_of_def unwrap_or_def split: option.splits)
    have "u \<notin> insert node S"
      using edges_into_pos [OF _ _ e, of "insert node S"] zero [OF node(1)] True fin
      by (auto simp: S_def)
    then have "u \<in> ranked" "u \<noteq> node" using u by (auto simp: S_def)
    then obtain i where "map_of (ks_ranks k) u = Some i" "i < length (ks_ranks k)"
      using lookup old(2) by (metis not_None_eq)
    then show ?thesis using True \<open>u \<noteq> node\<close> by simp
  next
    case False
    then obtain i j where *: "map_of (ks_ranks k) u = Some i" "map_of (ks_ranks k) v = Some j" "i < j"
      using old(3) [OF e] v by auto
    then have "u \<noteq> node" using lookup [of u] node(2) by (cases "u = node") auto
    with * False show ?thesis by simp
  qed
  have next_eq: "kahn_next outgoing k = \<lparr>ks_queue = queue', ks_degree = degree', ks_ranks = ?ranks\<rparr>"
    by (simp add: kahn_next_def queue relax)
  have ranked': "fst ` set ?ranks = insert node ranked"
    by (simp add: set_keys_btree_insert ranked_def)
  have len: "length ?ranks = Suc (length (ks_ranks k))"
    using node(2) by (simp add: length_btree_insert_fresh ranked_def)
  have iff: "edges_into outgoing S v = 0 \<longleftrightarrow> v \<in> insert node ranked \<union> set queue'" if "v \<in> ids" for v
    using zero [OF that] into [of v] fresh that by auto
  have bound: "r < length ?ranks" if "map_of ?ranks v = Some r" for v r
    using that old(2) [of v r] len by (auto split: if_splits)
  show ?thesis
    unfolding kahn_inv_def Let_def next_eq kahn_state.simps ranked' S_def [symmetric]
  proof (intro conjI)
    show "distinct queue'" "set queue' \<subseteq> ids" "set queue' \<inter> insert node ranked = {}"
      using queue_ok node(3) fresh(1,2) fresh(3) fresh_new by auto
    show "hm_wf ?ranks"
      using hm_wf_btree_insert_fresh [OF old(1)] node(2) unfolding ranked_def by blast
    show "\<forall>v r. map_of ?ranks v = Some r \<longrightarrow> r < length ?ranks" using bound by blast
    show "\<forall>(u, v)\<in>edge_rel outgoing. v \<in> insert node ranked \<longrightarrow>
        (\<exists>i j. map_of ?ranks u = Some i \<and> map_of ?ranks v = Some j \<and> i < j)"
      using forward by blast
  qed (use node queue_ok degree' iff in simp_all)
qed

lemma kahn_loop_inv:
  assumes "kahn_inv ids outgoing \<lparr>ks_queue = queue, ks_degree = degree, ks_ranks = ranks\<rparr>"
    and "finite ids" and "edges_wf ids outgoing"
  shows "\<exists>degree'. kahn_inv ids outgoing
    \<lparr>ks_queue = [], ks_degree = degree', ks_ranks = kahn_loop outgoing queue degree ranks\<rparr>"
  using assms
proof (induction outgoing queue degree ranks rule: kahn_loop.induct)
  case (1 outgoing degree ranks)
  then show ?case by (auto simp: kahn_loop.simps)
next
  case (2 outgoing node queue degree ranks)
  let ?k = "\<lparr>ks_queue = node # queue, ks_degree = degree, ks_ranks = ranks\<rparr>"
  obtain queue' degree' where relax: "relax_edges (edges_of outgoing node) queue degree = (queue', degree')"
    by fastforce
  have "kahn_inv ids outgoing (kahn_next outgoing ?k)"
    by (rule kahn_inv_next [OF "2.prems"]) simp
  then have "kahn_inv ids outgoing
      \<lparr>ks_queue = queue', ks_degree = degree', ks_ranks = btree_insert node (length ranks) ranks\<rparr>"
    by (simp add: kahn_next_def relax)
  from "2.IH" [OF relax [symmetric] refl this "2.prems"(2,3)] show ?case
    by (simp add: kahn_loop.simps relax)
qed

text \<open>Throughout the loop, no degree is decremented below zero.\<close>

lemma kahn_never_underflows:
  assumes "kahn_inv ids outgoing k" and "finite ids" and "ks_queue k = node # queue"
  shows "relax_safe (edges_of outgoing node) (ks_degree k)"
proof -
  obtain queue' degree' where
    "relax_edges (edges_of outgoing node) queue (ks_degree k) = (queue', degree')" by fastforce
  from kahn_relax(2) [OF assms this] show ?thesis .
qed

lemma map_of_count_edges:
  assumes "oe_target ` set es \<subseteq> dom (map_of degree)"
  shows "map_of (fold count_edge es degree) v
    = map_option (\<lambda>d. d + count_list (map oe_target es) v) (map_of degree v)"
  using assms
proof (induction es arbitrary: degree)
  case Nil
  then show ?case by (simp add: option.map_ident)
next
  case (Cons e es)
  then obtain d where d: "map_of degree (oe_target e) = Some d" by auto
  have dom': "oe_target ` set es \<subseteq> dom (map_of (count_edge e degree))"
    using Cons.prems by (auto simp: count_edge_def)
  show ?case
    using Cons.IH [OF dom'] d by (auto simp: count_edge_def)
qed

lemma count_list_concat: "count_list (concat xss) v = sum_list (map (\<lambda>xs. count_list xs v) xss)"
  by (induction xss) auto

lemma edges_into_all:
  assumes "edges_wf ids outgoing"
  shows "count_list (map oe_target (all_edges outgoing)) v = edges_into outgoing ids v"
proof -
  have "count_list (map oe_target (all_edges outgoing)) v
      = (\<Sum>(u, es)\<leftarrow>outgoing. count_list (map oe_target es) v)"
    by (simp add: all_edges_def map_concat count_list_concat comp_def split_def)
  also have "\<dots> = (\<Sum>(u, es)\<leftarrow>outgoing. count_list (targets outgoing u) v)"
    using assms by (intro arg_cong [where f = sum_list] map_cong) (auto simp: edges_wf_def edges_of_def)
  also have "\<dots> = (\<Sum>u\<leftarrow>map fst outgoing. count_list (targets outgoing u) v)"
    by (simp add: comp_def split_def)
  also have "\<dots> = (\<Sum>u\<in>set (map fst outgoing). count_list (targets outgoing u) v)"
    using assms by (intro sum_list_distinct_conv_sum_set) (simp add: edges_wf_def)
  also have "\<dots> = edges_into outgoing ids v"
    using assms by (simp add: edges_into_def edges_wf_def)
  finally show ?thesis .
qed

lemma btree_wf_count_edges: "btree_wf degree \<Longrightarrow> btree_wf (fold count_edge es degree)"
  by (induction es arbitrary: degree) (auto simp: count_edge_def btree_wf_insert)

lemma kahn_inv_initial:
  fixes nodes :: nodes
  defines "ids \<equiv> fst ` set nodes"
  assumes "btree_wf nodes" and wf: "edges_wf ids outgoing"
  defines "degree \<equiv> indegrees nodes outgoing"
  shows "kahn_inv ids outgoing
    \<lparr>ks_queue = map fst (filter (\<lambda>(_, d). d = 0) degree), ks_degree = degree, ks_ranks = []\<rparr>"
proof -
  let ?zero = "map (\<lambda>(node, _). (node, 0 :: nat)) nodes"
  have zero: "map_of ?zero = (\<lambda>v. if v \<in> ids then Some 0 else None)"
    unfolding ids_def by (induction nodes) (auto simp: fun_eq_iff)
  have "e \<in> set (all_edges outgoing) \<Longrightarrow> oe_target e \<in> ids" for e
    using edge_rel_wf_iff [OF wf, of "oe_source e" "oe_target e"] wf
    by (auto simp: edge_rel_def edges_of_def unwrap_or_def edges_wf_def split: option.splits)
  then have "oe_target ` set (all_edges outgoing) \<subseteq> dom (map_of ?zero)"
    by (auto simp: zero split: if_splits)
  from map_of_count_edges [OF this]
  have degree: "map_of degree = (\<lambda>v. if v \<in> ids then Some (edges_into outgoing ids v) else None)"
    by (auto simp: degree_def indegrees_def zero edges_into_all [OF wf] fun_eq_iff)
  have "map fst ?zero = map fst nodes" by (simp add: split_def comp_def)
  then have "btree_wf ?zero" using assms(2) by (simp only:)
  then have dist: "hm_wf degree"
    unfolding degree_def indegrees_def by (intro btree_wf_distinct btree_wf_count_edges)
  have queue: "v \<in> set (map fst (filter (\<lambda>(_, d). d = 0) degree)) \<longleftrightarrow> v \<in> ids \<and> edges_into outgoing ids v = 0" for v
  proof -
    have "v \<in> set (map fst (filter (\<lambda>(_, d). d = 0) degree)) \<longleftrightarrow> map_of degree v = Some 0"
      using dist by (force simp: map_of_eq_Some_iff)
    then show ?thesis by (simp add: degree)
  qed
  have "distinct (map fst (filter (\<lambda>(_, d). d = 0) degree))"
    using dist by (rule distinct_map_filter)
  then show ?thesis
    unfolding kahn_inv_def Let_def kahn_state.simps
    using queue degree by auto
qed

text \<open>
  The ranking covers all nodes exactly when the graph has no cycle, and then every edge leads
  to a node of a higher rank.
\<close>

theorem topological_ranks_correct:
  fixes nodes :: nodes
  assumes "btree_wf nodes" and wf: "edges_wf (fst ` set nodes) outgoing"
  defines "ranks \<equiv> topological_ranks nodes outgoing"
  shows "length ranks = length nodes \<longleftrightarrow> acyclic (edge_rel outgoing)"
    and "length ranks = length nodes \<Longrightarrow> (u, v) \<in> edge_rel outgoing \<Longrightarrow>
      \<exists>i j. map_of ranks u = Some i \<and> map_of ranks v = Some j \<and> i < j"
    and "map_of ranks u = Some i \<Longrightarrow> i < length ranks"
    and "hm_wf ranks" and "fst ` set ranks \<subseteq> fst ` set nodes"
proof -
  define ids where "ids = fst ` set nodes"
  have "finite ids" by (simp add: ids_def)
  obtain degree where inv: "kahn_inv ids outgoing \<lparr>ks_queue = [], ks_degree = degree, ks_ranks = ranks\<rparr>"
    using kahn_loop_inv [OF kahn_inv_initial [OF assms(1) wf] _ wf]
    by (auto simp: ranks_def topological_ranks_def Let_def ids_def)
  define ranked where "ranked = fst ` set ranks"
  show hm: "hm_wf ranks" and sub: "fst ` set ranks \<subseteq> fst ` set nodes"
    using inv by (simp_all add: kahn_inv_def Let_def ids_def)
  have len: "length ranks = card ranked" "length nodes = card ids"
    using hm btree_wf_distinct [OF assms(1)]
    by (metis distinct_card length_map list.set_map ranked_def ids_def)+
  have all: "ranked = ids" if "length ranks = length nodes"
    using that len sub \<open>finite ids\<close> by (simp add: card_subset_eq ranked_def ids_def)
  have target: "v \<in> ids" "u \<in> ids" if "(u, v) \<in> edge_rel outgoing" for u v
    using that wf map_of_eq_None_iff [of outgoing u] unfolding ids_def [symmetric]
    by (auto simp: edge_rel_def edges_of_def unwrap_or_def edges_wf_def split: option.splits)
  have forward: "\<exists>i j. map_of ranks u = Some i \<and> map_of ranks v = Some j \<and> i < j"
    if "(u, v) \<in> edge_rel outgoing" "v \<in> ranked" for u v
    using inv that unfolding kahn_inv_def Let_def ranked_def kahn_state.simps by blast
  show "\<exists>i j. map_of ranks u = Some i \<and> map_of ranks v = Some j \<and> i < j"
    if "length ranks = length nodes" "(u, v) \<in> edge_rel outgoing" for u v
    using forward [OF that(2)] target [OF that(2)] all [OF that(1)] by simp
  then have "acyclic (edge_rel outgoing)" if "length ranks = length nodes"
    using that by (intro acyclic_subset [OF wf_acyclic [OF wf_measure], of _ "\<lambda>u. the (map_of ranks u)"]) force
  moreover have "length ranks = length nodes" if acyc: "acyclic (edge_rel outgoing)"
  proof (rule ccontr)
    assume "length ranks \<noteq> length nodes"
    then have "ids - ranked \<noteq> {}" using len sub by (auto simp: ranked_def ids_def)
    moreover have "finite (edge_rel outgoing)"
      using target \<open>finite ids\<close> by (auto intro: finite_subset [of _ "ids \<times> ids"])
    ultimately obtain z where z: "z \<in> ids - ranked" "\<And>y. (y, z) \<in> edge_rel outgoing \<Longrightarrow> y \<notin> ids - ranked"
      using finite_acyclic_wf [OF _ acyc] wfE_min by (metis ex_in_conv)
    then have "edges_into outgoing (ids - ranked) z \<noteq> 0"
      using inv unfolding kahn_inv_def Let_def ranked_def kahn_state.simps by auto
    then obtain u where "u \<in> ids - ranked" "count_list (targets outgoing u) z \<noteq> 0"
      unfolding edges_into_def by (meson sum.neutral)
    then show False using z(2) [of u] by (auto simp: edge_rel_def count_list_0_iff)
  qed
  ultimately show "length ranks = length nodes \<longleftrightarrow> acyclic (edge_rel outgoing)" by blast
  show "map_of ranks u = Some i \<Longrightarrow> i < length ranks"
    using inv unfolding kahn_inv_def Let_def kahn_state.simps by blast
qed

end
