(* ===== verification/Workflow_Compiler.thy ===== *)
theory Workflow_Compiler
  imports Workflow_Graph Behavior_Compiler
begin

text \<open>
  The workflow compiler (\<open>workflow-core/src/compiler/*.rs\<close>): the checks that admit a workflow
  document and the lookups the reducer works with. A check returns the issues it adds, in the
  order the source pushes them. The theorems say what a compiled workflow is guaranteed to be.
\<close>

section \<open>Functions of other libraries\<close>

text \<open>
  Serializing a document (\<open>serde_json::to_vec\<close>), the derived comparison of two documents,
  which rests on \<open>serde_json::Value\<close>, and the decimal rendering of a double.
\<close>

record workflow_externals =
  wx_definition_to_vec :: "orchestration_definition \<Rightarrow> u8 list"
  wx_definition_eq :: "orchestration_definition \<Rightarrow> orchestration_definition \<Rightarrow> bool"
  wx_fmt_f64 :: "f64 \<Rightarrow> string"

section \<open>Issues (mod.rs, pointers.rs)\<close>

record definition_issue =
  di_path :: string
  di_code :: string
  di_message :: string

abbreviation found :: "string \<Rightarrow> string \<Rightarrow> string \<Rightarrow> definition_issue list" where
  "found path code message \<equiv> [\<lparr>di_path = path, di_code = code, di_message = message\<rparr>]"

fun binding_pointer :: "output_binding \<Rightarrow> string" where
  "binding_pointer (RunInput pointer) = pointer"
| "binding_pointer (NodeOutput _ pointer) = pointer"

definition pointer_ok :: "string \<Rightarrow> bool" where
  "pointer_ok pointer \<longleftrightarrow> pointer = [] \<or> prefix ''/'' pointer"

definition check_pointer :: "string \<Rightarrow> string \<Rightarrow> definition_issue list" where
  "check_pointer pointer path =
     (if pointer_ok pointer then []
      else found path ''invalid_pointer''
        (''bindings use JSON Pointer syntax: empty or starting with '' @ [CHR 0x27] @ ''/'' @ [CHR 0x27]))"

section \<open>Schemas (schema\_checks.rs)\<close>

definition SUPPORTED_SCHEMA_KEYWORDS :: "string list" where
  "SUPPORTED_SCHEMA_KEYWORDS =
     [''type'', ''enum'', ''const'', ''required'', ''properties'', ''additionalProperties'',
      ''items'', ''minLength'', ''maxLength'', ''minimum'', ''maximum'', ''minItems'',
      ''maxItems'', ''default'', ''description'', ''title'']"

definition PRIMITIVE_TYPES :: "string list" where
  "PRIMITIVE_TYPES =
     [''null'', ''boolean'', ''object'', ''array'', ''number'', ''integer'', ''string'']"

type_synonym json_map = "(string, json) btree_map"

definition check_keywords :: "json_map \<Rightarrow> string \<Rightarrow> definition_issue list" where
  "check_keywords object path =
     concat (map (\<lambda>(keyword, _).
       if keyword \<in> set SUPPORTED_SCHEMA_KEYWORDS then []
       else found (path @ ''.'' @ keyword) ''unsupported_schema_keyword''
         (''schema keyword '' @ keyword @ '' is not supported by the host validator'')) object)"

definition is_primitive_type :: "json \<Rightarrow> bool" where
  "is_primitive_type v \<longleftrightarrow> (case v of JString name \<Rightarrow> name \<in> set PRIMITIVE_TYPES | _ \<Rightarrow> False)"

definition is_json_string :: "json \<Rightarrow> bool" where
  "is_json_string v \<longleftrightarrow> (case v of JString _ \<Rightarrow> True | _ \<Rightarrow> False)"

definition check_type :: "json_map \<Rightarrow> string \<Rightarrow> definition_issue list" where
  "check_type object path =
     (if is_none_or is_primitive_type (map_of object ''type'') then []
      else found (path @ ''.type'') ''invalid_schema'' ''type must be a supported JSON Schema primitive'')"

definition check_required :: "json_map \<Rightarrow> string \<Rightarrow> definition_issue list" where
  "check_required object path =
     (if is_none_or (\<lambda>v. is_some_and (list_all is_json_string) (json_array v)) (map_of object ''required'')
      then []
      else found (path @ ''.required'') ''invalid_schema'' ''required must be an array of strings'')"

definition check_additional_properties :: "json_map \<Rightarrow> string \<Rightarrow> definition_issue list" where
  "check_additional_properties object path =
     (if is_none_or (\<lambda>v. case v of JBool _ \<Rightarrow> True | JObject _ \<Rightarrow> True | _ \<Rightarrow> False)
           (map_of object ''additionalProperties'')
      then []
      else found (path @ ''.additionalProperties'') ''invalid_schema''
        ''additionalProperties must be a boolean or schema object'')"

definition check_enum :: "json_map \<Rightarrow> string \<Rightarrow> definition_issue list" where
  "check_enum object path =
     (if is_none_or (\<lambda>v. is_some_and (\<lambda>items. items \<noteq> []) (json_array v)) (map_of object ''enum'')
      then []
      else found (path @ ''.enum'') ''invalid_schema'' ''enum must be a non-empty array'')"

lemma json_field_size:
  "(key, v) \<in> set entries \<Longrightarrow> size v < size_list (\<lambda>entry. Suc (size (snd entry))) entries"
  by (induction entries) auto

lemma json_entry_size [termination_simp]:
  "map_of entries key = Some v \<Longrightarrow> size v < Suc (size_list (\<lambda>entry. Suc (size (snd entry))) entries)"
  by (rule less_SucI, rule json_field_size, rule map_of_SomeD)

lemma json_nested_size [termination_simp]:
  assumes "map_of entries key = Some (JObject inner)" and "(name, v) \<in> set inner"
  shows "size v < Suc (size_list (\<lambda>entry. Suc (size (snd entry))) entries)"
  using json_entry_size [OF assms(1)] json_field_size [OF assms(2)]
  by (simp add: size_prod_simp)

fun check_schema_value :: "json \<Rightarrow> string \<Rightarrow> definition_issue list" where
  "check_schema_value (JObject object) path =
     check_keywords object path @ check_type object path @ check_required object path
     @ (case map_of object ''properties'' of
          None \<Rightarrow> []
        | Some (JObject properties) \<Rightarrow>
            concat (map (\<lambda>(name, child).
              check_schema_value child (path @ ''.properties.'' @ name)) properties)
        | Some _ \<Rightarrow>
            found (path @ ''.properties'') ''invalid_schema'' ''properties must be an object'')
     @ (case map_of object ''items'' of
          None \<Rightarrow> []
        | Some items \<Rightarrow> check_schema_value items (path @ ''.items''))
     @ check_additional_properties object path @ check_enum object path"
| "check_schema_value _ path =
     found path ''invalid_schema'' ''inline schema must be a JSON object''"

definition check_schema_reference :: "schema_reference \<Rightarrow> string \<Rightarrow> definition_issue list" where
  "check_schema_reference schema_ref path =
     (case schema_ref of
        Inline name schema \<Rightarrow>
          (if blank name then found path ''empty_schema_name'' ''schema name cannot be empty'' else [])
          @ check_schema_value schema path
      | Schema_Registry schema_id revision \<Rightarrow>
          if blank schema_id \<or> revision = 0
          then found path ''invalid_schema_reference''
            ''registry schema requires a non-empty id and positive revision''
          else [])"

section \<open>The document and its nodes (definition\_checks.rs)\<close>

definition check_budgets :: "orchestration_definition \<Rightarrow> definition_issue list" where
  "check_budgets d =
     (let policies = od_policies d; count = length (od_nodes d)
      in (case op_max_steps policies of
            Some limit \<Rightarrow>
              if unat limit < count
              then found ''nodes'' ''step_budget_exceeded''
                (''definition has '' @ show_nat count @ '' nodes but max_steps is '' @ show_word limit)
              else []
          | None \<Rightarrow> [])
       @ (if op_max_steps policies = Some 0 \<or> op_max_total_attempts policies = Some 0
          then found ''policies'' ''invalid_budget'' ''step and attempt budgets must be greater than zero''
          else []))"

definition check_header :: "orchestration_definition \<Rightarrow> definition_issue list" where
  "check_header d =
     (if od_schema_version d \<noteq> ORCHESTRATION_SCHEMA_VERSION
      then found ''schema_version'' ''unsupported_schema_version''
        (''expected version '' @ show_word ORCHESTRATION_SCHEMA_VERSION @ '', got ''
          @ show_word (od_schema_version d)) else [])
   @ (if blank (od_id d) then found ''id'' ''empty_id'' ''definition id cannot be empty'' else [])
   @ (if blank (od_name d) then found ''name'' ''empty_name'' ''definition name cannot be empty'' else [])
   @ check_budgets d
   @ check_schema_reference (oc_schema (od_output_contract d)) ''output_contract.schema''
   @ (case od_input_schema d of
        Some schema \<Rightarrow> check_schema_reference schema ''input_schema''
      | None \<Rightarrow> [])"

definition check_agent_config :: "agent_node_config \<Rightarrow> string \<Rightarrow> definition_issue list" where
  "check_agent_config config path =
     (case anc_task_queue config of
        Some queue \<Rightarrow>
          check_pointer (tq_plan_pointer queue) (path @ ''.config.task_queue.plan_pointer'')
          @ (if 5 < tq_max_repairs queue \<or> blank (tq_review_instructions queue)
             then found (path @ ''.config.task_queue'') ''invalid_task_queue''
               ''task queues require reviewer instructions and at most five repairs'' else [])
      | None \<Rightarrow> [])
   @ (if blank (anc_instructions config)
      then found (path @ ''.config.instructions'') ''empty_instructions''
        ''agent nodes require instructions'' else [])
   @ (case anc_tools config of
        AllowList tools \<Rightarrow>
          if list_ex blank tools
          then found (path @ ''.config.tools'') ''invalid_tool_reference'' ''tool ids cannot be empty''
          else []
      | _ \<Rightarrow> [])"

definition answers_in_structure :: "orchestration_node \<Rightarrow> bool" where
  "answers_in_structure node \<longleftrightarrow>
     (case on_kind node of
        Node_Agent config \<Rightarrow> anc_structured_output config \<noteq> SO_Text
      | _ \<Rightarrow> False)"

definition check_output_schema :: "orchestration_node \<Rightarrow> string \<Rightarrow> definition_issue list" where
  "check_output_schema node path =
     (if answers_in_structure node \<and> on_output_schema node = None
      then found (path @ ''.output_schema'') ''missing_output_schema''
        ''agent nodes require an output schema'' else [])
   @ (case on_output_schema node of
        Some schema \<Rightarrow> check_schema_reference schema (path @ ''.output_schema'')
      | None \<Rightarrow> [])"

fun check_binding_pointers :: "input_binding list \<Rightarrow> nat \<Rightarrow> string \<Rightarrow> definition_issue list" where
  "check_binding_pointers [] index path = []"
| "check_binding_pointers (b # bs) index path =
     check_pointer (binding_pointer (ib_source b))
       (index_path (path @ ''.input_bindings'') index @ ''.source.pointer'')
     @ check_binding_pointers bs (Suc index) path"

definition check_node :: "orchestration_node \<Rightarrow> string \<Rightarrow> definition_issue list" where
  "check_node node path =
     (if blank (on_id node)
      then found (path @ ''.id'') ''empty_id'' ''node id cannot be empty'' else [])
   @ (if blank (on_name node)
      then found (path @ ''.name'') ''empty_name'' ''node name cannot be empty'' else [])
   @ (if rp_max_attempts (on_retry node) = 0 \<or> MAX_STEP_ATTEMPTS < rp_max_attempts (on_retry node)
      then found (path @ ''.retry.max_attempts'') ''invalid_retry''
        (''max_attempts must be between 1 and '' @ show_word MAX_STEP_ATTEMPTS) else [])
   @ (case on_kind node of
        Node_Agent config \<Rightarrow> check_agent_config config path
      | _ \<Rightarrow> [])
   @ check_binding_pointers (on_input_bindings node) 0 path
   @ check_output_schema node path"

fun check_nodes_from ::
    "orchestration_node list \<Rightarrow> nat \<Rightarrow> nodes \<Rightarrow> nodes \<times> definition_issue list" where
  "check_nodes_from [] index nodes = (nodes, [])"
| "check_nodes_from (node # rest) index nodes =
     (let path = index_path ''nodes'' index;
          duplicate = map_of nodes (on_id node) \<noteq> None;
          (nodes', issues) = check_nodes_from rest (Suc index) (btree_insert (on_id node) node nodes)
      in (nodes',
          check_node node path
          @ (if duplicate
             then found (path @ ''.id'') ''duplicate_node_id'' (''duplicate node id '' @ on_id node)
             else [])
          @ issues))"

definition check_nodes :: "orchestration_definition \<Rightarrow> nodes \<times> definition_issue list" where
  "check_nodes d = check_nodes_from (od_nodes d) 0 []"

definition context_steps :: "orchestration_node \<Rightarrow> node_id list" where
  "context_steps node =
     (case on_kind node of
        Node_Agent config \<Rightarrow> (case anc_context_access config of Steps steps \<Rightarrow> steps | _ \<Rightarrow> [])
      | _ \<Rightarrow> [])"

fun check_context_from ::
    "orchestration_node list \<Rightarrow> nat \<Rightarrow> nodes \<Rightarrow> definition_issue list" where
  "check_context_from [] index nodes = []"
| "check_context_from (node # rest) index nodes =
     concat (map (\<lambda>step.
       if step = on_id node \<or> map_of nodes step = None
       then found (index_path ''nodes'' index @ ''.config.context_access'') ''invalid_context_access''
         (''context_access names '' @ step @ '', which is not another step of this flow'')
       else []) (context_steps node))
     @ check_context_from rest (Suc index) nodes"

definition check_context_access ::
    "orchestration_definition \<Rightarrow> nodes \<Rightarrow> definition_issue list" where
  "check_context_access d nodes = check_context_from (od_nodes d) 0 nodes"

definition check_entry_and_exit ::
    "orchestration_definition \<Rightarrow> node_id option \<times> definition_issue list" where
  "check_entry_and_exit d =
     (let input_nodes = filter (\<lambda>node. is_input_node (on_kind node)) (od_nodes d);
          has_output = list_ex (\<lambda>node. is_output_node (on_kind node)) (od_nodes d)
      in (map_option on_id (case input_nodes of [] \<Rightarrow> None | first # _ \<Rightarrow> Some first),
          (if length input_nodes \<noteq> 1
           then found ''nodes'' ''input_count''
             (''expected exactly one input node, found '' @ show_nat (length input_nodes)) else [])
          @ (if \<not> has_output
             then found ''nodes'' ''missing_output'' ''at least one output node is required'' else [])))"

section \<open>Edges (edge\_checks.rs)\<close>

fun condition_name :: "edge_condition \<Rightarrow> string" where
  "condition_name OnSuccess = ''OnSuccess''"
| "condition_name OnFailure = ''OnFailure''"

definition push_edge :: "node_id \<Rightarrow> orchestration_edge \<Rightarrow> edges \<Rightarrow> edges" where
  "push_edge node edge m = btree_insert node (unwrap_or [] (map_of m node) @ [edge]) m"

record edge_tables =
  et_outgoing :: edges
  et_incoming :: edges
  et_edge_ids :: "edge_id list"
  et_transition_keys :: "(node_id \<times> edge_condition) list"

fun build_edges_from ::
    "nodes \<Rightarrow> orchestration_edge list \<Rightarrow> nat \<Rightarrow> edge_tables \<Rightarrow> edge_tables \<times> definition_issue list" where
  "build_edges_from nodes [] index tables = (tables, [])"
| "build_edges_from nodes (edge # rest) index tables =
     (let path = index_path ''edges'' index;
          duplicate =
            (if oe_id edge \<in> set (et_edge_ids tables)
             then found (path @ ''.id'') ''duplicate_edge_id'' (''duplicate edge id '' @ oe_id edge)
             else []);
          tables1 = tables\<lparr>et_edge_ids := oe_id edge # et_edge_ids tables\<rparr>
      in if map_of nodes (oe_source edge) = None
         then (let (tables', issues) = build_edges_from nodes rest (Suc index) tables1
               in (tables', duplicate
                    @ found (path @ ''.source'') ''dangling_edge''
                        (''source node '' @ oe_source edge @ '' does not exist'')
                    @ issues))
         else if map_of nodes (oe_target edge) = None
         then (let (tables', issues) = build_edges_from nodes rest (Suc index) tables1
               in (tables', duplicate
                    @ found (path @ ''.target'') ''dangling_edge''
                        (''target node '' @ oe_target edge @ '' does not exist'')
                    @ issues))
         else (let key = (oe_source edge, oe_condition edge);
                   ambiguous =
                     (if key \<in> set (et_transition_keys tables)
                      then found path ''ambiguous_transition''
                        (''node '' @ oe_source edge @ '' has multiple ''
                          @ condition_name (oe_condition edge) @ '' edges'')
                      else []);
                   (tables', issues) = build_edges_from nodes rest (Suc index)
                     (tables1\<lparr>et_transition_keys := key # et_transition_keys tables,
                      et_outgoing := push_edge (oe_source edge) edge (et_outgoing tables),
                      et_incoming := push_edge (oe_target edge) edge (et_incoming tables)\<rparr>)
               in (tables', duplicate @ ambiguous @ issues)))"

definition build_edges ::
    "orchestration_definition \<Rightarrow> nodes \<Rightarrow> edges \<times> edges \<times> definition_issue list" where
  "build_edges d nodes =
     (let empty = map (\<lambda>(node, _). (node, [])) nodes;
          (tables, issues) = build_edges_from nodes (od_edges d) 0
            \<lparr>et_outgoing = empty, et_incoming = empty, et_edge_ids = [], et_transition_keys = []\<rparr>
      in (et_outgoing tables, et_incoming tables, issues))"

definition check_route :: "edges \<Rightarrow> orchestration_node \<Rightarrow> definition_issue list" where
  "check_route outgoing node =
     (let routes = edges_of outgoing (on_id node); path = ''nodes.'' @ on_id node @ ''.outgoing''
      in if is_output_node (on_kind node)
         then (if routes \<noteq> []
               then found path ''terminal_has_route'' ''output nodes must be terminal'' else [])
         else (if list_ex (\<lambda>edge. oe_condition edge = OnSuccess) routes then []
               else found path ''missing_success_route''
                 ''non-terminal nodes require an on_success route''))"

definition check_routes :: "nodes \<Rightarrow> edges \<Rightarrow> definition_issue list" where
  "check_routes nodes outgoing = concat (map (\<lambda>(_, node). check_route outgoing node) nodes)"

section \<open>Order and reachability (graph.rs)\<close>

definition rank_and_check_reachability ::
    "node_id \<Rightarrow> nodes \<Rightarrow> edges \<Rightarrow> (node_id, nat) btree_map \<times> definition_issue list" where
  "rank_and_check_reachability entry nodes outgoing =
     (let ranks = topological_ranks nodes outgoing;
          reachable = descendants_or_self entry outgoing
      in (ranks,
          (if length ranks \<noteq> length nodes
           then found ''edges'' ''cycle'' ''cycles are not supported in schema version 1'' else [])
          @ concat (map (\<lambda>(node, _).
              if node \<in> set reachable then []
              else found (''nodes.'' @ node) ''unreachable_node''
                ''node is not reachable from the input node'') nodes)))"

section \<open>Data flow (data\_flow.rs)\<close>

definition check_binding_source ::
    "output_binding \<Rightarrow> node_id list \<Rightarrow> nodes \<Rightarrow> string \<Rightarrow> definition_issue list" where
  "check_binding_source source upstream nodes path =
     (case source of
        RunInput _ \<Rightarrow> []
      | NodeOutput node _ \<Rightarrow>
          if map_of nodes node = None
          then found path ''unknown_binding_source'' (''binding references unknown node '' @ node)
          else if node \<notin> set upstream
          then found path ''unavailable_binding_source''
            (''node '' @ node @ '' is not guaranteed to have run before this binding'')
          else [])"

fun check_binding_sources ::
    "input_binding list \<Rightarrow> nat \<Rightarrow> node_id \<Rightarrow> node_id list \<Rightarrow> nodes \<Rightarrow> definition_issue list" where
  "check_binding_sources [] index node upstream nodes = []"
| "check_binding_sources (b # bs) index node upstream nodes =
     check_binding_source (ib_source b) upstream nodes
       (index_path (''nodes.'' @ node @ ''.input_bindings'') index @ ''.source'')
     @ check_binding_sources bs (Suc index) node upstream nodes"

definition check_schema_check_has_schema ::
    "orchestration_node \<Rightarrow> nodes \<Rightarrow> string \<Rightarrow> definition_issue list" where
  "check_schema_check_has_schema node nodes checks_path =
     (if list_ex (\<lambda>b. is_some_and (\<lambda>source.
            is_some_and (\<lambda>producer. on_output_schema producer \<noteq> None) (map_of nodes source))
          (binding_node (ib_source b))) (on_input_bindings node)
      then []
      else found checks_path ''schema_check_without_schema''
        ''schema check requires a binding to a node with an output schema'')"

definition check_criteria_statuses ::
    "string list \<Rightarrow> string list \<Rightarrow> string \<Rightarrow> definition_issue list" where
  "check_criteria_statuses block_on defer_on path =
     (let names_blank_or_pass =
            list_ex (\<lambda>status. blank status \<or> status = ''pass'') (block_on @ defer_on);
          overlap = list_ex (\<lambda>status. status \<in> set defer_on) block_on
      in if block_on = [] \<or> names_blank_or_pass \<or> overlap
         then found path ''invalid_criteria_check''
           ''criteria checks need at least one block_on status; block_on and defer must not overlap or name pass''
         else [])"

definition check_verification ::
    "orchestration_node \<Rightarrow> verification_check \<Rightarrow> nodes \<Rightarrow> string \<Rightarrow> definition_issue list" where
  "check_verification node check nodes checks_path =
     (let check_path = checks_path @ ''.'' @ check_id check
      in case check of
           RequirementsSatisfied plan_pointer results_pointer \<Rightarrow>
             check_pointer plan_pointer checks_path @ check_pointer results_pointer check_path
         | Check_Schema \<Rightarrow> check_schema_check_has_schema node nodes checks_path
         | Criteria pointer plan_pointer block_on defer_on _ \<Rightarrow>
             (case plan_pointer of
                Some plan_pointer \<Rightarrow> check_pointer plan_pointer check_path
              | None \<Rightarrow> [])
             @ check_criteria_statuses block_on defer_on check_path
             @ check_pointer pointer check_path
         | RequiredStatus pointer _ \<Rightarrow> check_pointer pointer check_path
         | ArtifactExists pointer \<Rightarrow> check_pointer pointer check_path
         | ArtifactsResolvable pointer \<Rightarrow> check_pointer pointer check_path)"

definition check_verify_node ::
    "orchestration_node \<Rightarrow> verify_node_config \<Rightarrow> nodes \<Rightarrow> definition_issue list" where
  "check_verify_node node config nodes =
     (let checks_path = ''nodes.'' @ on_id node @ ''.config.checks''
      in (if vnc_checks config = []
          then found checks_path ''empty_verification'' ''verify nodes require at least one check''
          else [])
         @ concat (map (\<lambda>check. check_verification node check nodes checks_path) (vnc_checks config)))"

definition check_subflow_target :: "subflow_target \<Rightarrow> string \<Rightarrow> definition_issue list" where
  "check_subflow_target target path =
     (case target of
        Flow flow_id _ \<Rightarrow>
          if blank flow_id
          then found path ''invalid_subflow'' ''a flow target needs the id of a saved flow'' else []
      | Step instructions _ _ _ \<Rightarrow>
          if blank instructions
          then found path ''invalid_subflow'' ''a step target needs instructions'' else [])"

definition produces_structured_plan :: "nodes \<Rightarrow> node_id \<Rightarrow> bool" where
  "produces_structured_plan nodes producer_id \<longleftrightarrow>
     is_some_and (\<lambda>producer. answers_in_structure producer
         \<and> is_some_and is_task_plan_schema (on_output_schema producer))
       (map_of nodes producer_id)"

definition task_plan_source_message :: "node_id \<Rightarrow> string" where
  "task_plan_source_message node =
     (let quote = [CHR 0x22]
      in node @ '' must produce a task plan: give it a structured response format (e.g. host_validated) and the output schema {''
        @ quote @ ''type'' @ quote @ '': '' @ quote @ ''registry'' @ quote @ '', ''
        @ quote @ ''schema_id'' @ quote @ '': '' @ quote @ TASK_PLAN_SCHEMA_ID @ quote @ '', ''
        @ quote @ ''revision'' @ quote @ '': '' @ show_word TASK_PLAN_SCHEMA_REVISION @ ''}'')"

definition check_plan_source ::
    "orchestration_node \<Rightarrow> task_queue_config \<Rightarrow> nodes \<Rightarrow> definition_issue list" where
  "check_plan_source node queue nodes =
     (let path = ''nodes.'' @ on_id node @ ''.config.task_queue.plan_pointer''
      in case Option.bind (plan_binding queue) (\<lambda>target. binding_named target node) of
           None \<Rightarrow>
             found path ''task_plan_source''
               (''plan_pointer '' @ tq_plan_pointer queue
                 @ '' must start with the name of one of this step'' @ [CHR 0x27] @ ''s input bindings'')
         | Some b \<Rightarrow>
             (case ib_source b of
                RunInput _ \<Rightarrow> []
              | NodeOutput source pointer \<Rightarrow>
                  if pointer = [] \<and> \<not> produces_structured_plan nodes source
                  then found path ''task_plan_source'' (task_plan_source_message source)
                  else []))"

definition check_task_queue ::
    "orchestration_node \<Rightarrow> task_queue_config \<Rightarrow> nodes \<Rightarrow> definition_issue list" where
  "check_task_queue node queue nodes =
     concat (map (\<lambda>(name, target).
       let path = ''nodes.'' @ on_id node @ ''.config.task_queue.flows.'' @ name
       in if blank name
          then found path ''invalid_subflow'' ''a flow needs a name for tasks to refer to''
          else check_subflow_target target path) (tq_flows queue))
     @ check_plan_source node queue nodes"

definition check_approval_node ::
    "orchestration_node \<Rightarrow> approval_node_config \<Rightarrow> node_id list \<Rightarrow> nodes \<Rightarrow> definition_issue list" where
  "check_approval_node node config upstream nodes =
     (let base = ''nodes.'' @ on_id node @ ''.config.''; subject_path = base @ ''subject''
      in check_pointer (binding_pointer (apc_subject config)) (subject_path @ ''.pointer'')
         @ check_binding_source (apc_subject config) upstream nodes subject_path
         @ (case apc_skip_if_empty config of
              Some pointer \<Rightarrow> check_pointer pointer (base @ ''skip_if_empty'')
            | None \<Rightarrow> [])
         @ (if MAX_REVISIONS < apc_max_revisions config
            then found (base @ ''max_revisions'') ''invalid_max_revisions''
              (''max_revisions must be at most '' @ show_word MAX_REVISIONS)
            else []))"

definition check_output_contract ::
    "orchestration_definition \<Rightarrow> nodes \<Rightarrow> edges \<Rightarrow> definition_issue list" where
  "check_output_contract d nodes outgoing =
     (case oc_source (od_output_contract d) of
        None \<Rightarrow> []
      | Some source \<Rightarrow>
          check_pointer (binding_pointer source) ''output_contract.source.pointer''
          @ (case source of
               RunInput _ \<Rightarrow> []
             | NodeOutput node _ \<Rightarrow>
                 (let upstream_of_every_output =
                        list_all (\<lambda>(_, output). node \<in> set (ancestors (on_id output) outgoing))
                          (filter (\<lambda>(_, output). is_output_node (on_kind output)) nodes)
                  in if map_of nodes node = None \<or> \<not> upstream_of_every_output
                     then found ''output_contract.source'' ''unavailable_binding_source''
                       (''output contract source '' @ node @ '' must run before every output node'')
                     else [])))"

definition check_node_data_flow :: "nodes \<Rightarrow> edges \<Rightarrow> orchestration_node \<Rightarrow> definition_issue list" where
  "check_node_data_flow nodes outgoing node =
     (let upstream = ancestors (on_id node) outgoing
      in check_binding_sources (on_input_bindings node) 0 (on_id node) upstream nodes
         @ (case on_kind node of
              Node_Output config \<Rightarrow>
                (let path = ''nodes.'' @ on_id node @ ''.config.source''
                 in check_pointer (binding_pointer (onc_source config)) (path @ ''.pointer'')
                    @ check_binding_source (onc_source config) upstream nodes path)
            | Node_Verify config \<Rightarrow> check_verify_node node config nodes
            | Node_Agent config \<Rightarrow>
                (case anc_task_queue config of
                   Some queue \<Rightarrow> check_task_queue node queue nodes
                 | None \<Rightarrow> [])
            | Node_Subflow config \<Rightarrow>
                check_subflow_target (snc_target config) (''nodes.'' @ on_id node @ ''.config.target'')
            | Node_Approval config \<Rightarrow> check_approval_node node config upstream nodes
            | Node_Input _ \<Rightarrow> []))"

definition check_data_flow ::
    "orchestration_definition \<Rightarrow> nodes \<Rightarrow> edges \<Rightarrow> definition_issue list" where
  "check_data_flow d nodes outgoing =
     concat (map (\<lambda>(_, node). check_node_data_flow nodes outgoing node) nodes)
     @ check_output_contract d nodes outgoing"

section \<open>Retry spans (retry\_spans.rs)\<close>

record retry_link =
  rl_target_id :: node_id
  rl_field :: string
  rl_needs_policy :: bool

definition retry_link_of :: "orchestration_node \<Rightarrow> nodes \<Rightarrow> retry_link option" where
  "retry_link_of node nodes =
     (case on_kind node of
        Node_Verify config \<Rightarrow>
          map_option (\<lambda>target. \<lparr>rl_target_id = target, rl_field = ''retry_target'', rl_needs_policy = True\<rparr>)
            (vnc_retry_target config)
      | Node_Approval config \<Rightarrow>
          map_option (\<lambda>target. \<lparr>rl_target_id = target, rl_field = ''revise_target'', rl_needs_policy = False\<rparr>)
            (revise_target config)
      | Node_Agent _ \<Rightarrow>
          Option.bind (task_plan_source node) (\<lambda>target.
            if is_some_and (\<lambda>plan. is_agent_node (on_kind plan)) (map_of nodes target)
            then Some \<lparr>rl_target_id = target, rl_field = ''task_queue'', rl_needs_policy = False\<rparr>
            else None)
      | _ \<Rightarrow> None)"

definition usize_max :: nat where
  "usize_max = 2 ^ 64 - 1"

definition rank_of :: "(node_id, nat) btree_map \<Rightarrow> node_id \<Rightarrow> nat" where
  "rank_of ranks node = (case map_of ranks node of Some rank \<Rightarrow> rank | None \<Rightarrow> usize_max)"

definition span_for ::
    "orchestration_node \<Rightarrow> retry_link \<Rightarrow> string \<Rightarrow> nodes \<Rightarrow> edges \<Rightarrow> (node_id, nat) btree_map
      \<Rightarrow> definition_issue list + node_id list" where
  "span_for node link path nodes outgoing ranks =
     (let target_id = rl_target_id link
      in case map_of nodes target_id of
           None \<Rightarrow>
             Inl (found path ''unknown_retry_target'' (''retry target '' @ target_id @ '' does not exist''))
         | Some target \<Rightarrow>
             let upstream = ancestors (on_id node) outgoing
             in if \<not> is_agent_node (on_kind target)
                then Inl (found path ''invalid_retry_target'' ''retry targets must be agent nodes'')
                else if target_id \<notin> set upstream
                then Inl (found path ''invalid_retry_target''
                       (''retry target '' @ target_id @ '' must be upstream of '' @ on_id node))
                else if rl_needs_policy link \<and> VerificationFailed \<notin> set (rp_retry_on (on_retry target))
                then Inl (found path ''retry_target_policy''
                       (''retry target '' @ target_id @ '' must list verification_failed in retry_on''))
                else Inr (sort_key (rank_of ranks)
                       (filter (\<lambda>id. id \<in> set upstream) (descendants target_id outgoing)
                        @ [target_id, on_id node])))"

type_synonym spans = "(node_id, node_id list) btree_map"

fun compile_spans_from ::
    "orchestration_node list \<Rightarrow> nodes \<Rightarrow> edges \<Rightarrow> (node_id, nat) btree_map \<Rightarrow> spans
      \<Rightarrow> spans \<times> definition_issue list" where
  "compile_spans_from [] nodes outgoing ranks spans = (spans, [])"
| "compile_spans_from (node # rest) nodes outgoing ranks spans =
     (case retry_link_of node nodes of
        None \<Rightarrow> compile_spans_from rest nodes outgoing ranks spans
      | Some link \<Rightarrow>
          (case span_for node link (''nodes.'' @ on_id node @ ''.config.'' @ rl_field link)
                  nodes outgoing ranks of
             Inl issues \<Rightarrow>
               apsnd (\<lambda>more. issues @ more) (compile_spans_from rest nodes outgoing ranks spans)
           | Inr span \<Rightarrow>
               compile_spans_from rest nodes outgoing ranks (btree_insert (on_id node) span spans)))"

definition compile_retry_spans ::
    "nodes \<Rightarrow> edges \<Rightarrow> (node_id, nat) btree_map \<Rightarrow> spans \<times> definition_issue list" where
  "compile_retry_spans nodes outgoing ranks =
     compile_spans_from (map snd nodes) nodes outgoing ranks []"

section \<open>Compilation (mod.rs)\<close>

record compiled_orchestration =
  co_definition_id :: definition_id
  co_revision :: u64
  co_entry_node :: node_id
  co_nodes :: nodes
  co_outgoing :: edges
  co_incoming :: edges
  co_topological_rank :: "(node_id, nat) btree_map"
  co_retry_spans :: spans
  co_content_hash :: string
  co_definition :: orchestration_definition

definition co_node :: "compiled_orchestration \<Rightarrow> node_id \<Rightarrow> orchestration_node option" where
  "co_node c node = map_of (co_nodes c) node"

definition outgoing_for ::
    "compiled_orchestration \<Rightarrow> node_id \<Rightarrow> edge_condition \<Rightarrow> orchestration_edge option" where
  "outgoing_for c node condition =
     Option.bind (map_of (co_outgoing c) node) (List.find (\<lambda>edge. oe_condition edge = condition))"

definition compile_workflow ::
    "workflow_externals \<Rightarrow> orchestration_definition \<Rightarrow> definition_issue list + compiled_orchestration" where
  "compile_workflow ext d =
     (let header_issues = check_header d;
          (nodes, node_issues) = check_nodes d;
          context_issues = check_context_access d nodes;
          (entry, entry_issues) = check_entry_and_exit d;
          (outgoing, incoming, edge_issues) = build_edges d nodes;
          route_issues = check_routes nodes outgoing;
          (ranks, rank_issues) =
            (case entry of
               Some entry_node \<Rightarrow> rank_and_check_reachability entry_node nodes outgoing
             | None \<Rightarrow> ([], []));
          acyclic_graph = (length ranks = length nodes);
          (retry_spans, flow_issues) =
            (if acyclic_graph
             then apsnd (\<lambda>span_issues. check_data_flow d nodes outgoing @ span_issues)
                    (compile_retry_spans nodes outgoing ranks)
             else ([], []));
          issues = header_issues @ node_issues @ context_issues @ entry_issues @ edge_issues
            @ route_issues @ rank_issues @ flow_issues
      in case entry of
           Some entry_node \<Rightarrow>
             if issues = []
             then Inr \<lparr>co_definition_id = od_id d, co_revision = od_revision d,
                   co_entry_node = entry_node, co_nodes = nodes, co_outgoing = outgoing,
                   co_incoming = incoming, co_topological_rank = ranks,
                   co_retry_spans = retry_spans,
                   co_content_hash = content_hash (wx_definition_to_vec ext d),
                   co_definition = d\<rparr>
             else Inl issues
         | None \<Rightarrow> Inl issues)"

section \<open>What the checks establish\<close>

lemma check_nodes_from_spec:
  assumes "check_nodes_from ns index nodes = (nodes', issues)" and "btree_wf nodes"
    and "\<And>k n. map_of nodes k = Some n \<Longrightarrow> on_id n = k"
  shows "btree_wf nodes' \<and> fst ` set nodes' = fst ` set nodes \<union> on_id ` set ns
    \<and> (\<forall>k n. map_of nodes' k = Some n \<longrightarrow> on_id n = k \<and> (n \<in> set ns \<or> map_of nodes k = Some n))"
  using assms
proof (induction ns index nodes arbitrary: nodes' issues rule: check_nodes_from.induct)
  case (2 node rest index nodes)
  let ?nodes = "btree_insert (on_id node) node nodes"
  obtain issues' where rest: "check_nodes_from rest (Suc index) ?nodes = (nodes', issues')"
    using "2.prems"(1) by (auto simp: Let_def split: prod.splits)
  have ids: "on_id n = k" if "map_of ?nodes k = Some n" for k n
    using that "2.prems"(3) by (auto split: if_splits)
  note IH = "2.IH" [OF refl refl rest btree_wf_insert [OF "2.prems"(2)] ids]
  have "on_id n = k \<and> (n \<in> set (node # rest) \<or> map_of nodes k = Some n)"
    if "map_of nodes' k = Some n" for k n
  proof -
    from IH that have "on_id n = k" "n \<in> set rest \<or> map_of ?nodes k = Some n" by blast+
    then show ?thesis by (cases "k = on_id node") auto
  qed
  with IH show ?case by (simp add: set_keys_btree_insert)
qed simp

lemma check_nodes_from_distinct:
  assumes "check_nodes_from ns index nodes = (nodes', [])" and "btree_wf nodes"
  shows "distinct (map on_id ns) \<and> on_id ` set ns \<inter> fst ` set nodes = {}
    \<and> (\<forall>n \<in> set ns. map_of nodes' (on_id n) = Some n)
    \<and> (\<forall>k n. map_of nodes k = Some n \<longrightarrow> map_of nodes' k = Some n)"
  using assms
proof (induction ns index nodes arbitrary: nodes' rule: check_nodes_from.induct)
  case (2 node rest index nodes)
  let ?nodes = "btree_insert (on_id node) node nodes"
  have rest: "check_nodes_from rest (Suc index) ?nodes = (nodes', [])"
    and fresh: "map_of nodes (on_id node) = None"
    using "2.prems"(1) by (auto simp: Let_def split: prod.splits if_splits)
  then have "on_id node \<notin> fst ` set nodes" by (simp add: map_of_eq_None_iff)
  moreover note IH = "2.IH" [OF refl refl rest btree_wf_insert [OF "2.prems"(2)]]
  moreover have "map_of nodes' k = Some n" if "map_of nodes k = Some n" for k n
    using IH that fresh by (cases "k = on_id node") (simp, metis map_of_btree_insert fun_upd_apply)
  ultimately show ?case by (auto simp: set_keys_btree_insert)
qed simp

text \<open>The edge tables while they are built: per node, in document order.\<close>

definition tables_wf :: "node_id set \<Rightarrow> edge_tables \<Rightarrow> bool" where
  "tables_wf ids tables \<longleftrightarrow>
     edges_wf ids (et_outgoing tables)
   \<and> (\<forall>u. \<forall>e \<in> set (edges_of (et_outgoing tables) u).
          (u, oe_condition e) \<in> set (et_transition_keys tables))"

lemma edges_of_push_edge:
  "edges_of (push_edge node edge m) u = edges_of m u @ (if u = node then [edge] else [])"
  by (simp add: edges_of_def push_edge_def)

lemma btree_wf_push_edge: "btree_wf m \<Longrightarrow> btree_wf (push_edge node edge m)"
  by (simp add: push_edge_def btree_wf_insert)

lemma keys_push_edge: "fst ` set (push_edge node edge m) = insert node (fst ` set m)"
  by (simp add: push_edge_def set_keys_btree_insert)

lemma edges_wf_alt:
  "edges_wf ids outgoing \<longleftrightarrow> hm_wf outgoing \<and> fst ` set outgoing = ids
     \<and> (\<forall>u. \<forall>e \<in> set (edges_of outgoing u). oe_source e = u \<and> oe_target e \<in> ids)"
proof -
  have "(\<forall>es. map_of outgoing u = Some es \<longrightarrow> (\<forall>e \<in> set es. P e)) \<longleftrightarrow> (\<forall>e \<in> set (edges_of outgoing u). P e)"
    for u P by (cases "map_of outgoing u") (auto simp: edges_of_def)
  then show ?thesis by (simp add: edges_wf_def)
qed

lemma build_edges_from_spec:
  fixes nodes :: nodes
  assumes "build_edges_from nodes es index tables = (tables', issues)"
    and "btree_wf (et_outgoing tables)" and "tables_wf (fst ` set nodes) tables"
  shows "btree_wf (et_outgoing tables') \<and> tables_wf (fst ` set nodes) tables'
    \<and> (issues = [] \<longrightarrow>
        (\<forall>u. distinct (map oe_condition (edges_of (et_outgoing tables) u)) \<longrightarrow>
             distinct (map oe_condition (edges_of (et_outgoing tables') u)))
      \<and> (\<forall>u. edges_of (et_outgoing tables') u
              = edges_of (et_outgoing tables) u @ filter (\<lambda>e. oe_source e = u) es))"
  using assms
proof (induction nodes es index tables arbitrary: tables' issues rule: build_edges_from.induct)
  case (2 nodes edge rest index tables)
  let ?t1 = "tables\<lparr>et_edge_ids := oe_id edge # et_edge_ids tables\<rparr>"
  let ?key = "(oe_source edge, oe_condition edge)"
  let ?t2 = "?t1\<lparr>et_transition_keys := ?key # et_transition_keys tables,
    et_outgoing := push_edge (oe_source edge) edge (et_outgoing tables),
    et_incoming := push_edge (oe_target edge) edge (et_incoming tables)\<rparr>"
  have same: "btree_wf (et_outgoing ?t1)" "tables_wf (fst ` set nodes) ?t1"
    using "2.prems"(2,3) by (simp_all add: tables_wf_def)
  consider (source) "map_of nodes (oe_source edge) = None"
    | (target) "map_of nodes (oe_source edge) \<noteq> None" "map_of nodes (oe_target edge) = None"
    | (ok) "map_of nodes (oe_source edge) \<noteq> None" "map_of nodes (oe_target edge) \<noteq> None" by blast
  then show ?case
  proof cases
    case source
    obtain tables'' issues'' where run: "build_edges_from nodes rest (Suc index) ?t1 = (tables'', issues'')"
      by fastforce
    from "2.IH"(1) [OF refl refl refl source run same] "2.prems"(1) run source
    show ?thesis by (auto simp: Let_def split: prod.splits)
  next
    case target
    obtain tables'' issues'' where run: "build_edges_from nodes rest (Suc index) ?t1 = (tables'', issues'')"
      by fastforce
    from "2.IH"(2) [OF refl refl refl target run same] "2.prems"(1) run target
    show ?thesis by (auto simp: Let_def split: prod.splits)
  next
    case ok
    obtain tables'' issues'' where run: "build_edges_from nodes rest (Suc index) ?t2 = (tables'', issues'')"
      by fastforce
    have key_in: "oe_source edge \<in> fst ` set nodes" "oe_target edge \<in> fst ` set nodes"
      using ok by (simp_all add: map_of_eq_None_iff)
    have t2: "btree_wf (et_outgoing ?t2)" "tables_wf (fst ` set nodes) ?t2"
      using "2.prems"(2,3) key_in btree_wf_distinct [OF btree_wf_push_edge [OF "2.prems"(2)]]
      by (auto simp: tables_wf_def edges_wf_alt edges_of_push_edge keys_push_edge btree_wf_push_edge)
    have eq: "tables' = tables''" "issues = [] \<Longrightarrow> issues'' = [] \<and> ?key \<notin> set (et_transition_keys tables)"
      using "2.prems"(1) run ok by (auto simp: Let_def split: prod.splits if_splits)
    have dist: "distinct (map oe_condition (edges_of (et_outgoing ?t2) u))"
      if "issues = []" "distinct (map oe_condition (edges_of (et_outgoing tables) u))" for u
      using that eq(2) "2.prems"(3) unfolding tables_wf_def by (force simp: edges_of_push_edge)
    have IH: "btree_wf (et_outgoing tables'') \<and> tables_wf (fst ` set nodes) tables'' \<and> (issues'' = [] \<longrightarrow>
        (\<forall>u. distinct (map oe_condition (edges_of (et_outgoing ?t2) u)) \<longrightarrow>
             distinct (map oe_condition (edges_of (et_outgoing tables'') u)))
      \<and> (\<forall>u. edges_of (et_outgoing tables'') u
              = edges_of (et_outgoing ?t2) u @ filter (\<lambda>e. oe_source e = u) rest))"
      by (rule "2.IH"(3) [OF refl refl refl ok refl refl run t2])
    have "edges_of (et_outgoing tables'') u
        = edges_of (et_outgoing tables) u @ filter (\<lambda>e. oe_source e = u) (edge # rest)"
      if "issues'' = []" for u
      using IH that by (auto simp: edges_of_push_edge)
    with IH eq dist show ?thesis by blast
  qed
qed simp

lemma compile_workflow_parts:
  assumes "compile_workflow ext d = Inr c"
  shows "check_header d = []" "check_nodes d = (co_nodes c, [])"
    "check_context_access d (co_nodes c) = []"
    "check_entry_and_exit d = (Some (co_entry_node c), [])"
    "build_edges d (co_nodes c) = (co_outgoing c, co_incoming c, [])"
    "check_routes (co_nodes c) (co_outgoing c) = []"
    "rank_and_check_reachability (co_entry_node c) (co_nodes c) (co_outgoing c)
       = (co_topological_rank c, [])"
    "check_data_flow d (co_nodes c) (co_outgoing c) = []"
    "compile_retry_spans (co_nodes c) (co_outgoing c) (co_topological_rank c) = (co_retry_spans c, [])"
    "co_definition c = d" "co_definition_id c = od_id d" "co_revision c = od_revision d"
    "co_content_hash c = content_hash (wx_definition_to_vec ext d)"
proof -
  obtain nodes node_issues where nodes: "check_nodes d = (nodes, node_issues)" by fastforce
  obtain entry entry_issues where entry: "check_entry_and_exit d = (entry, entry_issues)" by fastforce
  obtain outgoing incoming edge_issues where edges: "build_edges d nodes = (outgoing, incoming, edge_issues)"
    using prod_cases3 by blast
  note unfold = assms [unfolded compile_workflow_def Let_def nodes entry edges prod.case]
  then obtain entry_node where entry_node: "entry = Some entry_node"
    by (cases entry) (auto split: prod.splits)
  obtain ranks rank_issues where ranks:
    "rank_and_check_reachability entry_node nodes outgoing = (ranks, rank_issues)" by fastforce
  obtain spans span_issues where spans: "compile_retry_spans nodes outgoing ranks = (spans, span_issues)"
    by fastforce
  note unfold = unfold [unfolded entry_node option.case ranks prod.case spans apsnd_conv]
  have "rank_issues = []" using unfold by (auto split: if_splits)
  then have "length ranks = length nodes"
    using ranks by (auto simp: rank_and_check_reachability_def Let_def split: if_splits)
  with unfold nodes entry entry_node edges ranks spans
  show "check_header d = []" "check_nodes d = (co_nodes c, [])"
    "check_context_access d (co_nodes c) = []"
    "check_entry_and_exit d = (Some (co_entry_node c), [])"
    "build_edges d (co_nodes c) = (co_outgoing c, co_incoming c, [])"
    "check_routes (co_nodes c) (co_outgoing c) = []"
    "rank_and_check_reachability (co_entry_node c) (co_nodes c) (co_outgoing c)
       = (co_topological_rank c, [])"
    "check_data_flow d (co_nodes c) (co_outgoing c) = []"
    "compile_retry_spans (co_nodes c) (co_outgoing c) (co_topological_rank c) = (co_retry_spans c, [])"
    "co_definition c = d" "co_definition_id c = od_id d" "co_revision c = od_revision d"
    "co_content_hash c = content_hash (wx_definition_to_vec ext d)"
    by (auto split: if_splits)
qed

lemma compiled_nodes:
  assumes "compile_workflow ext d = Inr c"
  shows "btree_wf (co_nodes c)" and "fst ` set (co_nodes c) = on_id ` set (od_nodes d)"
    and "distinct (map on_id (od_nodes d))"
    and "co_node c k = Some node \<longleftrightarrow> node \<in> set (od_nodes d) \<and> on_id node = k"
proof -
  note run = compile_workflow_parts(2) [OF assms, unfolded check_nodes_def]
  note spec = check_nodes_from_spec [OF run, simplified]
  note dist = check_nodes_from_distinct [OF run, simplified]
  show "btree_wf (co_nodes c)" "fst ` set (co_nodes c) = on_id ` set (od_nodes d)"
    "distinct (map on_id (od_nodes d))"
    using spec dist by simp_all
  show "co_node c k = Some node \<longleftrightarrow> node \<in> set (od_nodes d) \<and> on_id node = k"
    unfolding co_node_def using spec dist by blast
qed

lemma compiled_edges:
  assumes "compile_workflow ext d = Inr c"
  shows "edges_wf (fst ` set (co_nodes c)) (co_outgoing c)"
    and "distinct (map oe_condition (edges_of (co_outgoing c) u))"
    and "edges_of (co_outgoing c) u = filter (\<lambda>e. oe_source e = u) (od_edges d)"
proof -
  let ?empty = "map (\<lambda>(node, _). (node, [])) (co_nodes c) :: edges"
  let ?t = "\<lparr>et_outgoing = ?empty, et_incoming = ?empty, et_edge_ids = [], et_transition_keys = []\<rparr>"
  obtain tables where run: "build_edges_from (co_nodes c) (od_edges d) 0 ?t = (tables, [])"
    and out: "et_outgoing tables = co_outgoing c"
    using compile_workflow_parts(5) [OF assms] by (auto simp: build_edges_def Let_def split: prod.splits)
  have none: "edges_of (map (\<lambda>(node, _). (node, [])) m) u = []" for u and m :: nodes
    by (induction m) (auto simp: edges_of_def)
  have keys: "map fst ?empty = map fst (co_nodes c)" by (simp add: split_def comp_def)
  then have wf: "btree_wf ?empty" using compiled_nodes(1) [OF assms] by (simp only:)
  have "tables_wf (fst ` set (co_nodes c)) ?t"
    using btree_wf_distinct [OF wf] none
    by (simp add: tables_wf_def edges_wf_alt image_image split_def)
  from build_edges_from_spec [OF run _ this] wf none out
  show "edges_wf (fst ` set (co_nodes c)) (co_outgoing c)"
    "distinct (map oe_condition (edges_of (co_outgoing c) u))"
    "edges_of (co_outgoing c) u = filter (\<lambda>e. oe_source e = u) (od_edges d)"
    by (auto simp: tables_wf_def)
qed

lemma compiled_ranks:
  assumes "compile_workflow ext d = Inr c"
  shows "acyclic (edge_rel (co_outgoing c))"
    and "(u, v) \<in> edge_rel (co_outgoing c) \<Longrightarrow>
      rank_of (co_topological_rank c) u < rank_of (co_topological_rank c) v"
    and "fst ` set (co_nodes c) = (edge_rel (co_outgoing c))\<^sup>* `` {co_entry_node c}"
proof -
  note parts = compile_workflow_parts(7) [OF assms]
  have ranks: "topological_ranks (co_nodes c) (co_outgoing c) = co_topological_rank c"
    "length (co_topological_rank c) = length (co_nodes c)"
    using parts by (auto simp: rank_and_check_reachability_def Let_def split: if_splits)
  note sound = topological_ranks_correct [OF compiled_nodes(1) compiled_edges(1), OF assms assms, unfolded ranks(1)]
  show "acyclic (edge_rel (co_outgoing c))" using sound(1) ranks(2) by simp
  show "rank_of (co_topological_rank c) u < rank_of (co_topological_rank c) v"
    if "(u, v) \<in> edge_rel (co_outgoing c)"
    using sound(2) [OF ranks(2) that] by (auto simp: rank_of_def)
  have reach: "fst ` set (co_nodes c) \<subseteq> (edge_rel (co_outgoing c))\<^sup>* `` {co_entry_node c}"
    using parts unfolding set_descendants_or_self [symmetric]
    by (auto simp: rank_and_check_reachability_def Let_def split: if_splits)
  obtain first rest where "filter (\<lambda>node. is_input_node (on_kind node)) (od_nodes d) = first # rest"
      "on_id first = co_entry_node c"
    using compile_workflow_parts(4) [OF assms]
    by (auto simp: check_entry_and_exit_def Let_def split: list.splits)
  then have "first \<in> set (od_nodes d)" "on_id first = co_entry_node c"
    by (metis filter_is_subset list.set_intros(1) subsetD)+
  then have entry: "co_entry_node c \<in> fst ` set (co_nodes c)"
    using compiled_nodes(2) [OF assms] by force
  have "x \<in> fst ` set (co_nodes c)" if "(co_entry_node c, x) \<in> (edge_rel (co_outgoing c))\<^sup>*" for x
    using that
  proof (cases rule: rtranclE)
    case base
    with entry show ?thesis by simp
  next
    case (step y)
    then show ?thesis using compiled_edges(1) [OF assms]
      unfolding edges_wf_alt edge_rel_def by blast
  qed
  with reach show "fst ` set (co_nodes c) = (edge_rel (co_outgoing c))\<^sup>* `` {co_entry_node c}" by blast
qed

text \<open>Every node has exactly the routes it needs.\<close>

lemma compiled_routes:
  assumes "compile_workflow ext d = Inr c" and "co_node c n = Some node"
  shows "is_output_node (on_kind node) \<Longrightarrow> outgoing_for c n condition = None"
    and "\<not> is_output_node (on_kind node) \<Longrightarrow> \<exists>edge. outgoing_for c n OnSuccess = Some edge"
    and "outgoing_for c n condition = Some edge \<longleftrightarrow>
      edge \<in> set (od_edges d) \<and> oe_source edge = n \<and> oe_condition edge = condition"
proof -
  have id: "on_id node = n" using compiled_nodes(4) [OF assms(1)] assms(2) by blast
  have "(n, node) \<in> set (co_nodes c)" using assms(2) by (auto simp: co_node_def dest: map_of_SomeD)
  then have route: "check_route (co_outgoing c) node = []"
    using compile_workflow_parts(6) [OF assms(1)] by (auto simp: check_routes_def)
  have for_eq: "outgoing_for c n condition = List.find (\<lambda>e. oe_condition e = condition) (edges_of (co_outgoing c) n)" for condition
    by (cases "map_of (co_outgoing c) n") (auto simp: outgoing_for_def edges_of_def)
  show "outgoing_for c n condition = None" if "is_output_node (on_kind node)"
    using route that id by (auto simp: check_route_def for_eq Let_def split: if_splits)
  show "\<exists>edge. outgoing_for c n OnSuccess = Some edge" if "\<not> is_output_node (on_kind node)"
  proof -
    have "\<exists>e \<in> set (edges_of (co_outgoing c) n). oe_condition e = OnSuccess"
      using route that id by (auto simp: check_route_def Let_def list_ex_iff split: if_splits)
    then show ?thesis
      by (cases "outgoing_for c n OnSuccess") (auto simp: for_eq find_None_iff)
  qed
  have "List.find (\<lambda>e. oe_condition e = condition) es = Some edge \<longleftrightarrow> edge \<in> set es \<and> oe_condition edge = condition"
    if "distinct (map oe_condition es)" for es
    using that by (induction es) auto
  from this [OF compiled_edges(2) [OF assms(1)], of n]
  show "outgoing_for c n condition = Some edge \<longleftrightarrow>
      edge \<in> set (od_edges d) \<and> oe_source edge = n \<and> oe_condition edge = condition"
    unfolding for_eq by (auto simp: compiled_edges(3) [OF assms(1)])
qed

lemma check_binding_source_ok:
  "check_binding_source source upstream nodes path = [] \<longleftrightarrow>
     (\<forall>m p. source = NodeOutput m p \<longrightarrow> map_of nodes m \<noteq> None \<and> m \<in> set upstream)"
  by (cases source) (auto simp: check_binding_source_def)

lemma check_binding_sources_ok:
  "check_binding_sources bs index node upstream nodes = [] \<longleftrightarrow>
     (\<forall>b \<in> set bs. \<forall>m p. ib_source b = NodeOutput m p \<longrightarrow> map_of nodes m \<noteq> None \<and> m \<in> set upstream)"
  by (induction bs arbitrary: index) (auto simp: check_binding_source_ok)

lemma compiled_bindings:
  assumes "compile_workflow ext d = Inr c" and "co_node c n = Some node"
  shows "b \<in> set (on_input_bindings node) \<Longrightarrow> ib_source b = NodeOutput m p \<Longrightarrow>
      (m, n) \<in> (edge_rel (co_outgoing c))\<^sup>+"
    and "on_kind node = Node_Output config \<Longrightarrow> onc_source config = NodeOutput m p \<Longrightarrow>
      (m, n) \<in> (edge_rel (co_outgoing c))\<^sup>+"
    and "on_kind node = Node_Approval approval \<Longrightarrow> apc_subject approval = NodeOutput m p \<Longrightarrow>
      (m, n) \<in> (edge_rel (co_outgoing c))\<^sup>+"
proof -
  have id: "on_id node = n" using compiled_nodes(4) [OF assms(1)] assms(2) by blast
  have "(n, node) \<in> set (co_nodes c)" using assms(2) by (auto simp: co_node_def dest: map_of_SomeD)
  then have flow: "check_node_data_flow (co_nodes c) (co_outgoing c) node = []"
    using compile_workflow_parts(8) [OF assms(1)] by (auto simp: check_data_flow_def)
  note anc = set_ancestors [OF compiled_edges(1) [OF assms(1)]]
  show "(m, n) \<in> (edge_rel (co_outgoing c))\<^sup>+"
    if "b \<in> set (on_input_bindings node)" "ib_source b = NodeOutput m p"
    using flow that by (auto simp: check_node_data_flow_def check_binding_sources_ok anc id Let_def)
  show "(m, n) \<in> (edge_rel (co_outgoing c))\<^sup>+"
    if "on_kind node = Node_Output config" "onc_source config = NodeOutput m p"
    using flow that by (auto simp: check_node_data_flow_def check_binding_source_ok anc id Let_def)
  show "(m, n) \<in> (edge_rel (co_outgoing c))\<^sup>+"
    if "on_kind node = Node_Approval approval" "apc_subject approval = NodeOutput m p"
    using flow that
    by (auto simp: check_node_data_flow_def check_approval_node_def check_binding_source_ok anc id Let_def)
qed

section \<open>Retry spans\<close>

definition node_span ::
    "orchestration_node \<Rightarrow> nodes \<Rightarrow> edges \<Rightarrow> (node_id, nat) btree_map
      \<Rightarrow> (definition_issue list + node_id list) option" where
  "node_span node nodes outgoing ranks =
     map_option (\<lambda>link. span_for node link (''nodes.'' @ on_id node @ ''.config.'' @ rl_field link)
       nodes outgoing ranks) (retry_link_of node nodes)"

lemma node_span_issues: "node_span node nodes outgoing ranks = Some (Inl issues) \<Longrightarrow> issues \<noteq> []"
  by (auto simp: node_span_def span_for_def Let_def split: option.splits if_splits)

lemma compile_spans_from_Cons:
  "compile_spans_from (node # rest) nodes outgoing ranks spans =
     (case node_span node nodes outgoing ranks of
        None \<Rightarrow> compile_spans_from rest nodes outgoing ranks spans
      | Some (Inl issues) \<Rightarrow>
          apsnd (\<lambda>more. issues @ more) (compile_spans_from rest nodes outgoing ranks spans)
      | Some (Inr span) \<Rightarrow>
          compile_spans_from rest nodes outgoing ranks (btree_insert (on_id node) span spans))"
  by (simp add: node_span_def split: option.split)

lemma compile_spans_from_spec:
  assumes "compile_spans_from ns nodes outgoing ranks spans = (spans', [])" and "distinct (map on_id ns)"
  shows "(\<forall>node \<in> set ns. \<forall>r. node_span node nodes outgoing ranks = Some r \<longrightarrow>
      (\<exists>span. r = Inr span \<and> map_of spans' (on_id node) = Some span))
   \<and> (\<forall>n. (\<forall>node \<in> set ns. on_id node = n \<longrightarrow> node_span node nodes outgoing ranks = None) \<longrightarrow>
        map_of spans' n = map_of spans n)"
  using assms
proof (induction ns arbitrary: spans)
  case (Cons node rest)
  show ?case
  proof (cases "node_span node nodes outgoing ranks")
    case None
    with Cons show ?thesis by (auto simp: compile_spans_from_Cons simp del: compile_spans_from.simps)
  next
    case (Some r)
    then obtain span where r: "r = Inr span"
      using Cons.prems(1) node_span_issues [of node nodes outgoing ranks]
      by (cases r) (auto simp: compile_spans_from_Cons apsnd_def map_prod_def
          simp del: compile_spans_from.simps split: prod.splits)
    have "compile_spans_from rest nodes outgoing ranks (btree_insert (on_id node) span spans) = (spans', [])"
      using Cons.prems(1) Some r by (simp add: compile_spans_from_Cons del: compile_spans_from.simps)
    note IH = Cons.IH [OF this]
    have "map_of spans' (on_id node) = Some span"
      using IH Cons.prems(2) by (metis distinct.simps(2) image_eqI list.set_map list.simps(9)
          map_of_btree_insert fun_upd_same)
    with IH Cons.prems(2) Some r show ?thesis by auto
  qed
qed simp

lemma distinct_visit: "visit ns seen queue = (seen', queue') \<Longrightarrow> distinct seen \<Longrightarrow> distinct seen'"
  by (induction ns seen queue rule: visit.induct) (auto split: if_splits simp: distinct_insort)

lemma distinct_traverse: "distinct seen \<Longrightarrow> distinct (traverse adj seen queue)"
proof (induction adj seen queue rule: traverse.induct)
  case (2 adj seen current queue)
  obtain seen' queue' where v: "visit (next_nodes adj current) seen queue = (seen', queue')" by fastforce
  from "2.IH" [OF v [symmetric] refl distinct_visit [OF v "2.prems"]] show ?case
    by (simp add: traverse.simps v)
qed (simp add: traverse.simps)

lemma compiled_node_list:
  assumes "compile_workflow ext d = Inr c"
  shows "map on_id (map snd (co_nodes c)) = map fst (co_nodes c)"
    and "distinct (map on_id (map snd (co_nodes c)))"
proof -
  show eq: "map on_id (map snd (co_nodes c)) = map fst (co_nodes c)"
    using compiled_nodes(4) [OF assms] btree_wf_distinct [OF compiled_nodes(1) [OF assms]]
    by (auto simp: co_node_def)
  show "distinct (map on_id (map snd (co_nodes c)))"
    unfolding eq by (rule btree_wf_distinct [OF compiled_nodes(1) [OF assms]])
qed

lemma compiled_span:
  assumes c: "compile_workflow ext d = Inr c" and node: "co_node c n = Some node"
    and link: "retry_link_of node (co_nodes c) = Some link"
  defines "E \<equiv> edge_rel (co_outgoing c)"
  shows "\<exists>span target. map_of (co_retry_spans c) n = Some span
    \<and> co_node c (rl_target_id link) = Some target \<and> is_agent_node (on_kind target)
    \<and> (rl_target_id link, n) \<in> E\<^sup>+
    \<and> set span = {x. (rl_target_id link, x) \<in> E\<^sup>* \<and> (x, n) \<in> E\<^sup>*}
    \<and> distinct span \<and> sorted (map (rank_of (co_topological_rank c)) span)"
proof -
  let ?t = "rl_target_id link"
  have id: "on_id node = n" using compiled_nodes(4) [OF c] node by blast
  have mem: "(n, node) \<in> set (co_nodes c)" using node by (auto simp: co_node_def dest: map_of_SomeD)
  from compile_spans_from_spec [OF compile_workflow_parts(9) [OF c, unfolded compile_retry_spans_def]
      compiled_node_list(2) [OF c]]
  obtain span where span: "node_span node (co_nodes c) (co_outgoing c) (co_topological_rank c) = Some (Inr span)"
    "map_of (co_retry_spans c) n = Some span"
    using mem link id by (force simp: node_span_def)
  note anc = set_ancestors [OF compiled_edges(1) [OF c], of n, folded E_def]
  obtain target where target: "co_node c ?t = Some target" "is_agent_node (on_kind target)"
    and up: "?t \<in> set (ancestors n (co_outgoing c))"
    and eq: "span = sort_key (rank_of (co_topological_rank c))
      (filter (\<lambda>x. x \<in> set (ancestors n (co_outgoing c))) (descendants ?t (co_outgoing c)) @ [?t, n])"
    using span(1) link id
    by (auto simp: node_span_def span_for_def co_node_def Let_def split: option.splits if_splits)
  have acyc: "(x, x) \<notin> E\<^sup>+" for x using compiled_ranks(1) [OF c] by (simp add: acyclic_def E_def)
  have tn: "(?t, n) \<in> E\<^sup>+" using up anc by simp
  have set: "set span = {x. (?t, x) \<in> E\<^sup>* \<and> (x, n) \<in> E\<^sup>*}"
    unfolding eq using tn
    by (auto simp: set_descendants anc E_def [symmetric] dest: trancl_into_rtrancl rtranclD)
  have "distinct (descendants ?t (co_outgoing c))" by (simp add: descendants_def distinct_traverse)
  then have "distinct span"
    unfolding eq using tn acyc
    by (auto simp: set_descendants anc E_def [symmetric] distinct_sort)
  moreover have "sorted (map (rank_of (co_topological_rank c)) span)" unfolding eq by simp
  ultimately show ?thesis using span(2) target tn set by blast
qed

lemma compiled_span_link:
  assumes c: "compile_workflow ext d = Inr c" and "map_of (co_retry_spans c) n = Some span"
  shows "\<exists>node link. co_node c n = Some node \<and> retry_link_of node (co_nodes c) = Some link"
proof (rule ccontr)
  assume none: "\<not> ?thesis"
  have none: "node_span node (co_nodes c) (co_outgoing c) (co_topological_rank c) = None"
    if "node \<in> set (map snd (co_nodes c))" "on_id node = n" for node
    using that none compiled_node_list(1) [OF c] btree_wf_distinct [OF compiled_nodes(1) [OF c]]
    by (force simp: node_span_def co_node_def)
  from compile_spans_from_spec [OF compile_workflow_parts(9) [OF c, unfolded compile_retry_spans_def]
      compiled_node_list(2) [OF c]]
  have "map_of (co_retry_spans c) n = map_of [] n" using none by blast
  with assms(2) show False by simp
qed

end
