(* ===== verification/Workflow_Run.thy ===== *)
theory Workflow_Run
  imports Workflow_Compiler
begin

text \<open>
  The state of a workflow run and its reducer (\<open>workflow-core/src/state/*.rs\<close> and
  \<open>state/reducer/*.rs\<close>). An operation takes the state by \<open>&mut\<close> and returns a \<open>Result\<close>: here it
  returns the new state together with the result, so that what an operation had already
  changed when it returned an error stays visible. Counters wrap at their width, which is what
  Rust does without overflow checks. Indexing the retry spans with an absent key panics.
\<close>

section \<open>Statuses (status.rs)\<close>

datatype orchestration_status =
    Run_Created | Run_Ready | Run_Running | Run_WaitingForPermission | Run_WaitingForInput
  | Run_Paused | Run_Cancelling | Run_Completed | Run_Failed | Run_Cancelled

definition is_terminal :: "orchestration_status \<Rightarrow> bool" where
  "is_terminal status \<longleftrightarrow> status \<in> {Run_Completed, Run_Failed, Run_Cancelled}"

fun run_status_name :: "orchestration_status \<Rightarrow> string" where
  "run_status_name Run_Created = ''Created''"
| "run_status_name Run_Ready = ''Ready''"
| "run_status_name Run_Running = ''Running''"
| "run_status_name Run_WaitingForPermission = ''WaitingForPermission''"
| "run_status_name Run_WaitingForInput = ''WaitingForInput''"
| "run_status_name Run_Paused = ''Paused''"
| "run_status_name Run_Cancelling = ''Cancelling''"
| "run_status_name Run_Completed = ''Completed''"
| "run_status_name Run_Failed = ''Failed''"
| "run_status_name Run_Cancelled = ''Cancelled''"

datatype step_status =
    Step_Pending | Step_Ready | Step_Running | Step_WaitingForPermission | Step_WaitingForInput
  | Step_RetryScheduled | Step_Succeeded | Step_Failed | Step_Skipped | Step_Cancelled

definition is_active :: "step_status \<Rightarrow> bool" where
  "is_active status \<longleftrightarrow> status \<in> {Step_Running, Step_WaitingForPermission, Step_WaitingForInput}"

fun step_status_name :: "step_status \<Rightarrow> string" where
  "step_status_name Step_Pending = ''Pending''"
| "step_status_name Step_Ready = ''Ready''"
| "step_status_name Step_Running = ''Running''"
| "step_status_name Step_WaitingForPermission = ''WaitingForPermission''"
| "step_status_name Step_WaitingForInput = ''WaitingForInput''"
| "step_status_name Step_RetryScheduled = ''RetryScheduled''"
| "step_status_name Step_Succeeded = ''Succeeded''"
| "step_status_name Step_Failed = ''Failed''"
| "step_status_name Step_Skipped = ''Skipped''"
| "step_status_name Step_Cancelled = ''Cancelled''"

section \<open>Attempts (attempts.rs)\<close>

record orchestration_error =
  oer_code :: string
  oer_message :: string
  oer_retry_reason :: "retry_reason option"

definition orchestration_error_new :: "string \<Rightarrow> string \<Rightarrow> orchestration_error" where
  "orchestration_error_new code message =
     \<lparr>oer_code = code, oer_message = message, oer_retry_reason = None\<rparr>"

definition orchestration_error_retryable ::
    "string \<Rightarrow> string \<Rightarrow> retry_reason \<Rightarrow> orchestration_error" where
  "orchestration_error_retryable code message reason =
     \<lparr>oer_code = code, oer_message = message, oer_retry_reason = Some reason\<rparr>"

record usage_summary =
  us_model_requests :: u64
  us_tool_calls :: u64
  us_tokens :: u64
  us_tokens_unknown :: bool
  us_cost_usd :: f64
  us_cost_unknown :: bool

definition default_usage :: usage_summary where
  "default_usage =
     \<lparr>us_model_requests = 0, us_tool_calls = 0, us_tokens = 0, us_tokens_unknown = False,
      us_cost_usd = 0, us_cost_unknown = False\<rparr>"

definition usage_add :: "usage_summary \<Rightarrow> usage_summary \<Rightarrow> usage_summary" where
  "usage_add u other =
     \<lparr>us_model_requests = us_model_requests u + us_model_requests other,
      us_tool_calls = us_tool_calls u + us_tool_calls other,
      us_tokens = us_tokens u + us_tokens other,
      us_tokens_unknown = (us_tokens_unknown u \<or> us_tokens_unknown other),
      us_cost_usd = f64_add (us_cost_usd u) (us_cost_usd other),
      us_cost_unknown = (us_cost_unknown u \<or> us_cost_unknown other)\<rparr>"

text \<open>The derived \<open>==\<close>, which compares the costs as doubles.\<close>

definition usage_eq :: "usage_summary \<Rightarrow> usage_summary \<Rightarrow> bool" where
  "usage_eq u v \<longleftrightarrow>
     us_model_requests u = us_model_requests v \<and> us_tool_calls u = us_tool_calls v
   \<and> us_tokens u = us_tokens v \<and> us_tokens_unknown u = us_tokens_unknown v
   \<and> f64_eq (us_cost_usd u) (us_cost_usd v) \<and> us_cost_unknown u = us_cost_unknown v"

record delegated_run_ref =
  drr_session_id :: "string option"
  drr_agent_id :: "string option"
  drr_agent_run_id :: "string option"

record evidence =
  ev_check :: string
  ev_passed :: bool
  ev_detail :: string

record command_run =
  cr_command :: string
  cr_failed :: bool

record step_actions =
  sa_files_changed :: "string list"
  sa_files_read :: "string list"
  sa_commands :: "command_run list"
  sa_research :: "string list"
  sa_locations :: "string list"
  sa_tool_errors :: u32

definition default_actions :: step_actions where
  "default_actions =
     \<lparr>sa_files_changed = [], sa_files_read = [], sa_commands = [], sa_research = [],
      sa_locations = [], sa_tool_errors = 0\<rparr>"

definition actions_is_empty :: "step_actions \<Rightarrow> bool" where
  "actions_is_empty actions \<longleftrightarrow> actions = default_actions"

record attempt_details =
  ad_started_at_ms :: "u64 option"
  ad_ended_at_ms :: "u64 option"
  ad_input :: "json option"
  ad_delegated :: "delegated_run_ref option"
  ad_tools :: "string list option"
  ad_usage :: usage_summary
  ad_evidence :: "evidence list"
  ad_actions :: step_actions

definition default_details :: attempt_details where
  "default_details =
     \<lparr>ad_started_at_ms = None, ad_ended_at_ms = None, ad_input = None, ad_delegated = None,
      ad_tools = None, ad_usage = default_usage, ad_evidence = [], ad_actions = default_actions\<rparr>"

datatype attempt_status = Attempt_Running | Attempt_Succeeded | Attempt_Failed | Attempt_Cancelled

record step_attempt =
  at_attempt :: u32
  at_status :: attempt_status
  at_output :: "json option"
  at_error :: "orchestration_error option"
  at_details :: attempt_details

section \<open>Questions (input.rs)\<close>

record input_decision =
  idn_id :: string
  idn_label :: string
  idn_requires_text :: bool

record input_request =
  irq_id :: string
  irq_kind :: string
  irq_prompt :: string
  irq_subject :: json
  irq_decisions :: "input_decision list"

datatype responder = By_User | By_Auto

record input_response =
  irp_decision :: string
  irp_text :: "string option"
  irp_by :: responder

section \<open>The run (run.rs)\<close>

record step_run =
  sr_checkpoint :: "json option"
  sr_status :: step_status
  sr_attempts :: "step_attempt list"
  sr_output :: "json option"
  sr_error :: "orchestration_error option"
  sr_feedback :: "orchestration_error list"
  sr_pending_permissions :: "string list"
  sr_pending_input :: "input_request option"
  sr_retry_base :: u32

definition default_step_run :: step_run where
  "default_step_run =
     \<lparr>sr_checkpoint = None, sr_status = Step_Pending, sr_attempts = [], sr_output = None,
      sr_error = None, sr_feedback = [], sr_pending_permissions = [], sr_pending_input = None,
      sr_retry_base = 0\<rparr>"

record run_options =
  ro_auto_approve :: bool

record orchestration_run_state =
  rs_run_id :: workflow_run_id
  rs_definition_id :: definition_id
  rs_definition_revision :: u64
  rs_definition_hash :: string
  rs_status :: orchestration_status
  rs_paused :: bool
  rs_input :: "json option"
  rs_steps :: "(node_id, step_run) btree_map"
  rs_final_output :: "json option"
  rs_error :: "orchestration_error option"
  rs_failed_step :: "node_id option"
  rs_total_attempts :: u32
  rs_usage :: usage_summary
  rs_options :: run_options

definition run_state_new :: "workflow_run_id \<Rightarrow> compiled_orchestration \<Rightarrow> orchestration_run_state" where
  "run_state_new run_id c =
     \<lparr>rs_run_id = run_id, rs_definition_id = co_definition_id c,
      rs_definition_revision = co_revision c, rs_definition_hash = co_content_hash c,
      rs_status = Run_Created, rs_paused = False, rs_input = None,
      rs_steps = map (\<lambda>(node, _). (node, default_step_run)) (co_nodes c),
      rs_final_output = None, rs_error = None, rs_failed_step = None, rs_total_attempts = 0,
      rs_usage = default_usage, rs_options = \<lparr>ro_auto_approve = False\<rparr>\<rparr>"

definition active_step :: "orchestration_run_state \<Rightarrow> (node_id \<times> step_run) option" where
  "active_step s = List.find (\<lambda>(_, step). is_active (sr_status step)) (rs_steps s)"

section \<open>Commands, effects and results (messages.rs)\<close>

datatype orchestration_command =
    RecordCheckpoint node_id u32 json
  | Start_Run json
  | StepAdmitted node_id u32
  | StepSucceeded node_id u32 json attempt_details
  | StepFailed node_id u32 orchestration_error attempt_details
  | PermissionRequired node_id u32 string
  | PermissionResolved node_id u32 string bool
  | InputRequired node_id u32 input_request
  | InputResolved node_id u32 string input_response
  | RetryStep node_id
  | Pause_Run
  | Resume_Run
  | Abort_Run orchestration_error
  | Cancel_Run
  | CancellationCompleted
  | Recover_Run

datatype orchestration_event =
    TaskProgress node_id u32 nat nat
  | Ev_RunStarted
  | Ev_RunRestored
  | Ev_RunPaused
  | Ev_RunResumed
  | Ev_StepReady node_id
  | Ev_StepStarted node_id u32
  | Ev_StepSucceeded node_id u32
  | Ev_StepFailed node_id u32 orchestration_error
  | Ev_StepRetryScheduled node_id u32 node_id
  | TransitionSelected node_id node_id edge_condition
  | PermissionRequested node_id u32 string
  | Ev_PermissionResolved node_id u32 string bool
  | InputRequested node_id u32 input_request
  | Ev_InputResolved node_id u32 string input_response
  | BudgetUpdated usage_summary
  | Ev_RunCompleted
  | Ev_RunFailed orchestration_error
  | Ev_RunCancelled

datatype orchestration_outcome = Run_Outcome_Completed | Run_Outcome_Failed | Run_Outcome_Cancelled

record orchestration_result =
  or_run_id :: workflow_run_id
  or_definition_id :: definition_id
  or_revision :: u64
  or_status :: orchestration_outcome
  or_output :: "json option"
  or_usage :: usage_summary
  or_error :: "orchestration_error option"

datatype orchestration_effect =
    ExecuteStep node_id u32
  | CancelStep node_id u32
  | Emit_Run orchestration_event
  | Finish orchestration_result

definition result_from_state ::
    "orchestration_run_state \<Rightarrow> orchestration_outcome \<Rightarrow> orchestration_result" where
  "result_from_state s status =
     \<lparr>or_run_id = rs_run_id s, or_definition_id = rs_definition_id s,
      or_revision = rs_definition_revision s, or_status = status,
      or_output = rs_final_output s, or_usage = rs_usage s, or_error = rs_error s\<rparr>"

record transition_error =
  te_code :: string
  te_message :: string

datatype run_failure = Rejected transition_error | Panicked

type_synonym 'a run_result = "orchestration_run_state \<times> (run_failure + 'a)"

text \<open>
  \<open>attempting s r k\<close> is \<open>r?\<close> followed by \<open>k\<close>, where \<open>r\<close> did not change the state \<open>s\<close>;
  \<open>and_then\<close> is the same for a call that returns a changed state.
\<close>

definition attempting ::
    "orchestration_run_state \<Rightarrow> transition_error + 'a \<Rightarrow> ('a \<Rightarrow> 'b run_result) \<Rightarrow> 'b run_result" where
  "attempting s r k = (case r of Inl e \<Rightarrow> (s, Inl (Rejected e)) | Inr a \<Rightarrow> k a)"

definition and_then ::
    "'a run_result \<Rightarrow> (orchestration_run_state \<Rightarrow> 'a \<Rightarrow> 'b run_result) \<Rightarrow> 'b run_result" where
  "and_then r k = (case snd r of Inl e \<Rightarrow> (fst r, Inl e) | Inr a \<Rightarrow> k (fst r) a)"

section \<open>Finding a step or attempt (lookup.rs)\<close>

definition transition_error_of :: "string \<Rightarrow> string \<Rightarrow> transition_error" where
  "transition_error_of code message = \<lparr>te_code = code, te_message = message\<rparr>"

definition step_state :: "orchestration_run_state \<Rightarrow> node_id \<Rightarrow> transition_error + step_run" where
  "step_state s node =
     (case map_of (rs_steps s) node of
        None \<Rightarrow> Inl (transition_error_of ''missing_step_state'' (''missing state for '' @ node))
      | Some step \<Rightarrow> Inr step)"

definition step_mut ::
    "compiled_orchestration \<Rightarrow> orchestration_run_state \<Rightarrow> node_id \<Rightarrow> transition_error + step_run" where
  "step_mut c s node =
     (if co_node c node = None
      then Inl (transition_error_of ''unknown_step'' (''unknown step '' @ node))
      else case map_of (rs_steps s) node of
        None \<Rightarrow> Inl (transition_error_of ''missing_step_state'' (''missing state for '' @ node))
      | Some step \<Rightarrow> Inr step)"

definition active_attempt_mut ::
    "compiled_orchestration \<Rightarrow> orchestration_run_state \<Rightarrow> node_id \<Rightarrow> u32 \<Rightarrow> transition_error + step_run" where
  "active_attempt_mut c s node attempt =
     (case step_mut c s node of
        Inl e \<Rightarrow> Inl e
      | Inr step \<Rightarrow>
          if \<not> is_active (sr_status step)
          then Inl (transition_error_of ''step_not_running'' (''step '' @ node @ '' is not running''))
          else if sr_attempts step = [] \<or> at_attempt (last (sr_attempts step)) \<noteq> attempt
          then Inl (transition_error_of ''stale_attempt''
                 (''attempt '' @ show_word attempt @ '' is not active''))
          else Inr step)"

definition require_status ::
    "orchestration_status \<Rightarrow> orchestration_status \<Rightarrow> transition_error + unit" where
  "require_status actual expected =
     (if actual = expected then Inr ()
      else Inl (transition_error_of ''invalid_run_status''
        (''expected run status '' @ run_status_name expected @ '', got '' @ run_status_name actual)))"

definition current_attempt :: "step_run \<Rightarrow> transition_error + step_attempt" where
  "current_attempt step =
     (if sr_attempts step = []
      then Inl (transition_error_of ''no_active_attempt'' ''active step has no attempt'')
      else Inr (last (sr_attempts step)))"

text \<open>Writing through the references these functions return.\<close>

definition put_step :: "node_id \<Rightarrow> step_run \<Rightarrow> orchestration_run_state \<Rightarrow> orchestration_run_state" where
  "put_step node step s = s\<lparr>rs_steps := AList.update node step (rs_steps s)\<rparr>"

definition put_current :: "step_attempt \<Rightarrow> step_run \<Rightarrow> step_run" where
  "put_current attempt step = step\<lparr>sr_attempts := butlast (sr_attempts step) @ [attempt]\<rparr>"

section \<open>Settling (control.rs)\<close>

definition settle :: "orchestration_run_state \<Rightarrow> orchestration_run_state" where
  "settle s =
     (if is_terminal (rs_status s) \<or> rs_status s = Run_Cancelling then s
      else s\<lparr>rs_status :=
        (case map_option (\<lambda>(_, step). sr_status step) (active_step s) of
           Some Step_WaitingForPermission \<Rightarrow> Run_WaitingForPermission
         | Some Step_WaitingForInput \<Rightarrow> Run_WaitingForInput
         | Some _ \<Rightarrow> Run_Running
         | None \<Rightarrow> if rs_paused s then Run_Paused else Run_Ready)\<rparr>)"

section \<open>Starting and admitting (start.rs)\<close>

definition start ::
    "compiled_orchestration \<Rightarrow> orchestration_run_state \<Rightarrow> json \<Rightarrow> orchestration_effect list run_result" where
  "start c s input =
     attempting s (require_status (rs_status s) Run_Created) (\<lambda>_.
       let s = s\<lparr>rs_input := Some input\<rparr>
       in attempting s (step_state s (co_entry_node c)) (\<lambda>step.
            (settle (put_step (co_entry_node c) (step\<lparr>sr_status := Step_Ready\<rparr>) s),
             Inr [Emit_Run Ev_RunStarted, Emit_Run (Ev_StepReady (co_entry_node c))])))"

fun first_exhausted :: "(string \<times> u64 option \<times> u64) list \<Rightarrow> string option" where
  "first_exhausted [] = None"
| "first_exhausted ((name, limit, used) # rest) =
     (case limit of
        Some limit \<Rightarrow>
          if limit \<le> used
          then Some (name @ '' budget of '' @ show_word limit @ '' exhausted ('' @ show_word used @ '' used)'')
          else first_exhausted rest
      | None \<Rightarrow> first_exhausted rest)"

definition exhausted_budget ::
    "workflow_externals \<Rightarrow> compiled_orchestration \<Rightarrow> orchestration_run_state \<Rightarrow> string option" where
  "exhausted_budget ext c s =
     (let policies = od_policies (co_definition c); usage = rs_usage s;
          counters = first_exhausted
            [(''model request'', op_max_model_requests policies, us_model_requests usage),
             (''tool call'', op_max_tool_calls policies, us_tool_calls usage),
             (''token'', op_max_tokens policies, us_tokens usage)];
          cost =
            (case op_max_cost_usd policies of
               Some limit \<Rightarrow>
                 if f64_ge (us_cost_usd usage) limit
                 then Some (''cost budget of $'' @ wx_fmt_f64 ext limit @ '' exhausted ($''
                        @ wx_fmt_f64 ext (us_cost_usd usage) @ '' used)'')
                 else None
             | None \<Rightarrow> None)
      in case op_max_total_attempts policies of
           Some limit \<Rightarrow>
             if limit \<le> rs_total_attempts s
             then Some (''attempt budget of '' @ show_word limit @ '' exhausted'')
             else or_opt counters cost
         | None \<Rightarrow> or_opt counters cost)"

definition record_usage ::
    "orchestration_run_state \<Rightarrow> attempt_details \<Rightarrow> orchestration_run_state \<times> orchestration_effect list" where
  "record_usage s details =
     (if usage_eq (ad_usage details) default_usage then (s, [])
      else let s = s\<lparr>rs_usage := usage_add (rs_usage s) (ad_usage details)\<rparr>
           in (s, [Emit_Run (BudgetUpdated (rs_usage s))]))"

fun end_waiting :: "step_status \<Rightarrow> step_status" where
  "end_waiting Step_Pending = Step_Skipped"
| "end_waiting Step_Ready = Step_Cancelled"
| "end_waiting Step_RetryScheduled = Step_Cancelled"
| "end_waiting status = status"

definition terminate_failed ::
    "orchestration_run_state \<Rightarrow> orchestration_error \<Rightarrow> orchestration_effect list
      \<Rightarrow> orchestration_effect list run_result" where
  "terminate_failed s error effects =
     (let s = s\<lparr>rs_status := Run_Failed, rs_error := Some error,
            rs_steps := map (\<lambda>(node, step). (node, step\<lparr>sr_status := end_waiting (sr_status step)\<rparr>))
              (rs_steps s)\<rparr>
      in (s, Inr (effects @ [Emit_Run (Ev_RunFailed error),
            Finish (result_from_state s Run_Outcome_Failed)])))"

definition new_attempt :: "u32 \<Rightarrow> step_attempt" where
  "new_attempt attempt =
     \<lparr>at_attempt = attempt, at_status = Attempt_Running, at_output = None, at_error = None,
      at_details = default_details\<rparr>"

definition admit_check ::
    "compiled_orchestration \<Rightarrow> orchestration_run_state \<Rightarrow> node_id \<Rightarrow> u32 \<Rightarrow> transition_error + unit" where
  "admit_check c s node attempt =
     (if rs_status s \<noteq> Run_Ready \<or> rs_paused s
      then Inl (transition_error_of ''run_not_ready''
        (''run in status '' @ run_status_name (rs_status s) @ '' cannot admit work''))
      else case step_mut c s node of
        Inl e \<Rightarrow> Inl e
      | Inr step \<Rightarrow>
          (let expected = of_nat (length (sr_attempts step)) + 1
           in if sr_status step \<noteq> Step_Ready
              then Inl (transition_error_of ''step_not_ready'' (''step '' @ node @ '' is not ready''))
              else if attempt \<noteq> expected
              then Inl (transition_error_of ''invalid_attempt''
                (''expected attempt '' @ show_word expected @ '', got '' @ show_word attempt))
              else Inr ()))"

definition admit ::
    "workflow_externals \<Rightarrow> compiled_orchestration \<Rightarrow> orchestration_run_state \<Rightarrow> node_id \<Rightarrow> u32
      \<Rightarrow> orchestration_effect list run_result" where
  "admit ext c s node attempt =
     attempting s (admit_check c s node attempt) (\<lambda>_.
       case exhausted_budget ext c s of
         Some reason \<Rightarrow>
           terminate_failed s (orchestration_error_new ''BUDGET_EXHAUSTED'' reason) []
       | None \<Rightarrow>
           attempting s (step_state s node) (\<lambda>step.
             let step = step\<lparr>sr_status := Step_Running,
                   sr_attempts := sr_attempts step @ [new_attempt attempt]\<rparr>;
                 s = put_step node step s;
                 s = s\<lparr>rs_total_attempts := rs_total_attempts s + 1\<rparr>
             in (settle s, Inr [Emit_Run (Ev_StepStarted node attempt), ExecuteStep node attempt])))"

section \<open>Activation (activate.rs)\<close>

definition activate ::
    "orchestration_run_state \<Rightarrow> node_id \<Rightarrow> node_id \<Rightarrow> edge_condition \<Rightarrow> orchestration_effect list
      \<Rightarrow> orchestration_effect list run_result" where
  "activate s source target condition effects =
     attempting s (step_state s target) (\<lambda>step.
       if sr_status step \<noteq> Step_Pending
       then (s, Inl (Rejected (transition_error_of ''target_not_pending''
              (''target step '' @ target @ '' is not pending''))))
       else (put_step target (step\<lparr>sr_status := Step_Ready\<rparr>) s,
             Inr (effects @ [Emit_Run (TransitionSelected source target condition),
               Emit_Run (Ev_StepReady target)])))"

definition retry ::
    "compiled_orchestration \<Rightarrow> orchestration_run_state \<Rightarrow> node_id \<Rightarrow> orchestration_effect list run_result" where
  "retry c s node =
     attempting s (step_mut c s node) (\<lambda>step.
       if sr_status step \<noteq> Step_RetryScheduled
       then (s, Inl (Rejected (transition_error_of ''retry_not_scheduled'' ''step has no scheduled retry'')))
       else (settle (put_step node (step\<lparr>sr_status := Step_Ready\<rparr>) s),
             Inr [Emit_Run (Ev_StepReady node)]))"

section \<open>Queries (queries.rs)\<close>

definition ready_steps :: "compiled_orchestration \<Rightarrow> orchestration_run_state \<Rightarrow> node_id list" where
  "ready_steps c s =
     (if rs_status s \<noteq> Run_Ready \<or> rs_paused s then []
      else (let ready = map fst (filter (\<lambda>(_, step). sr_status step = Step_Ready) (rs_steps s))
            in take 1 (sort_key (rank_of (co_topological_rank c)) (sort ready))))"

definition check_restorable ::
    "compiled_orchestration \<Rightarrow> orchestration_run_state \<Rightarrow> transition_error + unit" where
  "check_restorable c s =
     (if rs_definition_id s \<noteq> co_definition_id c \<or> rs_definition_revision s \<noteq> co_revision c
      then Inl (transition_error_of ''definition_mismatch''
        (''run was started on '' @ rs_definition_id s @ ''@'' @ show_word (rs_definition_revision s)
          @ '', not '' @ co_definition_id c @ ''@'' @ show_word (co_revision c)))
      else if rs_definition_hash s \<noteq> co_content_hash c
      then Inl (transition_error_of ''definition_hash_mismatch''
        ''definition content changed since the run started'')
      else if length (rs_steps s) \<noteq> length (co_nodes c)
        \<or> \<not> list_all (\<lambda>(node, _). map_of (rs_steps s) node \<noteq> None) (co_nodes c)
      then Inl (transition_error_of ''definition_mismatch'' ''run step set does not match the definition'')
      else Inr ())"

section \<open>Checkpoints (checkpoint.rs)\<close>

definition record_checkpoint ::
    "compiled_orchestration \<Rightarrow> orchestration_run_state \<Rightarrow> node_id \<Rightarrow> u32 \<Rightarrow> json
      \<Rightarrow> orchestration_effect list run_result" where
  "record_checkpoint c s node attempt checkpoint =
     (let completed = length (unwrap_or [] (json_array (json_index checkpoint ''completed'')));
          total = length (unwrap_or [] (json_array (json_index (json_index checkpoint ''plan'') ''tasks'')))
      in attempting s (active_attempt_mut c s node attempt) (\<lambda>step.
           (put_step node (step\<lparr>sr_checkpoint := Some checkpoint\<rparr>) s,
            Inr [Emit_Run (TaskProgress node attempt completed total)])))"

section \<open>Permissions (permission.rs)\<close>

definition permission_required ::
    "compiled_orchestration \<Rightarrow> orchestration_run_state \<Rightarrow> node_id \<Rightarrow> u32 \<Rightarrow> string
      \<Rightarrow> orchestration_effect list run_result" where
  "permission_required c s node attempt permission_id =
     attempting s (active_attempt_mut c s node attempt) (\<lambda>step.
       if permission_id \<in> set (sr_pending_permissions step)
       then (s, Inl (Rejected (transition_error_of ''duplicate_permission''
              (''permission '' @ permission_id @ '' is already pending''))))
       else (settle (put_step node (step\<lparr>sr_status := Step_WaitingForPermission,
               sr_pending_permissions := sr_pending_permissions step @ [permission_id]\<rparr>) s),
             Inr [Emit_Run (PermissionRequested node attempt permission_id)]))"

definition permission_resolved ::
    "compiled_orchestration \<Rightarrow> orchestration_run_state \<Rightarrow> node_id \<Rightarrow> u32 \<Rightarrow> string \<Rightarrow> bool
      \<Rightarrow> orchestration_effect list run_result" where
  "permission_resolved c s node attempt permission_id approved =
     attempting s (active_attempt_mut c s node attempt) (\<lambda>step.
       if permission_id \<notin> set (sr_pending_permissions step)
       then (s, Inl (Rejected (transition_error_of ''unknown_permission''
              (''step '' @ node @ '' is not waiting on permission '' @ permission_id))))
       else (let pending = remove1 permission_id (sr_pending_permissions step);
                 step = step\<lparr>sr_pending_permissions := pending\<rparr>;
                 step = (if pending = [] then step\<lparr>sr_status := Step_Running\<rparr> else step)
             in (settle (put_step node step s),
                 Inr [Emit_Run (Ev_PermissionResolved node attempt permission_id approved)])))"

section \<open>Questions to the user (input\_wait.rs)\<close>

definition input_required ::
    "compiled_orchestration \<Rightarrow> orchestration_run_state \<Rightarrow> node_id \<Rightarrow> u32 \<Rightarrow> input_request
      \<Rightarrow> orchestration_effect list run_result" where
  "input_required c s node attempt request =
     attempting s (active_attempt_mut c s node attempt) (\<lambda>step.
       if sr_pending_input step \<noteq> None
       then (s, Inl (Rejected (transition_error_of ''input_pending''
              (''step '' @ node @ '' is already waiting for an answer''))))
       else if irq_decisions request = []
       then (s, Inl (Rejected (transition_error_of ''invalid_input_request''
              ''a question needs at least one possible answer'')))
       else (settle (put_step node (step\<lparr>sr_status := Step_WaitingForInput,
               sr_pending_input := Some request\<rparr>) s),
             Inr [Emit_Run (InputRequested node attempt request)]))"

definition input_resolved ::
    "compiled_orchestration \<Rightarrow> orchestration_run_state \<Rightarrow> node_id \<Rightarrow> u32 \<Rightarrow> string \<Rightarrow> input_response
      \<Rightarrow> orchestration_effect list run_result" where
  "input_resolved c s node attempt request_id response =
     attempting s (active_attempt_mut c s node attempt) (\<lambda>step.
       case (case sr_pending_input step of
               Some request \<Rightarrow> if irq_id request = request_id then Some request else None
             | None \<Rightarrow> None) of
         None \<Rightarrow>
           (s, Inl (Rejected (transition_error_of ''unknown_input''
             (''step '' @ node @ '' is not waiting on question '' @ request_id))))
       | Some request \<Rightarrow>
           (case List.find (\<lambda>decision. idn_id decision = irp_decision response) (irq_decisions request) of
              None \<Rightarrow>
                (s, Inl (Rejected (transition_error_of ''invalid_decision''
                  (irp_decision response @ '' is not one of the answers to question '' @ request_id))))
            | Some decision \<Rightarrow>
                if idn_requires_text decision \<and> \<not> is_some_and (\<lambda>answer. \<not> blank answer) (irp_text response)
                then (s, Inl (Rejected (transition_error_of ''missing_text''
                       (''the answer '' @ idn_id decision @ '' needs text''))))
                else (settle (put_step node (step\<lparr>sr_pending_input := None,
                        sr_status := (if sr_pending_permissions step = [] then Step_Running
                                      else Step_WaitingForPermission)\<rparr>) s),
                      Inr [Emit_Run (Ev_InputResolved node attempt request_id response)])))"

section \<open>How a step ends (finish.rs)\<close>

definition complete_run ::
    "orchestration_run_state \<Rightarrow> json \<Rightarrow> orchestration_effect list \<Rightarrow> orchestration_effect list run_result" where
  "complete_run s output effects =
     (let s = s\<lparr>rs_final_output := Some output, rs_status := Run_Completed\<rparr>
      in (s, Inr (effects @ [Emit_Run Ev_RunCompleted,
            Finish (result_from_state s Run_Outcome_Completed)])))"

definition mark_attempt_succeeded ::
    "compiled_orchestration \<Rightarrow> orchestration_run_state \<Rightarrow> node_id \<Rightarrow> u32 \<Rightarrow> json \<Rightarrow> attempt_details
      \<Rightarrow> unit run_result" where
  "mark_attempt_succeeded c s node attempt output details =
     attempting s (active_attempt_mut c s node attempt) (\<lambda>step.
       if sr_status step \<noteq> Step_Running
       then (s, Inl (Rejected (transition_error_of ''step_not_running''
              (''step '' @ node @ '' cannot succeed while '' @ step_status_name (sr_status step)))))
       else attempting s (current_attempt step) (\<lambda>current.
         let current = current\<lparr>at_status := Attempt_Succeeded, at_output := Some output,
               at_details := details\<rparr>;
             step = (put_current current step)\<lparr>sr_status := Step_Succeeded,
               sr_output := Some output, sr_error := None\<rparr>
         in (put_step node step s, Inr ())))"

definition succeed ::
    "compiled_orchestration \<Rightarrow> orchestration_run_state \<Rightarrow> node_id \<Rightarrow> u32 \<Rightarrow> json \<Rightarrow> attempt_details
      \<Rightarrow> orchestration_effect list run_result" where
  "succeed c s node attempt output details =
     (let is_output = is_some_and (\<lambda>n. is_output_node (on_kind n)) (co_node c node);
          (s, usage_effect) = record_usage s details
      in and_then (mark_attempt_succeeded c s node attempt output details) (\<lambda>s _.
           let effects = usage_effect @ [Emit_Run (Ev_StepSucceeded node attempt)]
           in if is_output then complete_run s output effects
              else case outgoing_for c node OnSuccess of
                Some edge \<Rightarrow>
                  and_then (activate s node (oe_target edge) OnSuccess effects)
                    (\<lambda>s effects. (settle s, Inr effects))
              | None \<Rightarrow>
                  terminate_failed s
                    (orchestration_error_new ''MISSING_TRANSITION''
                      (''step '' @ node @ '' has no success route'')) effects))"

record failed_attempt =
  fa_compiled :: compiled_orchestration
  fa_node :: orchestration_node
  fa_node_id :: node_id
  fa_attempt :: u32
  fa_error :: orchestration_error
  fa_budget_left :: bool

definition mark_attempt_failed ::
    "compiled_orchestration \<Rightarrow> orchestration_run_state \<Rightarrow> node_id \<Rightarrow> u32 \<Rightarrow> orchestration_error
      \<Rightarrow> attempt_details \<Rightarrow> unit run_result" where
  "mark_attempt_failed c s node attempt error details =
     attempting s (active_attempt_mut c s node attempt) (\<lambda>step.
       attempting s (current_attempt step) (\<lambda>current.
         let current = current\<lparr>at_status := Attempt_Failed, at_error := Some error,
               at_details := details\<rparr>;
             step = (put_current current step)\<lparr>sr_status := Step_Failed, sr_error := Some error,
               sr_pending_permissions := [], sr_pending_input := None\<rparr>
         in (put_step node step s, Inr ())))"

definition retry_same_step ::
    "failed_attempt \<Rightarrow> orchestration_run_state \<Rightarrow> orchestration_effect list
      \<Rightarrow> (bool \<times> orchestration_effect list) run_result" where
  "retry_same_step failed s effects =
     (let policy = on_retry (fa_node failed);
          retryable = is_some_and (\<lambda>reason. reason \<in> set (rp_retry_on policy))
            (oer_retry_reason (fa_error failed))
      in attempting s (step_state s (fa_node_id failed)) (\<lambda>step.
           let attempts_left = saturating_sub (fa_attempt failed) (sr_retry_base step) < rp_max_attempts policy
           in if \<not> (retryable \<and> attempts_left \<and> fa_budget_left failed) then (s, Inr (False, effects))
              else (settle (put_step (fa_node_id failed) (step\<lparr>sr_status := Step_RetryScheduled,
                      sr_feedback := sr_feedback step @ [fa_error failed]\<rparr>) s),
                    Inr (True, effects @ [Emit_Run (Ev_StepRetryScheduled (fa_node_id failed)
                      (fa_attempt failed + 1) (fa_node_id failed))]))))"

fun reset_span :: "node_id list \<Rightarrow> node_id \<Rightarrow> orchestration_run_state \<Rightarrow> unit run_result" where
  "reset_span [] target s = (s, Inr ())"
| "reset_span (node # rest) target s =
     attempting s (step_state s node) (\<lambda>step.
       let step = step\<lparr>sr_status := Step_Pending, sr_output := None,
             sr_checkpoint := (if node \<noteq> target then None else sr_checkpoint step)\<rparr>
       in reset_span rest target (put_step node step s))"

definition send_back ::
    "compiled_orchestration \<Rightarrow> orchestration_run_state \<Rightarrow> node_id \<Rightarrow> node_id \<Rightarrow> orchestration_error
      \<Rightarrow> orchestration_effect list \<Rightarrow> orchestration_effect list run_result" where
  "send_back c s sender target error effects =
     (case map_of (co_retry_spans c) sender of
        None \<Rightarrow> (s, Inl Panicked)
      | Some span \<Rightarrow>
          and_then (reset_span span target s) (\<lambda>s _.
            attempting s (step_state s target) (\<lambda>step.
              let next_attempt = of_nat (length (sr_attempts step)) + 1
              in (settle (put_step target (step\<lparr>sr_status := Step_RetryScheduled,
                    sr_feedback := sr_feedback step @ [error]\<rparr>) s),
                  Inr (effects @ [Emit_Run (Ev_StepRetryScheduled target next_attempt sender)])))))"

definition send_back_to_retry_target ::
    "failed_attempt \<Rightarrow> orchestration_run_state \<Rightarrow> orchestration_effect list
      \<Rightarrow> (bool \<times> orchestration_effect list) run_result" where
  "send_back_to_retry_target failed s effects =
     (case (on_kind (fa_node failed), oer_retry_reason (fa_error failed)) of
        (Node_Verify config, Some VerificationFailed) \<Rightarrow>
          (case vnc_retry_target config of
             None \<Rightarrow> (s, Inr (False, effects))
           | Some target_id \<Rightarrow>
               (case co_node (fa_compiled failed) target_id of
                  None \<Rightarrow>
                    (s, Inl (Rejected (transition_error_of ''unknown_step''
                      (''unknown retry target '' @ target_id))))
                | Some target \<Rightarrow>
                    attempting s (step_state s target_id) (\<lambda>step.
                      let attempts_left =
                        saturating_sub (of_nat (length (sr_attempts step))) (sr_retry_base step)
                          < rp_max_attempts (on_retry target)
                      in if \<not> (attempts_left \<and> fa_budget_left failed) then (s, Inr (False, effects))
                         else and_then
                           (send_back (fa_compiled failed) s (fa_node_id failed) target_id
                             (fa_error failed) effects)
                           (\<lambda>s effects. (s, Inr (True, effects))))))
      | _ \<Rightarrow> (s, Inr (False, effects)))"

definition changes_target :: "failed_attempt \<Rightarrow> node_id option" where
  "changes_target failed =
     (case (on_kind (fa_node failed), oer_retry_reason (fa_error failed)) of
        (Node_Approval config, Some ChangesRequested) \<Rightarrow>
          if fa_attempt failed \<le> apc_max_revisions config then revise_target config else None
      | (Node_Agent _, Some ChangesRequested) \<Rightarrow> task_plan_source (fa_node failed)
      | _ \<Rightarrow> None)"

definition send_back_for_changes ::
    "failed_attempt \<Rightarrow> orchestration_run_state \<Rightarrow> orchestration_effect list
      \<Rightarrow> (bool \<times> orchestration_effect list) run_result" where
  "send_back_for_changes failed s effects =
     (case changes_target failed of
        None \<Rightarrow> (s, Inr (False, effects))
      | Some target_id \<Rightarrow>
          if \<not> (fa_budget_left failed
               \<and> map_of (co_retry_spans (fa_compiled failed)) (fa_node_id failed) \<noteq> None)
          then (s, Inr (False, effects))
          else attempting s (step_state s target_id) (\<lambda>step.
            let step = step\<lparr>sr_retry_base := of_nat (length (sr_attempts step))\<rparr>
            in and_then
                 (send_back (fa_compiled failed) (put_step target_id step s) (fa_node_id failed)
                   target_id (fa_error failed) effects)
                 (\<lambda>s effects. (s, Inr (True, effects)))))"

definition take_failure_route ::
    "failed_attempt \<Rightarrow> orchestration_run_state \<Rightarrow> orchestration_effect list
      \<Rightarrow> (bool \<times> orchestration_effect list) run_result" where
  "take_failure_route failed s effects =
     (case outgoing_for (fa_compiled failed) (fa_node_id failed) OnFailure of
        None \<Rightarrow> (s, Inr (False, effects))
      | Some edge \<Rightarrow>
          and_then (activate s (fa_node_id failed) (oe_target edge) OnFailure effects)
            (\<lambda>s effects. (settle s, Inr (True, effects))))"

definition run_error_of :: "failed_attempt \<Rightarrow> orchestration_error" where
  "run_error_of failed =
     (if fa_budget_left failed then fa_error failed
      else orchestration_error_new ''BUDGET_EXHAUSTED''
        (''retry denied by budget after: '' @ oer_message (fa_error failed)))"

text \<open>The ways out of a failure, tried in order: \<open>a()? || b()? || ...\<close>.\<close>

fun first_way_out ::
    "(orchestration_run_state \<Rightarrow> orchestration_effect list
        \<Rightarrow> (bool \<times> orchestration_effect list) run_result) list
      \<Rightarrow> orchestration_run_state \<Rightarrow> orchestration_effect list
      \<Rightarrow> (bool \<times> orchestration_effect list) run_result" where
  "first_way_out [] s effects = (s, Inr (False, effects))"
| "first_way_out (way # ways) s effects =
     and_then (way s effects) (\<lambda>s (taken, effects).
       if taken then (s, Inr (True, effects)) else first_way_out ways s effects)"

definition fail ::
    "workflow_externals \<Rightarrow> compiled_orchestration \<Rightarrow> orchestration_run_state \<Rightarrow> node_id \<Rightarrow> u32
      \<Rightarrow> orchestration_error \<Rightarrow> attempt_details \<Rightarrow> orchestration_effect list run_result" where
  "fail ext c s node_id attempt error details =
     (case co_node c node_id of
        None \<Rightarrow>
          (s, Inl (Rejected (transition_error_of ''unknown_step'' (''unknown step '' @ node_id))))
      | Some node \<Rightarrow>
          (let (s, usage_effect) = record_usage s details
           in and_then (mark_attempt_failed c s node_id attempt error details) (\<lambda>s _.
                let effects = usage_effect @ [Emit_Run (Ev_StepFailed node_id attempt error)];
                    failed = \<lparr>fa_compiled = c, fa_node = node, fa_node_id = node_id,
                      fa_attempt = attempt, fa_error = error,
                      fa_budget_left = (exhausted_budget ext c s = None)\<rparr>
                in and_then
                     (first_way_out
                       [retry_same_step failed, send_back_to_retry_target failed,
                        send_back_for_changes failed, take_failure_route failed] s effects)
                     (\<lambda>s (taken, effects).
                       if taken then (s, Inr effects)
                       else terminate_failed (s\<lparr>rs_failed_step := Some node_id\<rparr>)
                              (run_error_of failed) effects))))"

section \<open>Pausing, cancelling and recovering (control.rs)\<close>

definition pause :: "orchestration_run_state \<Rightarrow> orchestration_effect list run_result" where
  "pause s =
     (if rs_paused s
      then (s, Inl (Rejected (transition_error_of ''already_paused'' ''run is already paused'')))
      else if rs_status s = Run_Created \<or> rs_status s = Run_Cancelling
      then (s, Inl (Rejected (transition_error_of ''invalid_run_status''
             (''cannot pause a run in status '' @ run_status_name (rs_status s)))))
      else (settle (s\<lparr>rs_paused := True\<rparr>), Inr [Emit_Run Ev_RunPaused]))"

definition resume :: "orchestration_run_state \<Rightarrow> orchestration_effect list run_result" where
  "resume s =
     (if \<not> rs_paused s
      then (s, Inl (Rejected (transition_error_of ''not_paused'' ''run is not paused'')))
      else (settle (s\<lparr>rs_paused := False\<rparr>), Inr [Emit_Run Ev_RunResumed]))"

definition cancel_step :: "step_attempt \<Rightarrow> step_run \<Rightarrow> step_run" where
  "cancel_step current step =
     (put_current (current\<lparr>at_status := Attempt_Cancelled\<rparr>) step)
       \<lparr>sr_status := Step_Cancelled, sr_pending_permissions := [], sr_pending_input := None\<rparr>"

text \<open>
  The loops of \<open>abort\<close> and \<open>cancel\<close> over the steps; what is done to a step with no attempt in
  flight is their parameter. An active step without an attempt ends the loop with an error.
\<close>

fun cancel_active ::
    "(step_status \<Rightarrow> step_status) \<Rightarrow> (node_id, step_run) btree_map
      \<Rightarrow> (node_id, step_run) btree_map \<times> (transition_error + orchestration_effect list)" where
  "cancel_active idle [] = ([], Inr [])"
| "cancel_active idle ((node, step) # rest) =
     (if is_active (sr_status step)
      then case current_attempt step of
             Inl e \<Rightarrow> ((node, step) # rest, Inl e)
           | Inr current \<Rightarrow>
               (let (rest', r) = cancel_active idle rest
                in ((node, cancel_step current step) # rest',
                    map_sum id (\<lambda>effects. CancelStep node (at_attempt current) # effects) r))
      else (let (rest', r) = cancel_active idle rest
            in ((node, step\<lparr>sr_status := idle (sr_status step)\<rparr>) # rest', r)))"

definition abort ::
    "orchestration_run_state \<Rightarrow> orchestration_error \<Rightarrow> orchestration_effect list run_result" where
  "abort s error =
     (let (steps, r) = cancel_active id (rs_steps s); s = s\<lparr>rs_steps := steps\<rparr>
      in attempting s r (\<lambda>effects. terminate_failed s error effects))"

definition cancellation_completed ::
    "orchestration_run_state \<Rightarrow> orchestration_effect list run_result" where
  "cancellation_completed s =
     attempting s (require_status (rs_status s) Run_Cancelling) (\<lambda>_.
       let s = s\<lparr>rs_status := Run_Cancelled\<rparr>
       in (s, Inr [Emit_Run Ev_RunCancelled, Finish (result_from_state s Run_Outcome_Cancelled)]))"

definition cancel :: "orchestration_run_state \<Rightarrow> orchestration_effect list run_result" where
  "cancel s =
     (if rs_status s = Run_Cancelling
      then (s, Inl (Rejected (transition_error_of ''already_cancelling'' ''run is already cancelling'')))
      else (let (steps, r) = cancel_active end_waiting (rs_steps s);
                s = s\<lparr>rs_status := Run_Cancelling, rs_steps := steps\<rparr>
            in attempting s r (\<lambda>effects.
                 if effects = [] then cancellation_completed s else (s, Inr effects))))"

fun replay_steps ::
    "node_id list \<Rightarrow> orchestration_run_state \<Rightarrow> orchestration_effect list
      \<Rightarrow> orchestration_effect list run_result" where
  "replay_steps [] s effects = (s, Inr effects)"
| "replay_steps (node # rest) s effects =
     attempting s (step_state s node) (\<lambda>step.
       attempting s (current_attempt step) (\<lambda>current.
         let step = (put_current (current\<lparr>at_status := Attempt_Cancelled\<rparr>) step)
               \<lparr>sr_status := Step_Ready, sr_pending_permissions := [], sr_pending_input := None\<rparr>
         in replay_steps rest (put_step node step s) (effects @ [Emit_Run (Ev_StepReady node)])))"

fun fail_indeterminate ::
    "node_id list \<Rightarrow> orchestration_error \<Rightarrow> orchestration_run_state \<Rightarrow> unit run_result" where
  "fail_indeterminate [] error s = (s, Inr ())"
| "fail_indeterminate (node # rest) error s =
     attempting s (step_state s node) (\<lambda>step.
       attempting s (current_attempt step) (\<lambda>current.
         let step = (put_current (current\<lparr>at_status := Attempt_Failed, at_error := Some error\<rparr>) step)
               \<lparr>sr_status := Step_Failed, sr_error := Some error,
                sr_pending_permissions := [], sr_pending_input := None\<rparr>
         in fail_indeterminate rest error (put_step node step s)))"

definition has_unknown_effects :: "compiled_orchestration \<Rightarrow> node_id \<Rightarrow> bool" where
  "has_unknown_effects c node \<longleftrightarrow>
     is_some_and (\<lambda>n. case on_kind n of Node_Agent _ \<Rightarrow> True | Node_Subflow _ \<Rightarrow> True | _ \<Rightarrow> False)
       (co_node c node)"

definition recover ::
    "compiled_orchestration \<Rightarrow> orchestration_run_state \<Rightarrow> orchestration_effect list run_result" where
  "recover c s =
     attempting s (check_restorable c s) (\<lambda>_.
       let restored = [Emit_Run Ev_RunRestored]
       in if rs_status s = Run_Cancelling
          then let s = s\<lparr>rs_steps := map (\<lambda>(node, step).
                     (node, if is_active (sr_status step) then step\<lparr>sr_status := Step_Cancelled\<rparr> else step))
                   (rs_steps s)\<rparr>
               in and_then (cancellation_completed s) (\<lambda>s effects. (s, Inr (restored @ effects)))
          else let active = map fst (filter (\<lambda>(_, step). is_active (sr_status step)) (rs_steps s));
                   indeterminate = filter (has_unknown_effects c) active;
                   replayable = filter (\<lambda>node. \<not> has_unknown_effects c node) active
               in and_then (replay_steps replayable s restored) (\<lambda>s effects.
                    if indeterminate = [] then (settle s, Inr effects)
                    else let error = orchestration_error_new ''INDETERMINATE_ATTEMPT''
                               (''step(s) '' @ join '', '' indeterminate
                                 @ '' were in flight when the run stopped; side effects are unknown'')
                         in and_then (fail_indeterminate indeterminate error s)
                              (\<lambda>s _. terminate_failed s error effects)))"

section \<open>The command table (reducer/mod.rs)\<close>

definition run_apply ::
    "workflow_externals \<Rightarrow> compiled_orchestration \<Rightarrow> orchestration_run_state \<Rightarrow> orchestration_command
      \<Rightarrow> orchestration_effect list run_result" where
  "run_apply ext c s command =
     (if is_terminal (rs_status s)
      then (s, Inl (Rejected (transition_error_of ''terminal_run''
             ''terminal orchestration runs cannot transition'')))
      else case command of
        RecordCheckpoint node attempt checkpoint \<Rightarrow> record_checkpoint c s node attempt checkpoint
      | Start_Run input \<Rightarrow> start c s input
      | StepAdmitted node attempt \<Rightarrow> admit ext c s node attempt
      | StepSucceeded node attempt output details \<Rightarrow> succeed c s node attempt output details
      | StepFailed node attempt error details \<Rightarrow> fail ext c s node attempt error details
      | PermissionRequired node attempt permission_id \<Rightarrow>
          permission_required c s node attempt permission_id
      | PermissionResolved node attempt permission_id approved \<Rightarrow>
          permission_resolved c s node attempt permission_id approved
      | InputRequired node attempt request \<Rightarrow> input_required c s node attempt request
      | InputResolved node attempt request_id response \<Rightarrow>
          input_resolved c s node attempt request_id response
      | RetryStep node \<Rightarrow> retry c s node
      | Pause_Run \<Rightarrow> pause s
      | Resume_Run \<Rightarrow> resume s
      | Abort_Run error \<Rightarrow> abort s error
      | Cancel_Run \<Rightarrow> cancel s
      | CancellationCompleted \<Rightarrow> cancellation_completed s
      | Recover_Run \<Rightarrow> recover c s)"

end
