(* ===== verification/Workflow_Contract.thy ===== *)
theory Workflow_Contract
  imports Workflow_Run
begin

text \<open>
  What every command keeps of a workflow run. At most one step holds the run's only token (it
  is ready, in flight or scheduled for a retry); the attempts of a step are numbered from one,
  only its last attempt is open and only while the step is active; a closed attempt never
  changes. The contract is proved per operation and lifted to sequences of commands.
\<close>

section \<open>The invariant\<close>

abbreviation steps_of :: "orchestration_run_state \<Rightarrow> node_id \<rightharpoonup> step_run" where
  "steps_of s \<equiv> map_of (rs_steps s)"

definition is_token :: "step_status \<Rightarrow> bool" where
  "is_token status \<longleftrightarrow> is_active status \<or> status = Step_Ready \<or> status = Step_RetryScheduled"

definition attempts_ok :: "bool \<Rightarrow> step_attempt list \<Rightarrow> bool" where
  "attempts_ok active xs \<longleftrightarrow>
     map at_attempt xs = map (\<lambda>i. of_nat (Suc i)) [0..<length xs]
   \<and> (\<forall>a \<in> set (butlast xs). at_status a \<noteq> Attempt_Running)
   \<and> (active \<longleftrightarrow> xs \<noteq> [] \<and> at_status (last xs) = Attempt_Running)"

definition step_ok :: "step_run \<Rightarrow> bool" where
  "step_ok step \<longleftrightarrow> attempts_ok (is_active (sr_status step)) (sr_attempts step)"

definition calm :: "orchestration_run_state \<Rightarrow> bool" where
  "calm s \<longleftrightarrow> (\<forall>n step. steps_of s n = Some step \<longrightarrow> \<not> is_token (sr_status step))"

definition single_token :: "orchestration_run_state \<Rightarrow> bool" where
  "single_token s \<longleftrightarrow>
     (\<forall>n m a b. steps_of s n = Some a \<longrightarrow> steps_of s m = Some b \<longrightarrow>
        is_token (sr_status a) \<longrightarrow> is_token (sr_status b) \<longrightarrow> n = m)"

definition attempts_made :: "orchestration_run_state \<Rightarrow> nat" where
  "attempts_made s = sum_list (map (\<lambda>(_, step). length (sr_attempts step)) (rs_steps s))"

definition has_ended :: "orchestration_status \<Rightarrow> bool" where
  "has_ended status \<longleftrightarrow> is_terminal status \<or> status = Run_Cancelling"

definition within_attempts :: "compiled_orchestration \<Rightarrow> nat \<Rightarrow> bool" where
  "within_attempts c n \<longleftrightarrow>
     (\<forall>limit. op_max_total_attempts (od_policies (co_definition c)) = Some limit \<longrightarrow> n \<le> unat limit)"

definition run_core :: "compiled_orchestration \<Rightarrow> orchestration_run_state \<Rightarrow> bool" where
  "run_core c s \<longleftrightarrow>
     hm_wf (rs_steps s) \<and> fst ` set (rs_steps s) = fst ` set (co_nodes c)
   \<and> (\<forall>n step. steps_of s n = Some step \<longrightarrow> step_ok step)
   \<and> single_token s
   \<and> (has_ended (rs_status s) \<longrightarrow> calm s)
   \<and> rs_total_attempts s = of_nat (attempts_made s)
   \<and> within_attempts c (attempts_made s)"

definition run_ok :: "compiled_orchestration \<Rightarrow> orchestration_run_state \<Rightarrow> bool" where
  "run_ok c s \<longleftrightarrow> run_core c s \<and> (rs_status s = Run_Created \<longrightarrow> calm s)"

lemmas run_coreD =
  run_core_def [THEN iffD1, THEN conjunct1]
  run_core_def [THEN iffD1, THEN conjunct2, THEN conjunct1]
  run_core_def [THEN iffD1, THEN conjunct2, THEN conjunct2, THEN conjunct1, rule_format]
  run_core_def [THEN iffD1, THEN conjunct2, THEN conjunct2, THEN conjunct2, THEN conjunct1]
  run_core_def [THEN iffD1, THEN conjunct2, THEN conjunct2, THEN conjunct2, THEN conjunct2,
    THEN conjunct1, rule_format]

lemma token_simps [simp]:
  "\<not> is_token Step_Pending" "is_token Step_Ready" "is_token Step_RetryScheduled"
  "is_token Step_Running" "is_token Step_WaitingForPermission" "is_token Step_WaitingForInput"
  "\<not> is_token Step_Succeeded" "\<not> is_token Step_Failed" "\<not> is_token Step_Skipped"
  "\<not> is_token Step_Cancelled"
  "\<not> is_active Step_Pending" "\<not> is_active Step_Ready" "\<not> is_active Step_RetryScheduled"
  "is_active Step_Running" "is_active Step_WaitingForPermission" "is_active Step_WaitingForInput"
  "\<not> is_active Step_Succeeded" "\<not> is_active Step_Failed" "\<not> is_active Step_Skipped"
  "\<not> is_active Step_Cancelled"
  by (simp_all add: is_token_def is_active_def)

lemma is_active_token: "is_active status \<Longrightarrow> is_token status"
  by (simp add: is_token_def)

lemma not_token_not_active: "\<not> is_token status \<Longrightarrow> \<not> is_active status"
  by (simp add: is_token_def)

lemma end_waiting_not_token: "\<not> is_active status \<Longrightarrow> \<not> is_token (end_waiting status)"
  by (cases status) simp_all

lemma end_waiting_active [simp]: "is_active (end_waiting status) = is_active status"
  by (cases status) simp_all

section \<open>Attempts\<close>

definition attempts_frozen :: "step_attempt list \<Rightarrow> step_attempt list \<Rightarrow> bool" where
  "attempts_frozen xs ys \<longleftrightarrow>
     length xs \<le> length ys
   \<and> (\<forall>i < length xs. at_attempt (ys ! i) = at_attempt (xs ! i)
        \<and> (at_status (xs ! i) \<noteq> Attempt_Running \<longrightarrow> ys ! i = xs ! i))"

lemma attempts_frozen_refl [simp]: "attempts_frozen xs xs"
  by (simp add: attempts_frozen_def)

lemma attempts_frozen_trans:
  "attempts_frozen xs ys \<Longrightarrow> attempts_frozen ys zs \<Longrightarrow> attempts_frozen xs zs"
  unfolding attempts_frozen_def by (metis le_trans order_less_le_trans)

lemma attempts_ok_close:
  assumes "attempts_ok True xs" and "at_attempt a = at_attempt (last xs)"
    and "at_status a \<noteq> Attempt_Running"
  shows "attempts_ok False (butlast xs @ [a])" and "attempts_frozen xs (butlast xs @ [a])"
proof -
  obtain ys b where xs: "xs = ys @ [b]" "at_status b = Attempt_Running"
    using assms(1) by (cases xs rule: rev_cases) (auto simp: attempts_ok_def)
  show "attempts_ok False (butlast xs @ [a])"
    using assms xs by (auto simp: attempts_ok_def)
  show "attempts_frozen xs (butlast xs @ [a])"
    using assms xs by (auto simp: attempts_frozen_def nth_append)
qed

lemma attempts_ok_open:
  assumes "attempts_ok False xs"
  shows "attempts_ok True (xs @ [new_attempt (of_nat (length xs) + 1)])"
    and "attempts_frozen xs (xs @ [new_attempt (of_nat (length xs) + 1)])"
proof -
  have "at_status a \<noteq> Attempt_Running" if "a \<in> set xs" for a
    using assms that by (cases xs rule: rev_cases) (auto simp: attempts_ok_def)
  then show "attempts_ok True (xs @ [new_attempt (of_nat (length xs) + 1)])"
    using assms by (auto simp: attempts_ok_def new_attempt_def ac_simps)
  show "attempts_frozen xs (xs @ [new_attempt (of_nat (length xs) + 1)])"
    by (simp add: attempts_frozen_def nth_append)
qed

section \<open>Writing one step\<close>

definition frozen :: "orchestration_run_state \<Rightarrow> orchestration_run_state \<Rightarrow> bool" where
  "frozen s t \<longleftrightarrow>
     (\<forall>n a. steps_of s n = Some a \<longrightarrow>
        (\<exists>b. steps_of t n = Some b \<and> attempts_frozen (sr_attempts a) (sr_attempts b)))"

definition attempt_count :: "orchestration_run_state \<Rightarrow> node_id \<Rightarrow> nat" where
  "attempt_count s n = (case steps_of s n of None \<Rightarrow> 0 | Some step \<Rightarrow> length (sr_attempts step))"

text \<open>What an operation keeps that opens no attempt.\<close>

definition kept :: "orchestration_run_state \<Rightarrow> orchestration_run_state \<Rightarrow> bool" where
  "kept s t \<longleftrightarrow> frozen s t \<and> attempt_count t = attempt_count s"

lemma kept_refl [simp]: "kept s s"
  by (auto simp: kept_def frozen_def)

lemma frozen_trans:
  assumes "frozen s t" and "frozen t u"
  shows "frozen s u"
  unfolding frozen_def
proof (intro allI impI)
  fix n a
  assume "steps_of s n = Some a"
  with assms(1) obtain b where b: "steps_of t n = Some b" "attempts_frozen (sr_attempts a) (sr_attempts b)"
    unfolding frozen_def by blast
  with assms(2) obtain d where "steps_of u n = Some d" "attempts_frozen (sr_attempts b) (sr_attempts d)"
    unfolding frozen_def by blast
  with b show "\<exists>d. steps_of u n = Some d \<and> attempts_frozen (sr_attempts a) (sr_attempts d)"
    by (blast intro: attempts_frozen_trans)
qed

lemma kept_trans: "kept s t \<Longrightarrow> kept t u \<Longrightarrow> kept s u"
  unfolding kept_def by (auto intro: frozen_trans)

lemma kept_steps: "rs_steps t = rs_steps s \<Longrightarrow> kept s t"
  by (auto simp: kept_def frozen_def attempt_count_def fun_eq_iff)

lemma steps_of_put: "steps_of (put_step n step s) = (steps_of s)(n \<mapsto> step)"
  by (simp add: put_step_def update_conv')

lemma put_step_frame [simp]:
  "rs_status (put_step n step s) = rs_status s"
  "rs_total_attempts (put_step n step s) = rs_total_attempts s"
  "rs_paused (put_step n step s) = rs_paused s"
  by (simp_all add: put_step_def)

lemma kept_put:
  assumes "steps_of s n = Some a" and "attempts_frozen (sr_attempts a) (sr_attempts b)"
    and "length (sr_attempts b) = length (sr_attempts a)"
  shows "kept s (put_step n b s)"
  using assms by (auto simp: kept_def frozen_def attempt_count_def steps_of_put fun_eq_iff)

lemma attempts_made_update:
  "map_of m n = Some a \<Longrightarrow>
     sum_list (map (\<lambda>(_, step). length (sr_attempts step)) (AList.update n b m)) + length (sr_attempts a)
     = sum_list (map (\<lambda>(_, step). length (sr_attempts step)) m) + length (sr_attempts b)"
  by (induction m) (auto split: if_splits)

lemma attempts_made_put:
  "steps_of s n = Some a \<Longrightarrow>
     attempts_made (put_step n b s) + length (sr_attempts a) = attempts_made s + length (sr_attempts b)"
  by (simp add: attempts_made_def put_step_def attempts_made_update)

lemma keys_put: "steps_of s n = Some a \<Longrightarrow> fst ` set (rs_steps (put_step n b s)) = fst ` set (rs_steps s)"
  by (auto simp: put_step_def set_hm_keys_update dest!: map_of_SomeD intro: rev_image_eqI)

lemma hm_wf_put: "hm_wf (rs_steps s) \<Longrightarrow> hm_wf (rs_steps (put_step n b s))"
  by (simp add: put_step_def)

lemma single_token_put:
  assumes "single_token s" and "steps_of s n = Some a"
    and "is_token (sr_status b) \<Longrightarrow> is_token (sr_status a) \<or> calm s"
  shows "single_token (put_step n b s)"
  using assms unfolding single_token_def calm_def steps_of_put by (auto split: if_splits)

lemma calm_put:
  assumes "single_token s" and "steps_of s n = Some a" and "\<not> is_token (sr_status b)"
    and "is_token (sr_status a) \<or> calm s"
  shows "calm (put_step n b s)"
  using assms unfolding single_token_def calm_def steps_of_put by (auto split: if_splits)

lemma run_core_put:
  assumes core: "run_core c s" and a: "steps_of s n = Some a" and ok: "step_ok b"
    and len: "length (sr_attempts b) = length (sr_attempts a)"
    and tok: "is_token (sr_status b) \<Longrightarrow>
      (is_token (sr_status a) \<or> calm s) \<and> \<not> has_ended (rs_status s)"
  shows "run_core c (put_step n b s)"
proof -
  have made: "attempts_made (put_step n b s) = attempts_made s"
    using attempts_made_put [OF a, of b] len by simp
  have "calm (put_step n b s)" if "has_ended (rs_status s)"
    using calm_put [OF run_coreD(4) [OF core] a] tok that run_coreD(5) [OF core that] by blast
  moreover have "step_ok step" if "steps_of (put_step n b s) m = Some step" for m step
    using that ok run_coreD(3) [OF core] by (auto simp: steps_of_put split: if_splits)
  moreover have "single_token (put_step n b s)"
    using single_token_put [OF run_coreD(4) [OF core] a] tok by blast
  ultimately show ?thesis
    using core made keys_put [OF a] hm_wf_put [of s n b] by (simp add: run_core_def)
qed

section \<open>Settling and other writes\<close>

lemma settle_frame [simp]:
  "rs_steps (settle s) = rs_steps s" "rs_total_attempts (settle s) = rs_total_attempts s"
  by (simp_all add: settle_def)

lemma settle_status:
  "has_ended (rs_status s) \<Longrightarrow> settle s = s"
  "\<not> has_ended (rs_status s) \<Longrightarrow> \<not> has_ended (rs_status (settle s)) \<and> rs_status (settle s) \<noteq> Run_Created"
  by (auto simp: settle_def has_ended_def is_terminal_def split: option.splits step_status.splits)

lemma run_core_steps:
  assumes "run_core c s" and "rs_steps t = rs_steps s" and "rs_total_attempts t = rs_total_attempts s"
    and "has_ended (rs_status t) \<Longrightarrow> calm s"
  shows "run_core c t"
  using assms by (simp add: run_core_def single_token_def calm_def attempts_made_def)

lemma run_core_frame:
  assumes "run_core c s" and "rs_steps t = rs_steps s" and "rs_total_attempts t = rs_total_attempts s"
    and "rs_status t = rs_status s"
  shows "run_core c t"
  using assms run_coreD(5) [OF assms(1)] by (intro run_core_steps [of c s t]) auto

lemma run_ok_settle:
  assumes "run_core c s"
  shows "run_ok c (settle s)"
proof (cases "has_ended (rs_status s)")
  case True
  with assms show ?thesis
    using settle_status(1) [OF True] run_coreD(5) [OF assms True] by (simp add: run_ok_def)
next
  case False
  with assms show ?thesis
    using settle_status(2) [OF False] by (auto simp: run_ok_def intro: run_core_steps)
qed

section \<open>Operations on the active step\<close>

definition keeps_run ::
    "compiled_orchestration \<Rightarrow> orchestration_run_state \<Rightarrow> 'a run_result \<Rightarrow> bool" where
  "keeps_run c s r \<longleftrightarrow> run_ok c (fst r) \<and> kept s (fst r)"

lemma keeps_run_stay [simp]: "run_ok c s \<Longrightarrow> keeps_run c s (s, r)"
  by (simp add: keeps_run_def)

lemma and_then_simps [simp]:
  "and_then (s, Inl e) k = (s, Inl e)" "and_then (s, Inr a) k = k s a"
  by (simp_all add: and_then_def)

lemma keeps_run_attempting:
  "run_ok c t \<Longrightarrow> kept s t \<Longrightarrow> (\<And>a. r = Inr a \<Longrightarrow> keeps_run c s (k a)) \<Longrightarrow>
     keeps_run c s (attempting t r k)"
  by (cases r) (auto simp: attempting_def keeps_run_def)

lemma keeps_run_settle: "run_core c t \<Longrightarrow> kept s t \<Longrightarrow> keeps_run c s (settle t, r)"
  using kept_trans [of s t "settle t"] by (simp add: keeps_run_def run_ok_settle kept_steps)

lemma step_state_Inr: "step_state s n = Inr step \<longleftrightarrow> steps_of s n = Some step"
  by (auto simp: step_state_def split: option.splits)

lemma step_mut_Inr: "step_mut c s n = Inr step \<longleftrightarrow> co_node c n \<noteq> None \<and> steps_of s n = Some step"
  by (auto simp: step_mut_def split: option.splits)

lemma active_attempt_mut_Inr:
  "active_attempt_mut c s n attempt = Inr step \<longleftrightarrow>
     co_node c n \<noteq> None \<and> steps_of s n = Some step \<and> is_active (sr_status step)
   \<and> sr_attempts step \<noteq> [] \<and> at_attempt (last (sr_attempts step)) = attempt"
  by (auto simp: active_attempt_mut_def step_mut_def split: option.splits if_splits)

lemma current_attempt_Inr:
  "current_attempt step = Inr a \<longleftrightarrow> sr_attempts step \<noteq> [] \<and> a = last (sr_attempts step)"
  by (auto simp: current_attempt_def)

lemma run_ok_core: "run_ok c s \<Longrightarrow> run_core c s"
  by (simp add: run_ok_def)

lemma token_status:
  assumes "run_ok c s" and "steps_of s n = Some step" and "is_token (sr_status step)"
  shows "rs_status s \<noteq> Run_Created" and "\<not> has_ended (rs_status s)"
  using assms by (auto simp: run_ok_def run_core_def calm_def)

lemma run_core_put_same:
  assumes "run_ok c s" and "steps_of s n = Some a"
    and "sr_attempts b = sr_attempts a" and "is_active (sr_status b) = is_active (sr_status a)"
    and "is_token (sr_status b) = is_token (sr_status a)"
  shows "run_core c (put_step n b s)" and "kept s (put_step n b s)"
proof -
  have "step_ok b" using run_coreD(3) [OF run_ok_core [OF assms(1)] assms(2)] assms by (simp add: step_ok_def)
  then show "run_core c (put_step n b s)"
    using assms token_status [OF assms(1,2)] by (intro run_core_put [OF run_ok_core]) auto
  show "kept s (put_step n b s)" using assms by (intro kept_put) auto
qed

lemma keeps_record_checkpoint: "run_ok c s \<Longrightarrow> keeps_run c s (record_checkpoint c s n attempt v)"
  unfolding record_checkpoint_def Let_def
proof (rule keeps_run_attempting)
  fix step assume ok: "run_ok c s" and step: "active_attempt_mut c s n attempt = Inr step"
  then have s: "steps_of s n = Some step" "is_token (sr_status step)"
    by (auto simp: active_attempt_mut_Inr is_active_token)
  let ?b = "step\<lparr>sr_checkpoint := Some v\<rparr>"
  have "run_core c (put_step n ?b s)" "kept s (put_step n ?b s)"
    using run_core_put_same [OF ok s(1), of ?b] by simp_all
  then show "keeps_run c s (put_step n ?b s, Inr [Emit_Run (TaskProgress n attempt k m)])" for k m
    using token_status(1) [OF ok s] by (simp add: keeps_run_def run_ok_def)
qed simp_all

lemma keeps_active_update:
  assumes "run_ok c s" and "active_attempt_mut c s n attempt = Inr step"
    and "sr_attempts b = sr_attempts step" and "is_active (sr_status b)"
  shows "keeps_run c s (settle (put_step n b s), r)"
proof (rule keeps_run_settle)
  have "steps_of s n = Some step" "is_active (sr_status step)"
    using assms(2) by (auto simp: active_attempt_mut_Inr)
  then show "run_core c (put_step n b s)" "kept s (put_step n b s)"
    using run_core_put_same [OF assms(1), of n step b] assms by (simp_all add: is_token_def)
qed

lemma keeps_permission_required: "run_ok c s \<Longrightarrow> keeps_run c s (permission_required c s n attempt p)"
  unfolding permission_required_def
  by (rule keeps_run_attempting) (auto intro: keeps_active_update)

lemma keeps_permission_resolved: "run_ok c s \<Longrightarrow> keeps_run c s (permission_resolved c s n attempt p d)"
  unfolding permission_resolved_def Let_def
  by (rule keeps_run_attempting)
     (auto simp: active_attempt_mut_Inr intro!: keeps_active_update)

lemma keeps_input_required: "run_ok c s \<Longrightarrow> keeps_run c s (input_required c s n attempt q)"
  unfolding input_required_def
  by (rule keeps_run_attempting) (auto intro: keeps_active_update)

lemma keeps_input_resolved: "run_ok c s \<Longrightarrow> keeps_run c s (input_resolved c s n attempt q a)"
  unfolding input_resolved_def
  by (rule keeps_run_attempting)
     (auto split: option.splits intro!: keeps_active_update)

lemma keeps_retry: "run_ok c s \<Longrightarrow> keeps_run c s (retry c s n)"
  unfolding retry_def
proof (rule keeps_run_attempting)
  fix step assume ok: "run_ok c s" and "step_mut c s n = Inr step"
  then have s: "steps_of s n = Some step" by (simp add: step_mut_Inr)
  show "keeps_run c s (if sr_status step \<noteq> Step_RetryScheduled
      then (s, Inl (Rejected (transition_error_of ''retry_not_scheduled'' ''step has no scheduled retry'')))
      else (settle (put_step n (step\<lparr>sr_status := Step_Ready\<rparr>) s), Inr [Emit_Run (Ev_StepReady n)]))"
    using ok run_core_put_same [OF ok s, of "step\<lparr>sr_status := Step_Ready\<rparr>"]
    by (auto intro!: keeps_run_settle)
qed simp_all

lemma keeps_pause: "run_ok c s \<Longrightarrow> keeps_run c s (pause s)"
  unfolding pause_def
  by (auto intro!: keeps_run_settle kept_steps run_core_steps [OF run_ok_core]
      simp: run_ok_def run_core_def)

lemma keeps_resume: "run_ok c s \<Longrightarrow> keeps_run c s (resume s)"
  unfolding resume_def
  by (auto intro!: keeps_run_settle kept_steps run_core_steps [OF run_ok_core]
      simp: run_ok_def run_core_def)

lemma keeps_start: "run_ok c s \<Longrightarrow> keeps_run c s (start c s input)"
  unfolding start_def Let_def
proof (intro keeps_run_attempting)
  assume ok: "run_ok c s"
  let ?s = "s\<lparr>rs_input := Some input\<rparr>"
  have "run_core c ?s" by (rule run_core_frame [OF run_ok_core [OF ok]]) simp_all
  then show "run_ok c ?s" using ok by (simp add: run_ok_def calm_def)
  show "kept s ?s" by (rule kept_steps) simp
  fix u step
  assume "require_status (rs_status s) Run_Created = Inr u" and "step_state ?s (co_entry_node c) = Inr step"
  then have created: "rs_status s = Run_Created" and step: "steps_of ?s (co_entry_node c) = Some step"
    by (auto simp: require_status_def step_state_Inr split: if_splits)
  then have calm: "calm ?s" using ok by (simp add: run_ok_def calm_def)
  have "\<not> is_token (sr_status step)" using calm step by (simp add: calm_def)
  then have "step_ok (step\<lparr>sr_status := Step_Ready\<rparr>)"
    using run_coreD(3) [OF run_ok_core [OF \<open>run_ok c ?s\<close>] step] not_token_not_active
    by (simp add: step_ok_def)
  then have "run_core c (put_step (co_entry_node c) (step\<lparr>sr_status := Step_Ready\<rparr>) ?s)"
    using created calm
    by (intro run_core_put [OF run_ok_core [OF \<open>run_ok c ?s\<close>] step]) (auto simp: has_ended_def is_terminal_def)
  moreover have "kept ?s (put_step (co_entry_node c) (step\<lparr>sr_status := Step_Ready\<rparr>) ?s)"
    using step by (intro kept_put) auto
  ultimately show "keeps_run c s (settle (put_step (co_entry_node c) (step\<lparr>sr_status := Step_Ready\<rparr>) ?s), r)" for r
    using \<open>kept s ?s\<close> by (intro keeps_run_settle) (auto intro: kept_trans)
qed simp_all

section \<open>Ending a run\<close>

text \<open>Rewriting every step by a function of it.\<close>

abbreviation rewrite_steps :: "(step_run \<Rightarrow> step_run) \<Rightarrow> orchestration_run_state \<Rightarrow> orchestration_run_state" where
  "rewrite_steps f s \<equiv> s\<lparr>rs_steps := map (\<lambda>(node, step). (node, f step)) (rs_steps s)\<rparr>"

lemma map_of_rewrite: "map_of (map (\<lambda>(node, step). (node, f step)) m) = map_option f \<circ> map_of m"
  by (rule map_of_map)

lemma attempts_made_rewrite:
  "(\<And>node step. (node, step) \<in> set m \<Longrightarrow> length (sr_attempts (f step)) = length (sr_attempts step)) \<Longrightarrow>
     sum_list (map (\<lambda>(_, step). length (sr_attempts step)) (map (\<lambda>(node, step). (node, f step)) m))
     = sum_list (map (\<lambda>(_, step). length (sr_attempts step)) m)"
  unfolding map_map by (rule arg_cong [where f = sum_list], rule map_cong) auto

lemma run_core_rewrite:
  assumes core: "run_core c s" and steps: "rs_steps t = map (\<lambda>(node, step). (node, f step)) (rs_steps s)"
    and total: "rs_total_attempts t = rs_total_attempts s"
    and each: "\<And>n step. steps_of s n = Some step \<Longrightarrow>
        step_ok (f step) \<and> length (sr_attempts (f step)) = length (sr_attempts step)
      \<and> attempts_frozen (sr_attempts step) (sr_attempts (f step))
      \<and> (is_token (sr_status (f step)) \<longrightarrow> is_token (sr_status step) \<and> \<not> has_ended (rs_status t))"
  shows "run_core c t" and "kept s t"
proof -
  have t: "steps_of t = map_option f \<circ> steps_of s" by (simp add: steps map_of_rewrite)
  have "single_token t"
    unfolding single_token_def t using each run_coreD(4) [OF core] by (auto simp: single_token_def)
  moreover have "calm t" if "has_ended (rs_status t)"
    unfolding calm_def t using each that by auto
  moreover have "hm_wf (rs_steps t)" "fst ` set (rs_steps t) = fst ` set (rs_steps s)"
    using run_coreD(1) [OF core] by (simp_all add: steps split_def comp_def image_image)
  moreover have "step_ok step" if "steps_of t n = Some step" for n step
    using each that unfolding t by auto
  moreover have "attempts_made t = attempts_made s"
    unfolding attempts_made_def steps
    by (rule attempts_made_rewrite) (use each run_coreD(1) [OF core] in simp)
  ultimately show "run_core c t"
    using core total by (simp add: run_core_def)
  show "kept s t"
    unfolding kept_def frozen_def t using each
    by (auto simp: attempt_count_def t fun_eq_iff split: option.splits)
qed

lemma keeps_terminate_failed:
  assumes "run_core c s" and "\<And>n step. steps_of s n = Some step \<Longrightarrow> \<not> is_active (sr_status step)"
    and "kept s0 s"
  shows "keeps_run c s0 (terminate_failed s error effects)"
proof -
  let ?f = "\<lambda>step. step\<lparr>sr_status := end_waiting (sr_status step)\<rparr>"
  let ?t = "s\<lparr>rs_status := Run_Failed, rs_error := Some error,
    rs_steps := map (\<lambda>(node, step). (node, ?f step)) (rs_steps s)\<rparr>"
  have each: "step_ok (?f step) \<and> length (sr_attempts (?f step)) = length (sr_attempts step)
      \<and> attempts_frozen (sr_attempts step) (sr_attempts (?f step))
      \<and> (is_token (sr_status (?f step)) \<longrightarrow> is_token (sr_status step) \<and> \<not> has_ended (rs_status ?t))"
    if "steps_of s n = Some step" for n step
    using assms(2) [OF that] run_coreD(3) [OF assms(1) that] end_waiting_not_token
    by (simp add: step_ok_def)
  have "run_core c ?t" "kept s ?t"
    by (rule run_core_rewrite [OF assms(1), where f = ?f]; use each in simp)+
  then show ?thesis
    using kept_trans [OF assms(3)] by (simp add: keeps_run_def terminate_failed_def Let_def run_ok_def)
qed

text \<open>The state after the step in flight has ended and before its follow-up is chosen.\<close>

definition spent :: "compiled_orchestration \<Rightarrow> orchestration_run_state \<Rightarrow> orchestration_run_state \<Rightarrow> bool" where
  "spent c s0 s \<longleftrightarrow>
     run_core c s \<and> kept s0 s \<and> calm s \<and> \<not> has_ended (rs_status s) \<and> rs_status s \<noteq> Run_Created"

lemma spentD:
  assumes "spent c s0 s"
  shows "run_ok c s" "kept s0 s" "keeps_run c s0 (s, r)"
    and "steps_of s n = Some step \<Longrightarrow> \<not> is_token (sr_status step)"
  using assms by (auto simp: spent_def run_ok_def keeps_run_def calm_def)

lemma keeps_run_spent_terminate:
  assumes "spent c s0 s" and "rs_steps t = rs_steps s" and "rs_total_attempts t = rs_total_attempts s"
    and "rs_status t = rs_status s"
  shows "keeps_run c s0 (terminate_failed t error effects)"
proof (rule keeps_terminate_failed)
  show "run_core c t" using assms run_core_frame [of c s t] by (simp add: spent_def)
  show "kept s0 t" using assms kept_trans [OF spentD(2) [OF assms(1)] kept_steps] by simp
  show "\<not> is_active (sr_status step)" if "steps_of t n = Some step" for n step
    using assms that by (auto simp: spent_def calm_def dest: not_token_not_active)
qed

lemma spent_put_pending:
  assumes "spent c s0 s" and a: "steps_of s n = Some a" and "sr_attempts b = sr_attempts a"
    and "\<not> is_token (sr_status b)"
  shows "spent c s0 (put_step n b s)"
proof -
  have core: "run_core c s" and "calm s" using assms(1) by (simp_all add: spent_def)
  have "\<not> is_active (sr_status a)" using spentD(4) [OF assms(1) a] by (rule not_token_not_active)
  then have "step_ok b"
    using run_coreD(3) [OF core a] not_token_not_active [OF assms(4)] assms(3) by (simp add: step_ok_def)
  then have "run_core c (put_step n b s)"
    using assms by (intro run_core_put [OF core a]) auto
  moreover have "calm (put_step n b s)"
    using calm_put [OF run_coreD(4) [OF core] a] assms(4) \<open>calm s\<close> by blast
  moreover have "kept s0 (put_step n b s)"
    using kept_trans [OF spentD(2) [OF assms(1)] kept_put [OF a]] assms(3) by simp
  ultimately show ?thesis using assms(1) by (simp add: spent_def)
qed

lemma keeps_spent_settle_put:
  assumes "spent c s0 s" and a: "steps_of s n = Some a" and "sr_attempts b = sr_attempts a"
    and "\<not> is_active (sr_status b)"
  shows "run_core c (put_step n b s)" and "kept s0 (put_step n b s)"
    and "keeps_run c s0 (settle (put_step n b s), r)"
proof -
  have core: "run_core c s" and "calm s" and "\<not> has_ended (rs_status s)" using assms(1) by (simp_all add: spent_def)
  have "\<not> is_active (sr_status a)" using spentD(4) [OF assms(1) a] by (rule not_token_not_active)
  then have "step_ok b"
    using run_coreD(3) [OF core a] assms(3,4) by (simp add: step_ok_def)
  then show core': "run_core c (put_step n b s)"
    using \<open>calm s\<close> \<open>\<not> has_ended (rs_status s)\<close> assms by (intro run_core_put [OF core a]) auto
  show kept': "kept s0 (put_step n b s)"
    using kept_trans [OF spentD(2) [OF assms(1)] kept_put [OF a]] assms(3) by simp
  show "keeps_run c s0 (settle (put_step n b s), r)" by (rule keeps_run_settle [OF core' kept'])
qed

section \<open>Closing an attempt\<close>

lemma spent_close:
  assumes ok: "run_ok c s" and step: "active_attempt_mut c s n attempt = Inr step"
    and "at_attempt a = at_attempt (last (sr_attempts step))" and "at_status a \<noteq> Attempt_Running"
    and "sr_attempts b = butlast (sr_attempts step) @ [a]" and "\<not> is_token (sr_status b)"
  shows "spent c s (put_step n b s)"
proof -
  have s: "steps_of s n = Some step" "is_active (sr_status step)" "sr_attempts step \<noteq> []"
    using step by (auto simp: active_attempt_mut_Inr)
  have core: "run_core c s" using ok by (rule run_ok_core)
  have "attempts_ok True (sr_attempts step)" using run_coreD(3) [OF core s(1)] s(2) by (simp add: step_ok_def)
  note close = attempts_ok_close [OF this assms(3,4), folded assms(5)]
  have "step_ok b" using close(1) not_token_not_active [OF assms(6)] by (simp add: step_ok_def)
  moreover have len: "length (sr_attempts b) = length (sr_attempts step)" using assms(5) s(3) by simp
  ultimately have "run_core c (put_step n b s)" using assms(6) by (intro run_core_put [OF core s(1)]) auto
  moreover have "calm (put_step n b s)"
    using calm_put [OF run_coreD(4) [OF core] s(1)] assms(6) is_active_token [OF s(2)] by blast
  moreover have "kept s (put_step n b s)" by (rule kept_put [OF s(1) close(2) len])
  ultimately show ?thesis
    using token_status [OF ok s(1) is_active_token [OF s(2)]] by (simp add: spent_def)
qed

lemma record_usage_frame:
  assumes "record_usage s details = (t, es)"
  shows "rs_steps t = rs_steps s" "rs_status t = rs_status s" "rs_total_attempts t = rs_total_attempts s"
    "run_ok c s \<Longrightarrow> run_ok c t" "kept s t"
proof -
  show f: "rs_steps t = rs_steps s" "rs_status t = rs_status s" "rs_total_attempts t = rs_total_attempts s"
    using assms by (auto simp: record_usage_def Let_def split: if_splits)
  show "run_ok c t" if "run_ok c s"
    using that f run_core_frame [of c s t] by (simp add: run_ok_def calm_def)
  show "kept s t" by (rule kept_steps [OF f(1)])
qed

lemma mark_attempt_succeeded_cases:
  assumes "run_ok c s"
  obtains e where "mark_attempt_succeeded c s n attempt output details = (s, Inl (Rejected e))"
  | t where "mark_attempt_succeeded c s n attempt output details = (t, Inr ())" "spent c s t"
      "co_node c n \<noteq> None"
proof (cases "active_attempt_mut c s n attempt")
  case (Inl e)
  then show ?thesis using that(1) by (simp add: mark_attempt_succeeded_def attempting_def)
next
  case (Inr step)
  then have ne: "sr_attempts step \<noteq> []" and node: "co_node c n \<noteq> None"
    by (auto simp: active_attempt_mut_Inr)
  show ?thesis
  proof (cases "sr_status step = Step_Running")
    case False
    then show ?thesis using that(1) Inr by (simp add: mark_attempt_succeeded_def attempting_def)
  next
    case True
    let ?a = "last (sr_attempts step)\<lparr>at_status := Attempt_Succeeded, at_output := Some output,
      at_details := details\<rparr>"
    let ?b = "(put_current ?a step)\<lparr>sr_status := Step_Succeeded, sr_output := Some output, sr_error := None\<rparr>"
    have "spent c s (put_step n ?b s)"
      by (rule spent_close [OF assms Inr, of ?a]) (simp_all add: put_current_def)
    then show ?thesis
      using that(2) [OF _ _ node] Inr ne True
      by (simp add: mark_attempt_succeeded_def attempting_def current_attempt_def)
  qed
qed

lemma mark_attempt_failed_cases:
  assumes "run_ok c s"
  obtains e where "mark_attempt_failed c s n attempt error details = (s, Inl (Rejected e))"
  | t where "mark_attempt_failed c s n attempt error details = (t, Inr ())" "spent c s t"
      "steps_of s n \<noteq> None"
proof (cases "active_attempt_mut c s n attempt")
  case (Inl e)
  then show ?thesis using that(1) by (simp add: mark_attempt_failed_def attempting_def)
next
  case (Inr step)
  then have ne: "sr_attempts step \<noteq> []" and node: "steps_of s n \<noteq> None"
    by (auto simp: active_attempt_mut_Inr)
  let ?a = "last (sr_attempts step)\<lparr>at_status := Attempt_Failed, at_error := Some error,
    at_details := details\<rparr>"
  let ?b = "(put_current ?a step)\<lparr>sr_status := Step_Failed, sr_error := Some error,
    sr_pending_permissions := [], sr_pending_input := None\<rparr>"
  have "spent c s (put_step n ?b s)"
    by (rule spent_close [OF assms Inr, of ?a]) (simp_all add: put_current_def)
  then show ?thesis
    using that(2) [OF _ _ node] Inr ne
    by (simp add: mark_attempt_failed_def attempting_def current_attempt_def)
qed

section \<open>The follow-up of an ended step\<close>

definition way_ok ::
    "compiled_orchestration \<Rightarrow> orchestration_run_state
      \<Rightarrow> (bool \<times> orchestration_effect list) run_result \<Rightarrow> bool" where
  "way_ok c s0 r \<longleftrightarrow> keeps_run c s0 r \<and>
     (\<forall>effects. snd r = Inr (False, effects) \<longrightarrow> spent c s0 (fst r))"

lemma way_ok_skip: "spent c s0 s \<Longrightarrow> way_ok c s0 (s, Inr (False, effects))"
  by (simp add: way_ok_def spentD(3))

lemma way_ok_error: "spent c s0 s \<Longrightarrow> way_ok c s0 (s, Inl e)"
  by (simp add: way_ok_def spentD(3))

lemma way_ok_taken: "keeps_run c s0 (s, Inr (True, effects)) \<Longrightarrow> way_ok c s0 (s, Inr (True, effects))"
  by (simp add: way_ok_def)

lemma way_ok_attempting:
  "spent c s0 s \<Longrightarrow> (\<And>a. r = Inr a \<Longrightarrow> way_ok c s0 (k a)) \<Longrightarrow> way_ok c s0 (attempting s r k)"
  by (cases r) (auto simp: attempting_def way_ok_def spentD(3))

lemma way_ok_and_then_taken:
  "keeps_run c s0 r \<Longrightarrow> (\<And>s effects. r = (s, Inr effects) \<Longrightarrow> keeps_run c s0 (f s, Inr (True, effects))) \<Longrightarrow>
     way_ok c s0 (and_then r (\<lambda>s effects. (f s, Inr (True, effects))))"
  by (cases r; cases "snd r") (auto simp: and_then_def way_ok_def keeps_run_def)

lemma keeps_activate:
  assumes "spent c s0 s"
  shows "keeps_run c s0 (activate s source target condition effects)
    \<and> (\<forall>t es. activate s source target condition effects = (t, Inr es) \<longrightarrow> keeps_run c s0 (settle t, r))"
proof (cases "step_state s target")
  case (Inl e)
  then show ?thesis using assms by (simp add: activate_def attempting_def spentD(3))
next
  case (Inr step)
  then have step: "steps_of s target = Some step" by (simp add: step_state_Inr)
  let ?b = "step\<lparr>sr_status := Step_Ready\<rparr>"
  note put = keeps_spent_settle_put [OF assms step, of ?b, simplified]
  have "run_ok c (put_step target ?b s)" using put(1) assms by (simp add: run_ok_def spent_def)
  then show ?thesis
    using spentD(1,2) [OF assms] Inr put by (auto simp: activate_def attempting_def keeps_run_def)
qed

lemma way_ok_retry_same_step:
  assumes "spent c s0 s"
  shows "way_ok c s0 (retry_same_step failed s effects)"
  unfolding retry_same_step_def Let_def
proof (rule way_ok_attempting [OF assms])
  fix step assume "step_state s (fa_node_id failed) = Inr step"
  then have step: "steps_of s (fa_node_id failed) = Some step" by (simp add: step_state_Inr)
  have put: "keeps_run c s0 (settle (put_step (fa_node_id failed) (step\<lparr>sr_status := Step_RetryScheduled,
      sr_feedback := sr_feedback step @ [fa_error failed]\<rparr>) s), Inr (True, es))" for es
    by (rule keeps_spent_settle_put [OF assms step]) simp_all
  show "way_ok c s0 (if \<not> (P \<and> Q \<and> R) then (s, Inr (False, effects))
      else (settle (put_step (fa_node_id failed) (step\<lparr>sr_status := Step_RetryScheduled,
        sr_feedback := sr_feedback step @ [fa_error failed]\<rparr>) s), Inr (True, es)))" for P Q R es
    using way_ok_skip [OF assms] way_ok_taken [OF put] by simp
qed

lemma reset_span_spent:
  "spent c s0 s \<Longrightarrow> spent c s0 (fst (reset_span span target s))"
proof (induction span target s rule: reset_span.induct)
  case (2 node rest target s)
  show ?case
  proof (cases "step_state s node")
    case (Inl e)
    with 2 show ?thesis by (simp add: attempting_def)
  next
    case (Inr step)
    let ?b = "step\<lparr>sr_status := Step_Pending, sr_output := None,
      sr_checkpoint := (if node \<noteq> target then None else sr_checkpoint step)\<rparr>"
    have "spent c s0 (put_step node ?b s)"
      using Inr "2.prems" by (intro spent_put_pending) (simp_all add: step_state_Inr)
    from "2.IH" [OF refl this] Inr show ?thesis by (simp add: attempting_def)
  qed
qed simp

lemma keeps_send_back:
  assumes "spent c s0 s"
  shows "keeps_run c s0 (send_back c' s sender target error effects)"
proof (cases "map_of (co_retry_spans c') sender")
  case None
  then show ?thesis using assms by (simp add: send_back_def spentD(3))
next
  case (Some span)
  obtain t r where t: "reset_span span target s = (t, r)" by fastforce
  then have spent: "spent c s0 t" using reset_span_spent [OF assms, of span target] by simp
  show ?thesis
  proof (cases r)
    case (Inl e)
    then show ?thesis using Some t spent by (simp add: send_back_def and_then_def spentD(3))
  next
    case (Inr u)
    show ?thesis
    proof (cases "step_state t target")
      case (Inl e)
      then show ?thesis using Some t Inr spent by (simp add: send_back_def and_then_def attempting_def spentD(3))
    next
      case (Inr step)
      then have step: "steps_of t target = Some step" by (simp add: step_state_Inr)
      have "keeps_run c s0 (settle (put_step target (step\<lparr>sr_status := Step_RetryScheduled,
          sr_feedback := sr_feedback step @ [error]\<rparr>) t), q)" for q :: "run_failure + orchestration_effect list"
        by (rule keeps_spent_settle_put [OF spent step]) simp_all
      then show ?thesis
        using Some t \<open>r = Inr u\<close> Inr by (simp add: send_back_def and_then_def attempting_def Let_def)
    qed
  qed
qed

lemma way_ok_send_back:
  assumes "spent c s0 s"
  shows "way_ok c s0 (and_then (send_back c' s sender target error effects) (\<lambda>s es. (s, Inr (True, es))))"
proof (rule way_ok_and_then_taken [OF keeps_send_back [OF assms]])
  fix t es assume "send_back c' s sender target error effects = (t, Inr es)"
  then show "keeps_run c s0 (t, Inr (True, es))"
    using keeps_send_back [OF assms, of c' sender target error effects] by (simp add: keeps_run_def)
qed

lemma way_ok_send_back_to_retry_target:
  assumes "spent c s0 s"
  shows "way_ok c s0 (send_back_to_retry_target failed s effects)"
  unfolding send_back_to_retry_target_def Let_def
  by (auto split: orchestration_node_kind.splits option.splits retry_reason.splits if_splits
      intro!: way_ok_skip way_ok_error way_ok_attempting way_ok_send_back assms)

lemma way_ok_send_back_for_changes:
  assumes "spent c s0 s"
  shows "way_ok c s0 (send_back_for_changes failed s effects)"
proof (cases "changes_target failed")
  case None
  then show ?thesis using way_ok_skip [OF assms] by (simp add: send_back_for_changes_def)
next
  case (Some target)
  have "way_ok c s0 (and_then (send_back (fa_compiled failed)
      (put_step target (step\<lparr>sr_retry_base := of_nat (length (sr_attempts step))\<rparr>) s) (fa_node_id failed)
      target (fa_error failed) effects) (\<lambda>s effects. (s, Inr (True, effects))))"
    if "step_state s target = Inr step" for step
    using that spentD(4) [OF assms, of target step]
    by (intro way_ok_send_back spent_put_pending [OF assms, of target step]) (simp_all add: step_state_Inr)
  then show ?thesis
    using Some way_ok_skip [OF assms] by (auto simp: send_back_for_changes_def Let_def intro!: way_ok_attempting assms)
qed

lemma way_ok_take_failure_route:
  assumes "spent c s0 s"
  shows "way_ok c s0 (take_failure_route failed s effects)"
proof (cases "outgoing_for (fa_compiled failed) (fa_node_id failed) OnFailure")
  case None
  then show ?thesis using way_ok_skip [OF assms] by (simp add: take_failure_route_def)
next
  case (Some edge)
  note act = keeps_activate [OF assms, of "fa_node_id failed" "oe_target edge" OnFailure effects]
  show ?thesis
    unfolding take_failure_route_def Some option.case
    by (rule way_ok_and_then_taken) (use act in blast)+
qed

lemma way_ok_first:
  assumes "\<And>way s effects. way \<in> set ways \<Longrightarrow> spent c s0 s \<Longrightarrow> way_ok c s0 (way s effects)"
    and "spent c s0 s"
  shows "way_ok c s0 (first_way_out ways s effects)"
  using assms
proof (induction ways arbitrary: s effects)
  case Nil
  then show ?case by (simp add: way_ok_skip)
next
  case (Cons way ways)
  obtain t r where r: "way s effects = (t, r)" by fastforce
  have ok: "way_ok c s0 (t, r)" using Cons.prems r by (metis list.set_intros(1))
  show ?case
  proof (cases r)
    case (Inl e)
    then show ?thesis using ok r by (simp add: and_then_def)
  next
    case (Inr p)
    obtain taken es where p: "p = (taken, es)" by fastforce
    show ?thesis
    proof (cases taken)
      case True
      then show ?thesis using ok r Inr p by (simp add: and_then_def)
    next
      case False
      then have "spent c s0 t" using ok Inr p by (simp add: way_ok_def)
      moreover have "way_ok c s0 (w u es')" if "w \<in> set ways" "spent c s0 u" for w u es'
        using Cons.prems(1) that by simp
      ultimately have "way_ok c s0 (first_way_out ways t es)" using Cons.IH by blast
      then show ?thesis using r Inr p False by (simp add: and_then_def)
    qed
  qed
qed

lemma keeps_fail:
  assumes ok: "run_ok c s"
  shows "keeps_run c s (fail ext c s n attempt error details)"
proof (cases "co_node c n")
  case None
  then show ?thesis using ok by (simp add: fail_def)
next
  case (Some node)
  obtain s1 es where usage: "record_usage s details = (s1, es)" by fastforce
  note f = record_usage_frame [OF usage]
  from f(4) [OF ok] show ?thesis
  proof (cases rule: mark_attempt_failed_cases [where n = n and attempt = attempt and error = error and details = details])
    case (1 e)
    then show ?thesis
      using Some usage f(4) [OF ok] f(5) by (simp add: fail_def and_then_def keeps_run_def)
  next
    case (2 t)
    have spent: "spent c s t"
      using 2(2) kept_trans [OF f(5)] by (auto simp: spent_def)
    let ?failed = "\<lparr>fa_compiled = c, fa_node = node, fa_node_id = n, fa_attempt = attempt,
      fa_error = error, fa_budget_left = (exhausted_budget ext c t = None)\<rparr>"
    let ?ways = "[retry_same_step ?failed, send_back_to_retry_target ?failed,
      send_back_for_changes ?failed, take_failure_route ?failed]"
    let ?es = "es @ [Emit_Run (Ev_StepFailed n attempt error)]"
    have way: "way_ok c s (first_way_out ?ways t ?es)"
      by (rule way_ok_first [OF _ spent])
         (auto intro: way_ok_retry_same_step way_ok_send_back_to_retry_target
            way_ok_send_back_for_changes way_ok_take_failure_route)
    obtain u r where r: "first_way_out ?ways t ?es = (u, r)" by fastforce
    have eq: "fail ext c s n attempt error details =
      and_then (u, r) (\<lambda>s (taken, effects). if taken then (s, Inr effects)
        else terminate_failed (s\<lparr>rs_failed_step := Some n\<rparr>) (run_error_of ?failed) effects)"
      unfolding fail_def Some option.case usage prod.case 2(1) and_then_simps Let_def r ..
    show ?thesis
    proof (cases r)
      case (Inl e)
      then show ?thesis using eq way r by (simp add: and_then_def way_ok_def keeps_run_def)
    next
      case (Inr p)
      obtain taken es' where p: "p = (taken, es')" by fastforce
      show ?thesis
      proof (cases taken)
        case True
        then show ?thesis using eq way r Inr p by (simp add: and_then_def way_ok_def keeps_run_def)
      next
        case False
        then have "spent c s u" using way r Inr p by (simp add: way_ok_def)
        from keeps_run_spent_terminate [OF this, of "u\<lparr>rs_failed_step := Some n\<rparr>"]
        show ?thesis using eq Inr p False by (simp add: and_then_def)
      qed
    qed
  qed
qed

lemma keeps_complete_run:
  assumes "spent c s0 s"
  shows "keeps_run c s0 (complete_run s output effects)"
proof -
  let ?t = "s\<lparr>rs_final_output := Some output, rs_status := Run_Completed\<rparr>"
  have "run_core c ?t" by (rule run_core_steps [of c s]) (use assms in \<open>simp_all add: spent_def\<close>)
  moreover have "kept s0 ?t" by (rule kept_trans [OF spentD(2) [OF assms] kept_steps]) simp
  ultimately show ?thesis by (simp add: complete_run_def keeps_run_def run_ok_def Let_def)
qed

lemma keeps_succeed:
  assumes ok: "run_ok c s"
  shows "keeps_run c s (succeed c s n attempt output details)"
proof -
  obtain s1 es where usage: "record_usage s details = (s1, es)" by fastforce
  note f = record_usage_frame [OF usage]
  from f(4) [OF ok] show ?thesis
  proof (cases rule: mark_attempt_succeeded_cases [of c s1 n attempt "output" details])
    case (1 e)
    then show ?thesis
      using usage f(4) [OF ok] f(5) by (simp add: succeed_def and_then_def keeps_run_def)
  next
    case (2 t)
    have spent: "spent c s t" using 2(2) kept_trans [OF f(5)] by (auto simp: spent_def)
    let ?es = "es @ [Emit_Run (Ev_StepSucceeded n attempt)]"
    show ?thesis
    proof (cases "is_some_and (\<lambda>n. is_output_node (on_kind n)) (co_node c n)")
      case True
      then show ?thesis
        using usage 2(1) keeps_complete_run [OF spent] by (simp add: succeed_def and_then_def)
    next
      case False
      show ?thesis
      proof (cases "outgoing_for c n OnSuccess")
        case None
        then show ?thesis
          using False usage 2(1) keeps_run_spent_terminate [OF spent] by (simp add: succeed_def and_then_def)
      next
        case (Some edge)
        obtain u r where r: "activate t n (oe_target edge) OnSuccess ?es = (u, r)" by fastforce
        note act = keeps_activate [OF spent, of n "oe_target edge" OnSuccess ?es, unfolded r]
        show ?thesis
          using act False Some usage 2(1) r
          by (cases r) (simp_all add: succeed_def and_then_def keeps_run_def)
      qed
    qed
  qed
qed

section \<open>Admitting a step\<close>

lemma admit_check_Inr:
  "admit_check c s n attempt = Inr u \<longleftrightarrow>
     rs_status s = Run_Ready \<and> \<not> rs_paused s \<and> co_node c n \<noteq> None
   \<and> (\<exists>step. steps_of s n = Some step \<and> sr_status step = Step_Ready
        \<and> attempt = of_nat (length (sr_attempts step)) + 1)"
  by (cases "step_mut c s n")
     (auto simp: admit_check_def step_mut_def Let_def split: option.splits if_splits)

lemma exhausted_attempts:
  "exhausted_budget ext c s = None \<Longrightarrow> op_max_total_attempts (od_policies (co_definition c)) = Some limit \<Longrightarrow>
     rs_total_attempts s < limit"
  by (auto simp: exhausted_budget_def Let_def not_le [symmetric] split: if_splits)

lemma admit_step_cases:
  assumes ok: "run_ok c s"
  obtains e where "admit ext c s n attempt = (s, Inl (Rejected e))"
  | reason where "exhausted_budget ext c s = Some reason"
      "admit ext c s n attempt = terminate_failed s (orchestration_error_new ''BUDGET_EXHAUSTED'' reason) []"
      "keeps_run c s (admit ext c s n attempt)"
  | t where "admit ext c s n attempt =
        (t, Inr [Emit_Run (Ev_StepStarted n attempt), ExecuteStep n attempt])"
      "run_ok c t" "frozen s t" "\<not> has_ended (rs_status t)"
      "attempt = of_nat (Suc (attempt_count s n))"
      "attempt_count t = (attempt_count s)(n := Suc (attempt_count s n))"
proof (cases "admit_check c s n attempt")
  case (Inl e)
  then show ?thesis using that(1) by (simp add: admit_def attempting_def)
next
  case (Inr u)
  then obtain step where s: "rs_status s = Run_Ready" "steps_of s n = Some step" "sr_status step = Step_Ready"
    "attempt = of_nat (length (sr_attempts step)) + 1"
    by (auto simp: admit_check_Inr)
  have core: "run_core c s" using ok by (rule run_ok_core)
  have only: "m = n" if "steps_of s m = Some a" "is_token (sr_status a)" for m a
    using run_coreD(4) [OF core] s that by (auto simp: single_token_def)
  show ?thesis
  proof (cases "exhausted_budget ext c s")
    case (Some reason)
    have "keeps_run c s (terminate_failed s (orchestration_error_new ''BUDGET_EXHAUSTED'' reason) [])"
      using only s by (intro keeps_terminate_failed [OF core]) (fastforce simp: is_active_token)+
    then show ?thesis using that(2) Some Inr by (simp add: admit_def attempting_def)
  next
    case None
    let ?b = "step\<lparr>sr_status := Step_Running, sr_attempts := sr_attempts step @ [new_attempt attempt]\<rparr>"
    let ?p = "put_step n ?b s"
    let ?t = "?p\<lparr>rs_total_attempts := rs_total_attempts s + 1\<rparr>"
    have "attempts_ok False (sr_attempts step)" using run_coreD(3) [OF core s(2)] s(3) by (simp add: step_ok_def)
    note open_ok = attempts_ok_open [OF this, folded s(4)]
    have made: "attempts_made ?t = Suc (attempts_made s)"
      using attempts_made_put [OF s(2), of ?b] by (simp add: attempts_made_def)
    have steps: "steps_of ?t = (steps_of s)(n \<mapsto> ?b)" by (simp add: steps_of_put)
    have within: "within_attempts c (Suc (attempts_made s))"
      unfolding within_attempts_def
    proof (intro allI impI)
      fix limit assume limit: "op_max_total_attempts (od_policies (co_definition c)) = Some limit"
      then have "attempts_made s \<le> unat limit" using core by (simp add: run_core_def within_attempts_def)
      moreover have "unat (of_nat (attempts_made s) :: u32) < unat limit"
        using exhausted_attempts [OF None limit] core by (simp add: run_core_def word_less_nat_alt)
      ultimately show "Suc (attempts_made s) \<le> unat limit"
        using unat_bound [of limit] by (simp add: unsigned_of_nat take_bit_nat_eq_self)
    qed
    have "single_token ?t"
      using run_coreD(4) [OF core] s(2,3) unfolding single_token_def steps by (auto split: if_splits)
    moreover have "\<not> has_ended (rs_status ?t)" using s(1) by (simp add: has_ended_def is_terminal_def)
    moreover have "step_ok a" if "steps_of ?t m = Some a" for m a
      using that run_coreD(3) [OF core] open_ok(1) by (auto simp: steps_of_put step_ok_def split: if_splits)
    moreover have "hm_wf (rs_steps ?t)" "fst ` set (rs_steps ?t) = fst ` set (co_nodes c)"
      using core keys_put [OF s(2), of ?b] hm_wf_put [of s n ?b] by (simp_all add: run_core_def)
    ultimately have core': "run_core c ?t"
      using core made within by (simp add: run_core_def)
    have "frozen s (settle ?t)" using s(2) open_ok(2) by (auto simp: frozen_def steps_of_put)
    moreover have "attempt_count (settle ?t) = (attempt_count s)(n := Suc (attempt_count s n))"
      using s(2) by (auto simp: attempt_count_def steps_of_put fun_eq_iff)
    moreover have "\<not> has_ended (rs_status (settle ?t))"
      using settle_status(2) \<open>\<not> has_ended (rs_status ?t)\<close> by blast
    moreover have "attempt = of_nat (Suc (attempt_count s n))" using s(2,4) by (simp add: attempt_count_def)
    ultimately show ?thesis
      using that(3) [OF _ run_ok_settle [OF core']] Inr None s(2)
      by (simp add: admit_def attempting_def step_state_def Let_def)
  qed
qed

section \<open>Aborting, cancelling and recovering\<close>

definition cancelled_or ::
    "(step_status \<Rightarrow> step_status) \<Rightarrow> step_run \<Rightarrow> step_run" where
  "cancelled_or idle step =
     (if is_active (sr_status step) then cancel_step (last (sr_attempts step)) step
      else step\<lparr>sr_status := idle (sr_status step)\<rparr>)"

definition cancel_effects :: "(node_id, step_run) btree_map \<Rightarrow> orchestration_effect list" where
  "cancel_effects m =
     map (\<lambda>(node, step). CancelStep node (at_attempt (last (sr_attempts step))))
       (filter (\<lambda>(_, step). is_active (sr_status step)) m)"

lemma cancel_active_eq:
  assumes "\<And>node step. (node, step) \<in> set m \<Longrightarrow> step_ok step"
  shows "cancel_active idle m =
    (map (\<lambda>(node, step). (node, cancelled_or idle step)) m, Inr (cancel_effects m))"
  using assms
proof (induction idle m rule: cancel_active.induct)
  case (2 idle node step rest)
  have "is_active (sr_status step) \<Longrightarrow> sr_attempts step \<noteq> []"
    using "2.prems" [of node step] by (simp add: step_ok_def attempts_ok_def)
  moreover have "cancel_active idle rest =
      (map (\<lambda>(node, step). (node, cancelled_or idle step)) rest, Inr (cancel_effects rest))"
    using 2 by (cases "is_active (sr_status step)") (auto simp: current_attempt_def calculation)
  ultimately show ?case
    by (auto simp: current_attempt_def cancelled_or_def cancel_effects_def)
qed (simp add: cancel_effects_def)

lemma step_ok_list:
  "run_core c s \<Longrightarrow> (node, step) \<in> set (rs_steps s) \<Longrightarrow> step_ok step"
  using run_coreD(1,3) by (metis map_of_is_SomeI)

lemma cancelled_or_each:
  assumes "step_ok step" and "\<And>status. \<not> is_active status \<Longrightarrow> \<not> is_active (idle status)"
  shows "step_ok (cancelled_or idle step)" and "\<not> is_active (sr_status (cancelled_or idle step))"
    and "length (sr_attempts (cancelled_or idle step)) = length (sr_attempts step)"
    and "attempts_frozen (sr_attempts step) (sr_attempts (cancelled_or idle step))"
proof -
  have "step_ok (cancelled_or idle step) \<and> \<not> is_active (sr_status (cancelled_or idle step))
    \<and> length (sr_attempts (cancelled_or idle step)) = length (sr_attempts step)
    \<and> attempts_frozen (sr_attempts step) (sr_attempts (cancelled_or idle step))"
  proof (cases "is_active (sr_status step)")
    case True
    then have "attempts_ok True (sr_attempts step)" using assms(1) by (simp add: step_ok_def)
    then have "sr_attempts step \<noteq> []" by (simp add: attempts_ok_def)
    with True attempts_ok_close [OF \<open>attempts_ok True (sr_attempts step)\<close>,
        of "last (sr_attempts step)\<lparr>at_status := Attempt_Cancelled\<rparr>"]
    show ?thesis by (simp add: cancelled_or_def cancel_step_def put_current_def step_ok_def)
  next
    case False
    then show ?thesis using assms by (simp add: cancelled_or_def step_ok_def)
  qed
  then show "step_ok (cancelled_or idle step)" "\<not> is_active (sr_status (cancelled_or idle step))"
    "length (sr_attempts (cancelled_or idle step)) = length (sr_attempts step)"
    "attempts_frozen (sr_attempts step) (sr_attempts (cancelled_or idle step))" by simp_all
qed

lemma keeps_abort:
  assumes ok: "run_ok c s" and "\<not> is_terminal (rs_status s)"
  shows "keeps_run c s (abort s error)"
proof -
  have core: "run_core c s" using ok by (rule run_ok_core)
  let ?t = "s\<lparr>rs_steps := map (\<lambda>(node, step). (node, cancelled_or id step)) (rs_steps s)\<rparr>"
  have each: "step_ok (cancelled_or id step) \<and> length (sr_attempts (cancelled_or id step)) = length (sr_attempts step)
      \<and> attempts_frozen (sr_attempts step) (sr_attempts (cancelled_or id step))
      \<and> (is_token (sr_status (cancelled_or id step)) \<longrightarrow> is_token (sr_status step) \<and> \<not> has_ended (rs_status s))"
    if "steps_of s n = Some step" for n step
    using cancelled_or_each [OF run_coreD(3) [OF core that], of id] run_coreD(5) [OF core] that
    by (auto simp: cancelled_or_def cancel_step_def calm_def)
  have t: "run_core c ?t" "kept s ?t"
    by (rule run_core_rewrite [OF core, where f = "cancelled_or id"]; use each in simp)+
  have "\<not> is_active (sr_status step)" if "steps_of ?t n = Some step" for n step
    using that cancelled_or_each(2) [OF run_coreD(3) [OF core], of _ _ id]
    by (auto simp: map_of_rewrite)
  from keeps_terminate_failed [OF t(1) this t(2)] show ?thesis
    using step_ok_list [OF core] by (simp add: abort_def cancel_active_eq attempting_def)
qed

lemma cancellation_completed_keeps:
  assumes "run_core c s" and "rs_status s = Run_Cancelling" and "kept s0 s"
  shows "keeps_run c s0 (cancellation_completed s)"
proof -
  let ?t = "s\<lparr>rs_status := Run_Cancelled\<rparr>"
  have "calm s" using run_coreD(5) [OF assms(1)] assms(2) by (simp add: has_ended_def)
  then have "run_core c ?t" by (intro run_core_steps [OF assms(1)]) simp_all
  moreover have "kept s0 ?t" by (rule kept_trans [OF assms(3) kept_steps]) simp
  ultimately show ?thesis
    using assms(2) by (simp add: cancellation_completed_def attempting_def require_status_def
        keeps_run_def run_ok_def Let_def)
qed

lemma keeps_cancellation_completed:
  assumes "run_ok c s"
  shows "keeps_run c s (cancellation_completed s)"
proof (cases "rs_status s = Run_Cancelling")
  case True
  then show ?thesis using cancellation_completed_keeps [OF run_ok_core [OF assms]] by simp
next
  case False
  then show ?thesis using assms by (simp add: cancellation_completed_def attempting_def require_status_def)
qed

lemma keeps_cancel:
  assumes ok: "run_ok c s"
  shows "keeps_run c s (cancel s)"
proof (cases "rs_status s = Run_Cancelling")
  case True
  then show ?thesis using ok by (simp add: cancel_def)
next
  case False
  have core: "run_core c s" using ok by (rule run_ok_core)
  let ?f = "cancelled_or end_waiting"
  let ?t = "s\<lparr>rs_status := Run_Cancelling,
    rs_steps := map (\<lambda>(node, step). (node, ?f step)) (rs_steps s)\<rparr>"
  have each: "step_ok (?f step) \<and> length (sr_attempts (?f step)) = length (sr_attempts step)
      \<and> attempts_frozen (sr_attempts step) (sr_attempts (?f step)) \<and> \<not> is_token (sr_status (?f step))"
    if "steps_of s n = Some step" for n step
    using cancelled_or_each [OF run_coreD(3) [OF core that], of end_waiting] end_waiting_not_token
    by (auto simp: cancelled_or_def cancel_step_def)
  have t: "run_core c ?t" "kept s ?t"
    by (rule run_core_rewrite [OF core, where f = ?f]; use each in simp)+
  then have "keeps_run c s (?t, r)" for r :: "run_failure + orchestration_effect list"
    by (simp add: keeps_run_def run_ok_def)
  moreover have "keeps_run c s (cancellation_completed ?t)"
    using cancellation_completed_keeps [OF t(1) _ t(2)] by simp
  ultimately show ?thesis
    using False step_ok_list [OF core] by (simp add: cancel_def cancel_active_eq attempting_def Let_def)
qed

lemma singleton_list: "distinct xs \<Longrightarrow> (\<And>x y. x \<in> set xs \<Longrightarrow> y \<in> set xs \<Longrightarrow> x = y) \<Longrightarrow> xs = [] \<or> (\<exists>x. xs = [x])"
proof (cases xs)
  case (Cons x ys)
  assume "distinct xs" and eq: "\<And>x y. x \<in> set xs \<Longrightarrow> y \<in> set xs \<Longrightarrow> x = y"
  have "ys = []"
  proof (cases ys)
    case (Cons y zs)
    then have "x = y" using eq [of x y] \<open>xs = x # ys\<close> by simp
    then show ?thesis using \<open>distinct xs\<close> \<open>xs = x # ys\<close> Cons by simp
  qed simp
  with Cons show ?thesis by simp
qed simp

lemma active_list:
  assumes core: "run_core c s"
  defines "active \<equiv> map fst (filter (\<lambda>(_, step). is_active (sr_status step)) (rs_steps s))"
  shows "active = [] \<or> (\<exists>n step. active = [n] \<and> steps_of s n = Some step \<and> is_active (sr_status step))"
proof -
  have mem: "\<exists>step. steps_of s n = Some step \<and> is_active (sr_status step)" if n: "n \<in> set active" for n
  proof -
    from n obtain step where "(n, step) \<in> set (rs_steps s)" "is_active (sr_status step)"
      unfolding active_def by auto
    then show ?thesis using map_of_is_SomeI [OF run_coreD(1) [OF core]] by blast
  qed
  have "distinct active" unfolding active_def by (rule distinct_map_filter [OF run_coreD(1) [OF core]])
  moreover have "n = m" if "n \<in> set active" "m \<in> set active" for n m
    using mem [OF that(1)] mem [OF that(2)] run_coreD(4) [OF core]
    unfolding single_token_def by (blast intro: is_active_token)
  ultimately have "active = [] \<or> (\<exists>n. active = [n])" by (rule singleton_list)
  then show ?thesis using mem by (metis list.set_intros(1))
qed

lemma keeps_recover:
  assumes ok: "run_ok c s" and "\<not> is_terminal (rs_status s)"
  shows "keeps_run c s (recover c s)"
  unfolding recover_def
proof (rule keeps_run_attempting [OF ok kept_refl], goal_cases)
  case (1 u)
  have core: "run_core c s" using ok by (rule run_ok_core)
  show ?case
  proof (cases "rs_status s = Run_Cancelling")
    case True
    let ?f = "\<lambda>step. if is_active (sr_status step) then step\<lparr>sr_status := Step_Cancelled\<rparr> else step"
    let ?t = "s\<lparr>rs_steps := map (\<lambda>(node, step). (node, ?f step)) (rs_steps s)\<rparr>"
    have "calm s" using run_coreD(5) [OF core] True by (simp add: has_ended_def)
    then have f: "?f step = step" if "steps_of s n = Some step" for n step
      using that by (auto simp: calm_def dest: is_active_token)
    have t: "run_core c ?t" "kept s ?t"
      by (rule run_core_rewrite [OF core, where f = ?f];
          use f run_coreD(3) [OF core] \<open>calm s\<close> in \<open>simp add: calm_def\<close>)+
    from cancellation_completed_keeps [OF t(1) _ t(2)] True
    have done_ok: "keeps_run c s (cancellation_completed ?t)" by simp
    obtain t' r where r: "cancellation_completed ?t = (t', r)" by fastforce
    from done_ok True r show ?thesis
      by (cases r) (auto simp: Let_def keeps_run_def)
  next
    case False
    note simps = False Let_def
    from active_list [OF core] consider (none) "map fst (filter (\<lambda>(_, step). is_active (sr_status step)) (rs_steps s)) = []"
      | (one) n step where "map fst (filter (\<lambda>(_, step). is_active (sr_status step)) (rs_steps s)) = [n]"
        "steps_of s n = Some step" "is_active (sr_status step)" by auto
    then show ?thesis
    proof cases
      case none
      then show ?thesis
        using False keeps_run_settle [OF core kept_refl] by (simp add: Let_def)
    next
      case one
      have "sr_attempts step \<noteq> []" and att: "attempts_ok True (sr_attempts step)"
        using run_coreD(3) [OF core one(2)] one(3) by (auto simp: step_ok_def attempts_ok_def)
      then have found: "step_state s n = Inr step" "current_attempt step = Inr (last (sr_attempts step))"
        using one(2) by (simp_all add: step_state_Inr current_attempt_Inr)
      have node: "co_node c n \<noteq> None"
        using run_coreD(2) [OF core] one(2)
        unfolding co_node_def map_of_eq_None_iff by (metis fst_conv image_eqI map_of_SomeD)
      show ?thesis
      proof (cases "has_unknown_effects c n")
        case True
        have "active_attempt_mut c s n (at_attempt (last (sr_attempts step))) = Inr step"
          using one node \<open>sr_attempts step \<noteq> []\<close> by (simp add: active_attempt_mut_Inr)
        note close = spent_close [OF ok this, where a = "last (sr_attempts step)\<lparr>at_status := Attempt_Failed, at_error := Some error\<rparr>" for error]
        show ?thesis
          using False one(1) True found
          by (auto simp: Let_def attempting_def put_current_def intro!: keeps_run_spent_terminate close)
      next
        case unknown: False
        let ?a = "last (sr_attempts step)\<lparr>at_status := Attempt_Cancelled\<rparr>"
        let ?b = "(put_current ?a step)\<lparr>sr_status := Step_Ready, sr_pending_permissions := [], sr_pending_input := None\<rparr>"
        note closed = attempts_ok_close [OF att, of ?a, simplified]
        have "run_core c (put_step n ?b s)"
          using closed(1) one(2,3) \<open>sr_attempts step \<noteq> []\<close> token_status(2) [OF ok one(2)]
          by (intro run_core_put [OF core one(2)]) (auto simp: step_ok_def put_current_def is_active_token)
        moreover have "kept s (put_step n ?b s)"
          using closed(2) \<open>sr_attempts step \<noteq> []\<close> by (intro kept_put [OF one(2)]) (simp_all add: put_current_def)
        ultimately show ?thesis
          using False one(1) unknown found by (simp add: Let_def attempting_def keeps_run_settle)
      qed
    qed
  qed
qed

section \<open>Effects\<close>

definition is_run_finish :: "orchestration_effect \<Rightarrow> bool" where
  "is_run_finish e \<longleftrightarrow> (case e of Finish _ \<Rightarrow> True | _ \<Rightarrow> False)"

definition executed_attempts :: "node_id \<Rightarrow> orchestration_effect list \<Rightarrow> u32 list" where
  "executed_attempts n es =
     List.map_filter (\<lambda>e. case e of ExecuteStep m attempt \<Rightarrow> if m = n then Some attempt else None | _ \<Rightarrow> None) es"

definition run_finishes :: "orchestration_effect list \<Rightarrow> nat" where
  "run_finishes es = length (filter is_run_finish es)"

definition reports_only :: "orchestration_effect list \<Rightarrow> bool" where
  "reports_only es \<longleftrightarrow> run_finishes es = 0 \<and> (\<forall>n. executed_attempts n es = [])"

lemma executed_attempts_append [simp]:
  "executed_attempts n (es @ fs) = executed_attempts n es @ executed_attempts n fs"
  by (induction es) (simp_all add: executed_attempts_def List.map_filter_simps split: option.splits)

lemma executed_attempts_simps [simp]:
  "executed_attempts n [] = []"
  "executed_attempts n (Emit_Run ev # es) = executed_attempts n es"
  "executed_attempts n (Finish res # es) = executed_attempts n es"
  "executed_attempts n (CancelStep m a # es) = executed_attempts n es"
  "executed_attempts n (ExecuteStep m a # es) = (if m = n then [a] else []) @ executed_attempts n es"
  by (simp_all add: executed_attempts_def List.map_filter_simps)

lemma run_finishes_simps [simp]:
  "run_finishes [] = 0" "run_finishes (es @ fs) = run_finishes es + run_finishes fs"
  "run_finishes (Emit_Run ev # es) = run_finishes es"
  "run_finishes (CancelStep m a # es) = run_finishes es"
  "run_finishes (ExecuteStep m a # es) = run_finishes es"
  "run_finishes (Finish res # es) = Suc (run_finishes es)"
  by (simp_all add: run_finishes_def is_run_finish_def)

text \<open>
  The outcome of an operation on a run that has not ended: a rejection leaves it open, and a
  success finishes it exactly when the state it returns is terminal.
\<close>

definition tidy :: "orchestration_effect list run_result \<Rightarrow> bool" where
  "tidy r \<longleftrightarrow>
     (case snd r of
        Inl _ \<Rightarrow> \<not> is_terminal (rs_status (fst r))
      | Inr es \<Rightarrow> run_finishes es = (if is_terminal (rs_status (fst r)) then 1 else 0)
          \<and> (\<forall>n. executed_attempts n es = []))"

definition tidy_way :: "(bool \<times> orchestration_effect list) run_result \<Rightarrow> bool" where
  "tidy_way r \<longleftrightarrow> \<not> is_terminal (rs_status (fst r))
     \<and> (\<forall>taken es. snd r = Inr (taken, es) \<longrightarrow> reports_only es)"

lemma settle_terminal [simp]: "is_terminal (rs_status (settle s)) = is_terminal (rs_status s)"
  using settle_status [of s] by (cases "has_ended (rs_status s)") (auto simp: has_ended_def)

lemma tidy_attempting:
  "\<not> is_terminal (rs_status s) \<Longrightarrow> (\<And>a. r = Inr a \<Longrightarrow> tidy (k a)) \<Longrightarrow> tidy (attempting s r k)"
  by (cases r) (auto simp: attempting_def tidy_def)

lemma tidy_way_attempting:
  "\<not> is_terminal (rs_status s) \<Longrightarrow> (\<And>a. r = Inr a \<Longrightarrow> tidy_way (k a)) \<Longrightarrow> tidy_way (attempting s r k)"
  by (cases r) (auto simp: attempting_def tidy_way_def)

lemma terminal_simps [simp]:
  "is_terminal Run_Failed" "is_terminal Run_Completed" "is_terminal Run_Cancelled"
  "\<not> is_terminal Run_Cancelling" "\<not> is_terminal Run_Created" "\<not> is_terminal Run_Ready"
  by (simp_all add: is_terminal_def)

lemma tidy_terminate_failed: "reports_only es \<Longrightarrow> tidy (terminate_failed s error es)"
  by (simp add: tidy_def terminate_failed_def Let_def reports_only_def)

lemma tidy_complete_run: "reports_only es \<Longrightarrow> tidy (complete_run s res es)"
  by (simp add: tidy_def complete_run_def Let_def reports_only_def)

lemma activate_status:
  "rs_status (fst (activate s source target condition es)) = rs_status s"
  "activate s source target condition es = (t, Inr fs) \<Longrightarrow> reports_only es \<Longrightarrow> reports_only fs"
  by (auto simp: activate_def attempting_def reports_only_def split: sum.splits if_splits)

lemma reset_span_status: "rs_status (fst (reset_span span target s)) = rs_status s"
  by (induction span target s rule: reset_span.induct)
     (auto simp: attempting_def Let_def split: sum.splits)

lemma send_back_status:
  "\<not> is_terminal (rs_status s) \<Longrightarrow> \<not> is_terminal (rs_status (fst (send_back c s sender target error es)))"
  "send_back c s sender target error es = (t, Inr fs) \<Longrightarrow> reports_only es \<Longrightarrow> reports_only fs"
proof -
  show "\<not> is_terminal (rs_status s) \<Longrightarrow> \<not> is_terminal (rs_status (fst (send_back c s sender target error es)))"
    using reset_span_status
    by (auto simp: send_back_def and_then_def attempting_def Let_def split: option.splits sum.splits)
  show "send_back c s sender target error es = (t, Inr fs) \<Longrightarrow> reports_only es \<Longrightarrow> reports_only fs"
    by (auto simp: send_back_def and_then_def attempting_def Let_def reports_only_def
        split: option.splits sum.splits)
qed

lemma tidy_way_send_back:
  assumes "\<not> is_terminal (rs_status s)" and "reports_only es"
  shows "tidy_way (and_then (send_back c s sender target error es) (\<lambda>s es. (s, Inr (True, es))))"
proof -
  obtain t r where r: "send_back c s sender target error es = (t, r)" by fastforce
  show ?thesis
    using send_back_status(1) [OF assms(1), of c sender target error es]
      send_back_status(2) [of c s sender target error es] r assms(2)
    by (cases r) (auto simp: tidy_way_def)
qed

lemma tidy_ways:
  assumes "\<not> is_terminal (rs_status s)" and "reports_only es"
  shows "tidy_way (retry_same_step failed s es)" "tidy_way (send_back_to_retry_target failed s es)"
    "tidy_way (send_back_for_changes failed s es)" "tidy_way (take_failure_route failed s es)"
proof -
  have skip: "tidy_way (s, Inr (False, es))" "tidy_way (s, Inl e)" for e
    using assms by (simp_all add: tidy_way_def)
  show "tidy_way (retry_same_step failed s es)"
    unfolding retry_same_step_def Let_def
    by (rule tidy_way_attempting [OF assms(1)]) (use assms in \<open>auto simp: tidy_way_def reports_only_def\<close>)
  show "tidy_way (send_back_to_retry_target failed s es)"
    unfolding send_back_to_retry_target_def Let_def
    by (auto split: orchestration_node_kind.split option.split retry_reason.split
        intro!: tidy_way_attempting tidy_way_send_back assms skip)
  show "tidy_way (send_back_for_changes failed s es)"
    unfolding send_back_for_changes_def Let_def
    using assms by (auto split: option.split intro!: tidy_way_attempting tidy_way_send_back skip)
  show "tidy_way (take_failure_route failed s es)"
  proof (cases "outgoing_for (fa_compiled failed) (fa_node_id failed) OnFailure")
    case (Some edge)
    obtain t r where r: "activate s (fa_node_id failed) (oe_target edge) OnFailure es = (t, r)" by fastforce
    show ?thesis
      using activate_status [of s "fa_node_id failed" "oe_target edge" OnFailure es] r assms Some
      by (cases r) (auto simp: take_failure_route_def tidy_way_def)
  qed (simp add: take_failure_route_def skip)
qed

lemma tidy_way_first:
  assumes "\<And>way s es. way \<in> set ways \<Longrightarrow> \<not> is_terminal (rs_status s) \<Longrightarrow> reports_only es \<Longrightarrow> tidy_way (way s es)"
    and "\<not> is_terminal (rs_status s)" and "reports_only es"
  shows "tidy_way (first_way_out ways s es)"
  using assms
proof (induction ways arbitrary: s es)
  case Nil
  then show ?case by (simp add: tidy_way_def)
next
  case (Cons way ways)
  obtain t r where r: "way s es = (t, r)" by fastforce
  have ok: "tidy_way (t, r)" using Cons.prems r by (metis list.set_intros(1))
  have rest: "tidy_way (w u fs)" if "w \<in> set ways" "\<not> is_terminal (rs_status u)" "reports_only fs" for w u fs
    using Cons.prems(1) that by simp
  show ?case
  proof (cases r)
    case (Inl e)
    then show ?thesis using ok r by (simp add: tidy_way_def)
  next
    case (Inr p)
    obtain taken fs where p: "p = (taken, fs)" by fastforce
    have "\<not> is_terminal (rs_status t)" "reports_only fs" using ok Inr p by (simp_all add: tidy_way_def)
    moreover from this have "tidy_way (first_way_out ways t fs)" using Cons.IH rest by blast
    ultimately show ?thesis using r Inr p by (simp add: tidy_way_def)
  qed
qed

lemma record_usage_reports: "record_usage s details = (t, es) \<Longrightarrow> reports_only es"
  by (auto simp: record_usage_def Let_def reports_only_def split: if_splits)

lemma mark_status:
  "rs_status (fst (mark_attempt_failed c s n attempt error details)) = rs_status s"
  "rs_status (fst (mark_attempt_succeeded c s n attempt res details)) = rs_status s"
  by (auto simp: mark_attempt_failed_def mark_attempt_succeeded_def attempting_def Let_def
      split: sum.splits if_splits)

lemma tidy_fail:
  assumes "\<not> is_terminal (rs_status s)"
  shows "tidy (fail ext c s n attempt error details)"
proof (cases "co_node c n")
  case None
  then show ?thesis using assms by (simp add: fail_def tidy_def)
next
  case (Some node)
  obtain s1 es where usage: "record_usage s details = (s1, es)" by fastforce
  obtain t m where mark: "mark_attempt_failed c s1 n attempt error details = (t, m)" by fastforce
  have t: "\<not> is_terminal (rs_status t)"
    using assms mark_status(1) [of c s1 n attempt error details] mark record_usage_frame(2) [OF usage] by simp
  show ?thesis
  proof (cases m)
    case (Inl e)
    then show ?thesis using Some usage mark t by (simp add: fail_def tidy_def)
  next
    case (Inr x)
    let ?failed = "\<lparr>fa_compiled = c, fa_node = node, fa_node_id = n, fa_attempt = attempt,
      fa_error = error, fa_budget_left = (exhausted_budget ext c t = None)\<rparr>"
    let ?ways = "[retry_same_step ?failed, send_back_to_retry_target ?failed,
      send_back_for_changes ?failed, take_failure_route ?failed]"
    let ?es = "es @ [Emit_Run (Ev_StepFailed n attempt error)]"
    have "reports_only ?es" using record_usage_reports [OF usage] by (simp add: reports_only_def)
    then have way: "tidy_way (first_way_out ?ways t ?es)"
      by (intro tidy_way_first t) (auto simp: tidy_ways)
    obtain u r where r: "first_way_out ?ways t ?es = (u, r)" by fastforce
    then have way: "tidy_way (u, r)" using way by simp
    show ?thesis
    proof (cases r)
      case (Inl e)
      then show ?thesis
        using Some usage mark \<open>m = Inr x\<close> r way
        by (simp add: fail_def Let_def tidy_way_def tidy_def del: first_way_out.simps)
    next
      case r2: (Inr p)
      obtain taken fs where p: "p = (taken, fs)" by fastforce
      have fs: "\<not> is_terminal (rs_status u)" "reports_only fs" using way r2 p by (simp_all add: tidy_way_def)
      show ?thesis
        using Some usage mark \<open>m = Inr x\<close> r r2 p fs tidy_terminate_failed [OF fs(2)]
        by (simp add: fail_def Let_def tidy_def [of "(u, Inr fs)"] reports_only_def del: first_way_out.simps)
    qed
  qed
qed

lemma tidy_succeed:
  assumes "\<not> is_terminal (rs_status s)"
  shows "tidy (succeed c s n attempt res details)"
proof -
  obtain s1 es where usage: "record_usage s details = (s1, es)" by fastforce
  obtain t m where mark: "mark_attempt_succeeded c s1 n attempt res details = (t, m)" by fastforce
  have t: "\<not> is_terminal (rs_status t)"
    using assms mark_status(2) [of c s1 n attempt res details] mark record_usage_frame(2) [OF usage] by simp
  let ?es = "es @ [Emit_Run (Ev_StepSucceeded n attempt)]"
  have es: "reports_only ?es" using record_usage_reports [OF usage] by (simp add: reports_only_def)
  have act: "tidy (and_then (activate t n target OnSuccess ?es) (\<lambda>s effects. (settle s, Inr effects)))" for target
  proof -
    obtain u r where r: "activate t n target OnSuccess ?es = (u, r)" by fastforce
    show ?thesis
      using activate_status [of t n target OnSuccess ?es] r t es
      by (cases r) (auto simp: tidy_def reports_only_def)
  qed
  show ?thesis
  proof (cases m)
    case (Inl e)
    then show ?thesis using usage mark t by (simp add: succeed_def tidy_def)
  next
    case (Inr x)
    consider (out) "is_some_and (\<lambda>n. is_output_node (on_kind n)) (co_node c n)"
      | (route) edge where "\<not> is_some_and (\<lambda>n. is_output_node (on_kind n)) (co_node c n)"
          "outgoing_for c n OnSuccess = Some edge"
      | (none) "\<not> is_some_and (\<lambda>n. is_output_node (on_kind n)) (co_node c n)"
          "outgoing_for c n OnSuccess = None" by blast
    then show ?thesis
      by cases (simp_all add: succeed_def usage mark Inr Let_def tidy_complete_run [OF es]
          tidy_terminate_failed [OF es] act)
  qed
qed

lemma tidy_cancellation_completed:
  "\<not> is_terminal (rs_status s) \<Longrightarrow> tidy (cancellation_completed s)"
  unfolding cancellation_completed_def Let_def
  by (rule tidy_attempting) (simp_all add: tidy_def)

lemma cancel_active_reports: "cancel_active idle m = (m', Inr es) \<Longrightarrow> reports_only es"
proof (induction idle m arbitrary: m' es rule: cancel_active.induct)
  case (2 idle node step rest)
  obtain rest' r where rest: "cancel_active idle rest = (rest', r)" by fastforce
  show ?case
  proof (cases "is_active (sr_status step)")
    case True
    with "2.prems" obtain current fs where "current_attempt step = Inr current" "r = Inr fs"
      "es = CancelStep node (at_attempt current) # fs"
      using rest by (cases "current_attempt step"; cases r) auto
    with "2.IH"(1) [OF True] rest show ?thesis by (auto simp: reports_only_def)
  next
    case False
    with "2.IH"(2) [OF False] "2.prems" rest show ?thesis by auto
  qed
qed (simp add: reports_only_def)

lemma tidy_abort: "\<not> is_terminal (rs_status s) \<Longrightarrow> tidy (abort s error)"
proof -
  assume "\<not> is_terminal (rs_status s)"
  obtain steps r where r: "cancel_active id (rs_steps s) = (steps, r)" by fastforce
  then show ?thesis
    using \<open>\<not> is_terminal (rs_status s)\<close> cancel_active_reports [of id "rs_steps s" steps]
    by (auto simp: abort_def Let_def intro!: tidy_attempting tidy_terminate_failed)
qed

lemma tidy_cancel: "\<not> is_terminal (rs_status s) \<Longrightarrow> tidy (cancel s)"
proof -
  assume open_run: "\<not> is_terminal (rs_status s)"
  obtain steps r where r: "cancel_active end_waiting (rs_steps s) = (steps, r)" by fastforce
  show ?thesis
  proof (cases "rs_status s = Run_Cancelling")
    case True
    then show ?thesis by (simp add: cancel_def tidy_def)
  next
    case False
    then show ?thesis
      using r cancel_active_reports [of end_waiting "rs_steps s" steps]
      by (auto simp: cancel_def Let_def intro!: tidy_attempting tidy_cancellation_completed)
         (auto simp: tidy_def reports_only_def)
  qed
qed

lemma replay_steps_status:
  "rs_status (fst (replay_steps ns s es)) = rs_status s"
  "replay_steps ns s es = (t, Inr fs) \<Longrightarrow> reports_only es \<Longrightarrow> reports_only fs"
proof (induction ns s es rule: replay_steps.induct)
  case (2 node rest s es)
  {
    case 1
    then show ?case using "2.IH"(1) by (auto simp: attempting_def Let_def split: sum.splits)
  next
    case 2
    then show ?case using "2.IH"(2) by (auto simp: attempting_def Let_def reports_only_def split: sum.splits)
  }
qed simp_all

lemma fail_indeterminate_status: "rs_status (fst (fail_indeterminate ns error s)) = rs_status s"
  by (induction ns error s rule: fail_indeterminate.induct)
     (auto simp: attempting_def Let_def split: sum.splits)

lemma tidy_reports:
  "\<not> is_terminal (rs_status s) \<Longrightarrow> tidy (s, Inl e)"
  "\<not> is_terminal (rs_status s) \<Longrightarrow> reports_only es \<Longrightarrow> tidy (s, Inr es)"
  by (simp_all add: tidy_def reports_only_def)

lemma tidy_questions:
  assumes "\<not> is_terminal (rs_status s)"
  shows "tidy (record_checkpoint c s n attempt v)" "tidy (permission_required c s n attempt p)"
    "tidy (permission_resolved c s n attempt p approved)" "tidy (input_required c s n attempt q)"
    "tidy (input_resolved c s n attempt q_id answer)" "tidy (retry c s n)"
  using assms
  by (auto simp: record_checkpoint_def permission_required_def permission_resolved_def input_required_def
      input_resolved_def retry_def Let_def reports_only_def split: option.split
      intro!: tidy_attempting tidy_reports)

lemma tidy_controls:
  assumes "\<not> is_terminal (rs_status s)"
  shows "tidy (pause s)" "tidy (resume s)" "tidy (start c s input)"
  using assms
  by (auto simp: pause_def resume_def start_def Let_def reports_only_def
      intro!: tidy_attempting tidy_reports)

lemma tidy_recover:
  assumes s: "\<not> is_terminal (rs_status s)"
  shows "tidy (recover c s)"
  unfolding recover_def
proof (rule tidy_attempting [OF s], goal_cases)
  case (1 u)
  let ?restored = "[Emit_Run Ev_RunRestored]"
  let ?active = "map fst (filter (\<lambda>(_, step). is_active (sr_status step)) (rs_steps s))"
  show ?case
  proof (cases "rs_status s = Run_Cancelling")
    case True
    then show ?thesis
      by (simp add: Let_def cancellation_completed_def require_status_def attempting_def tidy_def)
  next
    case False
    obtain t r where t: "replay_steps (filter (\<lambda>n. \<not> has_unknown_effects c n) ?active) s ?restored = (t, r)"
      by fastforce
    have open_t: "\<not> is_terminal (rs_status t)" using replay_steps_status(1) t s by (metis fst_conv)
    show ?thesis
    proof (cases r)
      case (Inl e)
      then show ?thesis using False t open_t by (simp add: Let_def tidy_def)
    next
      case (Inr es)
      have es: "reports_only es"
        using replay_steps_status(2) [OF t [unfolded Inr]] by (simp add: reports_only_def)
      let ?error = "orchestration_error_new ''INDETERMINATE_ATTEMPT''
        (''step(s) '' @ join '', '' (filter (has_unknown_effects c) ?active)
          @ '' were in flight when the run stopped; side effects are unknown'')"
      obtain v q where v: "fail_indeterminate (filter (has_unknown_effects c) ?active) ?error t = (v, q)"
        by fastforce
      have "\<not> is_terminal (rs_status v)" using fail_indeterminate_status v open_t by (metis fst_conv)
      then have "tidy (and_then (v, q) (\<lambda>s _. terminate_failed s ?error es))"
        by (cases q) (simp_all add: tidy_reports tidy_terminate_failed [OF es])
      moreover have "tidy (settle t, Inr es)" using open_t es by (simp add: tidy_reports)
      ultimately show ?thesis using False t Inr v by (simp add: Let_def)
    qed
  qed
qed

section \<open>Every command\<close>

text \<open>
  One command as the runtime applies it: the state the reducer leaves behind, and its effects
  when the command was accepted.
\<close>

definition run_step ::
    "workflow_externals \<Rightarrow> compiled_orchestration \<Rightarrow> orchestration_run_state \<Rightarrow> orchestration_command
      \<Rightarrow> orchestration_run_state \<times> orchestration_effect list" where
  "run_step ext c s command =
     (let r = run_apply ext c s command
      in (fst r, case snd r of Inl _ \<Rightarrow> [] | Inr es \<Rightarrow> es))"

definition attempts_executed ::
    "orchestration_run_state \<Rightarrow> orchestration_effect list \<Rightarrow> orchestration_run_state \<Rightarrow> bool" where
  "attempts_executed s es t \<longleftrightarrow>
     (\<forall>n. attempt_count s n \<le> attempt_count t n
        \<and> executed_attempts n es = map of_nat [Suc (attempt_count s n)..<Suc (attempt_count t n)])"

definition run_law ::
    "compiled_orchestration \<Rightarrow> orchestration_run_state \<Rightarrow> orchestration_effect list
      \<Rightarrow> orchestration_run_state \<Rightarrow> bool" where
  "run_law c s es t \<longleftrightarrow>
     (run_ok c s \<longrightarrow> run_ok c t \<and> frozen s t \<and> attempts_executed s es t
        \<and> (is_terminal (rs_status s) \<longrightarrow> t = s \<and> es = [])
        \<and> run_finishes es = (if is_terminal (rs_status t) \<and> \<not> is_terminal (rs_status s) then 1 else 0))"

lemma frozen_refl [simp]: "frozen s s"
  by (simp add: frozen_def)

lemma attempts_executed_trans:
  assumes "attempts_executed s es t" and "attempts_executed t fs u"
  shows "attempts_executed s (es @ fs) u"
  unfolding attempts_executed_def
proof
  fix n
  let ?a = "attempt_count s n" and ?b = "attempt_count t n" and ?d = "attempt_count u n"
  have le: "?a \<le> ?b" "?b \<le> ?d" and es: "executed_attempts n es = map of_nat [Suc ?a..<Suc ?b]"
    "executed_attempts n fs = map of_nat [Suc ?b..<Suc ?d]"
    using assms by (simp_all add: attempts_executed_def)
  have "[Suc ?a..<Suc ?d] = [Suc ?a..<Suc ?b] @ [Suc ?b..<Suc ?d]"
    using le upt_add_eq_append [of "Suc ?a" "Suc ?b" "?d - ?b"] by simp
  then show "?a \<le> ?d \<and> executed_attempts n (es @ fs) = map of_nat [Suc ?a..<Suc ?d]"
    using le es by (simp del: upt_Suc)
qed

lemma run_law_trans:
  assumes st: "run_law c s es t" and tu: "run_law c t fs u"
  shows "run_law c s (es @ fs) u"
proof (cases "run_ok c s")
  case True
  from st True have t: "run_ok c t" "frozen s t" "attempts_executed s es t"
    "is_terminal (rs_status s) \<longrightarrow> t = s \<and> es = []"
    "run_finishes es = (if is_terminal (rs_status t) \<and> \<not> is_terminal (rs_status s) then 1 else 0)"
    by (simp_all add: run_law_def)
  from tu t(1) have u: "run_ok c u" "frozen t u" "attempts_executed t fs u"
    "is_terminal (rs_status t) \<longrightarrow> u = t \<and> fs = []"
    "run_finishes fs = (if is_terminal (rs_status u) \<and> \<not> is_terminal (rs_status t) then 1 else 0)"
    by (simp_all add: run_law_def)
  have "run_finishes (es @ fs) = (if is_terminal (rs_status u) \<and> \<not> is_terminal (rs_status s) then 1 else 0)"
    using t(4,5) u(4,5) by (cases "is_terminal (rs_status t)"; cases "is_terminal (rs_status s)") auto
  moreover have "is_terminal (rs_status s) \<longrightarrow> u = s \<and> es @ fs = []" using t(4) u(4) by auto
  ultimately show ?thesis
    using frozen_trans [OF t(2) u(2)] attempts_executed_trans [OF t(3) u(3)] u(1)
    by (simp add: run_law_def)
qed (simp add: run_law_def)

interpretation run_law: effect_contract "run_law c"
proof
  show "run_law c s [] s" for s by (simp add: run_law_def attempts_executed_def)
qed (rule run_law_trans)

lemma run_law_kept:
  assumes "keeps_run c s r" and "tidy r" and "\<not> is_terminal (rs_status s)"
  shows "run_law c s (case snd r of Inl _ \<Rightarrow> [] | Inr es \<Rightarrow> es) (fst r)"
  using assms by (auto simp: run_law_def keeps_run_def kept_def tidy_def attempts_executed_def split: sum.splits)

lemma run_law_admit:
  assumes "\<not> is_terminal (rs_status s)"
  shows "run_law c s (case snd (admit ext c s n attempt) of Inl _ \<Rightarrow> [] | Inr es \<Rightarrow> es) (fst (admit ext c s n attempt))"
proof (cases "run_ok c s")
  case True
  then show ?thesis
  proof (cases rule: admit_step_cases [of c s ext n attempt])
    case (1 e)
    then show ?thesis by (simp add: run_law.keeps_refl)
  next
    case (2 reason)
    have "tidy (admit ext c s n attempt)"
      unfolding 2(2) by (rule tidy_terminate_failed) (simp add: reports_only_def)
    then show ?thesis using run_law_kept [OF 2(3)] assms by blast
  next
    case (3 t)
    have "attempts_executed s [Emit_Run (Ev_StepStarted n attempt), ExecuteStep n attempt] t"
      using 3(5,6) by (auto simp: attempts_executed_def)
    then show ?thesis using 3 assms by (simp add: run_law_def has_ended_def)
  qed
qed (simp add: run_law_def)

lemmas keeps_run_operations =
  keeps_record_checkpoint keeps_permission_required keeps_permission_resolved keeps_input_required
  keeps_input_resolved keeps_retry keeps_pause keeps_resume keeps_start keeps_fail keeps_succeed
  keeps_abort keeps_cancel keeps_cancellation_completed keeps_recover

lemmas tidy_operations =
  tidy_questions tidy_controls tidy_fail tidy_succeed tidy_abort tidy_cancel
  tidy_cancellation_completed tidy_recover

lemma run_law_step: "run_law c s (snd (run_step ext c s command)) (fst (run_step ext c s command))"
proof (cases "is_terminal (rs_status s) \<or> \<not> run_ok c s")
  case True
  then show ?thesis
    by (auto simp: run_law_def run_step_def run_apply_def attempts_executed_def)
next
  case False
  then have s: "\<not> is_terminal (rs_status s)" and ok: "run_ok c s" by simp_all
  show ?thesis
  proof (cases "\<exists>n attempt. command = StepAdmitted n attempt")
    case True
    then show ?thesis using run_law_admit [OF s] s by (auto simp: run_step_def run_apply_def Let_def)
  next
    case False
    then have "keeps_run c s (run_apply ext c s command) \<and> tidy (run_apply ext c s command)"
      by (cases command) (simp_all add: run_apply_def s ok keeps_run_operations tidy_operations)
    then show ?thesis using run_law_kept [OF _ _ s] by (simp add: run_step_def Let_def)
  qed
qed

interpretation workflow: contract_machine "run_law c" "run_step ext c"
proof
  show "run_law c s es t" if "run_step ext c s command = (t, es)" for s command t es
    using run_law_step [of c s ext command] that by simp
qed

interpretation workflow: command_machine "run_step ext c" "run_ok c"
proof
  show "run_ok c t" if "run_ok c s" "run_step ext c s command = (t, es)" for s command t es
    using run_law_step [of c s ext command] that by (simp add: run_law_def)
qed

lemma run_ok_new:
  assumes "hm_wf (co_nodes c)"
  shows "run_ok c (run_state_new run_id c)"
proof -
  have steps: "steps_of (run_state_new run_id c) n = Some step \<Longrightarrow> step = default_step_run" for n step
    by (auto simp: run_state_new_def dest!: map_of_SomeD)
  have "hm_wf (rs_steps (run_state_new run_id c))" using assms by (simp add: run_state_new_def comp_def split_def)
  moreover have "attempts_made (run_state_new run_id c) = 0"
    by (auto simp: attempts_made_def run_state_new_def default_step_run_def)
  moreover have "step_ok default_step_run" by (simp add: step_ok_def attempts_ok_def default_step_run_def)
  moreover have "fst ` set (rs_steps (run_state_new run_id c)) = fst ` set (co_nodes c)"
    by (force simp: run_state_new_def)
  moreover have "calm (run_state_new run_id c)"
    using steps by (fastforce simp: calm_def default_step_run_def)
  moreover have "rs_total_attempts (run_state_new run_id c) = 0" by (simp add: run_state_new_def)
  moreover have "single_token (run_state_new run_id c)"
    using steps by (fastforce simp: single_token_def default_step_run_def)
  ultimately show ?thesis
    using steps by (auto simp: run_ok_def run_core_def within_attempts_def)
qed

end
