(* ===== verification/Workflow_Progress.thy ===== *)
theory Workflow_Progress
  imports Workflow_Contract
begin

text \<open>
  When a run can go on. In a compiled workflow the token walks along the edges, and a step that
  is sent back for another attempt takes the walk back to the retry target. As long as every
  retry target lies on every way to the step that sends back to it, the steps that are not
  pending are exactly those of the walk, so a route never leads to a step that has already
  run, and a started run holds its token until it ends.
\<close>

section \<open>No panic\<close>

lemma send_back_no_panic:
  "map_of (co_retry_spans c) sender \<noteq> None \<Longrightarrow> snd (send_back c s sender target error es) \<noteq> Inl Panicked"
proof -
  have reset: "snd (reset_span span target s) \<noteq> Inl Panicked" for span s
    by (induction span target s rule: reset_span.induct) (auto simp: attempting_def Let_def split: sum.splits)
  then show "map_of (co_retry_spans c) sender \<noteq> None \<Longrightarrow> ?thesis"
    by (auto simp: send_back_def and_then_def attempting_def Let_def split: sum.splits)
qed

definition unpanicked :: "'a run_result \<Rightarrow> bool" where
  "unpanicked r \<longleftrightarrow> snd r \<noteq> Inl Panicked"

lemma unpanicked_simps [simp]:
  "unpanicked (s, Inr a)" "unpanicked (s, Inl (Rejected e))"
  by (simp_all add: unpanicked_def)

lemma unpanicked_attempting:
  "(\<And>a. r = Inr a \<Longrightarrow> unpanicked (k a)) \<Longrightarrow> unpanicked (attempting s r k)"
  by (cases r) (auto simp: attempting_def)

lemma unpanicked_and_then:
  "unpanicked r \<Longrightarrow> (\<And>s a. unpanicked (k s a)) \<Longrightarrow> unpanicked (and_then r k)"
  by (cases r; cases "snd r") (auto simp: unpanicked_def)

lemma unpanicked_terminate_failed [simp]: "unpanicked (terminate_failed s error es)"
  by (simp add: terminate_failed_def Let_def)

lemma unpanicked_simple_operations:
  "unpanicked (record_checkpoint c s n attempt v)" "unpanicked (permission_required c s n attempt p)"
  "unpanicked (permission_resolved c s n attempt p approved)" "unpanicked (input_required c s n attempt q)"
  "unpanicked (input_resolved c s n attempt q_id answer)" "unpanicked (retry c s n)"
  "unpanicked (pause s)" "unpanicked (resume s)" "unpanicked (start c s input)"
  "unpanicked (cancellation_completed s)" "unpanicked (abort s error)" "unpanicked (cancel s)"
  "unpanicked (admit ext c s n attempt)" "unpanicked (activate s n m condition es)"
  by (auto simp: record_checkpoint_def permission_required_def permission_resolved_def input_required_def
      input_resolved_def retry_def pause_def resume_def start_def cancellation_completed_def abort_def
      cancel_def admit_def activate_def Let_def split: option.split prod.split
      intro!: unpanicked_attempting)

lemma unpanicked_succeed: "unpanicked (succeed c s n attempt res details)"
  by (auto simp: succeed_def mark_attempt_succeeded_def complete_run_def Let_def unpanicked_simple_operations
      split: prod.split option.split intro!: unpanicked_and_then unpanicked_attempting)

lemma unpanicked_recover: "unpanicked (recover c s)"
proof -
  have replay: "unpanicked (replay_steps ns s es)" for ns s es
    by (induction ns s es rule: replay_steps.induct) (auto simp: Let_def intro!: unpanicked_attempting)
  have "unpanicked (fail_indeterminate ns error s)" for ns error s
    by (induction ns error s rule: fail_indeterminate.induct) (auto simp: Let_def intro!: unpanicked_attempting)
  then show ?thesis
    by (auto simp: recover_def Let_def unpanicked_simple_operations intro!: unpanicked_attempting unpanicked_and_then replay)
qed

text \<open>Only a failing step sends back, and a compiled workflow has a span for every step that does.\<close>

lemma unpanicked_fail:
  assumes spans: "\<And>node config. co_node c n = Some node \<Longrightarrow> on_kind node = Node_Verify config \<Longrightarrow>
      vnc_retry_target config \<noteq> None \<Longrightarrow> map_of (co_retry_spans c) n \<noteq> None"
  shows "unpanicked (fail ext c s n attempt error details)"
proof (cases "co_node c n")
  case (Some node)
  have way: "unpanicked (retry_same_step failed s es)" "unpanicked (send_back_for_changes failed s es)"
    "unpanicked (take_failure_route failed s es)" for failed s es
    by (auto simp: retry_same_step_def send_back_for_changes_def take_failure_route_def Let_def
        unpanicked_simple_operations unpanicked_def [of "send_back _ _ _ _ _ _"] send_back_no_panic
        split: option.split intro!: unpanicked_attempting unpanicked_and_then)
  have target: "unpanicked (send_back_to_retry_target failed s es)"
    if "fa_compiled failed = c" "fa_node failed = node" "fa_node_id failed = n" for failed s es
    using that spans [OF Some]
    by (auto simp: send_back_to_retry_target_def Let_def unpanicked_def [of "send_back _ _ _ _ _ _"]
        send_back_no_panic split: option.split orchestration_node_kind.split retry_reason.split
        intro!: unpanicked_attempting unpanicked_and_then)
  have ways: "unpanicked (first_way_out ways s es)"
    if "\<And>way s es. way \<in> set ways \<Longrightarrow> unpanicked (way s es)" for ways s es
    using that
    by (induction ways arbitrary: s es) (auto intro!: unpanicked_and_then)
  show ?thesis
    using Some way target
    by (auto simp: fail_def Let_def mark_attempt_failed_def simp del: first_way_out.simps split: prod.split
        intro!: unpanicked_and_then unpanicked_attempting ways)
qed (simp add: fail_def)

lemma run_apply_unpanicked:
  assumes "compile_workflow ext d = Inr c"
  shows "snd (run_apply ext' c s command) \<noteq> Inl Panicked"
proof -
  have "map_of (co_retry_spans c) n \<noteq> None"
    if "co_node c n = Some node" "on_kind node = Node_Verify config" "vnc_retry_target config \<noteq> None"
    for n node config
    using compiled_span [OF assms that(1)] that by (auto simp: retry_link_of_def)
  then have fail: "unpanicked (fail ext' c s n attempt error details)" for n attempt error details
    by (intro unpanicked_fail) blast
  show ?thesis
    unfolding unpanicked_def [symmetric] run_apply_def
    using fail unpanicked_succeed unpanicked_recover
    by (auto simp: unpanicked_simple_operations split: orchestration_command.split)
qed

section \<open>The walk of the token\<close>

abbreviation flow :: "compiled_orchestration \<Rightarrow> (node_id \<times> node_id) set" where
  "flow c \<equiv> edge_rel (co_outgoing c)"

definition visited :: "orchestration_run_state \<Rightarrow> node_id set" where
  "visited s = {n. \<exists>step. steps_of s n = Some step \<and> sr_status step \<noteq> Step_Pending}"

definition holds_token :: "orchestration_run_state \<Rightarrow> node_id \<Rightarrow> bool" where
  "holds_token s n \<longleftrightarrow> (\<exists>step. steps_of s n = Some step \<and> is_token (sr_status step))"

definition walk :: "compiled_orchestration \<Rightarrow> node_id list \<Rightarrow> bool" where
  "walk c p \<longleftrightarrow> p \<noteq> [] \<and> hd p = co_entry_node c \<and> successively (\<lambda>u v. (u, v) \<in> flow c) p"

definition walked :: "compiled_orchestration \<Rightarrow> orchestration_run_state \<Rightarrow> node_id list \<Rightarrow> bool" where
  "walked c s p \<longleftrightarrow> walk c p \<and> set p = visited s"

definition progressing :: "compiled_orchestration \<Rightarrow> orchestration_run_state \<Rightarrow> bool" where
  "progressing c s \<longleftrightarrow> (\<exists>p. walked c s p \<and> holds_token s (last p))"

text \<open>
  Where a step sends back to: its retry link. \<open>retries_dominate\<close> says that no way from the entry
  to a step avoids the target it sends back to.
\<close>

definition sends_back_to :: "compiled_orchestration \<Rightarrow> node_id \<Rightarrow> node_id \<Rightarrow> bool" where
  "sends_back_to c n target \<longleftrightarrow>
     (\<exists>node link. co_node c n = Some node \<and> retry_link_of node (co_nodes c) = Some link
        \<and> rl_target_id link = target)"

definition retries_dominate :: "compiled_orchestration \<Rightarrow> bool" where
  "retries_dominate c \<longleftrightarrow>
     (\<forall>n target. sends_back_to c n target \<longrightarrow>
        (co_entry_node c, n) \<notin> {(u, v) \<in> flow c. u \<noteq> target}\<^sup>*)"

lemma walk_reach:
  assumes "successively (\<lambda>u v. (u, v) \<in> E) p" and "x \<in> set p"
  shows "(x, last p) \<in> E\<^sup>*"
  using assms
proof (induction p arbitrary: x)
  case (Cons y p)
  show ?case
  proof (cases "p = []")
    case False
    then have "(y, hd p) \<in> E" "successively (\<lambda>u v. (u, v) \<in> E) p"
      using Cons.prems by (simp_all add: successively_Cons)
    then show ?thesis
      using Cons.IH [of x] Cons.IH [of "hd p"] Cons.prems(2) False
      by (auto intro: converse_rtrancl_into_rtrancl)
  qed (use Cons.prems in simp)
qed simp

lemma walk_split:
  assumes "successively (\<lambda>u v. (u, v) \<in> E) (p @ t # q)"
  shows "x \<in> set p \<Longrightarrow> (x, t) \<in> E\<^sup>+" and "x \<in> set q \<Longrightarrow> (t, x) \<in> E\<^sup>+"
proof -
  have p: "successively (\<lambda>u v. (u, v) \<in> E) p" "p \<noteq> [] \<Longrightarrow> (last p, t) \<in> E"
    and q: "successively (\<lambda>u v. (u, v) \<in> E) (t # q)"
    using assms by (auto simp: successively_append_iff)
  show "(x, t) \<in> E\<^sup>+" if "x \<in> set p"
  proof -
    have "p \<noteq> []" using that by auto
    then show ?thesis using walk_reach [OF p(1) that] p(2) by (metis rtrancl_into_trancl1)
  qed
  have head: "y \<in> set q \<Longrightarrow> (t, y) \<in> E\<^sup>+" if "successively (\<lambda>u v. (u, v) \<in> E) (t # q)" for t q y
    using that
  proof (induction q arbitrary: t)
    case (Cons z q)
    then show ?case by (auto simp: successively_Cons intro: trancl_into_trancl2)
  qed simp
  show "(t, x) \<in> E\<^sup>+" if "x \<in> set q" using head [OF q that] .
qed

lemma walk_avoids:
  assumes "successively (\<lambda>u v. (u, v) \<in> E) p" and "t \<notin> set p" and "p \<noteq> []"
  shows "(hd p, last p) \<in> {(u, v) \<in> E. u \<noteq> t}\<^sup>*"
proof -
  have "successively (\<lambda>u v. (u, v) \<in> {(u, v) \<in> E. u \<noteq> t}) p"
    using assms(1,2) by (induction p) (auto simp: successively_Cons)
  from walk_reach [OF this, of "hd p"] assms(3) show ?thesis by simp
qed

lemma dominating_target_walked:
  assumes "retries_dominate c" and "walk c p" and "sends_back_to c (last p) target"
  shows "target \<in> set p"
  using walk_avoids [of "flow c" p target] assms by (auto simp: retries_dominate_def walk_def)

lemma walked_steps:
  "rs_steps t = rs_steps s \<Longrightarrow> visited t = visited s \<and> holds_token t = holds_token s
     \<and> walked c t = walked c s \<and> progressing c t = progressing c s"
  by (simp add: walked_def visited_def holds_token_def progressing_def fun_eq_iff)

lemma walked_settle [simp]:
  "progressing c (settle s) = progressing c s" "visited (settle s) = visited s"
  using walked_steps [of "settle s" s c] by simp_all

lemma visited_put:
  "steps_of s n = Some a \<Longrightarrow>
     visited (put_step n b s) = (if sr_status b = Step_Pending then visited s - {n} else insert n (visited s))"
  by (auto simp: visited_def steps_of_put)

lemma holds_token_put:
  "is_token (sr_status b) \<Longrightarrow> holds_token (put_step n b s) n"
  by (simp add: holds_token_def steps_of_put)

lemma token_visited: "holds_token s n \<Longrightarrow> n \<in> visited s"
  by (auto simp: holds_token_def visited_def)

lemma progressing_put_token:
  assumes "progressing c s" and "run_ok c s" and "steps_of s n = Some a"
    and "is_token (sr_status a)" and "is_token (sr_status b)"
  shows "progressing c (put_step n b s)"
proof -
  obtain p where p: "walked c s p" "holds_token s (last p)" using assms(1) by (auto simp: progressing_def)
  have "last p = n" using p(2) assms(3,4) run_coreD(4) [OF run_ok_core [OF assms(2)]]
    by (auto simp: holds_token_def single_token_def)
  moreover have "visited (put_step n b s) = visited s"
    using visited_put [OF assms(3), of b] assms(3-5) token_visited [of s n] by (auto simp: holds_token_def)
  ultimately show ?thesis
    using p holds_token_put [OF assms(5)] by (auto simp: progressing_def walked_def)
qed

section \<open>Activating and sending back\<close>

lemma compiled_flow:
  assumes "compile_workflow ext d = Inr c" and "outgoing_for c n condition = Some edge"
  shows "(n, oe_target edge) \<in> flow c"
proof -
  have "edge \<in> set (edges_of (co_outgoing c) n)"
    using assms(2)
    by (cases "map_of (co_outgoing c) n") (auto simp: outgoing_for_def edges_of_def find_Some_iff)
  then show ?thesis by (auto simp: edge_rel_def)
qed

lemma flow_node:
  assumes "compile_workflow ext d = Inr c" and "(n, m) \<in> flow c"
  shows "m \<in> fst ` set (co_nodes c)"
  using compiled_edges(1) [OF assms(1)] assms(2) by (auto simp: edges_wf_alt edge_rel_def)

lemma node_has_step:
  assumes "run_core c s" and "n \<in> fst ` set (co_nodes c)"
  obtains step where "steps_of s n = Some step"
  using run_coreD(2) [OF assms(1)] assms(2) by (metis map_of_eq_None_iff not_None_eq)

lemma activate_progress:
  assumes c: "compile_workflow ext d = Inr c" and core: "run_core c s" and p: "walked c s p"
    and edge: "(last p, target) \<in> flow c"
  shows "\<exists>t es'. activate s (last p) target condition es = (t, Inr es') \<and> progressing c t"
proof -
  obtain step where step: "steps_of s target = Some step"
    using node_has_step [OF core flow_node [OF c edge]] .
  have "target \<notin> set p"
  proof
    assume "target \<in> set p"
    then have "(target, last p) \<in> (flow c)\<^sup>*"
      using p walk_reach [of "flow c" p target] by (simp add: walked_def walk_def)
    with edge compiled_ranks(1) [OF c] show False by (meson acyclic_def rtrancl_into_trancl2)
  qed
  then have pending: "sr_status step = Step_Pending" using p step by (auto simp: walked_def visited_def)
  let ?b = "step\<lparr>sr_status := Step_Ready\<rparr>"
  have "walked c (put_step target ?b s) (p @ [target])"
    using p edge visited_put [OF step, of ?b]
    by (auto simp: walked_def walk_def successively_append_iff)
  then have "progressing c (put_step target ?b s)"
    using holds_token_put [of ?b target s] by (auto simp: progressing_def intro!: exI [of _ "p @ [target]"])
  then show ?thesis using step pending by (simp add: activate_def attempting_def step_state_def)
qed

lemma reset_span_visited:
  assumes "\<And>n. n \<in> set span \<Longrightarrow> steps_of s n \<noteq> None"
  shows "\<exists>t. reset_span span target s = (t, Inr ()) \<and> visited t = visited s - set span
    \<and> (\<forall>n. (steps_of t n = None) = (steps_of s n = None))"
  using assms
proof (induction span arbitrary: s)
  case (Cons node rest)
  then obtain step where step: "steps_of s node = Some step" by fastforce
  let ?b = "step\<lparr>sr_status := Step_Pending, sr_output := None,
    sr_checkpoint := (if node \<noteq> target then None else sr_checkpoint step)\<rparr>"
  have "\<exists>t. reset_span rest target (put_step node ?b s) = (t, Inr ())
      \<and> visited t = visited (put_step node ?b s) - set rest
      \<and> (\<forall>n. (steps_of t n = None) = (steps_of (put_step node ?b s) n = None))"
    using Cons.prems by (intro Cons.IH) (simp add: steps_of_put)
  then show ?case
    using step visited_put [OF step, of ?b]
    by (auto simp: attempting_def step_state_def Let_def steps_of_put)
qed simp

lemma send_back_progress:
  assumes c: "compile_workflow ext d = Inr c" and dom: "retries_dominate c" and core: "run_core c s"
    and p: "walked c s p" and sends: "sends_back_to c (last p) target"
  shows "\<exists>t es'. send_back c s (last p) target error es = (settle t, Inr es') \<and> progressing c t"
proof -
  from sends obtain node link where link: "co_node c (last p) = Some node"
    "retry_link_of node (co_nodes c) = Some link" "rl_target_id link = target"
    by (auto simp: sends_back_to_def)
  from compiled_span [OF c link(1,2), unfolded link(3)] obtain span where
    span: "map_of (co_retry_spans c) (last p) = Some span"
    "set span = {x. (target, x) \<in> (flow c)\<^sup>* \<and> (x, last p) \<in> (flow c)\<^sup>*}"
    and target: "co_node c target \<noteq> None" by auto
  have target_node: "target \<in> fst ` set (co_nodes c)"
    using target by (metis co_node_def map_of_eq_None_iff)
  have nodes: "x \<in> fst ` set (co_nodes c)" if "x \<in> set span" for x
  proof -
    have "(target, x) \<in> (flow c)\<^sup>*" using that span(2) by simp
    then show ?thesis by (cases rule: rtranclE) (use target_node flow_node [OF c] in auto)
  qed
  have "\<And>x. x \<in> set span \<Longrightarrow> steps_of s x \<noteq> None"
    by (rule node_has_step [OF core nodes]) auto
  from reset_span_visited [OF this, where target = target] obtain t where
    t: "reset_span span target s = (t, Inr ())" "visited t = visited s - set span"
    "\<forall>n. (steps_of t n = None) = (steps_of s n = None)" by blast
  obtain step where step: "steps_of t target = Some step"
    using t(3) node_has_step [OF core target_node] by (metis not_None_eq)
  have "target \<in> set p"
    using dominating_target_walked [OF dom _ sends] p by (simp add: walked_def)
  then obtain p1 p2 where split: "p = p1 @ target # p2" using split_list by fast
  have walk: "successively (\<lambda>u v. (u, v) \<in> flow c) (p1 @ target # p2)"
    using p split by (simp add: walked_def walk_def)
  have before: "x \<notin> set span" if "x \<in> set p1" for x
  proof
    assume "x \<in> set span"
    then have "(target, x) \<in> (flow c)\<^sup>*" using span(2) by simp
    with walk_split(1) [OF walk that] compiled_ranks(1) [OF c] show False
      by (meson acyclic_def rtrancl_trancl_trancl)
  qed
  have after: "x \<in> set span" if "x \<in> set (target # p2)" for x
  proof -
    have "(target, x) \<in> (flow c)\<^sup>*" using that walk_split(2) [OF walk, of x] by (auto simp: trancl_into_rtrancl)
    moreover have "(x, last p) \<in> (flow c)\<^sup>*" using walk_reach [OF walk, of x] that unfolding split by (auto simp del: last_append)
    ultimately show ?thesis using span(2) by simp
  qed
  let ?b = "step\<lparr>sr_status := Step_RetryScheduled, sr_feedback := sr_feedback step @ [error]\<rparr>"
  have "visited (put_step target ?b t) = set (p1 @ [target])"
  proof -
    have "visited s = set p1 \<union> set (target # p2)" using p split by (simp add: walked_def)
    moreover have "set p1 \<inter> set span = {}" "set (target # p2) \<subseteq> set span" using before after by blast+
    ultimately have "visited t = set p1" using t(2) by blast
    then show ?thesis using visited_put [OF step, of ?b] by simp
  qed
  moreover have "walk c (p1 @ [target])"
  proof -
    have "successively (\<lambda>u v. (u, v) \<in> flow c) (p1 @ [target])"
      using walk by (simp add: successively_append_iff)
    moreover have "hd (p1 @ [target]) = hd p" using split by (cases p1) simp_all
    ultimately show ?thesis using p by (simp add: walked_def walk_def)
  qed
  ultimately have "progressing c (put_step target ?b t)"
    using holds_token_put [of ?b target t]
    unfolding progressing_def walked_def by (intro exI [of _ "p1 @ [target]"]) simp
  then show ?thesis
    using span(1) t(1) step by (auto simp: send_back_def attempting_def step_state_def Let_def)
qed

section \<open>Every command goes on\<close>

text \<open>A run in progress: the walk is intact and the run's status is the one its steps give it.\<close>

definition going :: "compiled_orchestration \<Rightarrow> orchestration_run_state \<Rightarrow> bool" where
  "going c s \<longleftrightarrow> progressing c s \<and> settle s = s"

definition goes_on :: "compiled_orchestration \<Rightarrow> 'a run_result \<Rightarrow> bool" where
  "goes_on c r \<longleftrightarrow> has_ended (rs_status (fst r)) \<or> going c (fst r)"

text \<open>The status \<open>settle\<close> gives a run.\<close>

definition settled_status :: "step_status option \<Rightarrow> bool \<Rightarrow> orchestration_status" where
  "settled_status active paused =
     (case active of
        Some Step_WaitingForPermission \<Rightarrow> Run_WaitingForPermission
      | Some Step_WaitingForInput \<Rightarrow> Run_WaitingForInput
      | Some _ \<Rightarrow> Run_Running
      | None \<Rightarrow> if paused then Run_Paused else Run_Ready)"

definition active_status :: "orchestration_run_state \<Rightarrow> step_status option" where
  "active_status s = map_option (\<lambda>(_, step). sr_status step) (active_step s)"

lemma settle_alt:
  "settle s = (if has_ended (rs_status s) then s
     else s\<lparr>rs_status := settled_status (active_status s) (rs_paused s)\<rparr>)"
  by (simp add: settle_def has_ended_def settled_status_def active_status_def)

lemma update_status_eq: "s\<lparr>rs_status := x\<rparr> = s \<longleftrightarrow> rs_status s = x"
  by (cases s) auto

lemma settle_eq_iff:
  "settle s = s \<longleftrightarrow> has_ended (rs_status s) \<or> rs_status s = settled_status (active_status s) (rs_paused s)"
  by (simp add: settle_alt update_status_eq)

lemma settle_settle [simp]: "settle (settle s) = settle s"
  by (simp add: settle_alt active_status_def active_step_def)

lemma settle_frame_eq:
  assumes "rs_steps t = rs_steps s" and "rs_status t = rs_status s" and "rs_paused t = rs_paused s"
  shows "settle t = t \<longleftrightarrow> settle s = s"
  using assms by (simp add: settle_eq_iff active_status_def active_step_def)

lemma goes_on_same:
  "going c s \<Longrightarrow> rs_steps t = rs_steps s \<Longrightarrow> rs_status t = rs_status s \<Longrightarrow> rs_paused t = rs_paused s \<Longrightarrow>
     goes_on c (t, r)"
  using walked_steps [of t s c] settle_frame_eq [of t s] by (simp add: goes_on_def going_def)

lemma goes_on_attempting:
  "going c s \<Longrightarrow> (\<And>a. r = Inr a \<Longrightarrow> goes_on c (k a)) \<Longrightarrow> goes_on c (attempting s r k)"
  by (cases r) (auto simp: attempting_def goes_on_def)

lemma goes_on_settle [simp]: "goes_on c (settle s, r) \<longleftrightarrow> has_ended (rs_status s) \<or> progressing c s"
proof (cases "has_ended (rs_status s)")
  case True
  then show ?thesis using settle_status(1) [of s] by (simp add: goes_on_def)
next
  case False
  then show ?thesis using settle_status(2) [of s] by (simp add: goes_on_def going_def)
qed

lemma progressing_frame [simp]:
  "progressing c (s\<lparr>rs_total_attempts := k\<rparr>) = progressing c s"
  "progressing c (s\<lparr>rs_paused := b\<rparr>) = progressing c s"
  using walked_steps [of "s\<lparr>rs_total_attempts := k\<rparr>" s c] walked_steps [of "s\<lparr>rs_paused := b\<rparr>" s c]
  by simp_all

lemma goes_on_terminate: "goes_on c (terminate_failed s error es)"
  by (simp add: goes_on_def terminate_failed_def Let_def has_ended_def)

lemma active_attempt_token:
  "active_attempt_mut c s n attempt = Inr step \<Longrightarrow> steps_of s n = Some step \<and> is_token (sr_status step)"
  by (auto simp: active_attempt_mut_Inr is_active_token)

lemma active_status_put:
  assumes "steps_of s n = Some a" and "sr_status b = sr_status a"
  shows "active_status (put_step n b s) = active_status s"
proof -
  have "map_option (\<lambda>(_, step). sr_status step) (List.find (\<lambda>(_, step). is_active (sr_status step)) (AList.update n b m))
    = map_option (\<lambda>(_, step). sr_status step) (List.find (\<lambda>(_, step). is_active (sr_status step)) m)"
    if "map_of m n = Some a" for m
    using that assms(2) by (induction m) (auto split: if_splits)
  then show ?thesis using assms(1) by (simp add: active_status_def active_step_def put_step_def)
qed

lemma goes_on_record_checkpoint:
  assumes go: "going c s" and ok: "run_ok c s"
  shows "goes_on c (record_checkpoint c s n attempt v)"
  unfolding record_checkpoint_def Let_def
proof (rule goes_on_attempting [OF go])
  fix step assume "active_attempt_mut c s n attempt = Inr step"
  note step = active_attempt_token [OF this]
  let ?b = "step\<lparr>sr_checkpoint := Some v\<rparr>"
  have "progressing c (put_step n ?b s)"
    using progressing_put_token [of c s n step ?b] go ok step by (simp add: going_def)
  moreover have "settle (put_step n ?b s) = put_step n ?b s"
    using go active_status_put [of s n step ?b] step by (simp add: settle_eq_iff going_def)
  ultimately show "goes_on c (put_step n ?b s, Inr es)" for es :: "orchestration_effect list"
    by (simp add: goes_on_def going_def)
qed

lemma going_progressing: "going c s \<Longrightarrow> progressing c s"
  by (simp add: going_def)

lemma goes_on_questions:
  assumes "going c s" and "run_ok c s"
  shows "goes_on c (permission_required c s n attempt p)"
    "goes_on c (permission_resolved c s n attempt p approved)" "goes_on c (input_required c s n attempt q)"
    "goes_on c (input_resolved c s n attempt q_id answer)"
  using assms going_progressing [OF assms(1)]
  by (auto simp: permission_required_def permission_resolved_def input_required_def
      input_resolved_def Let_def progressing_put_token split: option.split dest!: active_attempt_token
      intro!: goes_on_attempting goes_on_same [of c s s])

lemma goes_on_retry:
  assumes "going c s" and "run_ok c s"
  shows "goes_on c (retry c s n)"
  using assms going_progressing [OF assms(1)]
  by (auto simp: retry_def step_mut_Inr progressing_put_token intro!: goes_on_attempting goes_on_same [of c s s])

lemma goes_on_admit:
  assumes "going c s" and "run_ok c s"
  shows "goes_on c (admit ext c s n attempt)"
  using assms going_progressing [OF assms(1)]
  by (auto simp: admit_def admit_check_Inr step_state_Inr Let_def progressing_put_token split: option.split
      intro!: goes_on_attempting goes_on_terminate)

lemma goes_on_controls:
  assumes go: "going c s" and ok: "run_ok c s" and run: "\<not> has_ended (rs_status s)"
  shows "goes_on c (pause s)" "goes_on c (resume s)" "goes_on c (start c s input)"
    "goes_on c (cancellation_completed s)" "goes_on c (cancel s)"
proof -
  note stay = goes_on_same [OF go refl refl refl]
  have "rs_status s \<noteq> Run_Created"
    using going_progressing [OF go] ok by (auto simp: progressing_def holds_token_def dest: token_status(1))
  then show "goes_on c (start c s input)"
    using stay by (simp add: start_def require_status_def attempting_def)
  show "goes_on c (pause s)" "goes_on c (resume s)"
    using stay going_progressing [OF go] by (auto simp: pause_def resume_def)
  show "goes_on c (cancellation_completed s)"
    using stay run by (simp add: cancellation_completed_def require_status_def attempting_def has_ended_def)
  show "goes_on c (cancel s)"
    by (auto simp: cancel_def cancellation_completed_def attempting_def require_status_def goes_on_def
        has_ended_def Let_def split: prod.split sum.split)
qed

lemma goes_on_abort:
  assumes "run_ok c s"
  shows "goes_on c (abort s error)"
  using step_ok_list [OF run_ok_core [OF assms]]
  by (simp add: abort_def cancel_active_eq attempting_def goes_on_terminate)

lemma goes_on_recover:
  assumes go: "going c s" and ok: "run_ok c s" and "\<not> has_ended (rs_status s)"
  shows "goes_on c (recover c s)"
  unfolding recover_def
proof (rule goes_on_attempting [OF go], goal_cases)
  case (1 u)
  let ?active = "map fst (filter (\<lambda>(_, step). is_active (sr_status step)) (rs_steps s))"
  have status: "rs_status s \<noteq> Run_Cancelling" using assms(3) by (simp add: has_ended_def)
  from active_list [OF run_ok_core [OF ok]] consider (none) "?active = []"
    | (one) n step where "?active = [n]" "steps_of s n = Some step" "is_active (sr_status step)" by auto
  then show ?case
  proof cases
    case none
    then show ?thesis using status going_progressing [OF go] by (simp add: Let_def)
  next
    case one
    have "sr_attempts step \<noteq> []"
      using run_coreD(3) [OF run_ok_core [OF ok] one(2)] one(3) by (simp add: step_ok_def attempts_ok_def)
    then have found: "step_state s n = Inr step" "current_attempt step = Inr (last (sr_attempts step))"
      using one(2) by (simp_all add: step_state_Inr current_attempt_Inr)
    show ?thesis
      using status one found is_active_token [OF one(3)]
      by (cases "has_unknown_effects c n")
         (simp_all add: Let_def attempting_def goes_on_terminate
           progressing_put_token [OF going_progressing [OF go] ok one(2)])
  qed
qed

text \<open>The attempt that ended was the token's, so the walk now ends in a step that has run.\<close>

lemma walked_after_mark:
  assumes go: "progressing c s" and ok: "run_ok c s" and n: "steps_of s n = Some a" "is_token (sr_status a)"
    and b: "sr_status b \<noteq> Step_Pending"
  shows "\<exists>p. walked c (put_step n b s) p \<and> last p = n"
proof -
  obtain p where p: "walked c s p" "holds_token s (last p)" using go by (auto simp: progressing_def)
  have "last p = n"
    using p(2) n run_coreD(4) [OF run_ok_core [OF ok]] by (auto simp: holds_token_def single_token_def)
  moreover have "n \<in> visited s" using n token_visited [of s n] by (auto simp: holds_token_def)
  then have "visited (put_step n b s) = visited s" using visited_put [OF n(1), of b] b by auto
  ultimately show ?thesis using p(1) by (auto simp: walked_def)
qed

lemma mark_succeeded_walked:
  assumes "progressing c s" and "run_ok c s"
    and "mark_attempt_succeeded c s n attempt res details = (t, r)"
  shows "(\<exists>e. r = Inl e) \<and> t = s \<or> (\<exists>p. r = Inr () \<and> walked c t p \<and> last p = n)"
proof (cases "active_attempt_mut c s n attempt")
  case (Inr step)
  show ?thesis
  proof (cases "sr_status step = Step_Running \<and> sr_attempts step \<noteq> []")
    case True
    with Inr assms(3) walked_after_mark [OF assms(1,2), of n step] active_attempt_token [OF Inr]
    show ?thesis by (auto simp: mark_attempt_succeeded_def attempting_def current_attempt_def Let_def)
  qed (use Inr assms(3) in \<open>auto simp: mark_attempt_succeeded_def attempting_def current_attempt_def split: if_splits\<close>)
qed (use assms(3) in \<open>auto simp: mark_attempt_succeeded_def attempting_def\<close>)

lemma mark_failed_walked:
  assumes "progressing c s" and "run_ok c s"
    and "mark_attempt_failed c s n attempt error details = (t, r)"
  shows "(\<exists>e. r = Inl e) \<and> t = s \<or> (\<exists>p. r = Inr () \<and> walked c t p \<and> last p = n)"
proof (cases "active_attempt_mut c s n attempt")
  case (Inr step)
  show ?thesis
  proof (cases "sr_attempts step = []")
    case False
    with Inr assms(3) walked_after_mark [OF assms(1,2), of n step] active_attempt_token [OF Inr]
    show ?thesis by (auto simp: mark_attempt_failed_def attempting_def current_attempt_def Let_def)
  qed (use Inr assms(3) in \<open>auto simp: mark_attempt_failed_def attempting_def current_attempt_def\<close>)
qed (use assms(3) in \<open>auto simp: mark_attempt_failed_def attempting_def\<close>)

lemma spent_core:
  assumes "run_ok c s"
  shows "mark_attempt_succeeded c s n attempt res details = (t, Inr ()) \<Longrightarrow> run_core c t"
    and "mark_attempt_failed c s n attempt error details = (t, Inr ()) \<Longrightarrow> run_core c t"
  by (rule mark_attempt_succeeded_cases [OF assms, of n attempt res details]; simp add: spent_def)
     (rule mark_attempt_failed_cases [OF assms, of n attempt error details]; simp add: spent_def)

lemma goes_on_succeed:
  assumes c: "compile_workflow ext d = Inr c" and go: "going c s" and ok: "run_ok c s"
  shows "goes_on c (succeed c s n attempt res details)"
proof -
  obtain s1 es where usage: "record_usage s details = (s1, es)" by fastforce
  note frame = record_usage_frame [OF usage]
  have s1: "progressing c s1" "run_ok c s1"
    using walked_steps [OF frame(1), of c] going_progressing [OF go] frame(4) [OF ok] by simp_all
  have stay: "goes_on c (s1, r)" for r :: "run_failure + orchestration_effect list"
    using goes_on_same [OF go frame(1,2)] usage by (auto simp: record_usage_def Let_def split: if_splits)
  obtain t r where mark: "mark_attempt_succeeded c s1 n attempt res details = (t, r)" by fastforce
  from mark_succeeded_walked [OF s1 mark] consider (rejected) e where "r = Inl e" "t = s1"
    | (marked) p where "r = Inr ()" "walked c t p" "last p = n" by auto
  then show ?thesis
  proof cases
    case rejected
    then show ?thesis using usage mark stay by (simp add: succeed_def)
  next
    case marked
    have core: "run_core c t" using spent_core(1) [OF s1(2)] mark marked(1) by simp
    show ?thesis
    proof (cases "outgoing_for c n OnSuccess")
      case None
      then show ?thesis
        using usage mark marked(1) goes_on_terminate
        by (simp add: succeed_def Let_def complete_run_def goes_on_def [of c "(_, Inr _)"] has_ended_def)
    next
      case (Some edge)
      from activate_progress [OF c core marked(2)] compiled_flow [OF c Some] marked(3)
      obtain u es' where "activate t n (oe_target edge) OnSuccess (es @ [Emit_Run (Ev_StepSucceeded n attempt)])
          = (u, Inr es')" "progressing c u" by blast
      then show ?thesis
        using usage mark marked(1) Some
        by (simp add: succeed_def Let_def complete_run_def) (simp add: goes_on_def has_ended_def)
    qed
  qed
qed

text \<open>
  A way out of a failure either leaves the state as it was, or takes the token somewhere and
  settles the run.
\<close>

definition way_on ::
    "compiled_orchestration \<Rightarrow> orchestration_run_state \<Rightarrow> (bool \<times> orchestration_effect list) run_result \<Rightarrow> bool" where
  "way_on c s r \<longleftrightarrow> (\<exists>es. r = (s, Inr (False, es))) \<or> (\<exists>t es. r = (t, Inr (True, es)) \<and> going c t)"

lemma way_on_first:
  assumes "\<And>way es. way \<in> set ways \<Longrightarrow> way_on c s (way s es)"
  shows "way_on c s (first_way_out ways s es)"
  using assms
proof (induction ways arbitrary: es)
  case (Cons way ways)
  then have "way_on c s (way s es)" by simp
  then consider fs where "way s es = (s, Inr (False, fs))"
    | t fs where "way s es = (t, Inr (True, fs))" "going c t" by (auto simp: way_on_def)
  then show ?case
  proof cases
    case (1 fs)
    then show ?thesis using Cons.IH [of fs] Cons.prems by simp
  next
    case (2 t fs)
    then show ?thesis by (simp add: way_on_def)
  qed
qed (simp add: way_on_def)

text \<open>The token's step has failed; the walk ends there.\<close>

definition stopped ::
    "compiled_orchestration \<Rightarrow> orchestration_run_state \<Rightarrow> node_id list \<Rightarrow> failed_attempt \<Rightarrow> bool" where
  "stopped c s p failed \<longleftrightarrow> run_core c s \<and> walked c s p \<and> fa_compiled failed = c
     \<and> fa_node_id failed = last p \<and> co_node c (last p) = Some (fa_node failed)"

lemma stoppedD:
  assumes "stopped c s p failed"
  shows "run_core c s" "walked c s p" "fa_compiled failed = c" "fa_node_id failed = last p"
    "co_node c (last p) = Some (fa_node failed)"
  using assms by (simp_all add: stopped_def)

lemma co_node_has_step:
  assumes "run_core c s" and "co_node c n = Some node"
  obtains step where "steps_of s n = Some step"
proof (rule node_has_step [OF assms(1)])
  show "n \<in> fst ` set (co_nodes c)"
    using assms(2) by (metis co_node_def map_of_eq_None_iff option.distinct(1))
qed (rule that)

lemma way_on_skip: "way_on c s (s, Inr (False, es))"
  by (simp add: way_on_def)

lemma way_on_taken: "progressing c t \<Longrightarrow> way_on c s (settle t, Inr (True, es))"
  by (simp add: way_on_def going_def)

lemma way_on_sent:
  assumes "compile_workflow ext d = Inr c" "retries_dominate c" "run_core c t" "walked c t p"
    "sends_back_to c (last p) target"
  shows "way_on c s (and_then (send_back c t (last p) target error es) (\<lambda>s es. (s, Inr (True, es))))"
  using send_back_progress [OF assms, of error es] way_on_taken by auto

lemma way_on_retry_same_step:
  assumes "stopped c s p failed"
  shows "way_on c s (retry_same_step failed s es)"
proof -
  note d = stoppedD [OF assms]
  obtain step where step: "steps_of s (last p) = Some step" using co_node_has_step [OF d(1,5)] .
  let ?b = "step\<lparr>sr_status := Step_RetryScheduled, sr_feedback := sr_feedback step @ [fa_error failed]\<rparr>"
  have "last p \<in> visited s" using d(2) unfolding walked_def walk_def by (metis last_in_set)
  then have "visited (put_step (last p) ?b s) = visited s" using visited_put [OF step, of ?b] by (simp add: insert_absorb)
  then have "progressing c (put_step (last p) ?b s)"
    using d(2) holds_token_put [of ?b "last p" s] unfolding progressing_def walked_def by auto
  then show ?thesis
    using step d(4) by (simp add: retry_same_step_def attempting_def step_state_def Let_def way_on_skip way_on_taken)
qed

lemma verify_sends_back:
  assumes "co_node c n = Some node" and "on_kind node = Node_Verify config" and "vnc_retry_target config = Some target"
  shows "sends_back_to c n target"
  using assms by (auto simp: sends_back_to_def retry_link_of_def)

lemma sends_back_target:
  assumes "compile_workflow ext d = Inr c" and "sends_back_to c n target"
  obtains node where "co_node c target = Some node"
proof -
  obtain node link where "co_node c n = Some node" "retry_link_of node (co_nodes c) = Some link"
    "rl_target_id link = target" using assms(2) by (auto simp: sends_back_to_def)
  with compiled_span [OF assms(1) this(1,2)] that show ?thesis by auto
qed

lemma way_on_retry_target:
  assumes c: "compile_workflow ext d = Inr c" and dom: "retries_dominate c" and "stopped c s p failed"
  shows "way_on c s (send_back_to_retry_target failed s es)"
proof (cases "on_kind (fa_node failed)")
  case (Node_Verify config)
  note d = stoppedD [OF assms(3)]
  show ?thesis
  proof (cases "oer_retry_reason (fa_error failed) = Some VerificationFailed \<and> vnc_retry_target config \<noteq> None")
    case True
    then obtain target where k: "oer_retry_reason (fa_error failed) = Some VerificationFailed"
      "vnc_retry_target config = Some target" by auto
    have sends: "sends_back_to c (last p) target" using verify_sends_back [OF d(5) Node_Verify k(2)] .
    obtain node where node: "co_node c target = Some node" using sends_back_target [OF c sends] .
    obtain step where "steps_of s target = Some step" using co_node_has_step [OF d(1) node] .
    then show ?thesis
      using k Node_Verify d(3,4) node way_on_skip way_on_sent [OF c dom d(1,2) sends]
      by (simp add: send_back_to_retry_target_def attempting_def step_state_def Let_def)
  next
    case False
    then have "send_back_to_retry_target failed s es = (s, Inr (False, es))"
      using Node_Verify by (auto simp: send_back_to_retry_target_def split: option.split retry_reason.split)
    then show ?thesis by (simp add: way_on_skip)
  qed
qed (simp_all add: send_back_to_retry_target_def way_on_skip)

lemma changes_target_sends:
  assumes "retry_link_of (fa_node failed) nodes = Some link" and "changes_target failed = Some target"
  shows "rl_target_id link = target"
proof (cases "on_kind (fa_node failed)")
  case (Node_Agent config)
  then show ?thesis
    using assms by (auto simp: changes_target_def retry_link_of_def bind_eq_Some_conv
        split: option.splits retry_reason.splits if_splits)
next
  case (Node_Approval config)
  then show ?thesis
    using assms by (auto simp: changes_target_def retry_link_of_def split: option.splits retry_reason.splits if_splits)
qed (use assms in \<open>simp_all add: changes_target_def\<close>)

lemma way_on_changes:
  assumes c: "compile_workflow ext d = Inr c" and dom: "retries_dominate c" and "stopped c s p failed"
  shows "way_on c s (send_back_for_changes failed s es)"
proof (cases "changes_target failed \<noteq> None \<and> fa_budget_left failed \<and> map_of (co_retry_spans c) (last p) \<noteq> None")
  case True
  note d = stoppedD [OF assms(3)]
  from True obtain target span where k: "changes_target failed = Some target" "fa_budget_left failed"
    "map_of (co_retry_spans c) (last p) = Some span" by auto
  obtain link where link: "retry_link_of (fa_node failed) (co_nodes c) = Some link"
    using compiled_span_link [OF c k(3)] d(5) by auto
  have sends: "sends_back_to c (last p) target"
    unfolding sends_back_to_def using link d(5) changes_target_sends [OF link k(1)] by blast
  obtain node where node: "co_node c target = Some node" using sends_back_target [OF c sends] .
  obtain step where step: "steps_of s target = Some step" using co_node_has_step [OF d(1) node] .
  let ?b = "step\<lparr>sr_retry_base := of_nat (length (sr_attempts step))\<rparr>"
  have "target \<in> visited s"
    using dominating_target_walked [OF dom _ sends] d(2) by (auto simp: walked_def)
  then have "visited (put_step target ?b s) = visited s"
    using visited_put [OF step, of ?b] step by (auto simp: visited_def)
  then have "walked c (put_step target ?b s) p" using d(2) by (simp add: walked_def)
  moreover have "run_core c (put_step target ?b s)"
    using run_coreD(3) [OF d(1) step] run_coreD(5) [OF d(1)] step
    by (intro run_core_put [OF d(1) step]) (auto simp: step_ok_def calm_def)
  ultimately show ?thesis
    using way_on_sent [OF c dom _ _ sends] k d(3,4) step
    by (simp add: send_back_for_changes_def attempting_def step_state_def Let_def)
next
  case False
  then have "send_back_for_changes failed s es = (s, Inr (False, es))"
    using stoppedD [OF assms(3)] by (auto simp: send_back_for_changes_def split: option.split)
  then show ?thesis by (simp add: way_on_skip)
qed

lemma way_on_failure_route:
  assumes c: "compile_workflow ext d = Inr c" and "stopped c s p failed"
  shows "way_on c s (take_failure_route failed s es)"
proof (cases "outgoing_for c (last p) OnFailure")
  case (Some edge)
  note d = stoppedD [OF assms(2)]
  from activate_progress [OF c d(1,2) compiled_flow [OF c Some], of OnFailure es] Some d(3,4)
  show ?thesis using way_on_taken by (auto simp: take_failure_route_def)
qed (use stoppedD [OF assms(2)] in \<open>simp add: take_failure_route_def way_on_skip\<close>)

lemmas way_on_ways = way_on_retry_same_step way_on_retry_target way_on_changes way_on_failure_route

lemma goes_on_fail:
  assumes c: "compile_workflow ext d = Inr c" and dom: "retries_dominate c"
    and go: "going c s" and ok: "run_ok c s"
  shows "goes_on c (fail ext' c s n attempt error details)"
proof (cases "co_node c n")
  case None
  then show ?thesis using goes_on_same [OF go refl refl refl] by (simp add: fail_def)
next
  case (Some node)
  obtain s1 es where usage: "record_usage s details = (s1, es)" by fastforce
  note frame = record_usage_frame [OF usage]
  have s1: "progressing c s1" "run_ok c s1"
    using walked_steps [OF frame(1), of c] going_progressing [OF go] frame(4) [OF ok] by simp_all
  have stay: "goes_on c (s1, r)" for r :: "run_failure + orchestration_effect list"
    using goes_on_same [OF go frame(1,2)] usage by (auto simp: record_usage_def Let_def split: if_splits)
  obtain t r where mark: "mark_attempt_failed c s1 n attempt error details = (t, r)" by fastforce
  from mark_failed_walked [OF s1 mark] consider (rejected) e where "r = Inl e" "t = s1"
    | (marked) p where "r = Inr ()" "walked c t p" "last p = n" by auto
  then show ?thesis
  proof cases
    case rejected
    then show ?thesis using usage mark stay Some by (simp add: fail_def)
  next
    case marked
    let ?failed = "\<lparr>fa_compiled = c, fa_node = node, fa_node_id = n, fa_attempt = attempt,
      fa_error = error, fa_budget_left = (exhausted_budget ext' c t = None)\<rparr>"
    let ?ways = "[retry_same_step ?failed, send_back_to_retry_target ?failed,
      send_back_for_changes ?failed, take_failure_route ?failed]"
    let ?es = "es @ [Emit_Run (Ev_StepFailed n attempt error)]"
    have "stopped c t p ?failed"
      using spent_core(2) [OF s1(2)] mark marked Some by (simp add: stopped_def)
    then have ways: "way_on c t (first_way_out ?ways t ?es)"
      by (intro way_on_first) (auto intro: way_on_ways(2,3) [OF c dom] way_on_ways(1) way_on_ways(4) [OF c])
    then consider fs where "first_way_out ?ways t ?es = (t, Inr (False, fs))"
      | u fs where "first_way_out ?ways t ?es = (u, Inr (True, fs))" "going c u"
      unfolding way_on_def by blast
    then show ?thesis
      by cases (simp_all add: fail_def Some usage mark marked(1) Let_def goes_on_terminate
          goes_on_def [of c "(_, Inr _)"] del: first_way_out.simps)
  qed
qed

text \<open>A run that is being cancelled stays so until the cancellation is complete.\<close>

lemma cancelling_refuses:
  assumes "run_ok c s" and "rs_status s = Run_Cancelling"
  shows "\<exists>e. active_attempt_mut c s n attempt = Inl e"
proof (cases "active_attempt_mut c s n attempt")
  case (Inr step)
  have "calm s" using assms run_coreD(5) [OF run_ok_core] by (simp add: has_ended_def)
  with active_attempt_token [OF Inr] show ?thesis by (auto simp: calm_def)
qed simp

lemma cancelling_marks:
  assumes ok: "run_ok c s" and s: "rs_status s = Run_Cancelling"
  shows "goes_on c' (succeed c s n attempt res details)" "goes_on c' (fail ext c s n attempt error details)"
proof -
  obtain s1 es where usage: "record_usage s details = (s1, es)" by fastforce
  have s1: "run_ok c s1" "rs_status s1 = Run_Cancelling"
    using record_usage_frame [OF usage] ok s by simp_all
  obtain e where "active_attempt_mut c s1 n attempt = Inl e" using cancelling_refuses [OF s1] by blast
  then show "goes_on c' (succeed c s n attempt res details)" "goes_on c' (fail ext c s n attempt error details)"
    using usage s s1 by (simp_all add: succeed_def fail_def mark_attempt_succeeded_def mark_attempt_failed_def
        attempting_def goes_on_def has_ended_def split: option.split)
qed

lemma cancelling_goes_on:
  assumes ok: "run_ok c s" and s: "rs_status s = Run_Cancelling"
  shows "goes_on c (run_apply ext c s command)"
proof -
  have calm: "calm s" using assms run_coreD(5) [OF run_ok_core] by (simp add: has_ended_def)
  have stay: "goes_on c (s, r)" for r :: "run_failure + orchestration_effect list"
    using s by (simp add: goes_on_def has_ended_def)
  have refused: "goes_on c (attempting s (active_attempt_mut c s n attempt) k)"
    for n attempt and k :: "step_run \<Rightarrow> orchestration_effect list run_result"
    using cancelling_refuses [OF assms, of n attempt] stay by (auto simp: attempting_def)
  have retry: "goes_on c (retry c s n)" for n
  proof (cases "step_mut c s n")
    case (Inr step)
    then have "sr_status step \<noteq> Step_RetryScheduled" using calm by (fastforce simp: step_mut_Inr calm_def)
    then show ?thesis using Inr stay by (simp add: retry_def attempting_def)
  qed (use stay in \<open>simp add: retry_def attempting_def\<close>)
  have asks: "goes_on c (record_checkpoint c s n attempt v)" "goes_on c (permission_required c s n attempt q)"
    "goes_on c (permission_resolved c s n attempt q approved)" "goes_on c (input_required c s n attempt request)"
    "goes_on c (input_resolved c s n attempt q answer)" for n attempt v q approved request answer
    by (simp_all add: record_checkpoint_def permission_required_def permission_resolved_def
        input_required_def input_resolved_def Let_def refused)
  have others: "goes_on c (start c s input)" "goes_on c (admit ext c s n attempt)" "goes_on c (pause s)"
    "goes_on c (cancel s)" for input n attempt
    using stay s by (simp_all add: start_def admit_def admit_check_def pause_def cancel_def require_status_def
        attempting_def)
  have ends: "goes_on c (resume s)" "goes_on c (cancellation_completed s)" "goes_on c (recover c s)"
    using s by (auto simp: resume_def recover_def cancellation_completed_def require_status_def
        attempting_def Let_def goes_on_def settle_alt has_ended_def split: sum.split)
  show ?thesis
    using asks retry others ends cancelling_marks [OF assms] goes_on_abort [OF ok] s
    by (cases command) (simp_all add: run_apply_def)
qed

lemma goes_on_apply:
  assumes "compile_workflow ext d = Inr c" and "retries_dominate c" and "run_ok c s"
    and "has_ended (rs_status s) \<or> going c s"
  shows "goes_on c (run_apply ext' c s command)"
proof (cases "has_ended (rs_status s)")
  case True
  then show ?thesis
    using cancelling_goes_on [OF assms(3)]
    by (cases "is_terminal (rs_status s)") (auto simp: run_apply_def goes_on_def has_ended_def)
next
  case False
  then have go: "going c s" and run: "\<not> is_terminal (rs_status s)"
    using assms(4) by (simp_all add: has_ended_def)
  show ?thesis
    using goes_on_record_checkpoint [OF go assms(3)] goes_on_questions [OF go assms(3)] goes_on_retry [OF go assms(3)] goes_on_admit [OF go assms(3)]
      goes_on_controls [OF go assms(3) False] goes_on_abort [OF assms(3)] goes_on_recover [OF go assms(3) False]
      goes_on_succeed [OF assms(1) go assms(3)] goes_on_fail [OF assms(1,2) go assms(3)] run
    by (cases command) (simp_all add: run_apply_def)
qed

section \<open>Every run goes on\<close>

definition run_alive :: "compiled_orchestration \<Rightarrow> orchestration_run_state \<Rightarrow> bool" where
  "run_alive c s \<longleftrightarrow> run_ok c s \<and> (has_ended (rs_status s) \<or> going c s)"

text \<open>
  What a run in progress waits for: the admission of its ready step (unless it is paused), the
  retry of a step that was sent back, or the step in flight.
\<close>

definition awaits_admission :: "compiled_orchestration \<Rightarrow> orchestration_run_state \<Rightarrow> node_id \<Rightarrow> bool" where
  "awaits_admission c s n \<longleftrightarrow>
     (if rs_paused s then rs_status s = Run_Paused else rs_status s = Run_Ready \<and> ready_steps c s = [n])"

definition awaits_retry ::
    "workflow_externals \<Rightarrow> compiled_orchestration \<Rightarrow> orchestration_run_state \<Rightarrow> node_id \<Rightarrow> bool" where
  "awaits_retry ext c s n \<longleftrightarrow> (\<exists>effects. snd (run_apply ext c s (RetryStep n)) = Inr effects)"

definition awaits_attempt :: "orchestration_run_state \<Rightarrow> node_id \<Rightarrow> bool" where
  "awaits_attempt s n \<longleftrightarrow> (\<exists>step. active_step s = Some (n, step) \<and> sr_attempts step \<noteq> []
     \<and> at_status (last (sr_attempts step)) = Attempt_Running)
   \<and> rs_status s \<in> {Run_Running, Run_WaitingForPermission, Run_WaitingForInput}"

lemma only_token:
  assumes core: "run_core c s" and n: "steps_of s n = Some step" "is_token (sr_status step)"
    and P: "\<And>status. P status \<Longrightarrow> is_token status"
  shows "filter (\<lambda>(_, x). P (sr_status x)) (rs_steps s) = (if P (sr_status step) then [(n, step)] else [])"
proof -
  let ?xs = "filter (\<lambda>(_, x). P (sr_status x)) (rs_steps s)"
  have wf: "hm_wf (rs_steps s)" using run_coreD(1) [OF core] .
  have only: "x = (n, step)" if "x \<in> set ?xs" for x
  proof -
    obtain m b where x: "x = (m, b)" by fastforce
    with that have "steps_of s m = Some b" "is_token (sr_status b)"
      using map_of_is_SomeI [OF wf, of m b] P by auto
    then have "m = n" using run_coreD(4) [OF core] n by (auto simp: single_token_def)
    with \<open>steps_of s m = Some b\<close> n(1) x show ?thesis by simp
  qed
  have "distinct ?xs" using wf by (simp add: distinct_map)
  with only have "?xs = [] \<or> ?xs = [(n, step)]" using singleton_list [of ?xs] by (metis list.set_intros(1))
  moreover have "(n, step) \<in> set ?xs \<longleftrightarrow> P (sr_status step)" using map_of_SomeD [OF n(1)] by simp
  ultimately show ?thesis by fastforce
qed

lemma alive_awaits:
  assumes alive: "run_alive c s" and run: "\<not> has_ended (rs_status s)"
  shows "\<exists>n. awaits_admission c s n \<or> awaits_retry ext c s n \<or> awaits_attempt s n"
proof -
  have core: "run_core c s" and settled: "rs_status s = settled_status (active_status s) (rs_paused s)"
    using alive run run_ok_core by (auto simp: run_alive_def going_def settle_eq_iff)
  obtain n step where n: "steps_of s n = Some step" "is_token (sr_status step)"
    using alive run by (auto simp: run_alive_def going_def progressing_def holds_token_def)
  have active: "active_step s = (if is_active (sr_status step) then Some (n, step) else None)"
    using only_token [OF core n is_active_token] by (simp add: active_step_def find_filter)
  consider (active) "is_active (sr_status step)" | (ready) "sr_status step = Step_Ready"
    | (retry) "sr_status step = Step_RetryScheduled" using n(2) by (auto simp: is_token_def)
  then show ?thesis
  proof cases
    case active
    have "sr_attempts step \<noteq> [] \<and> at_status (last (sr_attempts step)) = Attempt_Running"
      using run_coreD(3) [OF core n(1)] active by (simp add: step_ok_def attempts_ok_def)
    moreover have "rs_status s \<in> {Run_Running, Run_WaitingForPermission, Run_WaitingForInput}"
      using settled active \<open>active_step s = _\<close>
      by (simp add: active_status_def settled_status_def split: step_status.split)
    ultimately show ?thesis using active \<open>active_step s = _\<close> by (auto simp: awaits_attempt_def)
  next
    case ready
    then have idle: "active_step s = None" using active by simp
    have "filter (\<lambda>(_, x). sr_status x = Step_Ready) (rs_steps s) = [(n, step)]"
      using only_token [OF core n, of "\<lambda>status. status = Step_Ready"] ready by simp
    then have "awaits_admission c s n"
      using settled idle by (simp add: awaits_admission_def ready_steps_def active_status_def settled_status_def)
    then show ?thesis by blast
  next
    case retry
    have "co_node c n \<noteq> None"
      using run_coreD(2) [OF core] n(1) unfolding co_node_def map_of_eq_None_iff
      by (metis fst_conv image_eqI map_of_SomeD)
    then have "step_mut c s n = Inr step" using n(1) by (simp add: step_mut_Inr)
    then have "awaits_retry ext c s n"
      using retry run by (simp add: awaits_retry_def run_apply_def retry_def attempting_def has_ended_def)
    then show ?thesis by blast
  qed
qed

text \<open>A compiled workflow whose retry targets dominate, as a parameter of the run.\<close>

locale sound_workflow =
  fixes ext :: workflow_externals and d :: orchestration_definition and c :: compiled_orchestration
  assumes compiled: "compile_workflow ext d = Inr c"
    and dominated: "retries_dominate c"
begin

lemma alive_step:
  assumes "run_alive c s" and "run_step ext c s command = (t, es)"
  shows "run_alive c t"
proof -
  have "run_ok c t" using workflow.step_inv assms by (auto simp: run_alive_def)
  moreover have "goes_on c (run_apply ext c s command)"
    using goes_on_apply [OF compiled dominated] assms(1) by (auto simp: run_alive_def)
  ultimately show ?thesis using assms(2) by (auto simp: run_alive_def goes_on_def run_step_def Let_def)
qed

lemma alive_started: "run_alive c (fst (run_step ext c (run_state_new run_id c) (Start_Run input)))"
proof -
  let ?s = "run_state_new run_id c"
  let ?entry = "co_entry_node c"
  have ok: "run_ok c ?s" using run_ok_new btree_wf_distinct [OF compiled_nodes(1) [OF compiled]] by blast
  have "?entry \<in> fst ` set (co_nodes c)" using compiled_ranks(3) [OF compiled] by auto
  then obtain step where step: "steps_of ?s ?entry = Some step" using node_has_step [OF run_ok_core [OF ok]] by blast
  have none: "visited ?s = {}"
    by (auto simp: visited_def run_state_new_def default_step_run_def dest!: map_of_SomeD)
  let ?b = "step\<lparr>sr_status := Step_Ready\<rparr>"
  let ?s1 = "?s\<lparr>rs_input := Some input\<rparr>"
  have same: "rs_steps ?s1 = rs_steps ?s" by simp
  have step1: "steps_of ?s1 ?entry = Some step" using step by simp
  have "visited (put_step ?entry ?b ?s1) = {?entry}"
    using visited_put [OF step1, of ?b] walked_steps [OF same, of c] none by simp
  then have "walked c (put_step ?entry ?b ?s1) [?entry]" by (simp add: walked_def walk_def)
  then have "progressing c (put_step ?entry ?b ?s1)"
    unfolding progressing_def using holds_token_put [of ?b ?entry ?s1]
    by (intro exI [of _ "[?entry]"]) simp
  moreover have "run_ok c (fst (run_step ext c ?s (Start_Run input)))"
    using workflow.step_inv [OF ok] by (metis prod.collapse)
  moreover have "fst (run_step ext c ?s (Start_Run input)) = settle (put_step ?entry ?b ?s1)"
    using step1 by (simp add: run_step_def run_apply_def start_def require_status_def attempting_def
        step_state_def Let_def) (simp add: run_state_new_def)
  ultimately show ?thesis by (simp add: run_alive_def going_def)
qed

end

sublocale sound_workflow \<subseteq> alive: command_machine "run_step ext c" "run_alive c"
  by unfold_locales (rule alive_step)

context sound_workflow
begin

lemma started_run_awaits:
  assumes "run_commands (run_step ext c)
      (fst (run_step ext c (run_state_new run_id c) (Start_Run input))) commands = (t, effects)"
    and "\<not> has_ended (rs_status t)"
  shows "\<exists>n. awaits_admission c t n \<or> awaits_retry ext c t n \<or> awaits_attempt t n"
  using alive_awaits [OF alive.run_inv [OF alive_started assms(1)] assms(2)] .

end

end
