(* ===== verification/Workflow_Registry.thy ===== *)
theory Workflow_Registry
  imports Workflow_Progress Behavior_Registry
begin

text \<open>
  The registry of workflow definitions (\<open>workflow-core/src/registry.rs\<close>): immutable, compiled
  revisions under their identifier and revision, resolved by reference. The built-in workflow
  compiles, and its retry target dominates.
\<close>

section \<open>The registry\<close>

datatype definition_ref =
    Ref_Exact definition_id u64
  | Ref_LatestPublished definition_id
  | Ref_Latest definition_id

datatype registry_error =
    Workflow_ImmutableRevision definition_id u64
  | Workflow_NotFound string
  | Workflow_DraftNotExecutable definition_id u64
  | Workflow_Invalid "definition_issue list"

record definition_registry =
  dr_revisions :: "(definition_id \<times> u64, compiled_orchestration) btree_map"
  dr_allow_drafts :: bool

definition workflow_registry_new :: definition_registry where
  "workflow_registry_new = \<lparr>dr_revisions = [], dr_allow_drafts = False\<rparr>"

definition workflow_allow_drafts :: "definition_registry \<Rightarrow> bool \<Rightarrow> definition_registry" where
  "workflow_allow_drafts reg allow = reg\<lparr>dr_allow_drafts := allow\<rparr>"

definition workflow_register ::
    "workflow_externals \<Rightarrow> definition_registry \<Rightarrow> orchestration_definition
      \<Rightarrow> registry_error + (compiled_orchestration \<times> definition_registry)" where
  "workflow_register ext reg d =
     (let key = (od_id d, od_revision d)
      in case map_of (dr_revisions reg) key of
           Some existing \<Rightarrow>
             if \<not> wx_definition_eq ext (co_definition existing) d
             then Inl (Workflow_ImmutableRevision (fst key) (snd key))
             else Inr (existing, reg)
         | None \<Rightarrow>
             (case compile_workflow ext d of
                Inl issues \<Rightarrow> Inl (Workflow_Invalid issues)
              | Inr compiled \<Rightarrow>
                  Inr (compiled, reg\<lparr>dr_revisions := btree_insert key compiled (dr_revisions reg)\<rparr>)))"

text \<open>The built-in is registered with \<open>expect\<close>: an error would be a panic.\<close>

definition with_builtin :: "workflow_externals \<Rightarrow> definition_registry option" where
  "with_builtin ext =
     (case workflow_register ext workflow_registry_new default_orchestration_definition of
        Inl _ \<Rightarrow> None
      | Inr (_, reg) \<Rightarrow> Some reg)"

text \<open>The range \<open>(id, 0)..=(id, u64::MAX)\<close> in reverse: the revisions of that identifier, highest first.\<close>

definition revisions_of :: "definition_registry \<Rightarrow> definition_id \<Rightarrow> compiled_orchestration list" where
  "revisions_of reg wanted = rev (map snd (filter (\<lambda>((i, _), _). i = wanted) (dr_revisions reg)))"

definition find_revision ::
    "definition_registry \<Rightarrow> definition_ref \<Rightarrow> registry_error + compiled_orchestration" where
  "find_revision reg r =
     (case r of
        Ref_Exact wanted revision \<Rightarrow>
          (case map_of (dr_revisions reg) (wanted, revision) of
             None \<Rightarrow> Inl (Workflow_NotFound (wanted @ ''@'' @ show_word revision))
           | Some compiled \<Rightarrow> Inr compiled)
      | Ref_LatestPublished wanted \<Rightarrow>
          (case List.find (\<lambda>compiled. od_status (co_definition compiled) = Published) (revisions_of reg wanted) of
             None \<Rightarrow> Inl (Workflow_NotFound wanted)
           | Some compiled \<Rightarrow> Inr compiled)
      | Ref_Latest wanted \<Rightarrow>
          (case List.find (\<lambda>compiled. od_status (co_definition compiled) \<noteq> Deprecated) (revisions_of reg wanted) of
             None \<Rightarrow> Inl (Workflow_NotFound wanted)
           | Some compiled \<Rightarrow> Inr compiled))"

definition workflow_resolve ::
    "definition_registry \<Rightarrow> definition_ref \<Rightarrow> registry_error + compiled_orchestration" where
  "workflow_resolve reg r =
     (case find_revision reg r of
        Inl e \<Rightarrow> Inl e
      | Inr compiled \<Rightarrow>
          if od_status (co_definition compiled) = Draft \<and> \<not> dr_allow_drafts reg
          then Inl (Workflow_DraftNotExecutable (co_definition_id compiled) (co_revision compiled))
          else Inr compiled)"

section \<open>Well-formed registries\<close>

definition workflow_registry_wf :: "workflow_externals \<Rightarrow> definition_registry \<Rightarrow> bool" where
  "workflow_registry_wf ext reg \<longleftrightarrow>
     btree_wf (dr_revisions reg)
   \<and> (\<forall>k c. map_of (dr_revisions reg) k = Some c \<longrightarrow>
        compile_workflow ext (co_definition c) = Inr c \<and> k = (od_id (co_definition c), od_revision (co_definition c)))"

lemma workflow_registry_wf_new [simp]: "workflow_registry_wf ext workflow_registry_new"
  by (simp add: workflow_registry_wf_def workflow_registry_new_def)

lemma workflow_registry_wf_drafts [simp]:
  "workflow_registry_wf ext (workflow_allow_drafts reg allow) = workflow_registry_wf ext reg"
  by (simp add: workflow_registry_wf_def workflow_allow_drafts_def)

lemma workflow_register_cases:
  assumes "workflow_register ext reg d = Inr (c, reg')"
  obtains (kept) "map_of (dr_revisions reg) (od_id d, od_revision d) = Some c" "reg' = reg"
      "wx_definition_eq ext (co_definition c) d"
  | (added) "map_of (dr_revisions reg) (od_id d, od_revision d) = None" "compile_workflow ext d = Inr c"
      "co_definition c = d"
      "reg' = reg\<lparr>dr_revisions := btree_insert (od_id d, od_revision d) c (dr_revisions reg)\<rparr>"
proof (cases "map_of (dr_revisions reg) (od_id d, od_revision d)")
  case None
  show thesis
  proof (cases "compile_workflow ext d")
    case (Inr e)
    with None assms have "c = e" "reg' = reg\<lparr>dr_revisions := btree_insert (od_id d, od_revision d) c (dr_revisions reg)\<rparr>"
      by (auto simp: workflow_register_def Let_def)
    with None Inr compile_workflow_parts(10) [OF Inr] show thesis by (intro added) simp_all
  qed (use None assms in \<open>simp add: workflow_register_def Let_def\<close>)
qed (use assms kept in \<open>auto simp: workflow_register_def Let_def split: if_splits\<close>)

lemma workflow_registry_wf_register:
  assumes "workflow_registry_wf ext reg" and "workflow_register ext reg d = Inr (c, reg')"
  shows "workflow_registry_wf ext reg'"
  using assms(2)
proof (cases rule: workflow_register_cases)
  case added
  then show ?thesis using assms(1) by (auto simp: workflow_registry_wf_def btree_wf_insert)
qed (use assms(1) in simp)

text \<open>A registered revision is never replaced.\<close>

abbreviation put_workflow ::
    "workflow_externals \<Rightarrow> definition_registry \<Rightarrow> orchestration_definition
      \<Rightarrow> registry_error + definition_registry" where
  "put_workflow ext reg d \<equiv> map_sum id snd (workflow_register ext reg d)"

interpretation workflow_store: revision_store
  "workflow_registry_wf ext" "\<lambda>reg. map_of (dr_revisions reg)" "\<lambda>_. True" "put_workflow ext"
  "\<lambda>d. (od_id d, od_revision d)" "(=)" for ext
proof
  fix s t :: definition_registry and d and e :: compiled_orchestration and k
  assume inv: "workflow_registry_wf ext s" and "put_workflow ext s d = Inr t"
  then obtain c where put: "workflow_register ext s d = Inr (c, t)"
    by (cases "workflow_register ext s d") auto
  show "workflow_registry_wf ext t" using workflow_registry_wf_register [OF inv put] .
  show "map_of (dr_revisions t) k = map_of (dr_revisions s) k" if "k \<noteq> (od_id d, od_revision d)"
    using put that by (cases rule: workflow_register_cases) auto
  show "\<exists>e'. map_of (dr_revisions t) (od_id d, od_revision d) = Some e' \<and> e = e'"
    if "map_of (dr_revisions s) (od_id d, od_revision d) = Some e"
    using put that by (cases rule: workflow_register_cases) auto
qed auto

section \<open>Resolving\<close>

lemma revisions_of_found:
  assumes wf: "workflow_registry_wf ext reg" and c: "List.find P (revisions_of reg wanted) = Some c"
  shows "P c" "od_id (co_definition c) = wanted"
    "map_of (dr_revisions reg) (wanted, od_revision (co_definition c)) = Some c"
    and "map_of (dr_revisions reg) (wanted, n) = Some f \<Longrightarrow> od_revision (co_definition c) < n \<Longrightarrow> \<not> P f"
proof -
  let ?xs = "filter (\<lambda>((i, _), _). i = wanted) (dr_revisions reg)"
  have sorted: "sorted_wrt (\<lambda>x y. fst x < fst y) ?xs"
    using wf by (simp add: workflow_registry_wf_def sorted_wrt_map sorted_wrt_filter)
  from c obtain before j after where
    xs: "?xs = before @ (j, c) # after" and no: "\<forall>z \<in> set after. \<not> P (snd z)"
    by (auto simp: revisions_of_def map_eq_append_conv dest!: find_rev_split)
  show "P c" using c by (auto simp: find_Some_iff)
  have mem: "(j, c) \<in> set ?xs" by (simp add: xs)
  then have at: "map_of (dr_revisions reg) j = Some c"
    using wf map_of_is_SomeI [of "dr_revisions reg" j c] by (auto simp: workflow_registry_wf_def btree_wf_distinct)
  then have j: "j = (od_id (co_definition c), od_revision (co_definition c))"
    using wf by (cases j) (auto simp: workflow_registry_wf_def)
  with mem show own: "od_id (co_definition c) = wanted" by auto
  show "map_of (dr_revisions reg) (wanted, od_revision (co_definition c)) = Some c" using at j own by simp
  show "\<not> P f" if f: "map_of (dr_revisions reg) (wanted, n) = Some f" "od_revision (co_definition c) < n"
  proof -
    have "((wanted, n), f) \<in> set ?xs" using map_of_SomeD [OF f(1)] by simp
    then have "((wanted, n), f) \<in> set after"
      using sorted f(2) j own unfolding xs by (fastforce simp: sorted_wrt_append)
    with no show ?thesis by force
  qed
qed

text \<open>The revision a reference asks for.\<close>

definition answers :: "definition_registry \<Rightarrow> definition_ref \<Rightarrow> compiled_orchestration \<Rightarrow> bool" where
  "answers reg r c \<longleftrightarrow>
     (case r of
       Ref_Exact wanted n \<Rightarrow> od_id (co_definition c) = wanted \<and> od_revision (co_definition c) = n
     | Ref_LatestPublished wanted \<Rightarrow>
         od_id (co_definition c) = wanted \<and> od_status (co_definition c) = Published
       \<and> (\<forall>n f. map_of (dr_revisions reg) (wanted, n) = Some f \<and> od_revision (co_definition c) < n
            \<longrightarrow> od_status (co_definition f) \<noteq> Published)
     | Ref_Latest wanted \<Rightarrow>
         od_id (co_definition c) = wanted \<and> od_status (co_definition c) \<noteq> Deprecated
       \<and> (\<forall>n f. map_of (dr_revisions reg) (wanted, n) = Some f \<and> od_revision (co_definition c) < n
            \<longrightarrow> od_status (co_definition f) = Deprecated))"

lemma resolved_revision:
  assumes wf: "workflow_registry_wf ext reg" and r: "workflow_resolve (workflow_allow_drafts reg allow) r = Inr c"
  shows "compile_workflow ext (co_definition c) = Inr c"
    "map_of (dr_revisions reg) (od_id (co_definition c), od_revision (co_definition c)) = Some c"
    "od_status (co_definition c) = Draft \<Longrightarrow> allow"
    "answers reg r c"
proof -
  have same: "dr_revisions (workflow_allow_drafts reg allow) = dr_revisions reg"
    "revisions_of (workflow_allow_drafts reg allow) = revisions_of reg"
    by (simp_all add: workflow_allow_drafts_def revisions_of_def fun_eq_iff)
  from r have c: "find_revision (workflow_allow_drafts reg allow) r = Inr c"
    and "od_status (co_definition c) = Draft \<Longrightarrow> allow"
    by (auto simp: workflow_resolve_def workflow_allow_drafts_def split: sum.splits if_splits)
  then show "od_status (co_definition c) = Draft \<Longrightarrow> allow" by blast
  have found: "map_of (dr_revisions reg) (od_id (co_definition c), od_revision (co_definition c)) = Some c \<and> answers reg r c"
  proof (cases r)
    case (Ref_Exact wanted n)
    with c have "map_of (dr_revisions reg) (wanted, n) = Some c"
      by (auto simp: find_revision_def same split: option.splits)
    with wf Ref_Exact show ?thesis by (auto simp: workflow_registry_wf_def answers_def)
  next
    case (Ref_LatestPublished wanted)
    with c have "List.find (\<lambda>f. od_status (co_definition f) = Published) (revisions_of reg wanted) = Some c"
      by (auto simp: find_revision_def same split: option.splits)
    from revisions_of_found [OF wf this] Ref_LatestPublished show ?thesis by (auto simp: answers_def)
  next
    case (Ref_Latest wanted)
    with c have "List.find (\<lambda>f. od_status (co_definition f) \<noteq> Deprecated) (revisions_of reg wanted) = Some c"
      by (auto simp: find_revision_def same split: option.splits)
    from revisions_of_found [OF wf this] Ref_Latest show ?thesis by (auto simp: answers_def)
  qed
  then show "map_of (dr_revisions reg) (od_id (co_definition c), od_revision (co_definition c)) = Some c" by blast
  with wf show "compile_workflow ext (co_definition c) = Inr c" by (auto simp: workflow_registry_wf_def)
  show "answers reg r c" using found by blast
qed

section \<open>The built-in workflow\<close>

abbreviation input_execute :: orchestration_edge where
  "input_execute \<equiv> named_edge ''input-execute'' ''input'' ''execute''"

abbreviation execute_verify :: orchestration_edge where
  "execute_verify \<equiv> named_edge ''execute-verify'' ''execute'' ''verify''"

abbreviation verify_output :: orchestration_edge where
  "verify_output \<equiv> named_edge ''verify-output'' ''verify'' ''output''"

abbreviation builtin_nodes :: nodes where
  "builtin_nodes \<equiv> [(''execute'', execute_node), (''input'', default_input_node),
     (''output'', output_node), (''verify'', verify_node)]"

abbreviation builtin_outgoing :: edges where
  "builtin_outgoing \<equiv> [(''execute'', [execute_verify]), (''input'', [input_execute]),
     (''output'', []), (''verify'', [verify_output])]"

abbreviation builtin_incoming :: edges where
  "builtin_incoming \<equiv> [(''execute'', [input_execute]), (''input'', []),
     (''output'', [verify_output]), (''verify'', [execute_verify])]"

abbreviation builtin_ranks :: "(node_id, nat) btree_map" where
  "builtin_ranks \<equiv> [(''execute'', 1), (''input'', 0), (''output'', 3), (''verify'', 2)]"

definition builtin_compiled :: "workflow_externals \<Rightarrow> compiled_orchestration" where
  "builtin_compiled ext =
     \<lparr>co_definition_id = ''rusty.default'', co_revision = 1, co_entry_node = ''input'',
      co_nodes = builtin_nodes, co_outgoing = builtin_outgoing, co_incoming = builtin_incoming,
      co_topological_rank = builtin_ranks,
      co_retry_spans = [(''verify'', [''execute'', ''verify''])],
      co_content_hash = content_hash (wx_definition_to_vec ext default_orchestration_definition),
      co_definition = default_orchestration_definition\<rparr>"

lemma builtin_select [simp]:
  "co_nodes (builtin_compiled ext) = builtin_nodes"
  "co_outgoing (builtin_compiled ext) = builtin_outgoing"
  "co_entry_node (builtin_compiled ext) = ''input''"
  "co_definition (builtin_compiled ext) = default_orchestration_definition"
  by (simp_all add: builtin_compiled_def)

lemma builtin_node [simp]:
  "co_node (builtin_compiled ext) ''execute'' = Some execute_node"
  "co_node (builtin_compiled ext) ''verify'' = Some verify_node"
  "is_output_node (on_kind execute_node) = False"
  "on_input_bindings verify_node = [\<lparr>ib_target = ''report'', ib_source = NodeOutput ''execute'' []\<rparr>]"
  by (simp_all add: co_node_def execute_node_def verify_node_def plain_node_def execute_output_def
      is_output_node_def)

lemma builtin_documents:
  "check_header default_orchestration_definition = []"
  "check_nodes default_orchestration_definition = (builtin_nodes, [])"
  "check_context_access default_orchestration_definition builtin_nodes = []"
  "check_entry_and_exit default_orchestration_definition = (Some ''input'', [])"
  "od_id default_orchestration_definition = ''rusty.default''"
  "od_revision default_orchestration_definition = 1"
  by code_simp+

lemma builtin_graph:
  "build_edges default_orchestration_definition builtin_nodes = (builtin_outgoing, builtin_incoming, [])"
  "check_routes builtin_nodes builtin_outgoing = []"
  "rank_and_check_reachability ''input'' builtin_nodes builtin_outgoing = (builtin_ranks, [])"
  by code_simp+

lemma builtin_flow:
  "check_data_flow default_orchestration_definition builtin_nodes builtin_outgoing = []"
  "compile_retry_spans builtin_nodes builtin_outgoing builtin_ranks
     = ([(''verify'', [''execute'', ''verify''])], [])"
  by code_simp+

lemma builtin_compiles:
  "compile_workflow ext default_orchestration_definition = Inr (builtin_compiled ext)"
  unfolding compile_workflow_def Let_def builtin_documents prod.case builtin_graph option.case builtin_flow
  by (simp add: builtin_flow builtin_compiled_def builtin_documents)

text \<open>Every way from the input to the verification step passes the step it sends back to.\<close>

lemma builtin_edge_rel:
  "edge_rel builtin_outgoing = {(''input'', ''execute''), (''execute'', ''verify''), (''verify'', ''output'')}"
proof -
  have "edges_of builtin_outgoing u = (if u = ''execute'' then [execute_verify] else if u = ''input'' then [input_execute]
      else if u = ''verify'' then [verify_output] else [])" for u
    by (simp add: edges_of_def)
  then show ?thesis by (auto simp: edge_rel_def named_edge_def split: if_splits)
qed

lemma builtin_dominated: "retries_dominate (builtin_compiled ext)"
  unfolding retries_dominate_def
proof (intro allI impI notI)
  fix n target
  assume "sends_back_to (builtin_compiled ext) n target"
  then have n: "n = ''verify''" "target = ''execute''"
    by (auto simp: sends_back_to_def co_node_def retry_link_of_def execute_node_def default_input_node_def
        output_node_def verify_node_def plain_node_def task_plan_source_def split: if_splits)
  let ?E = "{(u, v) \<in> edge_rel builtin_outgoing. u \<noteq> ''execute''}"
  assume "(co_entry_node (builtin_compiled ext), n) \<in> {(u, v) \<in> flow (builtin_compiled ext). u \<noteq> target}\<^sup>*"
  then have "(''input'', ''verify'') \<in> ?E\<^sup>*" using n by simp
  moreover have "x \<in> {''input'', ''execute''}" if "(''input'', x) \<in> ?E\<^sup>*" for x
    using that by (induction rule: rtrancl_induct) (auto simp: builtin_edge_rel)
  ultimately show False by fastforce
qed

interpretation builtin: sound_workflow ext default_orchestration_definition "builtin_compiled ext" for ext
  by unfold_locales (rule builtin_compiles builtin_dominated)+

lemma with_builtin_Some: "\<exists>reg. with_builtin ext = Some reg \<and> workflow_registry_wf ext reg
  \<and> workflow_resolve reg (Ref_LatestPublished ''rusty.default'') = Inr (builtin_compiled ext)"
proof -
  let ?reg = "\<lparr>dr_revisions = [((''rusty.default'', 1), builtin_compiled ext)], dr_allow_drafts = False\<rparr>"
  have "workflow_register ext workflow_registry_new default_orchestration_definition = Inr (builtin_compiled ext, ?reg)"
    by (simp add: workflow_register_def workflow_registry_new_def builtin_compiles builtin_documents)
  moreover from workflow_registry_wf_register [OF workflow_registry_wf_new this]
  have "workflow_registry_wf ext ?reg" .
  moreover have "od_status default_orchestration_definition = Published" by code_simp
  then have "workflow_resolve ?reg (Ref_LatestPublished ''rusty.default'') = Inr (builtin_compiled ext)"
    by (simp add: workflow_resolve_def find_revision_def revisions_of_def)
  ultimately show ?thesis by (simp add: with_builtin_def)
qed

end
