(* ===== verification/Workflow_Properties.thy ===== *)
theory Workflow_Properties
  imports Workflow_Registry
begin

text \<open>
  The properties of the workflow engine: what the compiler guarantees of a workflow, what every
  sequence of commands keeps of a run, when a run goes on, and what the registry resolves.
  Witnesses are about the built-in workflow and a small one defined here.
\<close>

definition plain_externals :: workflow_externals where
  "plain_externals =
     \<lparr>wx_definition_to_vec = (\<lambda>_. []), wx_definition_eq = (\<lambda>a b. a = b), wx_fmt_f64 = (\<lambda>_. [])\<rparr>"

section \<open>Compiled workflows\<close>

text \<open>
  C17: a workflow that compiles is sound. Its graph is acyclic and ranked in topological order, the
  nodes are exactly those reachable from the entry, an output node has no way out, every other
  node has a success route, and a route is the only edge of the document for that outcome.
\<close>

theorem compiled_workflow_sound:
  assumes "compile_workflow ext d = Inr c"
  shows "acyclic (edge_rel (co_outgoing c))
    \<and> (\<forall>u v. (u, v) \<in> edge_rel (co_outgoing c) \<longrightarrow>
         rank_of (co_topological_rank c) u < rank_of (co_topological_rank c) v)
    \<and> on_id ` set (od_nodes d) = (edge_rel (co_outgoing c))\<^sup>* `` {co_entry_node c}
    \<and> (\<forall>n node. co_node c n = Some node \<longrightarrow>
         (\<forall>condition edge. outgoing_for c n condition = Some edge \<longleftrightarrow>
            edge \<in> set (od_edges d) \<and> oe_source edge = n \<and> oe_condition edge = condition)
       \<and> (if is_output_node (on_kind node) then \<forall>condition. outgoing_for c n condition = None
          else \<exists>edge. outgoing_for c n OnSuccess = Some edge))"
  using compiled_ranks [OF assms] compiled_nodes(2) [OF assms] compiled_routes [OF assms] by simp

theorem compiled_workflow_sound_witness:
  "compile_workflow plain_externals default_orchestration_definition = Inr (builtin_compiled plain_externals)
   \<and> acyclic (edge_rel (co_outgoing (builtin_compiled plain_externals)))
   \<and> (\<exists>edge. outgoing_for (builtin_compiled plain_externals) ''execute'' OnSuccess = Some edge)"
proof -
  note sound = compiled_workflow_sound [OF builtin_compiles, of plain_externals]
  have "\<exists>edge. outgoing_for (builtin_compiled plain_externals) ''execute'' OnSuccess = Some edge"
    using sound [THEN conjunct2, THEN conjunct2, THEN conjunct2, rule_format, OF builtin_node(1)]
    unfolding builtin_node if_False by blast
  with sound builtin_compiles show ?thesis by blast
qed

text \<open>
  C19: a step reads only from steps before it. Every input binding, result source and approval
  subject of a compiled workflow that names another step's output names a strict ancestor of the
  step that reads it (which a run may still have gone around).
\<close>

theorem compiled_reads_upstream:
  assumes "compile_workflow ext d = Inr c" and "co_node c n = Some node"
    and "(\<exists>b \<in> set (on_input_bindings node). ib_source b = NodeOutput m p)
      \<or> (\<exists>config. on_kind node = Node_Output config \<and> onc_source config = NodeOutput m p)
      \<or> (\<exists>config. on_kind node = Node_Approval config \<and> apc_subject config = NodeOutput m p)"
  shows "(m, n) \<in> (edge_rel (co_outgoing c))\<^sup>+ \<and> (n, m) \<notin> (edge_rel (co_outgoing c))\<^sup>*"
proof -
  have "(m, n) \<in> (edge_rel (co_outgoing c))\<^sup>+" using assms(3) compiled_bindings [OF assms(1,2)] by blast
  moreover have "(n, m) \<notin> (edge_rel (co_outgoing c))\<^sup>*"
    using calculation compiled_ranks(1) [OF assms(1)] by (meson acyclic_def trancl_rtrancl_trancl)
  ultimately show ?thesis by blast
qed

theorem compiled_reads_upstream_witness:
  "(''execute'', ''verify'') \<in> (edge_rel (co_outgoing (builtin_compiled plain_externals)))\<^sup>+"
  using compiled_reads_upstream [OF builtin_compiles, of plain_externals "''verify''" verify_node "''execute''" "[]"]
  by (simp only: builtin_node) simp

text \<open>
  C18: retry spans are exact. For a step that may send back, the span the compiler stores is the
  set of steps on the ways from the retry target to it, both ends included, in topological order,
  and the target is an agent step upstream; other steps have no span.
\<close>

theorem compiled_retry_spans_exact:
  assumes "compile_workflow ext d = Inr c"
  shows "(\<forall>n span. map_of (co_retry_spans c) n = Some span \<longrightarrow> (\<exists>target. sends_back_to c n target))
    \<and> (\<forall>n target. sends_back_to c n target \<longrightarrow>
        (\<exists>span node. map_of (co_retry_spans c) n = Some span
          \<and> co_node c target = Some node \<and> is_agent_node (on_kind node)
          \<and> (target, n) \<in> (edge_rel (co_outgoing c))\<^sup>+
          \<and> set span = {x. (target, x) \<in> (edge_rel (co_outgoing c))\<^sup>* \<and> (x, n) \<in> (edge_rel (co_outgoing c))\<^sup>*}
          \<and> distinct span \<and> sorted (map (rank_of (co_topological_rank c)) span)))"
proof (intro conjI allI impI)
  fix n span assume "map_of (co_retry_spans c) n = Some span"
  then show "\<exists>target. sends_back_to c n target"
    using compiled_span_link [OF assms, of n span] by (auto simp: sends_back_to_def)
next
  fix n target assume "sends_back_to c n target"
  then obtain node link where "co_node c n = Some node" "retry_link_of node (co_nodes c) = Some link"
    "rl_target_id link = target" by (auto simp: sends_back_to_def)
  then show "\<exists>span node. map_of (co_retry_spans c) n = Some span
      \<and> co_node c target = Some node \<and> is_agent_node (on_kind node)
      \<and> (target, n) \<in> (edge_rel (co_outgoing c))\<^sup>+
      \<and> set span = {x. (target, x) \<in> (edge_rel (co_outgoing c))\<^sup>* \<and> (x, n) \<in> (edge_rel (co_outgoing c))\<^sup>*}
      \<and> distinct span \<and> sorted (map (rank_of (co_topological_rank c)) span)"
    using compiled_span [OF assms, of n node link] by blast
qed

theorem compiled_retry_spans_exact_witness:
  "\<exists>target. sends_back_to (builtin_compiled plain_externals) ''verify'' target"
proof -
  have "map_of (co_retry_spans (builtin_compiled plain_externals)) ''verify'' = Some [''execute'', ''verify'']"
    by (simp add: builtin_compiled_def)
  with compiled_retry_spans_exact [OF builtin_compiles, of plain_externals] show ?thesis by blast
qed

section \<open>Runs\<close>

text \<open>
  C13: the invariant of a run. After any commands, at most one step holds the token (is ready, in
  flight or waiting for its retry), none once the run has ended; the attempts of a step are
  numbered from one, only the last can be open, and it is open exactly while the step is active;
  the run's counter is the number of attempts made, and stays within the limit of the workflow.
\<close>

theorem run_invariant_reachable:
  assumes "compile_workflow ext d = Inr c"
    and "run_commands (run_step ext' c) (run_state_new run_id c) commands = (t, effects)"
  shows "single_token t \<and> (has_ended (rs_status t) \<longrightarrow> calm t)
    \<and> (\<forall>n step. map_of (rs_steps t) n = Some step \<longrightarrow>
        attempts_ok (is_active (sr_status step)) (sr_attempts step))
    \<and> rs_total_attempts t = of_nat (attempts_made t)
    \<and> (\<forall>limit. op_max_total_attempts (od_policies d) = Some limit \<longrightarrow> attempts_made t \<le> unat limit)"
proof -
  have "run_ok c (run_state_new run_id c)"
    using run_ok_new btree_wf_distinct [OF compiled_nodes(1) [OF assms(1)]] by blast
  from workflow.run_inv [OF this assms(2)] have "run_core c t" by (rule run_ok_core)
  then show ?thesis
    using compile_workflow_parts(10) [OF assms(1)]
    by (auto simp: run_core_def step_ok_def within_attempts_def)
qed

text \<open>A run of the built-in workflow up to its second step.\<close>

abbreviation first_commands :: "orchestration_command list" where
  "first_commands \<equiv> [Start_Run JNull, StepAdmitted ''input'' 1, StepSucceeded ''input'' 1 JNull default_details,
     StepAdmitted ''execute'' 1]"

theorem run_invariant_reachable_witness:
  "single_token (fst (run_commands (run_step plain_externals (builtin_compiled plain_externals))
     (run_state_new ''run'' (builtin_compiled plain_externals)) first_commands))"
  using run_invariant_reachable [OF builtin_compiles prod.collapse [symmetric]] by blast

text \<open>
  C14: every attempt is executed exactly once and a closed attempt never changes. Over any
  sequence of commands the effects execute, for each step, exactly the attempts that were added
  to it, in order and each once; the attempts that were there keep their numbers, and those that
  had ended are as they were.
\<close>

theorem attempts_executed_once:
  assumes "compile_workflow ext d = Inr c"
    and "run_commands (run_step ext' c) (run_state_new run_id c) before = (s, past)"
    and "run_commands (run_step ext' c) s commands = (t, effects)"
  shows "\<forall>n. attempt_count s n \<le> attempt_count t n
      \<and> executed_attempts n effects = map of_nat [Suc (attempt_count s n)..<Suc (attempt_count t n)]
      \<and> (\<forall>a. map_of (rs_steps s) n = Some a \<longrightarrow>
           (\<exists>b. map_of (rs_steps t) n = Some b \<and>
             (\<forall>i < length (sr_attempts a). at_attempt (sr_attempts b ! i) = at_attempt (sr_attempts a ! i)
               \<and> (at_status (sr_attempts a ! i) \<noteq> Attempt_Running \<longrightarrow> sr_attempts b ! i = sr_attempts a ! i))))"
proof -
  have "run_ok c (run_state_new run_id c)"
    using run_ok_new btree_wf_distinct [OF compiled_nodes(1) [OF assms(1)]] by blast
  from workflow.run_inv [OF this assms(2)] have ok: "run_ok c s" .
  have law: "run_law c s effects t" using workflow.run_keeps [OF assms(3)] .
  then show ?thesis
    using ok unfolding run_law_def attempts_executed_def frozen_def attempts_frozen_def by blast
qed

theorem attempts_executed_once_witness:
  "executed_attempts ''input'' (snd (run_commands (run_step plain_externals (builtin_compiled plain_externals))
      (run_state_new ''run'' (builtin_compiled plain_externals)) first_commands))
   = map of_nat [1..<Suc (attempt_count (fst (run_commands (run_step plain_externals
       (builtin_compiled plain_externals)) (run_state_new ''run'' (builtin_compiled plain_externals)) first_commands)) ''input'')]"
proof -
  let ?c = "builtin_compiled plain_externals"
  have none: "attempt_count (run_state_new ''run'' ?c) ''input'' = 0"
    by (simp add: attempt_count_def run_state_new_def default_step_run_def)
  have start: "run_commands (run_step plain_externals ?c) (run_state_new ''run'' ?c) [] = (run_state_new ''run'' ?c, [])"
    by simp
  from attempts_executed_once [OF builtin_compiles start prod.collapse [symmetric], THEN spec, of "''input''"]
  show ?thesis unfolding none One_nat_def by blast
qed

text \<open>
  C15: a run finishes once. The effects of any sequence of commands hold one \<open>Finish\<close> exactly when
  the sequence took the run from an open to a terminal status, and none otherwise; a terminal
  run accepts no command and no command changes it.
\<close>

theorem run_finishes_once:
  assumes "compile_workflow ext d = Inr c"
    and "run_commands (run_step ext' c) (run_state_new run_id c) before = (s, past)"
    and "run_commands (run_step ext' c) s commands = (t, effects)"
  shows "run_finishes effects = (if is_terminal (rs_status t) \<and> \<not> is_terminal (rs_status s) then 1 else 0)
    \<and> (is_terminal (rs_status s) \<longrightarrow> t = s \<and> effects = []
         \<and> (\<forall>command. \<exists>e. run_apply ext' c s command = (s, Inl (Rejected e)) \<and> te_code e = ''terminal_run''))"
proof -
  have "run_ok c (run_state_new run_id c)"
    using run_ok_new btree_wf_distinct [OF compiled_nodes(1) [OF assms(1)]] by blast
  from workflow.run_inv [OF this assms(2)] have ok: "run_ok c s" .
  have law: "run_law c s effects t" using workflow.run_keeps [OF assms(3)] .
  have "\<forall>command. \<exists>e. run_apply ext' c s command = (s, Inl (Rejected e)) \<and> te_code e = ''terminal_run''"
    if "is_terminal (rs_status s)"
    using that by (simp add: run_apply_def transition_error_of_def)
  with law ok show ?thesis unfolding run_law_def by blast
qed

theorem run_finishes_once_witness:
  "run_finishes (snd (run_commands (run_step plain_externals (builtin_compiled plain_externals))
     (run_state_new ''run'' (builtin_compiled plain_externals)) [Start_Run JNull, Cancel_Run])) = 1"
proof -
  let ?c = "builtin_compiled plain_externals"
  have start: "run_commands (run_step plain_externals ?c) (run_state_new ''run'' ?c) [] = (run_state_new ''run'' ?c, [])"
    by simp
  have "rs_status (fst (run_commands (run_step plain_externals ?c) (run_state_new ''run'' ?c) [Start_Run JNull, Cancel_Run]))
      = Run_Cancelled"
    by (simp add: run_step_def run_apply_def start_def cancel_def cancellation_completed_def require_status_def
        attempting_def step_state_def put_step_def settle_def active_step_def run_state_new_def default_step_run_def
        is_terminal_def is_active_def Let_def)
  moreover have "rs_status (run_state_new ''run'' ?c) = Run_Created" by (simp add: run_state_new_def)
  ultimately show ?thesis
    using run_finishes_once [OF builtin_compiles start prod.collapse [symmetric], of "[Start_Run JNull, Cancel_Run]"]
    by (simp only: terminal_simps) simp
qed

text \<open>
  C20: the reducer does not panic. Its only indexing is that of the retry spans, and a compiled
  workflow has a span for every step that sends back, whatever the state and the command.
\<close>

theorem reducer_never_panics:
  assumes "compile_workflow ext d = Inr c"
  shows "snd (run_apply ext' c s command) \<noteq> Inl Panicked"
  using run_apply_unpanicked [OF assms] .

theorem reducer_never_panics_witness:
  "snd (run_apply plain_externals (builtin_compiled plain_externals)
     (run_state_new ''run'' (builtin_compiled plain_externals))
     (StepFailed ''verify'' 1 (orchestration_error_new [] []) default_details)) \<noteq> Inl Panicked"
  by (rule reducer_never_panics [OF builtin_compiles])

text \<open>
  C16: a started run never stalls. When every retry target lies on all ways to the steps that send
  back to it, then after any commands a started run has ended (or is being cancelled), or it
  waits for something that can happen: its one ready step is offered for admission (or the run
  is paused), a scheduled retry is accepted, or a step has its last attempt in flight and the
  run's status says so.
\<close>

theorem started_run_never_stalls:
  assumes "compile_workflow ext d = Inr c" and "retries_dominate c"
    and "run_commands (run_step ext c)
      (fst (run_step ext c (run_state_new run_id c) (Start_Run input))) commands = (t, effects)"
  shows "is_terminal (rs_status t) \<or> rs_status t = Run_Cancelling
    \<or> (\<exists>n. awaits_admission c t n \<or> awaits_retry ext c t n \<or> awaits_attempt t n)"
  using sound_workflow.started_run_awaits [OF sound_workflow.intro, OF assms] by (auto simp: has_ended_def)

theorem started_run_never_stalls_witness:
  "\<exists>n. awaits_admission (builtin_compiled plain_externals)
       (fst (run_step plain_externals (builtin_compiled plain_externals)
         (run_state_new ''run'' (builtin_compiled plain_externals)) (Start_Run JNull))) n
     \<or> awaits_retry plain_externals (builtin_compiled plain_externals)
       (fst (run_step plain_externals (builtin_compiled plain_externals)
         (run_state_new ''run'' (builtin_compiled plain_externals)) (Start_Run JNull))) n
     \<or> awaits_attempt (fst (run_step plain_externals (builtin_compiled plain_externals)
         (run_state_new ''run'' (builtin_compiled plain_externals)) (Start_Run JNull))) n"
proof -
  let ?t = "fst (run_step plain_externals (builtin_compiled plain_externals)
    (run_state_new ''run'' (builtin_compiled plain_externals)) (Start_Run JNull))"
  have "rs_status ?t = Run_Ready"
    by (simp add: run_step_def run_apply_def start_def require_status_def attempting_def step_state_def
        put_step_def settle_def active_step_def run_state_new_def default_step_run_def is_terminal_def
        is_active_def Let_def)
  moreover have none: "run_commands (run_step plain_externals (builtin_compiled plain_externals)) ?t [] = (?t, [])"
    by simp
  ultimately show ?thesis
    using started_run_never_stalls [OF builtin_compiles builtin_dominated none] by (simp add: is_terminal_def)
qed

text \<open>
  A completion that does not come from the attempt in flight changes nothing but the usage. A
  success or failure reported for another attempt, or for a step that is not active, is rejected,
  and every field of the run stays as it was except the usage, to which the rejected report is
  added although no event announces it.
\<close>

theorem stale_completion_rejected:
  assumes "\<not> is_terminal (rs_status s)" and "co_node c n \<noteq> None"
    and "\<not> (\<exists>step. map_of (rs_steps s) n = Some step \<and> is_active (sr_status step)
           \<and> sr_attempts step \<noteq> [] \<and> at_attempt (last (sr_attempts step)) = attempt)"
  shows "(\<exists>e. run_apply ext c s (StepSucceeded n attempt result details)
            = (s\<lparr>rs_usage := rs_usage (fst (record_usage s details))\<rparr>, Inl (Rejected e)))
    \<and> (\<exists>e. run_apply ext c s (StepFailed n attempt error details)
            = (s\<lparr>rs_usage := rs_usage (fst (record_usage s details))\<rparr>, Inl (Rejected e)))
    \<and> (\<not> usage_eq (ad_usage details) default_usage \<longrightarrow>
         rs_usage (fst (record_usage s details)) = usage_add (rs_usage s) (ad_usage details))"
proof -
  obtain s1 es where usage: "record_usage s details = (s1, es)" by fastforce
  then have s1: "s1 = s\<lparr>rs_usage := rs_usage s1\<rparr>" "rs_steps s1 = rs_steps s"
    by (auto simp: record_usage_def Let_def split: if_splits)
  obtain e where "active_attempt_mut c s1 n attempt = Inl e"
    using assms(3) s1(2) by (cases "active_attempt_mut c s1 n attempt") (auto simp: active_attempt_mut_Inr)
  then have "\<exists>e. run_apply ext c s (StepSucceeded n attempt result details) = (s1, Inl (Rejected e))"
    "\<exists>e. run_apply ext c s (StepFailed n attempt error details) = (s1, Inl (Rejected e))"
    using assms(1,2) usage by (auto simp: run_apply_def succeed_def fail_def mark_attempt_succeeded_def
        mark_attempt_failed_def attempting_def)
  moreover have "\<not> usage_eq (ad_usage details) default_usage \<longrightarrow>
      rs_usage (fst (record_usage s details)) = usage_add (rs_usage s) (ad_usage details)"
    by (simp add: record_usage_def Let_def)
  ultimately show ?thesis using usage s1(1) by (metis fst_conv)
qed

theorem stale_completion_rejected_witness:
  "\<exists>e. run_apply plain_externals (builtin_compiled plain_externals)
       (run_state_new ''run'' (builtin_compiled plain_externals))
       (StepSucceeded ''execute'' 1 JNull default_details)
     = ((run_state_new ''run'' (builtin_compiled plain_externals))
          \<lparr>rs_usage := rs_usage (fst (record_usage (run_state_new ''run'' (builtin_compiled plain_externals))
             default_details))\<rparr>, Inl (Rejected e))"
  using stale_completion_rejected [of "run_state_new ''run'' (builtin_compiled plain_externals)"
      "builtin_compiled plain_externals" "''execute''" 1 plain_externals JNull default_details]
  by (simp add: run_state_new_def default_step_run_def)

text \<open>
  An answered permission hides an open question. When a step waits for both a permission and
  an answer, resolving the last permission puts the step and the run back to running while the
  question stays open, and the step may then succeed with it unanswered. Answering first is
  handled: the step goes back to waiting for the permission.
\<close>

theorem permission_hides_question:
  assumes "active_attempt_mut c s n attempt = Inr step"
    and "sr_pending_permissions step = [answered]" and "sr_pending_input step = Some request"
  shows "\<exists>t step' u. permission_resolved c s n attempt answered approved
        = (t, Inr [Emit_Run (Ev_PermissionResolved n attempt answered approved)])
      \<and> map_of (rs_steps t) n = Some step' \<and> sr_status step' = Step_Running
      \<and> sr_pending_input step' = Some request
      \<and> mark_attempt_succeeded c t n attempt result details = (u, Inr ())"
proof -
  let ?b = "step\<lparr>sr_pending_permissions := [], sr_status := Step_Running\<rparr>"
  let ?t = "settle (put_step n ?b s)"
  have step: "sr_attempts step \<noteq> []" "co_node c n \<noteq> None" "at_attempt (last (sr_attempts step)) = attempt"
    using assms(1) by (auto simp: active_attempt_mut_Inr)
  have t: "map_of (rs_steps ?t) n = Some ?b" by (simp add: steps_of_put)
  then have "active_attempt_mut c ?t n attempt = Inr ?b" using step by (simp add: active_attempt_mut_Inr)
  then have "\<exists>u. mark_attempt_succeeded c ?t n attempt result details = (u, Inr ())"
    using step(1) by (simp add: mark_attempt_succeeded_def attempting_def current_attempt_def Let_def)
  moreover have "permission_resolved c s n attempt answered approved
      = (?t, Inr [Emit_Run (Ev_PermissionResolved n attempt answered approved)])"
    using assms by (simp add: permission_resolved_def attempting_def)
  ultimately show ?thesis using t assms(3) by fastforce
qed

theorem permission_hides_question_witness:
  "\<exists>s request t step. sr_pending_input step = Some request \<and> sr_status step = Step_Running
     \<and> permission_resolved (builtin_compiled plain_externals) s ''execute'' 1 ''p'' True
         = (t, Inr [Emit_Run (Ev_PermissionResolved ''execute'' 1 ''p'' True)])
     \<and> map_of (rs_steps t) ''execute'' = Some step"
proof -
  let ?q = "\<lparr>irq_id = ''q'', irq_kind = [], irq_prompt = [], irq_subject = JNull, irq_decisions = []\<rparr>"
  let ?step = "default_step_run\<lparr>sr_status := Step_WaitingForInput, sr_attempts := [new_attempt 1],
    sr_pending_permissions := [''p''], sr_pending_input := Some ?q\<rparr>"
  let ?s = "put_step ''execute'' ?step (run_state_new ''run'' (builtin_compiled plain_externals))"
  have "active_attempt_mut (builtin_compiled plain_externals) ?s ''execute'' 1 = Inr ?step"
    by (simp add: active_attempt_mut_Inr steps_of_put new_attempt_def)
  from permission_hides_question [OF this, of "''p''" ?q True JNull default_details] show ?thesis
    by (simp del: builtin_select) blast
qed

section \<open>The registry\<close>

definition register_all ::
    "workflow_externals \<Rightarrow> definition_registry \<Rightarrow> orchestration_definition list \<Rightarrow> definition_registry" where
  "register_all ext = foldl (\<lambda>reg d. case put_workflow ext reg d of Inl _ \<Rightarrow> reg | Inr reg' \<Rightarrow> reg')"

lemma register_all_wf: "workflow_registry_wf ext reg \<Longrightarrow> workflow_registry_wf ext (register_all ext reg ds)"
proof (induction ds arbitrary: reg)
  case (Cons d ds)
  have "workflow_registry_wf ext (case put_workflow ext reg d of Inl _ \<Rightarrow> reg | Inr reg' \<Rightarrow> reg')"
    using workflow_registry_wf_register [OF Cons.prems, of d] Cons.prems
    by (cases "workflow_register ext reg d") auto
  from Cons.IH [OF this] show ?case unfolding register_all_def foldl.simps .
qed (simp add: register_all_def)

text \<open>
  What the workflow registry keeps and resolves. Starting from an empty registry, whatever is
  registered, a revision once registered is never replaced; a resolved workflow is a compiled one
  registered under the identifier asked for, at exactly the revision asked for, or at the highest
  published (respectively not deprecated) one; a draft is resolved only where drafts are allowed;
  and the built-in registry resolves the built-in workflow.
\<close>

theorem workflow_registry_correct:
  fixes ext ds
  defines "reg \<equiv> register_all ext workflow_registry_new ds"
  shows "(\<forall>k c more. map_of (dr_revisions reg) k = Some c \<longrightarrow>
       map_of (dr_revisions (register_all ext reg more)) k = Some c)
    \<and> (\<forall>allow r c. workflow_resolve (workflow_allow_drafts reg allow) r = Inr c \<longrightarrow>
        compile_workflow ext (co_definition c) = Inr c
      \<and> map_of (dr_revisions reg) (od_id (co_definition c), od_revision (co_definition c)) = Some c
      \<and> (od_status (co_definition c) = Draft \<longrightarrow> allow)
      \<and> answers reg r c)
    \<and> (\<exists>builtin. with_builtin ext = Some builtin
        \<and> workflow_resolve builtin (Ref_LatestPublished ''rusty.default'') = Inr (builtin_compiled ext))"
proof -
  have reg: "workflow_registry_wf ext reg" unfolding reg_def by (rule register_all_wf) simp
  have "map_of (dr_revisions (register_all ext reg more)) k = Some c"
    if "map_of (dr_revisions reg) k = Some c" for k c more
    using workflow_store.history [OF reg, of more k c] that by (simp add: register_all_def)
  with resolved_revision [OF reg] with_builtin_Some [of ext] show ?thesis by blast
qed

theorem workflow_registry_correct_witness:
  "workflow_resolve (workflow_allow_drafts (register_all plain_externals workflow_registry_new
       [default_orchestration_definition]) False) (Ref_LatestPublished ''rusty.default'')
     = Inr (builtin_compiled plain_externals)
   \<and> answers (register_all plain_externals workflow_registry_new [default_orchestration_definition])
       (Ref_LatestPublished ''rusty.default'') (builtin_compiled plain_externals)"
proof -
  let ?reg = "\<lparr>dr_revisions = [((''rusty.default'', 1), builtin_compiled plain_externals)], dr_allow_drafts = False\<rparr>"
  have reg: "register_all plain_externals workflow_registry_new [default_orchestration_definition] = ?reg"
    by (simp add: register_all_def workflow_register_def workflow_registry_new_def builtin_compiles builtin_documents)
  have "od_status default_orchestration_definition = Published" by code_simp
  then have "workflow_resolve (workflow_allow_drafts ?reg False) (Ref_LatestPublished ''rusty.default'')
      = Inr (builtin_compiled plain_externals)"
    by (simp add: workflow_resolve_def find_revision_def revisions_of_def workflow_allow_drafts_def)
  then show ?thesis
    using workflow_registry_correct [of plain_externals "[default_orchestration_definition]"] unfolding reg by blast
qed

section \<open>A workflow whose run is stranded\<close>

text \<open>
  A workflow that compiles although a retry target is not on every way to its sender: the review
  of the draft sends back to the rescue step, which the run had not taken.
\<close>

definition retried_agent :: "node_id \<Rightarrow> orchestration_node" where
  "retried_agent name =
     (plain_node name name (Node_Agent
       \<lparr>anc_instructions = ''work'', anc_task_queue = None, anc_tools = Scope_Inherit,
        anc_context_mode = IsolatedChild, anc_model = None, anc_structured_output = SO_Text,
        anc_profile = None, anc_context_access = Own\<rparr>))
     \<lparr>on_output_schema := Some report_schema_reference,
      on_retry := \<lparr>rp_max_attempts = 2, rp_retry_on = [VerificationFailed]\<rparr>\<rparr>"

definition checking_node :: "node_id \<Rightarrow> node_id \<Rightarrow> orchestration_node" where
  "checking_node name target =
     (plain_node name name (Node_Verify
       \<lparr>vnc_checks = [RequiredStatus ''/report/status'' ''completed''], vnc_retry_target = Some target\<rparr>))
     \<lparr>on_input_bindings := [\<lparr>ib_target = ''report'', ib_source = NodeOutput ''plan'' []\<rparr>]\<rparr>"

definition plan_output :: orchestration_node where
  "plan_output = plain_node ''output'' ''Output''
     (Node_Output \<lparr>onc_source = NodeOutput ''plan'' [], onc_strict = False\<rparr>)"

definition failure_edge :: "edge_id \<Rightarrow> node_id \<Rightarrow> node_id \<Rightarrow> orchestration_edge" where
  "failure_edge name source target = (named_edge name source target)\<lparr>oe_condition := OnFailure\<rparr>"

definition detour :: orchestration_definition where
  "detour = default_orchestration_definition
     \<lparr>od_nodes := [default_input_node, retried_agent ''plan'', retried_agent ''draft'', retried_agent ''rescue'',
        checking_node ''review'' ''rescue'', checking_node ''audit'' ''plan'', plan_output],
      od_output_contract := default_output_contract,
      od_edges := [named_edge ''e1'' ''input'' ''plan'', named_edge ''e2'' ''plan'' ''draft'',
        failure_edge ''e3'' ''plan'' ''rescue'', named_edge ''e4'' ''draft'' ''review'',
        named_edge ''e5'' ''rescue'' ''review'', failure_edge ''e6'' ''rescue'' ''audit'',
        named_edge ''e7'' ''review'' ''output'', named_edge ''e8'' ''audit'' ''output'']\<rparr>"

abbreviation detour_nodes :: nodes where
  "detour_nodes \<equiv> [(''audit'', checking_node ''audit'' ''plan''), (''draft'', retried_agent ''draft''),
     (''input'', default_input_node), (''output'', plan_output), (''plan'', retried_agent ''plan''),
     (''rescue'', retried_agent ''rescue''), (''review'', checking_node ''review'' ''rescue'')]"

abbreviation detour_outgoing :: edges where
  "detour_outgoing \<equiv> [(''audit'', [named_edge ''e8'' ''audit'' ''output'']),
     (''draft'', [named_edge ''e4'' ''draft'' ''review'']),
     (''input'', [named_edge ''e1'' ''input'' ''plan'']), (''output'', []),
     (''plan'', [named_edge ''e2'' ''plan'' ''draft'', failure_edge ''e3'' ''plan'' ''rescue'']),
     (''rescue'', [named_edge ''e5'' ''rescue'' ''review'', failure_edge ''e6'' ''rescue'' ''audit'']),
     (''review'', [named_edge ''e7'' ''review'' ''output''])]"

definition detour_compiled :: compiled_orchestration where
  "detour_compiled =
     \<lparr>co_definition_id = ''rusty.default'', co_revision = 1, co_entry_node = ''input'',
      co_nodes = detour_nodes, co_outgoing = detour_outgoing,
      co_incoming = fst (snd (build_edges detour detour_nodes)),
      co_topological_rank = fst (rank_and_check_reachability ''input'' detour_nodes detour_outgoing),
      co_retry_spans = [(''audit'', [''plan'', ''rescue'', ''audit'']), (''review'', [''rescue'', ''review''])],
      co_content_hash = ''fnv1a64:cbf29ce484222325'', co_definition = detour\<rparr>"

lemma hex_digits_numeral:
  "hex_digits (numeral k) n = hex_digits (pred_numeral k) (n div 16) @ [hex_digit (n mod 16)]"
  by (subst numeral_eq_Suc) (rule hex_digits.simps)

lemma empty_hash: "content_hash [] = ''fnv1a64:cbf29ce484222325''"
proof -
  have "hex_digits 16 14695981039346656037 = ''cbf29ce484222325''"
    by (simp add: hex_digits_numeral) (simp add: hex_digit_def)
  then show ?thesis by (simp add: content_hash_def)
qed

lemma detour_checks:
  "check_header detour = []" "check_nodes detour = (detour_nodes, [])"
  "check_context_access detour detour_nodes = []" "check_entry_and_exit detour = (Some ''input'', [])"
  "od_id detour = ''rusty.default''" "od_revision detour = 1"
  by code_simp+

lemma detour_graph:
  "fst (build_edges detour detour_nodes) = detour_outgoing" "snd (snd (build_edges detour detour_nodes)) = []"
  "check_routes detour_nodes detour_outgoing = []"
  "snd (rank_and_check_reachability ''input'' detour_nodes detour_outgoing) = []"
  "length (fst (rank_and_check_reachability ''input'' detour_nodes detour_outgoing)) = 7"
  "check_data_flow detour detour_nodes detour_outgoing = []"
  "compile_retry_spans detour_nodes detour_outgoing
     (fst (rank_and_check_reachability ''input'' detour_nodes detour_outgoing)) = (co_retry_spans detour_compiled, [])"
  by code_simp+

lemma detour_compiles: "compile_workflow plain_externals detour = Inr detour_compiled"
proof -
  obtain inc where edges: "build_edges detour detour_nodes = (detour_outgoing, inc, [])"
    using detour_graph(1,2) by (metis prod.collapse)
  obtain ranks where ranks: "rank_and_check_reachability ''input'' detour_nodes detour_outgoing = (ranks, [])"
    using detour_graph(4) by (metis prod.collapse)
  show ?thesis
    unfolding compile_workflow_def Let_def detour_checks prod.case edges option.case ranks
    using detour_graph(3,5,6,7) edges ranks
    by (simp add: detour_compiled_def detour_checks empty_hash plain_externals_def)
qed

definition partial_report :: json where
  "partial_report = JObject [(''status'', JString ''partial'')]"

definition detour_commands :: "orchestration_command list" where
  "detour_commands =
     [Start_Run JNull, StepAdmitted ''input'' 1, StepSucceeded ''input'' 1 JNull default_details,
      StepAdmitted ''plan'' 1, StepSucceeded ''plan'' 1 partial_report default_details,
      StepAdmitted ''draft'' 1, StepSucceeded ''draft'' 1 partial_report default_details,
      StepAdmitted ''review'' 1,
      StepFailed ''review'' 1 (orchestration_error_retryable [] [] VerificationFailed) default_details,
      RetryStep ''rescue'', StepAdmitted ''rescue'' 1,
      StepFailed ''rescue'' 1 (orchestration_error_new [] []) default_details,
      StepAdmitted ''audit'' 1,
      StepFailed ''audit'' 1 (orchestration_error_retryable [] [] VerificationFailed) default_details,
      RetryStep ''plan'', StepAdmitted ''plan'' 2]"

section \<open>Runs without a step to go on with\<close>

text \<open>What a command leaves of a run in which no step is ready, in flight or waiting for its retry.\<close>

definition left_alone :: "orchestration_run_state \<Rightarrow> orchestration_effect list run_result \<Rightarrow> bool" where
  "left_alone s r \<longleftrightarrow>
     rs_status (fst r) \<notin> {Run_Created, Run_Completed}
   \<and> (has_ended (rs_status (fst r)) \<or> rs_steps (fst r) = rs_steps s)
   \<and> (\<forall>es n attempt. snd r = Inr es \<longrightarrow> ExecuteStep n attempt \<notin> set es)"

definition stranded :: "compiled_orchestration \<Rightarrow> orchestration_run_state \<Rightarrow> bool" where
  "stranded c s \<longleftrightarrow> run_ok c s \<and> calm s \<and> rs_status s \<notin> {Run_Created, Run_Completed}"

lemma calm_refuses: "calm s \<Longrightarrow> \<exists>e. active_attempt_mut c s n attempt = Inl e"
  using active_attempt_token [of c s n attempt] by (cases "active_attempt_mut c s n attempt") (auto simp: calm_def)

lemma left_alone_same:
  "rs_status s \<notin> {Run_Created, Run_Completed} \<Longrightarrow> left_alone s (s, Inl e)"
  by (simp add: left_alone_def)

lemma settle_left_alone:
  assumes "rs_status s \<notin> {Run_Created, Run_Completed}" and "rs_steps t = rs_steps s"
    and "rs_status t = rs_status s" and "\<And>n attempt. ExecuteStep n attempt \<notin> set es"
  shows "left_alone s (settle t, Inr es)"
  using assms settle_status [of t] by (auto simp: left_alone_def settle_alt settled_status_def
      split: option.splits step_status.splits)

lemma left_alone_terminate:
  "(\<And>n attempt. ExecuteStep n attempt \<notin> set es) \<Longrightarrow> left_alone s (terminate_failed t error es)"
  by (simp add: left_alone_def terminate_failed_def has_ended_def Let_def)

lemma calm_no_active:
  assumes "hm_wf (rs_steps s)" and "calm s"
  shows "filter (\<lambda>(_, step). is_active (sr_status step)) (rs_steps s) = []"
  using assms map_of_is_SomeI [OF assms(1)] by (fastforce simp: filter_empty_conv calm_def is_active_token)

lemma cancel_active_calm:
  "filter (\<lambda>(_, step). is_active (sr_status step)) m = [] \<Longrightarrow> snd (cancel_active idle m) = Inr []"
  by (induction idle m rule: cancel_active.induct) (auto simp: Let_def split: if_splits prod.splits)

lemma stranded_apply:
  assumes "run_ok c s" and calm: "calm s" and s: "rs_status s \<notin> {Run_Created, Run_Completed}"
  shows "left_alone s (run_apply ext c s command)"
proof -
  have wf: "hm_wf (rs_steps s)" using assms(1) run_ok_core run_coreD(1) by blast
  note idle = calm_no_active [OF wf calm]
  have refused: "left_alone s (attempting s (active_attempt_mut c s n attempt) k)" for n attempt k
    using calm_refuses [OF calm, of c n attempt] left_alone_same [OF s] by (auto simp: attempting_def)
  have asks: "left_alone s (record_checkpoint c s n attempt v)" "left_alone s (permission_required c s n attempt q)"
    "left_alone s (permission_resolved c s n attempt q approved)" "left_alone s (input_required c s n attempt request)"
    "left_alone s (input_resolved c s n attempt q answer)" for n attempt v q approved request answer
    by (simp_all add: record_checkpoint_def permission_required_def permission_resolved_def
        input_required_def input_resolved_def Let_def refused)
  have token: "sr_status step \<notin> {Step_Ready, Step_RetryScheduled}" if "step_mut c s n = Inr step" for n step
    using that calm by (fastforce simp: step_mut_Inr calm_def)
  have admissions: "left_alone s (retry c s n)" "left_alone s (admit ext c s n attempt)"
    "left_alone s (start c s input)" for n attempt input
    using left_alone_same [OF s] token s
    by (auto simp: retry_def admit_def admit_check_def start_def require_status_def attempting_def Let_def
        split: sum.split)
  have controls: "left_alone s (pause s)" "left_alone s (resume s)"
    using left_alone_same [OF s] settle_left_alone [OF s] by (auto simp: pause_def resume_def)
  have reports: "left_alone s (succeed c s n attempt res details)" "left_alone s (fail ext c s n attempt error details)"
    for n attempt res details error
  proof -
    obtain s1 es where usage: "record_usage s details = (s1, es)" by fastforce
    have same: "rs_steps s1 = rs_steps s" "rs_status s1 = rs_status s" using record_usage_frame [OF usage] by simp_all
    then have "calm s1" using calm by (simp add: calm_def)
    then obtain e where "active_attempt_mut c s1 n attempt = Inl e" using calm_refuses by blast
    then show "left_alone s (succeed c s n attempt res details)" "left_alone s (fail ext c s n attempt error details)"
      using usage same s by (simp_all add: succeed_def fail_def mark_attempt_succeeded_def mark_attempt_failed_def
          attempting_def left_alone_def split: option.split)
  qed
  obtain m m' where steps: "cancel_active id (rs_steps s) = (m, Inr [])" "cancel_active end_waiting (rs_steps s) = (m', Inr [])"
    using cancel_active_calm [OF idle] by (metis prod.collapse)
  have ends: "left_alone s (abort s error)" "left_alone s (cancel s)" "left_alone s (cancellation_completed s)" for error
    using s left_alone_terminate [of "[]"]
    by (auto simp: abort_def cancel_def steps cancellation_completed_def require_status_def attempting_def
        left_alone_def has_ended_def Let_def)
  have recovers: "left_alone s (recover c s)"
  proof (cases "check_restorable c s")
    case (Inr u)
    show ?thesis
      using s settle_left_alone [OF s refl refl, of "[Emit_Run Ev_RunRestored]"] Inr
      by (simp add: recover_def attempting_def idle Let_def cancellation_completed_def require_status_def
          left_alone_def has_ended_def)
  qed (simp add: recover_def attempting_def left_alone_same [OF s])
  show ?thesis
    using asks admissions controls reports ends recovers left_alone_same [OF s]
    by (cases command) (simp_all add: run_apply_def)
qed

text \<open>A stranded run stays so and executes nothing: a contract that every command keeps.\<close>

definition stays_stranded ::
    "compiled_orchestration \<Rightarrow> orchestration_run_state \<Rightarrow> orchestration_effect list
      \<Rightarrow> orchestration_run_state \<Rightarrow> bool" where
  "stays_stranded c s es t \<longleftrightarrow>
     (stranded c s \<longrightarrow> stranded c t \<and> (\<forall>n attempt. ExecuteStep n attempt \<notin> set es))"

lemma stranded_step:
  assumes "stranded c s" and "run_step ext c s command = (t, es)"
  shows "stranded c t \<and> (\<forall>n attempt. ExecuteStep n attempt \<notin> set es)"
proof -
  have s: "run_ok c s" "calm s" "rs_status s \<notin> {Run_Created, Run_Completed}"
    using assms(1) by (simp_all add: stranded_def)
  have r: "t = fst (run_apply ext c s command)"
    "es = (case snd (run_apply ext c s command) of Inl _ \<Rightarrow> [] | Inr es \<Rightarrow> es)"
    using assms(2) by (auto simp: run_step_def Let_def)
  note alone = stranded_apply [OF s, of ext command, unfolded left_alone_def, folded r(1)]
  have ok: "run_ok c t" using workflow.step_inv [OF s(1) assms(2)] .
  have "calm t"
    using alone s(2) run_coreD(5) [OF run_ok_core [OF ok]] by (auto simp: calm_def)
  moreover have "ExecuteStep n attempt \<notin> set es" for n attempt
    using alone r(2) by (auto split: sum.splits)
  ultimately show ?thesis using ok alone by (auto simp: stranded_def)
qed

interpretation stranded: contract_machine "stays_stranded c" "run_step ext c"
  by unfold_locales (use stranded_step in \<open>auto simp: stays_stranded_def\<close>)

text \<open>
  C21: a step whose success leads to a step that the run has already passed strands the run. In
  every state that commands bring a run of a compiled workflow to, when a step is running its last
  attempt and the target of its success route is not pending, reporting the success is rejected
  with \<open>target_not_pending\<close> although the step is marked as succeeded; the run has not ended and no
  step is ready, in flight or waiting for its retry. Whatever commands follow, no step is executed
  any more and the run does not complete. The compiler does not rule such states out: it accepts
  workflows whose retry targets are not on every way to the steps that send back to them, and the
  run above of such a workflow gets there.
\<close>

theorem passed_target_strands_run:
  assumes "compile_workflow ext d = Inr c"
    and "run_commands (run_step ext' c) (run_state_new run_id c) commands = (s, effects)"
    and "map_of (rs_steps s) n = Some step" and "sr_status step = Step_Running"
    and "at_attempt (last (sr_attempts step)) = attempt"
    and "edge \<in> set (od_edges d)" and "oe_source edge = n" and "oe_condition edge = OnSuccess"
    and "map_of (rs_steps s) (oe_target edge) = Some passed" and "sr_status passed \<noteq> Step_Pending"
    and "run_apply ext' c s (StepSucceeded n attempt result details) = (t, r)"
  shows "(\<exists>e. r = Inl (Rejected e) \<and> te_code e = ''target_not_pending'')
    \<and> map_option sr_status (map_of (rs_steps t) n) = Some Step_Succeeded
    \<and> \<not> has_ended (rs_status t) \<and> calm t
    \<and> (\<forall>later u es. run_commands (run_step ext' c) t later = (u, es) \<longrightarrow>
         rs_status u \<noteq> Run_Completed \<and> (\<forall>m k. ExecuteStep m k \<notin> set es))"
proof -
  have "run_ok c (run_state_new run_id c)"
    using run_ok_new btree_wf_distinct [OF compiled_nodes(1) [OF assms(1)]] by blast
  then have ok: "run_ok c s" using workflow.run_inv [OF _ assms(2)] by blast
  note core = run_ok_core [OF ok]
  have "n \<in> fst ` set (co_nodes c)" using run_coreD(2) [OF core] assms(3) by (metis fst_conv image_eqI map_of_SomeD)
  then obtain node where node: "co_node c n = Some node"
    by (metis co_node_def map_of_eq_None_iff not_None_eq)
  have route: "outgoing_for c n OnSuccess = Some edge" "\<not> is_output_node (on_kind node)"
    using compiled_routes [OF assms(1) node] assms(6-8) by force+
  obtain s1 es where usage: "record_usage s details = (s1, es)" by fastforce
  note f = record_usage_frame [OF usage]
  have mut: "active_attempt_mut c s1 n attempt = Inr step" "sr_attempts step \<noteq> []"
    using run_coreD(3) [OF core assms(3)] assms(3-5) node f(1)
    by (auto simp: active_attempt_mut_Inr step_ok_def attempts_ok_def is_active_def)
  obtain t1 where mark: "mark_attempt_succeeded c s1 n attempt result details = (t1, Inr ())" "spent c s1 t1"
    using mark_attempt_succeeded_cases [OF f(4) [OF ok], of n attempt result details] mut assms(4)
    by (auto simp: mark_attempt_succeeded_def attempting_def current_attempt_def Let_def)
  obtain w where w: "t1 = put_step n (w\<lparr>sr_status := Step_Succeeded, sr_output := Some result, sr_error := None\<rparr>) s1"
    using mark(1) mut assms(4)
    by (auto simp: mark_attempt_succeeded_def attempting_def current_attempt_def Let_def)
  have running: "\<not> is_terminal (rs_status s)" using mark(2) f(2) w by (simp add: spent_def has_ended_def)
  have "\<exists>later. steps_of t1 (oe_target edge) = Some later \<and> sr_status later \<noteq> Step_Pending"
    using assms(9,10) f(1) w by (simp add: steps_of_put)
  then have t: "t = t1" "\<exists>e. r = Inl (Rejected e) \<and> te_code e = ''target_not_pending''"
    using assms(11) running usage mark(1) route node
    by (auto simp: run_apply_def succeed_def and_then_def activate_def step_state_def attempting_def
        transition_error_of_def is_some_and_def Let_def split: if_splits)
  have "stranded c t" using mark(2) t(1) spentD(1) by (auto simp: stranded_def spent_def has_ended_def)
  then show ?thesis
    using t w mark(2) stranded.run_keeps [of ext' c t] by (auto simp: spent_def steps_of_put stays_stranded_def stranded_def)
qed

text \<open>The run above: the plan's second attempt succeeds and leads to the draft, which has succeeded.\<close>

definition detour_state :: orchestration_run_state where
  "detour_state = fst (run_commands (run_step plain_externals detour_compiled)
     (run_state_new ''run'' detour_compiled) detour_commands)"

text \<open>All commands are accepted, each in the state the previous one left.\<close>

fun all_accepted ::
    "workflow_externals \<Rightarrow> compiled_orchestration \<Rightarrow> orchestration_run_state \<Rightarrow> orchestration_command list
      \<Rightarrow> orchestration_run_state option" where
  "all_accepted ext c s [] = Some s"
| "all_accepted ext c s (command # commands) =
     (case run_apply ext c s command of
        (t, Inr _) \<Rightarrow> all_accepted ext c t commands
      | (t, Inl _) \<Rightarrow> None)"

lemma all_accepted_runs: "all_accepted ext c s commands = Some t \<Longrightarrow> fst (run_commands (run_step ext c) s commands) = t"
  by (induction ext c s commands rule: all_accepted.induct)
     (auto simp: run_step_def Let_def split: prod.splits sum.splits)

lemma detour_run:
  "case all_accepted plain_externals detour_compiled (run_state_new ''run'' detour_compiled) detour_commands of
     None \<Rightarrow> False
   | Some s \<Rightarrow>
       (case (map_of (rs_steps s) ''plan'', map_of (rs_steps s) ''draft'') of
          (Some plan, Some draft) \<Rightarrow> sr_status plan = Step_Running \<and> at_attempt (last (sr_attempts plan)) = 2
            \<and> sr_status draft \<noteq> Step_Pending
        | _ \<Rightarrow> False)"
  by code_simp

theorem passed_target_strands_run_witness:
  "all_accepted plain_externals detour_compiled (run_state_new ''run'' detour_compiled) detour_commands \<noteq> None
   \<and> calm (fst (run_apply plain_externals detour_compiled detour_state
       (StepSucceeded ''plan'' 2 partial_report default_details)))"
proof -
  let ?new = "run_state_new ''run'' detour_compiled"
  obtain s plan draft where s: "all_accepted plain_externals detour_compiled ?new detour_commands = Some s"
    "map_of (rs_steps s) ''plan'' = Some plan" "sr_status plan = Step_Running" "at_attempt (last (sr_attempts plan)) = 2"
    "map_of (rs_steps s) ''draft'' = Some draft" "sr_status draft \<noteq> Step_Pending"
    using detour_run by (auto split: option.splits)
  have state: "detour_state = s" unfolding detour_state_def by (rule all_accepted_runs [OF s(1)])
  have run: "run_commands (run_step plain_externals detour_compiled) ?new detour_commands
      = (detour_state, snd (run_commands (run_step plain_externals detour_compiled) ?new detour_commands))"
    unfolding detour_state_def by simp
  let ?edge = "named_edge ''e2'' ''plan'' ''draft''"
  have edge: "?edge \<in> set (od_edges detour)" "oe_source ?edge = ''plan''" "oe_condition ?edge = OnSuccess"
    "oe_target ?edge = ''draft''"
    by (simp_all add: detour_def named_edge_def)
  show ?thesis
    using passed_target_strands_run [OF detour_compiles run _ _ _ edge(1-3) _ _ prod.collapse [symmetric],
        of plan 2 draft partial_report default_details] s edge(4) state
    by simp
qed

end
