(* ===== verification/Float_Ops.thy ===== *)
theory Float_Ops
  imports Float64
begin

text \<open>
  The \<open>f64\<close> operations the goal measurements use: subtraction, multiplication and division with
  one rounding to nearest even, rounding to an integer, the orders of \<open><\<close> and \<open>total_cmp\<close>, and
  sums.
\<close>

definition f64_neg :: "f64 \<Rightarrow> f64" where
  "f64_neg x = x XOR 0x8000000000000000"

definition f64_sub :: "f64 \<Rightarrow> f64 \<Rightarrow> f64" where
  "f64_sub x y = f64_add x (f64_neg y)"

definition f64_lt :: "f64 \<Rightarrow> f64 \<Rightarrow> bool" where
  "f64_lt x y \<longleftrightarrow> \<not> f64_is_nan x \<and> \<not> f64_is_nan y \<and> f64_units x < f64_units y"

text \<open>\<open>f64::max\<close> ignores a NaN; which of two zeros it returns is left open by Rust.\<close>

definition f64_max :: "f64 \<Rightarrow> f64 \<Rightarrow> f64" where
  "f64_max x y =
     (if f64_is_nan x then y else if f64_is_nan y then x else if f64_ge x y then x else y)"

text \<open>The order of \<open>f64::total_cmp\<close>: the bit patterns as signed magnitudes.\<close>

definition f64_total_key :: "f64 \<Rightarrow> int" where
  "f64_total_key x = (if f64_negative x then - int (f64_magnitude x) - 1 else int (f64_magnitude x))"

text \<open>The magnitude nearest to \<open>a / b\<close> units, ties to even.\<close>

definition round_ratio :: "nat \<Rightarrow> nat \<Rightarrow> nat" where
  "round_ratio a b =
     (let k = excess_bits (a div b); d = b * 2 ^ k; q = a div d; r = a mod d;
          up = d < 2 * r \<or> (d = 2 * r \<and> odd q)
      in min f64_infinity_magnitude (k * 2 ^ 52 + (if up then q + 1 else q)))"

definition f64_signed :: "bool \<Rightarrow> nat \<Rightarrow> f64" where
  "f64_signed negative magnitude = of_nat ((if negative then 2 ^ 63 else 0) + magnitude)"

definition f64_mul :: "f64 \<Rightarrow> f64 \<Rightarrow> f64" where
  "f64_mul x y =
     (let negative = (f64_negative x \<noteq> f64_negative y);
          a = magnitude_units (f64_magnitude x); b = magnitude_units (f64_magnitude y)
      in if f64_is_nan x \<or> f64_is_nan y then f64_nan
         else if f64_is_finite x \<and> f64_is_finite y
         then f64_signed negative (round_ratio (a * b) (2 ^ 1074))
         else if a = 0 \<or> b = 0 then f64_nan
         else f64_signed negative f64_infinity_magnitude)"

definition f64_div :: "f64 \<Rightarrow> f64 \<Rightarrow> f64" where
  "f64_div x y =
     (let negative = (f64_negative x \<noteq> f64_negative y);
          a = magnitude_units (f64_magnitude x); b = magnitude_units (f64_magnitude y)
      in if f64_is_nan x \<or> f64_is_nan y then f64_nan
         else if \<not> f64_is_finite x
         then if f64_is_finite y then f64_signed negative f64_infinity_magnitude else f64_nan
         else if \<not> f64_is_finite y then f64_signed negative 0
         else if b = 0
         then if a = 0 then f64_nan else f64_signed negative f64_infinity_magnitude
         else f64_signed negative (round_ratio (a * 2 ^ 1074) b))"

text \<open>\<open>f64::round\<close>, to the nearest integer with halves away from zero, and \<open>usize as f64\<close>.\<close>

definition f64_round :: "f64 \<Rightarrow> f64" where
  "f64_round x =
     (if \<not> f64_is_finite x then x
      else f64_signed (f64_negative x)
        (round_units ((magnitude_units (f64_magnitude x) + 2 ^ 1073) div 2 ^ 1074 * 2 ^ 1074)))"

definition f64_of_nat :: "nat \<Rightarrow> f64" where
  "f64_of_nat n = f64_signed False (round_units (n * 2 ^ 1074))"

text \<open>\<open>Iterator::sum\<close> starts from \<open>-0.0\<close>.\<close>

definition f64_sum :: "f64 list \<Rightarrow> f64" where
  "f64_sum xs = foldl f64_add 0x8000000000000000 xs"

lemma round_ratio_one: "round_ratio a 1 = round_units a"
  by (simp add: round_ratio_def round_units_def Let_def)

lemma f64_lt_irrefl [simp]: "\<not> f64_lt x x"
  by (simp add: f64_lt_def)

lemma f64_lt_trans: "f64_lt x y \<Longrightarrow> f64_lt y z \<Longrightarrow> f64_lt x z"
  by (simp add: f64_lt_def)

lemma f64_lt_not_ge: "f64_lt x y \<longleftrightarrow> \<not> f64_is_nan x \<and> \<not> f64_is_nan y \<and> \<not> f64_ge x y"
  by (auto simp: f64_lt_def f64_ge_def)

end
