(* ===== verification/Goals.thy ===== *)
theory Goals
  imports Float_Ops Behavior_Rules "HOL-Library.Product_Lexorder"
begin

text \<open>
  Goal loops (\<open>crates/goals\<close>): the goal as it is saved (\<open>contract.rs\<close>), what a measurement
  misses (\<open>measurement.rs\<close>), whether a pass made progress (\<open>progress.rs\<close>), the decision after a
  pass and its record (\<open>decision.rs\<close>), and the parts of the prompts that decide something
  (\<open>prompt.rs\<close>). The passes themselves and the measuring belong to the host and are the inputs
  of the loop. How \<open>f64\<close> values are printed and which characters are alphanumeric are parameters.
\<close>

record goal_externals =
  gx_fmt_f64 :: "f64 \<Rightarrow> string"
  gx_is_alphanumeric :: "string \<Rightarrow> bool"

section \<open>Measurements (measurement.rs)\<close>

datatype severity = Sev_Low | Sev_Medium | Sev_High | Sev_Critical

fun severity_rank :: "severity \<Rightarrow> nat" where
  "severity_rank Sev_Low = 0"
| "severity_rank Sev_Medium = 1"
| "severity_rank Sev_High = 2"
| "severity_rank Sev_Critical = 3"

lemma severity_rank_inject: "severity_rank a = severity_rank b \<Longrightarrow> a = b"
  by (cases a; cases b) simp_all

instantiation severity :: linorder
begin

definition less_eq_severity :: "severity \<Rightarrow> severity \<Rightarrow> bool" where
  "less_eq_severity a b \<longleftrightarrow> severity_rank a \<le> severity_rank b"

definition less_severity :: "severity \<Rightarrow> severity \<Rightarrow> bool" where
  "less_severity a b \<longleftrightarrow> severity_rank a < severity_rank b"

instance
  by intro_classes (auto simp: less_eq_severity_def less_severity_def severity_rank_inject)

end

fun severity_lower :: "severity \<Rightarrow> string" where
  "severity_lower Sev_Low = ''low''"
| "severity_lower Sev_Medium = ''medium''"
| "severity_lower Sev_High = ''high''"
| "severity_lower Sev_Critical = ''critical''"

record finding_summary =
  fs_id :: string
  fs_issue :: string
  fs_severity :: severity
  fs_lines :: string
  fs_reason :: string
  fs_worth :: f64

record file_measure =
  fm_path :: string
  fm_score :: "f64 option"
  fm_findings :: "finding_summary list"

record guideline_summary =
  gs_rule :: string
  gs_path :: string
  gs_line :: u32
  gs_message :: string

record check_outcome =
  co_name :: string
  co_passed :: bool
  co_ran :: bool
  co_summary :: string

record measurement =
  me_files :: "file_measure list"
  me_guideline_errors :: "guideline_summary list"
  me_guideline_warnings :: u32
  me_checks :: "check_outcome list"
  me_fingerprint :: string

record unmet_target =
  un_target :: string
  un_detail :: string

definition missing :: "string \<Rightarrow> string \<Rightarrow> unmet_target" where
  "missing target detail = \<lparr>un_target = target, un_detail = detail\<rparr>"

record goal_targets =
  ta_min_file_health :: "f64 option"
  ta_min_mean_health :: "f64 option"
  ta_max_severity :: "severity option"
  ta_checks :: "string list"
  ta_guidelines :: bool
  ta_done_when :: "string option"

definition default_targets :: goal_targets where
  "default_targets =
     \<lparr>ta_min_file_health = None, ta_min_mean_health = None, ta_max_severity = None, ta_checks = [],
      ta_guidelines = True, ta_done_when = None\<rparr>"

definition on_files :: "goal_targets \<Rightarrow> bool" where
  "on_files targets \<longleftrightarrow> ta_min_file_health targets \<noteq> None \<or> ta_min_mean_health targets \<noteq> None
     \<or> ta_max_severity targets \<noteq> None"

definition work_bar :: "goal_targets \<Rightarrow> f64 option" where
  "work_bar targets =
     (case (ta_min_file_health targets, ta_min_mean_health targets) of
        (Some a, Some b) \<Rightarrow> Some (f64_max a b)
      | (a, b) \<Rightarrow> or_opt a b)"

definition round_score :: "f64 \<Rightarrow> f64" where
  "round_score x = f64_div (f64_round (f64_mul x 0x4024000000000000)) 0x4024000000000000"

definition LISTED :: nat where
  "LISTED = 10"

definition listed :: "string list \<Rightarrow> string" where
  "listed items = join '', '' (take LISTED items)
     @ (if LISTED < length items then '' and '' @ show_nat (length items - LISTED) @ '' more'' else [])"

definition scored :: "measurement \<Rightarrow> (file_measure \<times> f64) list" where
  "scored m = List.map_filter (\<lambda>f. map_option (\<lambda>s. (f, s)) (fm_score f)) (me_files m)"

fun min_by_total :: "f64 list \<Rightarrow> f64 option" where
  "min_by_total [] = None"
| "min_by_total (x # xs) = Some (foldl (\<lambda>a b. if f64_total_key b < f64_total_key a then b else a) x xs)"

definition worst_score :: "measurement \<Rightarrow> f64 option" where
  "worst_score m = min_by_total (map snd (scored m))"

definition mean_score :: "measurement \<Rightarrow> f64 option" where
  "mean_score m =
     (let scores = map snd (scored m)
      in if scores = [] then None else Some (f64_div (f64_sum scores) (f64_of_nat (length scores))))"

definition failing_checks :: "measurement \<Rightarrow> check_outcome list" where
  "failing_checks m = filter (\<lambda>c. \<not> co_passed c) (me_checks m)"

definition misses :: "file_measure \<Rightarrow> goal_targets \<Rightarrow> bool" where
  "misses f targets \<longleftrightarrow>
     (case (fm_score f, work_bar targets) of (Some s, Some bar) \<Rightarrow> f64_lt s bar | _ \<Rightarrow> False)
   \<or> is_some_and (\<lambda>limit. list_ex (\<lambda>x. limit < fs_severity x) (fm_findings f)) (ta_max_severity targets)"

abbreviation f64_MAX :: f64 where
  "f64_MAX \<equiv> 0x7FEFFFFFFFFFFFFF"

definition work :: "measurement \<Rightarrow> goal_targets \<Rightarrow> file_measure list" where
  "work m targets =
     sort_key (\<lambda>f. (f64_total_key (unwrap_or f64_MAX (fm_score f)), fm_path f))
       (filter (\<lambda>f. misses f targets) (me_files m))"

definition unmet_scope :: "measurement \<Rightarrow> goal_targets \<Rightarrow> unmet_target list" where
  "unmet_scope m targets =
     (if on_files targets \<and> scored m = []
      then [missing ''the scope is measured'' ''no file in scope has a code health score''] else [])"

definition unmet_mean :: "goal_externals \<Rightarrow> measurement \<Rightarrow> goal_targets \<Rightarrow> unmet_target list" where
  "unmet_mean gx m targets =
     (case (ta_min_mean_health targets, mean_score m) of
        (Some bar, Some mean) \<Rightarrow>
          if f64_lt mean bar
          then [missing (''mean health at least '' @ gx_fmt_f64 gx bar)
                  (''the mean is '' @ gx_fmt_f64 gx (round_score mean))]
          else []
      | _ \<Rightarrow> [])"

definition unmet_files :: "goal_externals \<Rightarrow> measurement \<Rightarrow> goal_targets \<Rightarrow> unmet_target list" where
  "unmet_files gx m targets =
     (case ta_min_file_health targets of
        None \<Rightarrow> []
      | Some bar \<Rightarrow>
          (let below = map (\<lambda>(f, s). fm_path f @ '' '' @ gx_fmt_f64 gx (round_score s))
                 (filter (\<lambda>(_, s). f64_lt s bar) (scored m))
           in if below = [] then []
              else [missing (''every file scores at least '' @ gx_fmt_f64 gx bar) (listed below)]))"

definition unmet_severity :: "measurement \<Rightarrow> goal_targets \<Rightarrow> unmet_target list" where
  "unmet_severity m targets =
     (case ta_max_severity targets of
        None \<Rightarrow> []
      | Some limit \<Rightarrow>
          (let worse = map (\<lambda>(f, x). fm_path f @ '' '' @ fs_issue x @ '' ('' @ fs_lines x @ '')'')
                 (filter (\<lambda>(_, x). limit < fs_severity x)
                   (concat (map (\<lambda>f. map (\<lambda>x. (f, x)) (fm_findings f)) (me_files m))))
           in if worse = [] then []
              else [missing (''no finding above '' @ severity_lower limit) (listed worse)]))"

definition unmet_check :: "measurement \<Rightarrow> string \<Rightarrow> unmet_target list" where
  "unmet_check m name =
     (case List.find (\<lambda>c. co_name c = name) (me_checks m) of
        Some check \<Rightarrow>
          if co_passed check then []
          else if \<not> co_ran check
          then [missing (name @ '' passes'') ''it was not run after the last edit'']
          else [missing (name @ '' passes'') (co_summary check)]
      | None \<Rightarrow> [missing (name @ '' passes'') ''it did not run''])"

definition unmet_guidelines :: "measurement \<Rightarrow> goal_targets \<Rightarrow> unmet_target list" where
  "unmet_guidelines m targets =
     (if ta_guidelines targets \<and> me_guideline_errors m \<noteq> []
      then [missing ''no guideline errors''
             (listed (map (\<lambda>e. gs_path e @ '':'' @ show_word (gs_line e) @ '' '' @ gs_rule e)
               (me_guideline_errors m)))]
      else [])"

definition measurement_unmet :: "goal_externals \<Rightarrow> measurement \<Rightarrow> goal_targets \<Rightarrow> unmet_target list" where
  "measurement_unmet gx m targets =
     unmet_scope m targets @ unmet_mean gx m targets @ unmet_files gx m targets
     @ unmet_severity m targets @ concat (map (unmet_check m) (ta_checks targets))
     @ unmet_guidelines m targets"

definition finding_count :: "measurement \<Rightarrow> nat" where
  "finding_count m = sum_list (map (\<lambda>f. length (fm_findings f)) (me_files m))"

definition headline :: "goal_externals \<Rightarrow> measurement \<Rightarrow> string" where
  "headline gx m =
     join '', ''
       ([show_nat (length (scored m)) @ '' file(s) measured'']
        @ (case (worst_score m, mean_score m) of
             (Some worst, Some mean) \<Rightarrow>
               [''health worst '' @ gx_fmt_f64 gx (round_score worst)
                 @ '' / mean '' @ gx_fmt_f64 gx (round_score mean)]
           | _ \<Rightarrow> [])
        @ [show_nat (finding_count m) @ '' finding(s)'']
        @ [show_nat (length (me_guideline_errors m)) @ '' guideline error(s)'']
        @ (if me_checks m = [] then []
           else let failing = map co_name (failing_checks m)
                in [if failing = [] then ''checks pass'' else ''failing: '' @ join '', '' failing]))"

section \<open>The goal (contract.rs)\<close>

definition GOAL_SCHEMA_VERSION :: u32 where
  "GOAL_SCHEMA_VERSION = 1"

definition JOURNAL_LIMIT :: nat where
  "JOURNAL_LIMIT = 50"

datatype plan_step_status = Plan_Pending | Plan_InProgress | Plan_Completed | Plan_Cancelled

definition is_closed :: "plan_step_status \<Rightarrow> bool" where
  "is_closed status \<longleftrightarrow> status \<in> {Plan_Completed, Plan_Cancelled}"

record plan_step =
  pst_content :: string
  pst_status :: plan_step_status

datatype goal_status = Goal_Running | Goal_Paused | Goal_Done | Goal_Blocked | Goal_Cleared

definition goal_is_active :: "goal_status \<Rightarrow> bool" where
  "goal_is_active status \<longleftrightarrow> status = Goal_Running"

record goal_budget =
  gb_max_passes :: "u32 option"
  gb_no_progress_passes :: u32

definition default_budget :: goal_budget where
  "default_budget = \<lparr>gb_max_passes = None, gb_no_progress_passes = 2\<rparr>"

definition passes_left :: "goal_budget \<Rightarrow> u32 \<Rightarrow> u32 option" where
  "passes_left budget used = map_option (\<lambda>max_passes. max (saturating_sub max_passes used) 1) (gb_max_passes budget)"

datatype pass_verdict =
  Verdict_Done | Verdict_Continue | Verdict_Undone | Verdict_NoProgress | Verdict_Blocked | Verdict_Budget

record journal_entry =
  je_pass :: u32
  je_at :: string
  je_verdict :: pass_verdict
  je_summary :: string
  je_agent_status :: "string option"
  je_next :: "string option"

record goal =
  go_schema_version :: u32
  go_id :: string
  go_status :: goal_status
  go_instruction :: string
  go_scope :: "string list"
  go_scope_note :: "string option"
  go_targets :: goal_targets
  go_budget :: goal_budget
  go_keep_best :: bool
  go_chat_id :: "string option"
  go_created_at :: string
  go_updated_at :: string
  go_passes :: u32
  go_stalled :: u32
  go_baseline :: "measurement option"
  go_last :: "measurement option"
  go_touched :: "string list"
  go_plan :: "plan_step list"
  go_journal :: "journal_entry list"
  go_reason :: "string option"

definition goal_new :: "string \<Rightarrow> string \<Rightarrow> string \<Rightarrow> goal" where
  "goal_new name instruction now =
     \<lparr>go_schema_version = GOAL_SCHEMA_VERSION, go_id = name, go_status = Goal_Running,
      go_instruction = instruction, go_scope = [], go_scope_note = None, go_targets = default_targets,
      go_budget = default_budget, go_keep_best = True, go_chat_id = None, go_created_at = now,
      go_updated_at = now, go_passes = 0, go_stalled = 0, go_baseline = None, go_last = None,
      go_touched = [], go_plan = [], go_journal = [], go_reason = None\<rparr>"

definition push_journal :: "journal_entry \<Rightarrow> goal \<Rightarrow> goal" where
  "push_journal entry g =
     (let journal = go_journal g @ [entry]
      in g\<lparr>go_journal := (if JOURNAL_LIMIT < length journal then drop (length journal - JOURNAL_LIMIT) journal
                          else journal)\<rparr>)"

definition is_task :: "goal \<Rightarrow> bool" where
  "is_task g \<longleftrightarrow> \<not> on_files (go_targets g)"

definition done_when :: "goal \<Rightarrow> string option" where
  "done_when g =
     (case ta_done_when (go_targets g) of
        Some words \<Rightarrow> Some words
      | None \<Rightarrow> if is_task g then Some (go_instruction g) else None)"

definition goal_resume :: "string \<Rightarrow> goal \<Rightarrow> goal" where
  "goal_resume now g =
     g\<lparr>go_status := Goal_Running, go_passes := 0, go_stalled := 0, go_reason := None, go_updated_at := now\<rparr>"

section \<open>Progress (progress.rs)\<close>

datatype pass_progress = Better | Same | Worse

definition SCORE_EPSILON :: f64 where
  "SCORE_EPSILON = 0x3FA999999999999A"

definition broke :: "measurement \<Rightarrow> measurement \<Rightarrow> bool" where
  "broke before now \<longleftrightarrow>
     list_ex (\<lambda>c. list_ex (\<lambda>b. co_name b = co_name c \<and> co_passed b) (me_checks before))
       (filter co_ran (failing_checks now))
   \<or> length (me_guideline_errors before) < length (me_guideline_errors now)"

definition shortfall :: "f64 \<Rightarrow> measurement \<Rightarrow> f64" where
  "shortfall bar m = f64_sum (map (\<lambda>(_, s). f64_max (f64_sub bar s) 0) (scored m))"

definition score_delta :: "f64 option \<Rightarrow> f64 option \<Rightarrow> f64" where
  "score_delta before now = (case (before, now) of (Some a, Some b) \<Rightarrow> f64_sub b a | _ \<Rightarrow> 0)"

definition fewer :: "goal_externals \<Rightarrow> measurement \<Rightarrow> measurement \<Rightarrow> goal_targets \<Rightarrow> bool" where
  "fewer gx before now targets \<longleftrightarrow>
     length (measurement_unmet gx now targets) < length (measurement_unmet gx before targets)
   \<or> length (failing_checks now) < length (failing_checks before)
   \<or> length (me_guideline_errors now) < length (me_guideline_errors before)
   \<or> length (work now targets) < length (work before targets)"

definition compare :: "goal_externals \<Rightarrow> measurement \<Rightarrow> measurement \<Rightarrow> goal_targets \<Rightarrow> pass_progress" where
  "compare gx before now targets =
     (if me_fingerprint before \<noteq> [] \<and> me_fingerprint before = me_fingerprint now then Same
      else if broke before now then Worse
      else if fewer gx before now targets then Better
      else if is_some_and (\<lambda>bar. f64_lt (shortfall bar now) (f64_sub (shortfall bar before) SCORE_EPSILON))
                (work_bar targets) then Better
      else (let delta = score_delta (mean_score before) (mean_score now);
                worst = score_delta (worst_score before) (worst_score now)
            in if f64_lt delta (f64_neg SCORE_EPSILON) \<or> f64_lt worst (f64_neg SCORE_EPSILON) then Worse
               else if f64_lt SCORE_EPSILON delta \<or> f64_lt SCORE_EPSILON worst then Better
               else if finding_count now < finding_count before then Better
               else if finding_count now = finding_count before then Same
               else Worse))"

section \<open>Decisions (decision.rs)\<close>

record pass_report =
  pr_agent_status :: "string option"
  pr_done_when_met :: "bool option"
  pr_judge_reason :: "string option"
  pr_next :: "string option"
  pr_plan :: "plan_step list"

definition completed_steps :: "plan_step list \<Rightarrow> nat" where
  "completed_steps plan = length (filter (\<lambda>s. pst_status s = Plan_Completed) plan)"

definition unmet_plan :: "plan_step list \<Rightarrow> unmet_target list" where
  "unmet_plan plan =
     (let open_steps = map pst_content (filter (\<lambda>s. \<not> is_closed (pst_status s)) plan)
      in if plan = []
         then [missing ''a plan'' ''no plan was kept: call update_todos with every step to the result'']
         else if open_steps \<noteq> []
         then [missing ''the plan is finished''
                (show_nat (length open_steps) @ '' step(s) left: '' @ join ''; '' open_steps)]
         else [])"

definition unmet_own_checks :: "goal \<Rightarrow> measurement \<Rightarrow> unmet_target list" where
  "unmet_own_checks g now =
     map (\<lambda>c. missing (co_name c @ '' passes'') (join '' / '' (take 4 (str_lines [] (co_summary c)))))
       (filter (\<lambda>c. co_name c \<notin> set (ta_checks (go_targets g))) (filter co_ran (failing_checks now)))"

definition task_unmet :: "goal \<Rightarrow> plan_step list \<Rightarrow> measurement \<Rightarrow> unmet_target list" where
  "task_unmet g plan now = unmet_plan plan @ unmet_own_checks g now"

record goal_decision =
  gd_verdict :: pass_verdict
  gd_status :: goal_status
  gd_unmet :: "unmet_target list"
  gd_undo :: bool
  gd_stalled :: u32
  gd_reason :: string
  gd_summary :: string

definition blocked :: "goal_externals \<Rightarrow> pass_report \<Rightarrow> string option" where
  "blocked gx report =
     Option.bind (pr_agent_status report) (\<lambda>raw.
       let status = trim raw
       in if 7 \<le> length status \<and> is_char_boundary status 7
             \<and> map ascii_lower (take 7 status) = ''blocked''
          then Some (trim_matches (\<lambda>c. \<not> gx_is_alphanumeric gx c) (drop 7 status))
          else None)"

definition task_progress ::
    "measurement \<Rightarrow> measurement \<Rightarrow> plan_step list \<Rightarrow> plan_step list \<Rightarrow> pass_progress" where
  "task_progress before now plan kept =
     (if broke before now then Worse
      else if completed_steps kept < completed_steps plan \<or> length (failing_checks now) < length (failing_checks before)
      then Better
      else Same)"

definition goal_unmet ::
    "goal_externals \<Rightarrow> goal \<Rightarrow> plan_step list \<Rightarrow> measurement \<Rightarrow> unmet_target list" where
  "goal_unmet gx g plan now =
     measurement_unmet gx now (go_targets g) @ (if is_task g then task_unmet g plan now else [])"

definition pass_plan :: "goal \<Rightarrow> pass_report \<Rightarrow> plan_step list" where
  "pass_plan g report = (if pr_plan report = [] then go_plan g else pr_plan report)"

definition measured_before :: "goal \<Rightarrow> measurement option" where
  "measured_before g = or_opt (go_last g) (go_baseline g)"

definition goal_progress :: "goal_externals \<Rightarrow> goal \<Rightarrow> measurement \<Rightarrow> pass_report \<Rightarrow> pass_progress" where
  "goal_progress gx g now report =
     (case measured_before g of
        None \<Rightarrow> Better
      | Some before \<Rightarrow>
          if is_task g then task_progress before now (pass_plan g report) (go_plan g)
          else compare gx before now (go_targets g))"

definition stalled_after :: "goal_externals \<Rightarrow> goal \<Rightarrow> measurement \<Rightarrow> pass_report \<Rightarrow> u32" where
  "stalled_after gx g now report =
     (if goal_progress gx g now report = Better then 0 else go_stalled g + 1)"

definition decide :: "goal_externals \<Rightarrow> goal \<Rightarrow> measurement \<Rightarrow> pass_report \<Rightarrow> goal_decision" where
  "decide gx g now report =
     (let unmet = goal_unmet gx g (pass_plan g report) now;
          summary = (case measured_before g of
              Some before \<Rightarrow> headline gx now @ '' (before: '' @ headline gx before @ '')''
            | None \<Rightarrow> headline gx now);
          progress = goal_progress gx g now report;
          stalled = stalled_after gx g now report;
          decision = (\<lambda>verdict status undo reason.
            \<lparr>gd_verdict = verdict, gd_status = status, gd_unmet = unmet, gd_undo = undo,
             gd_stalled = stalled, gd_reason = reason, gd_summary = summary\<rparr>);
          undo = (progress = Worse \<and> go_keep_best g);
          passes = go_passes g + 1
      in if unmet = [] \<and> (done_when g = None \<or> pr_done_when_met report = Some True)
         then decision Verdict_Done Goal_Done False
           (if is_task g then ''The plan is finished, the checks pass and the result was judged done.''
            else ''Every target is met.'')
         else case blocked gx report of
           Some what \<Rightarrow>
             decision Verdict_Blocked Goal_Blocked False
               (if what = [] then ''The agent reported a blocker.'' else ''Blocked: '' @ what)
         | None \<Rightarrow>
             if max (gb_no_progress_passes (go_budget g)) 1 \<le> stalled
             then decision Verdict_NoProgress Goal_Paused undo
               (''No measurable progress in '' @ show_word stalled @ '' pass(es) in a row; paused.'')
             else if is_some_and (\<lambda>limit. max limit 1 \<le> passes) (gb_max_passes (go_budget g))
             then decision (if undo then Verdict_Undone else Verdict_Budget) Goal_Paused undo
               (show_word passes @ '' pass(es) used, the whole budget; paused.'')
             else if undo
             then decision Verdict_Undone Goal_Running True
               ''The pass made the measurement worse, so it was undone.''
             else decision Verdict_Continue Goal_Running False
               (case (done_when g, unmet = [], pr_judge_reason report) of
                  (Some _, True, Some why) \<Rightarrow> ''Measured targets met; not done yet: '' @ why
                | _ \<Rightarrow> show_nat (max (length unmet) 1) @ '' target(s) left.''))"

definition record_pass ::
    "goal \<Rightarrow> goal_decision \<Rightarrow> measurement \<Rightarrow> pass_report \<Rightarrow> string \<Rightarrow> goal" where
  "record_pass g decision now report at =
     (let g = g\<lparr>go_passes := go_passes g + 1, go_stalled := gd_stalled decision\<rparr>;
          g = (if gd_undo decision then g
               else let g = g\<lparr>go_last := Some now\<rparr>
                    in if pr_plan report = [] then g else g\<lparr>go_plan := pr_plan report\<rparr>);
          g = g\<lparr>go_status := gd_status decision,
                go_reason := (if gd_status decision \<noteq> Goal_Running then Some (gd_reason decision) else None),
                go_updated_at := at\<rparr>
      in push_journal \<lparr>je_pass = go_passes g, je_at = at, je_verdict = gd_verdict decision,
           je_summary = gd_summary decision, je_agent_status = pr_agent_status report,
           je_next = pr_next report\<rparr> g)"

section \<open>Prompts (prompt.rs)\<close>

definition MIN_FILES_PER_PASS :: nat where
  "MIN_FILES_PER_PASS = 3"

definition UNLIMITED_PACE :: nat where
  "UNLIMITED_PACE = 5"

definition files_this_pass :: "goal \<Rightarrow> nat \<Rightarrow> nat" where
  "files_this_pass g left =
     (let passes = (case passes_left (go_budget g) (go_passes g) of None \<Rightarrow> UNLIMITED_PACE | Some n \<Rightarrow> unat n)
      in min (max ((left + passes - 1) div passes) MIN_FILES_PER_PASS) left)"

fun goal_status_name :: "goal_status \<Rightarrow> string" where
  "goal_status_name Goal_Running = ''running''"
| "goal_status_name Goal_Paused = ''paused''"
| "goal_status_name Goal_Done = ''done''"
| "goal_status_name Goal_Blocked = ''blocked''"
| "goal_status_name Goal_Cleared = ''cleared''"

definition status_text :: "goal_externals \<Rightarrow> goal \<Rightarrow> string" where
  "status_text gx g =
     (let passes = (case gb_max_passes (go_budget g) of
            Some limit \<Rightarrow> show_word (go_passes g) @ '' of '' @ show_word limit @ '' passes''
          | None \<Rightarrow> show_word (go_passes g) @ '' pass(es)'')
      in ''Goal ('' @ goal_status_name (go_status g) @ '', '' @ passes @ ''): '' @ trim (go_instruction g)
         @ (case go_reason g of Some reason \<Rightarrow> newline @ reason | None \<Rightarrow> [])
         @ (case measured_before g of Some m \<Rightarrow> newline @ ''Now: '' @ headline gx m | None \<Rightarrow> [])
         @ (case (go_baseline g, go_last g) of
              (Some baseline, Some _) \<Rightarrow> newline @ ''Started at: '' @ headline gx baseline
            | _ \<Rightarrow> []))"

section \<open>The loop\<close>

text \<open>
  The host runs a pass, measures, decides and records as long as the goal is active. The loop over
  the passes' outcomes is the host's; \<open>pass_step\<close> is what it does with this crate for one pass.
\<close>

type_synonym pass_input = "measurement \<times> pass_report \<times> string"

fun loop_while :: "('s \<Rightarrow> bool) \<Rightarrow> ('p \<Rightarrow> 's \<Rightarrow> 's) \<Rightarrow> 'p list \<Rightarrow> 's \<Rightarrow> 's" where
  "loop_while active step [] s = s"
| "loop_while active step (p # ps) s = (if active s then loop_while active step ps (step p s) else s)"

definition goal_running :: "goal \<Rightarrow> bool" where
  "goal_running g \<longleftrightarrow> goal_is_active (go_status g)"

fun pass_step :: "goal_externals \<Rightarrow> pass_input \<Rightarrow> goal \<Rightarrow> goal" where
  "pass_step gx (now, report, at) g = record_pass g (decide gx g now report) now report at"

definition run_passes :: "goal_externals \<Rightarrow> pass_input list \<Rightarrow> goal \<Rightarrow> goal" where
  "run_passes gx = loop_while goal_running (pass_step gx)"

section \<open>The targets as a specification\<close>

definition scope_met :: "measurement \<Rightarrow> goal_targets \<Rightarrow> bool" where
  "scope_met m t \<longleftrightarrow> on_files t \<longrightarrow> (\<exists>f\<in>set (me_files m). fm_score f \<noteq> None)"

definition mean_met :: "measurement \<Rightarrow> goal_targets \<Rightarrow> bool" where
  "mean_met m t \<longleftrightarrow>
     (\<forall>bar mean. ta_min_mean_health t = Some bar \<and> mean_score m = Some mean \<longrightarrow> \<not> f64_lt mean bar)"

definition files_met :: "measurement \<Rightarrow> goal_targets \<Rightarrow> bool" where
  "files_met m t \<longleftrightarrow>
     (\<forall>bar. ta_min_file_health t = Some bar \<longrightarrow>
        (\<forall>f\<in>set (me_files m). \<forall>s. fm_score f = Some s \<longrightarrow> \<not> f64_lt s bar))"

definition severity_met :: "measurement \<Rightarrow> goal_targets \<Rightarrow> bool" where
  "severity_met m t \<longleftrightarrow>
     (\<forall>limit. ta_max_severity t = Some limit \<longrightarrow>
        (\<forall>f\<in>set (me_files m). \<forall>x\<in>set (fm_findings f). fs_severity x \<le> limit))"

definition checks_met :: "measurement \<Rightarrow> goal_targets \<Rightarrow> bool" where
  "checks_met m t \<longleftrightarrow>
     (\<forall>name\<in>set (ta_checks t). \<exists>c. List.find (\<lambda>c. co_name c = name) (me_checks m) = Some c \<and> co_passed c)"

definition guidelines_met :: "measurement \<Rightarrow> goal_targets \<Rightarrow> bool" where
  "guidelines_met m t \<longleftrightarrow> ta_guidelines t \<longrightarrow> me_guideline_errors m = []"

definition targets_met :: "measurement \<Rightarrow> goal_targets \<Rightarrow> bool" where
  "targets_met m t \<longleftrightarrow> scope_met m t \<and> mean_met m t \<and> files_met m t \<and> severity_met m t
     \<and> checks_met m t \<and> guidelines_met m t"

definition task_met :: "goal \<Rightarrow> plan_step list \<Rightarrow> measurement \<Rightarrow> bool" where
  "task_met g plan now \<longleftrightarrow> plan \<noteq> [] \<and> (\<forall>s\<in>set plan. is_closed (pst_status s))
     \<and> (\<forall>c\<in>set (me_checks now). co_ran c \<and> co_name c \<notin> set (ta_checks (go_targets g)) \<longrightarrow> co_passed c)"

lemma set_scored: "set (scored m) = {(f, s). f \<in> set (me_files m) \<and> fm_score f = Some s}"
  by (force simp: scored_def List.map_filter_def)

lemma scored_empty: "scored m = [] \<longleftrightarrow> (\<forall>f\<in>set (me_files m). fm_score f = None)"
  using set_scored [of m] by (cases "scored m") force+

lemma unmet_scope_iff: "unmet_scope m t = [] \<longleftrightarrow> scope_met m t"
  by (auto simp: unmet_scope_def scope_met_def scored_empty)

lemma unmet_mean_iff: "unmet_mean gx m t = [] \<longleftrightarrow> mean_met m t"
  by (simp add: unmet_mean_def mean_met_def split: option.split)

lemma unmet_files_iff: "unmet_files gx m t = [] \<longleftrightarrow> files_met m t"
  by (auto simp: unmet_files_def files_met_def Let_def filter_empty_conv set_scored
      split: option.split)

lemma unmet_severity_iff: "unmet_severity m t = [] \<longleftrightarrow> severity_met m t"
  by (force simp: unmet_severity_def severity_met_def Let_def filter_empty_conv not_less
      split: option.split)

lemma unmet_check_iff:
  "unmet_check m name = []
   \<longleftrightarrow> (\<exists>c. List.find (\<lambda>c. co_name c = name) (me_checks m) = Some c \<and> co_passed c)"
  by (simp add: unmet_check_def split: option.split)

lemma unmet_guidelines_iff: "unmet_guidelines m t = [] \<longleftrightarrow> guidelines_met m t"
  by (simp add: unmet_guidelines_def guidelines_met_def)

lemmas unmet_iffs = unmet_scope_iff unmet_mean_iff unmet_files_iff unmet_severity_iff
  unmet_check_iff unmet_guidelines_iff

lemma measurement_unmet_iff: "measurement_unmet gx m t = [] \<longleftrightarrow> targets_met m t"
  by (simp add: measurement_unmet_def unmet_iffs targets_met_def checks_met_def)

lemma task_unmet_iff: "task_unmet g plan now = [] \<longleftrightarrow> task_met g plan now"
  by (auto simp: task_unmet_def unmet_plan_def unmet_own_checks_def task_met_def failing_checks_def
      Let_def filter_empty_conv)

lemma goal_unmet_iff:
  "goal_unmet gx g plan now = []
   \<longleftrightarrow> targets_met now (go_targets g) \<and> (is_task g \<longrightarrow> task_met g plan now)"
  by (simp add: goal_unmet_def measurement_unmet_iff task_unmet_iff)

section \<open>What a decision does\<close>

definition goal_reached :: "goal_externals \<Rightarrow> goal \<Rightarrow> measurement \<Rightarrow> pass_report \<Rightarrow> bool" where
  "goal_reached gx g now report \<longleftrightarrow> goal_unmet gx g (pass_plan g report) now = []
     \<and> (done_when g = None \<or> pr_done_when_met report = Some True)"

definition pass_limit_reached :: "goal \<Rightarrow> bool" where
  "pass_limit_reached g \<longleftrightarrow>
     is_some_and (\<lambda>limit. max limit 1 \<le> go_passes g + 1) (gb_max_passes (go_budget g))"

definition harmful :: "goal_externals \<Rightarrow> goal \<Rightarrow> measurement \<Rightarrow> pass_report \<Rightarrow> bool" where
  "harmful gx g now report \<longleftrightarrow> goal_progress gx g now report = Worse \<and> go_keep_best g"

lemma decide_stalled: "gd_stalled (decide gx g now report) = stalled_after gx g now report"
  by (simp add: decide_def Let_def split: option.split)

lemma decide_done:
  "goal_reached gx g now report \<Longrightarrow>
     gd_verdict (decide gx g now report) = Verdict_Done
   \<and> gd_status (decide gx g now report) = Goal_Done \<and> \<not> gd_undo (decide gx g now report)"
  by (simp add: decide_def Let_def goal_reached_def)

lemma decide_blocked:
  "\<not> goal_reached gx g now report \<Longrightarrow> blocked gx report = Some what \<Longrightarrow>
     gd_verdict (decide gx g now report) = Verdict_Blocked
   \<and> gd_status (decide gx g now report) = Goal_Blocked \<and> \<not> gd_undo (decide gx g now report)"
  by (auto simp: decide_def Let_def goal_reached_def)

lemma decide_stuck:
  "\<not> goal_reached gx g now report \<Longrightarrow> blocked gx report = None \<Longrightarrow>
   max (gb_no_progress_passes (go_budget g)) 1 \<le> stalled_after gx g now report \<Longrightarrow>
     gd_verdict (decide gx g now report) = Verdict_NoProgress
   \<and> gd_status (decide gx g now report) = Goal_Paused
   \<and> gd_undo (decide gx g now report) = harmful gx g now report"
  by (auto simp: decide_def Let_def goal_reached_def harmful_def)

lemma decide_spent:
  "\<not> goal_reached gx g now report \<Longrightarrow> blocked gx report = None \<Longrightarrow>
   \<not> max (gb_no_progress_passes (go_budget g)) 1 \<le> stalled_after gx g now report \<Longrightarrow>
   pass_limit_reached g \<Longrightarrow>
     gd_verdict (decide gx g now report) = (if harmful gx g now report then Verdict_Undone else Verdict_Budget)
   \<and> gd_status (decide gx g now report) = Goal_Paused
   \<and> gd_undo (decide gx g now report) = harmful gx g now report"
  by (auto simp: decide_def Let_def goal_reached_def harmful_def pass_limit_reached_def)

lemma decide_next:
  "\<not> goal_reached gx g now report \<Longrightarrow> blocked gx report = None \<Longrightarrow>
   \<not> max (gb_no_progress_passes (go_budget g)) 1 \<le> stalled_after gx g now report \<Longrightarrow>
   \<not> pass_limit_reached g \<Longrightarrow>
     gd_verdict (decide gx g now report) = (if harmful gx g now report then Verdict_Undone else Verdict_Continue)
   \<and> gd_status (decide gx g now report) = Goal_Running
   \<and> gd_undo (decide gx g now report) = harmful gx g now report"
  by (auto simp: decide_def Let_def goal_reached_def harmful_def pass_limit_reached_def)

lemma decide_ways:
  obtains "goal_reached gx g now report"
  | what where "\<not> goal_reached gx g now report" "blocked gx report = Some what"
  | "\<not> goal_reached gx g now report" "blocked gx report = None"
    "max (gb_no_progress_passes (go_budget g)) 1 \<le> stalled_after gx g now report"
  | "\<not> goal_reached gx g now report" "blocked gx report = None"
    "\<not> max (gb_no_progress_passes (go_budget g)) 1 \<le> stalled_after gx g now report"
    "pass_limit_reached g"
  | "\<not> goal_reached gx g now report" "blocked gx report = None"
    "\<not> max (gb_no_progress_passes (go_budget g)) 1 \<le> stalled_after gx g now report"
    "\<not> pass_limit_reached g"
  by (cases "blocked gx report") blast+

lemmas decide_each = decide_done decide_blocked decide_stuck decide_spent decide_next

lemma decide_done_iff:
  "gd_verdict (decide gx g now report) = Verdict_Done \<longleftrightarrow> goal_reached gx g now report"
  by (rule decide_ways [of gx g now report]) (simp_all add: decide_each)

lemma decide_status_done_iff:
  "gd_status (decide gx g now report) = Goal_Done \<longleftrightarrow> goal_reached gx g now report"
  by (rule decide_ways [of gx g now report]) (simp_all add: decide_each)

lemma decide_running_iff:
  "gd_status (decide gx g now report) = Goal_Running \<longleftrightarrow>
     \<not> goal_reached gx g now report \<and> blocked gx report = None
   \<and> \<not> max (gb_no_progress_passes (go_budget g)) 1 \<le> stalled_after gx g now report
   \<and> \<not> pass_limit_reached g"
  by (rule decide_ways [of gx g now report]) (simp_all add: decide_each)

lemma decide_undo_iff:
  "gd_undo (decide gx g now report) \<longleftrightarrow> harmful gx g now report
   \<and> gd_verdict (decide gx g now report) \<notin> {Verdict_Done, Verdict_Blocked}"
  by (rule decide_ways [of gx g now report]) (simp_all add: decide_each)

section \<open>What a recorded pass leaves\<close>

lemma push_journal_fields [simp]:
  "go_status (push_journal e g) = go_status g" "go_passes (push_journal e g) = go_passes g"
  "go_stalled (push_journal e g) = go_stalled g" "go_last (push_journal e g) = go_last g"
  "go_plan (push_journal e g) = go_plan g" "go_budget (push_journal e g) = go_budget g"
  "go_targets (push_journal e g) = go_targets g" "go_baseline (push_journal e g) = go_baseline g"
  "go_instruction (push_journal e g) = go_instruction g"
  "go_keep_best (push_journal e g) = go_keep_best g" "go_reason (push_journal e g) = go_reason g"
  by (simp_all add: push_journal_def Let_def)

lemma push_journal_latest:
  "go_journal (push_journal e g) = drop (length (go_journal g) + 1 - JOURNAL_LIMIT) (go_journal g @ [e])"
  by (simp add: push_journal_def Let_def)

lemma record_fields:
  "go_status (record_pass g d now report at) = gd_status d"
  "go_passes (record_pass g d now report at) = go_passes g + 1"
  "go_stalled (record_pass g d now report at) = gd_stalled d"
  "go_budget (record_pass g d now report at) = go_budget g"
  "go_targets (record_pass g d now report at) = go_targets g"
  "go_keep_best (record_pass g d now report at) = go_keep_best g"
  "go_last (record_pass g d now report at) = (if gd_undo d then go_last g else Some now)"
  "go_plan (record_pass g d now report at) = (if gd_undo d then go_plan g else pass_plan g report)"
  by (simp_all add: record_pass_def Let_def pass_plan_def)

lemma record_journal:
  "\<exists>e. je_pass e = go_passes g + 1 \<and> je_verdict e = gd_verdict d \<and>
     go_journal (record_pass g d now report at)
     = drop (length (go_journal g) + 1 - JOURNAL_LIMIT) (go_journal g @ [e])"
  by (simp add: record_pass_def Let_def push_journal_latest)
    (rule exI, intro conjI, rule_tac [3] refl, simp_all)

end
