(* ===== verification/Goal_Properties.thy ===== *)
theory Goal_Properties
  imports Goals
begin

text \<open>
  What the goal loop promises: what counts as done, that the loop ends, and which passes are
  undone. The two ways a loop runs out are two instances of one counted loop.
\<close>

section \<open>A loop that counts\<close>

locale counted_loop =
  fixes step :: "'p \<Rightarrow> 's \<Rightarrow> 's"
    and active :: "'s \<Rightarrow> bool"
    and state_ok :: "'s \<Rightarrow> bool"
    and input_ok :: "'p \<Rightarrow> bool"
    and count :: "'s \<Rightarrow> nat"
    and limit :: nat
  assumes below_limit: "state_ok s \<Longrightarrow> count s < limit"
    and counts: "state_ok s \<Longrightarrow> input_ok p \<Longrightarrow> active (step p s)
      \<Longrightarrow> state_ok (step p s) \<and> count (step p s) = Suc (count s)"
begin

lemma loop_stopped: "\<not> active s \<Longrightarrow> loop_while active step ps s = s"
  by (cases ps) simp_all

lemma loop_ends:
  "state_ok s \<Longrightarrow> list_all input_ok ps \<Longrightarrow> limit - count s \<le> length ps
   \<Longrightarrow> \<not> active (loop_while active step ps s)"
proof (induction ps arbitrary: s)
  case Nil
  then show ?case
    using below_limit [of s] by simp
next
  case (Cons p ps)
  show ?case
  proof (cases "active (step p s)")
    case True
    then show ?thesis
      using Cons counts [of s p] by simp
  next
    case False
    then show ?thesis
      by (simp add: loop_stopped)
  qed
qed

end

section \<open>The two counters of a goal\<close>

lemma unat_Suc_below: "(x :: u32) < y \<Longrightarrow> unat (x + 1) = Suc (unat x)"
  by (metis add.commute add_eq_0_iff leD unatSuc word_order.extremum)

lemma word_max_one: "unat (max (x :: u32) 1) = max (unat x) 1"
  by (simp add: max_def word_le_nat_alt)

definition limited_by :: "u32 \<Rightarrow> goal \<Rightarrow> bool" where
  "limited_by limit g \<longleftrightarrow> gb_max_passes (go_budget g) = Some limit \<and> go_passes g < max limit 1"

definition unchanged_by :: "string \<Rightarrow> u32 \<Rightarrow> goal \<Rightarrow> bool" where
  "unchanged_by mark limit g \<longleftrightarrow>
     \<not> is_task g \<and> (\<exists>before. measured_before g = Some before \<and> me_fingerprint before = mark)
   \<and> gb_no_progress_passes (go_budget g) = limit \<and> go_stalled g < max limit 1"

definition marked :: "string \<Rightarrow> pass_input \<Rightarrow> bool" where
  "marked mark p \<longleftrightarrow> me_fingerprint (fst p) = mark"

lemma pass_step_running:
  "goal_running (pass_step gx (now, report, at) g) \<longleftrightarrow> gd_status (decide gx g now report) = Goal_Running"
  by (simp add: goal_running_def goal_is_active_def record_fields)

lemma unchanged_same:
  assumes "unchanged_by mark limit g" "me_fingerprint now = mark" "mark \<noteq> []"
  shows "goal_progress gx g now report = Same"
  using assms by (auto simp: unchanged_by_def goal_progress_def compare_def)

interpretation limited: counted_loop "pass_step gx" goal_running "limited_by limit" "\<lambda>_. True"
  "\<lambda>g. unat (go_passes g)" "max (unat limit) 1" for gx limit
proof unfold_locales
  fix g assume "limited_by limit g"
  then show "unat (go_passes g) < max (unat limit) 1"
    using word_max_one [of limit] by (simp add: limited_by_def word_less_nat_alt)
next
  fix g p
  assume ok: "limited_by limit g" and run: "goal_running (pass_step gx p g)"
  obtain now report at where p: "p = (now, report, at)"
    by (cases p)
  have "\<not> max limit 1 \<le> go_passes g + 1"
    using run ok by (simp add: p pass_step_running decide_running_iff pass_limit_reached_def
        limited_by_def del: pass_step.simps max.bounded_iff)
  then show "limited_by limit (pass_step gx p g)
      \<and> unat (go_passes (pass_step gx p g)) = Suc (unat (go_passes g))"
    using ok unat_Suc_below [of "go_passes g" "max limit 1"]
    by (simp add: p limited_by_def record_fields not_le del: max.bounded_iff)
qed

text \<open>The fingerprint of an unchanged scope is part of the instance: the mark is one character and more.\<close>

interpretation unchanged: counted_loop "pass_step gx" goal_running "unchanged_by (c # mark) limit"
  "marked (c # mark)" "\<lambda>g. unat (go_stalled g)" "max (unat limit) 1" for gx c mark limit
proof unfold_locales
  fix g assume "unchanged_by (c # mark) limit g"
  then show "unat (go_stalled g) < max (unat limit) 1"
    using word_max_one [of limit] by (simp add: unchanged_by_def word_less_nat_alt)
next
  fix g p
  assume ok: "unchanged_by (c # mark) limit g" and mark: "marked (c # mark) p"
    and run: "goal_running (pass_step gx p g)"
  obtain now report at where p: "p = (now, report, at)"
    by (cases p)
  have same: "goal_progress gx g now report = Same"
    using unchanged_same [OF ok, of now] mark by (simp add: p marked_def)
  have stalled: "stalled_after gx g now report = go_stalled g + 1"
    by (simp add: stalled_after_def same)
  have below: "\<not> max limit 1 \<le> go_stalled g + 1"
    using run ok by (simp add: p pass_step_running decide_running_iff stalled unchanged_by_def
        del: pass_step.simps)
  have "\<not> gd_undo (decide gx g now report)"
    by (simp add: decide_undo_iff harmful_def same)
  then show "unchanged_by (c # mark) limit (pass_step gx p g)
      \<and> unat (go_stalled (pass_step gx p g)) = Suc (unat (go_stalled g))"
    using ok mark below unat_Suc_below [of "go_stalled g" "max limit 1"]
    by (simp add: p unchanged_by_def record_fields decide_stalled stalled not_le is_task_def
        measured_before_def or_opt_def marked_def del: max.bounded_iff)
qed

section \<open>Properties\<close>

text \<open>
  The list of unmet targets is empty exactly when the targets hold: some file in scope is
  scored when there is a health target, the mean and every scored file reach their bars, no finding
  is more severe than allowed, the first outcome of every required check is a pass, and there are
  no guideline errors.
\<close>
theorem unmet_lists_missed_targets:
  "measurement_unmet gx m t = [] \<longleftrightarrow>
     (on_files t \<longrightarrow> (\<exists>f\<in>set (me_files m). fm_score f \<noteq> None))
   \<and> (\<forall>bar mean. ta_min_mean_health t = Some bar \<and> mean_score m = Some mean \<longrightarrow> \<not> f64_lt mean bar)
   \<and> (\<forall>bar. ta_min_file_health t = Some bar \<longrightarrow>
        (\<forall>f\<in>set (me_files m). \<forall>s. fm_score f = Some s \<longrightarrow> \<not> f64_lt s bar))
   \<and> (\<forall>limit. ta_max_severity t = Some limit \<longrightarrow>
        (\<forall>f\<in>set (me_files m). \<forall>x\<in>set (fm_findings f). fs_severity x \<le> limit))
   \<and> (\<forall>name\<in>set (ta_checks t).
        \<exists>c. List.find (\<lambda>c. co_name c = name) (me_checks m) = Some c \<and> co_passed c)
   \<and> (ta_guidelines t \<longrightarrow> me_guideline_errors m = [])"
  by (simp add: measurement_unmet_iff targets_met_def scope_met_def mean_met_def files_met_def
      severity_met_def checks_met_def guidelines_met_def)

definition plain_goal_externals :: goal_externals where
  "plain_goal_externals = \<lparr>gx_fmt_f64 = (\<lambda>_. ''0''), gx_is_alphanumeric = (\<lambda>_. True)\<rparr>"

definition clean_measurement :: "string \<Rightarrow> measurement" where
  "clean_measurement mark =
     \<lparr>me_files = [], me_guideline_errors = [], me_guideline_warnings = 0,
      me_checks = [\<lparr>co_name = ''test'', co_passed = True, co_ran = True, co_summary = []\<rparr>],
      me_fingerprint = mark\<rparr>"

definition failing_measurement :: measurement where
  "failing_measurement = (clean_measurement ''f'')\<lparr>me_checks :=
     [\<lparr>co_name = ''test'', co_passed = False, co_ran = True, co_summary = ''1 failed''\<rparr>]\<rparr>"

definition silent_report :: pass_report where
  "silent_report = \<lparr>pr_agent_status = None, pr_done_when_met = None, pr_judge_reason = None,
     pr_next = None, pr_plan = []\<rparr>"

definition blocked_report :: pass_report where
  "blocked_report = silent_report\<lparr>pr_agent_status := Some ''blocked''\<rparr>"

definition task_goal :: goal where
  "task_goal = (goal_new ''g'' ''do it'' ''now'')
     \<lparr>go_last := Some (clean_measurement ''c''),
      go_plan := [\<lparr>pst_content = ''step'', pst_status = Plan_Completed\<rparr>]\<rparr>"

theorem unmet_lists_missed_targets_witness:
  "measurement_unmet plain_goal_externals (clean_measurement []) (default_targets\<lparr>ta_checks := [''test'']\<rparr>) = []"
  using unmet_lists_missed_targets [of plain_goal_externals "clean_measurement []"
      "default_targets\<lparr>ta_checks := [''test'']\<rparr>"]
  by (simp add: clean_measurement_def default_targets_def on_files_def)

text \<open>
  C35: A goal is done exactly when its targets hold, a task goal's plan is kept and closed and every
  check it ran passes, and the result in words, when there is one, was judged reached. What the
  agent says of its own status has no part in it.
\<close>
theorem goal_done_exact:
  "(gd_status (decide gx g now report) = Goal_Done \<longleftrightarrow>
      targets_met now (go_targets g)
    \<and> (is_task g \<longrightarrow> task_met g (pass_plan g report) now)
    \<and> (done_when g = None \<or> pr_done_when_met report = Some True))
   \<and> (gd_verdict (decide gx g now report) = Verdict_Done
        \<longleftrightarrow> gd_status (decide gx g now report) = Goal_Done)
   \<and> (gd_status (decide gx g now (report\<lparr>pr_agent_status := said\<rparr>)) = Goal_Done
        \<longleftrightarrow> gd_status (decide gx g now report) = Goal_Done)"
  by (simp add: decide_done_iff decide_status_done_iff goal_reached_def goal_unmet_iff pass_plan_def)

theorem goal_done_exact_witness:
  "gd_status (decide plain_goal_externals task_goal (clean_measurement ''d'')
     (silent_report\<lparr>pr_done_when_met := Some True\<rparr>)) = Goal_Done"
proof -
  have "targets_met (clean_measurement ''d'') (go_targets task_goal)"
    by (simp add: targets_met_def scope_met_def mean_met_def files_met_def severity_met_def
        checks_met_def guidelines_met_def clean_measurement_def task_goal_def goal_new_def
        default_targets_def on_files_def)
  moreover have "task_met task_goal (pass_plan task_goal (silent_report\<lparr>pr_done_when_met := Some True\<rparr>))
      (clean_measurement ''d'')"
    by (simp add: task_met_def pass_plan_def silent_report_def clean_measurement_def task_goal_def
        goal_new_def is_closed_def)
  ultimately show ?thesis
    by (simp add: goal_done_exact [of plain_goal_externals task_goal "clean_measurement ''d''"
          "silent_report\<lparr>pr_done_when_met := Some True\<rparr>" None, THEN conjunct1])
qed

text \<open>
  C36: The loop ends. A goal with a pass limit stops within that many passes (one at least) of its
  start or resumption, whatever the passes measure and report; a quality goal stops within its
  no-progress limit when the passes leave the scope as it was, with or without a pass limit.
\<close>
theorem goal_loop_ends:
  "(gb_max_passes (go_budget g) = Some limit \<and> go_passes g = 0 \<and> max (unat limit) 1 \<le> length ps
      \<longrightarrow> go_status (run_passes gx ps g) \<noteq> Goal_Running)
   \<and> (\<not> is_task g \<and> measured_before g = Some before \<and> me_fingerprint before = c # mark
      \<and> go_stalled g = 0 \<and> max (unat (gb_no_progress_passes (go_budget g))) 1 \<le> length ps
      \<and> list_all (\<lambda>(now, _, _). me_fingerprint now = c # mark) ps
      \<longrightarrow> go_status (run_passes gx ps g) \<noteq> Goal_Running)"
proof (intro conjI impI; elim conjE)
  assume "gb_max_passes (go_budget g) = Some limit" "go_passes g = 0" "max (unat limit) 1 \<le> length ps"
  then show "go_status (run_passes gx ps g) \<noteq> Goal_Running"
    using limited.loop_ends [of limit g ps gx]
    by (simp add: limited_by_def run_passes_def goal_running_def goal_is_active_def list_all_iff
        less_max_iff_disj)
next
  let ?stop = "gb_no_progress_passes (go_budget g)"
  assume "\<not> is_task g" "measured_before g = Some before" "me_fingerprint before = c # mark"
    and fresh: "go_stalled g = 0" and len: "max (unat ?stop) 1 \<le> length ps"
    and same: "list_all (\<lambda>(now, _, _). me_fingerprint now = c # mark) ps"
  then have "unchanged_by (c # mark) ?stop g"
    by (simp add: unchanged_by_def less_max_iff_disj)
  moreover have "list_all (marked (c # mark)) ps"
    using same by (auto simp: list_all_iff marked_def)
  ultimately show "go_status (run_passes gx ps g) \<noteq> Goal_Running"
    using len fresh unchanged.loop_ends [of c mark ?stop g ps gx]
    by (simp add: run_passes_def goal_running_def goal_is_active_def)
qed

definition limited_goal :: goal where
  "limited_goal = task_goal\<lparr>go_budget := \<lparr>gb_max_passes = Some 1, gb_no_progress_passes = 2\<rparr>\<rparr>"

definition quality_goal :: goal where
  "quality_goal = task_goal\<lparr>go_targets := default_targets\<lparr>ta_max_severity := Some Sev_Low\<rparr>\<rparr>"

theorem goal_loop_ends_witness:
  "go_status (run_passes plain_goal_externals [(failing_measurement, silent_report, ''t'')] limited_goal)
     \<noteq> Goal_Running
   \<and> go_status (run_passes plain_goal_externals
       [(clean_measurement ''c'', silent_report, ''t''), (clean_measurement ''c'', silent_report, ''u'')] quality_goal) \<noteq> Goal_Running"
proof (rule conjI)
  show "go_status (run_passes plain_goal_externals [(failing_measurement, silent_report, ''t'')] limited_goal)
      \<noteq> Goal_Running"
    using goal_loop_ends [of limited_goal 1 "[(failing_measurement, silent_report, ''t'')]"
        plain_goal_externals]
    by (simp add: limited_goal_def task_goal_def goal_new_def)
  show "go_status (run_passes plain_goal_externals
      [(clean_measurement ''c'', silent_report, ''t''), (clean_measurement ''c'', silent_report, ''u'')] quality_goal) \<noteq> Goal_Running"
    using goal_loop_ends [of quality_goal 0 "[(clean_measurement ''c'', silent_report, ''t''), (clean_measurement ''c'', silent_report, ''u'')]"
        plain_goal_externals "clean_measurement ''c''" "CHR ''c''" "[]"]
    by (simp add: quality_goal_def task_goal_def goal_new_def is_task_def on_files_def default_targets_def
        default_budget_def measured_before_def clean_measurement_def)
qed


lemma failing_is_worse: "goal_progress plain_goal_externals task_goal failing_measurement report = Worse"
  by (simp add: goal_progress_def measured_before_def task_goal_def goal_new_def is_task_def on_files_def
      default_targets_def task_progress_def broke_def failing_measurement_def clean_measurement_def
      failing_checks_def)

lemma blocked_report_blocked: "blocked plain_goal_externals blocked_report = Some []"
  by code_simp


end
