(* ===== verification/Session_Store.thy ===== *)
theory Session_Store
  imports Agent_State
begin

text \<open>
  Durable sessions (\<open>crates/session-store\<close>): the records (\<open>store.rs\<close>), the schema version
  (\<open>version.rs\<close>), the JSONL store (\<open>jsonl/*.rs\<close>), numbering and committing events
  (\<open>commit/*.rs\<close>), the validation and the replay of what was stored (\<open>replay.rs\<close>,
  \<open>projection/*.rs\<close>) and compaction (\<open>retention.rs\<close>). The JSON text of a record and the
  outcome of a write are parameters; a session file is its bytes, and the store's folder has one
  file per session.
\<close>

section \<open>Records (events.rs, store.rs)\<close>

type_synonym event_id = uuid

datatype event_visibility = Visible_User | Visible_Developer | Visible_Internal

record 'd agent_event_envelope =
  env_event_id :: event_id
  env_session_id :: session_id
  env_agent_id :: agent_id
  env_parent_agent_id :: "agent_id option"
  env_run_id :: "run_id option"
  env_agent_sequence :: u64
  env_session_sequence :: "u64 option"
  env_timestamp :: timestamp
  env_visibility :: event_visibility
  env_event :: "'d agent_event"

datatype store_error =
    Store_NotFound session_id
  | Store_Serialization string
  | Store_Io string
  | Store_Backend string
  | Store_InvalidState string

record 'd durable_session_event =
  dse_envelope :: "'d agent_event_envelope"
  dse_session_sequence :: "u64 option"

definition durable_of_envelope :: "'d agent_event_envelope \<Rightarrow> 'd durable_session_event" where
  "durable_of_envelope envelope =
     \<lparr>dse_envelope = envelope, dse_session_sequence = env_session_sequence envelope\<rparr>"

record stored_pending_tool_call =
  spt_call :: tool_call
  spt_started_at :: timestamp

record 'd stored_agent_state =
  sa_agent_id :: agent_id
  sa_parent_id :: "agent_id option"
  sa_status :: agent_status
  sa_current_operation :: "agent_operation option"
  sa_system_prompt :: string
  sa_execution_params :: execution_params
  sa_messages :: "agent_message list"
  sa_active_run :: "run_id option"
  sa_pending_tools :: "(tool_call_id, stored_pending_tool_call) hash_map"
  sa_pending_permissions :: "(permission_id, tool_call_id) hash_map"
  sa_children :: "agent_id list"
  sa_last_error :: "agent_error option"
  sa_transition_sequence :: u64
  sa_depth :: u32
  sa_backend :: backend_binding
  sa_backend_config :: json
  sa_budget :: "'d agent_budget"
  sa_capabilities :: json
  sa_usage :: json
  sa_behavior :: "json option"

record durable_session_metadata =
  dsm_workspace_identity :: "string option"
  dsm_integration_references :: "string list"
  dsm_credential_profiles :: "string list"
  dsm_tool_policy_ids :: "string list"
  dsm_compacted :: bool
  dsm_compaction_generation :: u64

record 'd durable_session_snapshot =
  dss_session_id :: session_id
  dss_root_agent_id :: agent_id
  dss_agents :: "'d stored_agent_state list"
  dss_session_sequence :: u64
  dss_timestamp :: timestamp
  dss_schema_version :: u64
  dss_metadata :: durable_session_metadata

record 'd stored_session =
  ss_session_id :: session_id
  ss_snapshot :: "'d durable_session_snapshot option"
  ss_events :: "'d durable_session_event list"

datatype 'd raw_record =
    Raw_Event "'d durable_session_event"
  | Raw_Snapshot "'d durable_session_snapshot"

fun is_durable :: "'d agent_event \<Rightarrow> bool" where
  "is_durable (AssistantMessageCompleted _) = True"
| "is_durable (ToolCallStarted _) = True"
| "is_durable (ToolCallCompleted _ _) = True"
| "is_durable (ChildAgentSpawned _ _) = True"
| "is_durable (ChildAgentCompleted _ _) = True"
| "is_durable (PermissionRequested _) = True"
| "is_durable (UsageUpdated _) = True"
| "is_durable (Ev_Failed _) = True"
| "is_durable (Ev_Completed _) = True"
| "is_durable (StateChanged _ _) = True"
| "is_durable (RunStarted _) = True"
| "is_durable _ = False"

section \<open>Schema versions (version.rs)\<close>

definition SCHEMA_VERSION :: u64 where
  "SCHEMA_VERSION = 1"

definition MIN_SUPPORTED_SNAPSHOT_VERSION :: u64 where
  "MIN_SUPPORTED_SNAPSHOT_VERSION = 0"

datatype snapshot_version_error = FutureVersion u64 u64 | AncientVersion u64 u64

definition check_snapshot_version :: "u64 \<Rightarrow> snapshot_version_error + unit" where
  "check_snapshot_version version =
     (if SCHEMA_VERSION < version then Inl (FutureVersion version SCHEMA_VERSION)
      else if version < MIN_SUPPORTED_SNAPSHOT_VERSION
      then Inl (AncientVersion version MIN_SUPPORTED_SNAPSHOT_VERSION)
      else Inr ())"

definition migrate_snapshot ::
    "'d durable_session_snapshot \<Rightarrow> snapshot_version_error + 'd durable_session_snapshot" where
  "migrate_snapshot snapshot =
     (case check_snapshot_version (dss_schema_version snapshot) of
        Inl e \<Rightarrow> Inl e
      | Inr _ \<Rightarrow>
          Inr (if dss_schema_version snapshot = SCHEMA_VERSION then snapshot
               else snapshot\<lparr>dss_schema_version := SCHEMA_VERSION\<rparr>))"

section \<open>Session files (jsonl/record.rs, jsonl/writer.rs, jsonl/session_store.rs)\<close>

datatype 'd jsonl_record =
    Rec_Event "'d durable_session_event"
  | Rec_Snapshot "'d durable_session_snapshot"

record 'd session_records =
  rc_snapshot :: "'d durable_session_snapshot option"
  rc_events :: "'d durable_session_event list"

text \<open>
  The codec of \<open>serde_json\<close> and how errors, paths and events are printed. A write may fail after
  it has put some of its text in the file.
\<close>

record 'd session_externals =
  sx_print :: "'d jsonl_record \<Rightarrow> string"
  sx_parse :: "string \<Rightarrow> string + 'd jsonl_record"
  sx_payload_error :: "'d agent_event_envelope \<Rightarrow> string option"
  sx_fmt_event :: "'d agent_event \<Rightarrow> string"
  sx_fmt_uuid :: "uuid \<Rightarrow> string"
  sx_path_for :: "session_id \<Rightarrow> string"

type_synonym session_files = "session_id \<Rightarrow> string option"

text \<open>\<open>read_line\<close>: up to and with the next newline, or the rest.\<close>

fun read_line :: "string \<Rightarrow> string \<times> string" where
  "read_line [] = ([], [])"
| "read_line (c # cs) =
     (if c = CHR 0x0A then ([c], cs) else (let (line, rest) = read_line cs in (c # line, rest)))"

lemma read_line_rest: "s \<noteq> [] \<Longrightarrow> length (snd (read_line s)) < length s"
proof (induction s)
  case (Cons c cs)
  then show ?case
    by (cases "cs = []") (simp_all add: case_prod_unfold Let_def)
qed simp

function file_lines :: "string \<Rightarrow> string list" where
  "file_lines text =
     (if text = [] then [] else fst (read_line text) # file_lines (snd (read_line text)))"
  by pat_completeness auto

termination
  by (relation "measure length") (simp_all add: read_line_rest)

declare file_lines.simps [simp del]

text \<open>
  What \<open>read_line\<close> demands of the bytes of a line: that they are UTF-8. A character's first byte
  says how many bytes it has and narrows the second one, so that there is no overlong encoding, no
  surrogate and nothing above U+10FFFF.
\<close>

definition byte_in :: "char \<Rightarrow> nat \<Rightarrow> nat \<Rightarrow> bool" where
  "byte_in c low high \<longleftrightarrow> low \<le> of_char c \<and> of_char c \<le> high"

definition utf8_width :: "char \<Rightarrow> nat" where
  "utf8_width lead =
     (if byte_in lead 0 0x7F then 1
      else if byte_in lead 0xC2 0xDF then 2
      else if byte_in lead 0xE0 0xEF then 3
      else if byte_in lead 0xF0 0xF4 then 4
      else 0)"

definition utf8_second :: "char \<Rightarrow> char \<Rightarrow> bool" where
  "utf8_second lead second \<longleftrightarrow>
     (if byte_in lead 0xE0 0xE0 then byte_in second 0xA0 0xBF
      else if byte_in lead 0xED 0xED then byte_in second 0x80 0x9F
      else if byte_in lead 0xF0 0xF0 then byte_in second 0x90 0xBF
      else if byte_in lead 0xF4 0xF4 then byte_in second 0x80 0x8F
      else is_continuation second)"

fun valid_utf8_char :: "string \<Rightarrow> bool" where
  "valid_utf8_char [] \<longleftrightarrow> False"
| "valid_utf8_char (lead # rest) \<longleftrightarrow>
     Suc (length rest) = utf8_width lead \<and> (rest = [] \<or> utf8_second lead (hd rest))"

definition valid_utf8 :: "string \<Rightarrow> bool" where
  "valid_utf8 s \<longleftrightarrow> list_all valid_utf8_char (utf8_chars s)"

definition invalid_utf8_error :: store_error where
  "invalid_utf8_error = Store_Io ''stream did not contain valid UTF-8''"

definition trim_end :: "string \<Rightarrow> string" where
  "trim_end text = concat (rev (dropWhile is_whitespace (rev (utf8_chars text))))"

definition ends_with_newline :: "string \<Rightarrow> bool" where
  "ends_with_newline line \<longleftrightarrow> line \<noteq> [] \<and> last line = CHR 0x0A"

definition parse_line ::
    "'d session_externals \<Rightarrow> string \<Rightarrow> string \<Rightarrow> store_error + 'd jsonl_record option" where
  "parse_line sx path line =
     (case sx_parse sx (trim_end line) of
        Inr r \<Rightarrow> Inr (Some r)
      | Inl e \<Rightarrow>
          if \<not> ends_with_newline line then Inr None
          else Inl (Store_InvalidState (''corrupt jsonl record in '' @ path @ '': '' @ e)))"

definition push_record :: "'d jsonl_record option \<Rightarrow> 'd session_records \<Rightarrow> 'd session_records" where
  "push_record r records =
     (case r of
        Some (Rec_Event event) \<Rightarrow> records\<lparr>rc_events := rc_events records @ [event]\<rparr>
      | Some (Rec_Snapshot snapshot) \<Rightarrow> records\<lparr>rc_snapshot := Some snapshot\<rparr>
      | None \<Rightarrow> records)"

fun read_lines ::
    "'d session_externals \<Rightarrow> string \<Rightarrow> string list \<Rightarrow> 'd session_records \<times> nat
      \<Rightarrow> store_error + 'd session_records \<times> nat" where
  "read_lines sx path [] (records, seen) = Inr (records, seen)"
| "read_lines sx path (line # lines) (records, seen) =
     (if \<not> valid_utf8 line then Inl invalid_utf8_error
      else if trim_end line = [] then read_lines sx path lines (records, seen)
      else case parse_line sx path line of
             Inl e \<Rightarrow> Inl e
           | Inr r \<Rightarrow> read_lines sx path lines (push_record r records, seen + 1))"

definition U64_MAX :: u64 where
  "U64_MAX = - 1"

definition no_records :: "'d session_records" where
  "no_records = \<lparr>rc_snapshot = None, rc_events = []\<rparr>"

text \<open>A missing file is \<open>None\<close>.\<close>

definition read_records ::
    "'d session_externals \<Rightarrow> string \<Rightarrow> session_id \<Rightarrow> string option \<Rightarrow> store_error + 'd session_records" where
  "read_records sx path sid file =
     (case file of
        None \<Rightarrow> Inl (Store_NotFound sid)
      | Some text \<Rightarrow>
          (case read_lines sx path (file_lines text) (no_records, 0) of
             Inl e \<Rightarrow> Inl e
           | Inr (records, seen) \<Rightarrow>
               if seen = 0 then Inl (Store_NotFound sid)
               else Inr (records\<lparr>rc_events :=
                      sort_key (\<lambda>e. unwrap_or U64_MAX (dse_session_sequence e)) (rc_events records)\<rparr>)))"

definition write_record :: "'d session_externals \<Rightarrow> 'd jsonl_record \<Rightarrow> string option \<Rightarrow> string option" where
  "write_record sx r file = Some (unwrap_or [] file @ sx_print sx r @ [CHR 0x0A])"

definition store_read ::
    "'d session_externals \<Rightarrow> session_id \<Rightarrow> session_files \<Rightarrow> store_error + 'd session_records" where
  "store_read sx sid files = read_records sx (sx_path_for sx sid) sid (files sid)"

definition load_session ::
    "'d session_externals \<Rightarrow> session_id \<Rightarrow> session_files \<Rightarrow> store_error + 'd stored_session" where
  "load_session sx sid files =
     map_sum (\<lambda>e. e) (\<lambda>records.
       \<lparr>ss_session_id = sid, ss_snapshot = rc_snapshot records,
        ss_events =
          (case rc_snapshot records of
             None \<Rightarrow> rc_events records
           | Some snapshot \<Rightarrow>
               filter (\<lambda>event. is_none_or (\<lambda>sequence. dss_session_sequence snapshot < sequence)
                 (dse_session_sequence event)) (rc_events records))\<rparr>)
       (store_read sx sid files)"

definition events_since ::
    "'d session_externals \<Rightarrow> session_id \<Rightarrow> u64 \<Rightarrow> session_files
      \<Rightarrow> store_error + 'd durable_session_event list" where
  "events_since sx sid since_seq files =
     map_sum (\<lambda>e. e) (\<lambda>records.
       filter (\<lambda>event. is_some_and (\<lambda>sequence. since_seq < sequence) (dse_session_sequence event))
         (rc_events records))
       (store_read sx sid files)"

definition records_sequence :: "'d session_records \<Rightarrow> u64" where
  "records_sequence records =
     (let snapshot_max = (case rc_snapshot records of None \<Rightarrow> 0 | Some s \<Rightarrow> dss_session_sequence s);
          event_max = fold max (List.map_filter dse_session_sequence (rc_events records)) 0
      in max snapshot_max event_max)"

definition current_sequence ::
    "'d session_externals \<Rightarrow> session_id \<Rightarrow> session_files \<Rightarrow> store_error + u64" where
  "current_sequence sx sid files =
     (case store_read sx sid files of
        Inr records \<Rightarrow> Inr (records_sequence records)
      | Inl (Store_NotFound _) \<Rightarrow> Inr 0
      | Inl e \<Rightarrow> Inl e)"

definition raw_records ::
    "'d session_externals \<Rightarrow> session_id \<Rightarrow> session_files \<Rightarrow> store_error + 'd raw_record list" where
  "raw_records sx sid files =
     map_sum (\<lambda>e. e) (\<lambda>records.
       map Raw_Event (rc_events records)
       @ (case rc_snapshot records of None \<Rightarrow> [] | Some s \<Rightarrow> [Raw_Snapshot s]))
       (store_read sx sid files)"

text \<open>
  What a write through the session's writer comes to: it is acknowledged, or it fails with some of
  the line in the file, or the line is written and the sync fails.
\<close>

datatype write_outcome = Acknowledged | Torn nat store_error | Unsynced store_error

definition write_through ::
    "'d session_externals \<Rightarrow> 'd jsonl_record \<Rightarrow> write_outcome \<Rightarrow> string option
      \<Rightarrow> string option \<times> (store_error + unit)" where
  "write_through sx r outcome file =
     (case outcome of
        Acknowledged \<Rightarrow> (write_record sx r file, Inr ())
      | Torn n e \<Rightarrow> (Some (unwrap_or [] file @ take n (sx_print sx r)), Inl e)
      | Unsynced e \<Rightarrow> (write_record sx r file, Inl e))"

text \<open>An operation of the store writes to the file of the session its record belongs to.\<close>

definition store_append ::
    "'d session_externals \<Rightarrow> 'd durable_session_event \<Rightarrow> write_outcome \<Rightarrow> session_files
      \<Rightarrow> session_files \<times> (store_error + unit)" where
  "store_append sx event outcome files =
     (if \<not> is_durable (env_event (dse_envelope event))
      then (files, Inl (Store_InvalidState (''refusing to persist ephemeral event: ''
              @ sx_fmt_event sx (env_event (dse_envelope event)))))
      else
        (let sid = env_session_id (dse_envelope event);
             (file, written) = write_through sx (Rec_Event event) outcome (files sid)
         in (files(sid := file), written)))"

definition save_snapshot ::
    "'d session_externals \<Rightarrow> 'd durable_session_snapshot \<Rightarrow> write_outcome \<Rightarrow> session_files
      \<Rightarrow> session_files \<times> (store_error + unit)" where
  "save_snapshot sx snapshot outcome files =
     (let sid = dss_session_id snapshot;
          (file, written) = write_through sx (Rec_Snapshot snapshot) outcome (files sid)
      in (files(sid := file), written))"

section \<open>Committing events (commit/*.rs)\<close>

datatype sequencer_state = Seq_Uninitialized | Seq_Ready u64

text \<open>\<open>committed\<close> is what the store reports when it is asked, which it is only once.\<close>

definition next_sequence ::
    "store_error + u64 \<Rightarrow> sequencer_state \<Rightarrow> sequencer_state \<times> (store_error + u64)" where
  "next_sequence committed state =
     (case state of
        Seq_Ready next \<Rightarrow> (Seq_Ready (saturating_add next 1), Inr next)
      | Seq_Uninitialized \<Rightarrow>
          (case committed of
             Inl e \<Rightarrow> (state, Inl e)
           | Inr committed \<Rightarrow>
               (let next = saturating_add committed 1
                in (Seq_Ready (saturating_add next 1), Inr next))))"

datatype commit_error =
    Commit_Store store_error
  | Commit_DuplicateSequence u64
  | Commit_Closed session_id
  | Commit_InvalidEvent string

datatype durability_policy = Strict_Durability | BestEffort_Durability

datatype checkpoint_reason = TerminalRun | DurableEventCount | Explicit

record 'd committed_event =
  ce_envelope :: "'d agent_event_envelope"
  ce_degraded :: bool

record session_committer =
  sc_session_id :: session_id
  sc_sequencer :: sequencer_state
  sc_policy :: durability_policy
  sc_snapshot_every :: u64
  sc_appends_since_checkpoint :: u64
  sc_has_requester :: bool

definition DEFAULT_SNAPSHOT_EVERY :: u64 where
  "DEFAULT_SNAPSHOT_EVERY = 512"

definition committer_new :: "session_id \<Rightarrow> session_committer" where
  "committer_new sid =
     \<lparr>sc_session_id = sid, sc_sequencer = Seq_Uninitialized, sc_policy = Strict_Durability,
      sc_snapshot_every = DEFAULT_SNAPSHOT_EVERY, sc_appends_since_checkpoint = 0,
      sc_has_requester = False\<rparr>"

definition with_durability_policy :: "durability_policy \<Rightarrow> session_committer \<Rightarrow> session_committer" where
  "with_durability_policy policy c = c\<lparr>sc_policy := policy\<rparr>"

definition with_snapshot_every :: "u64 \<Rightarrow> session_committer \<Rightarrow> session_committer" where
  "with_snapshot_every snapshot_every c = c\<lparr>sc_snapshot_every := snapshot_every\<rparr>"

definition with_checkpoint_requester :: "session_committer \<Rightarrow> session_committer" where
  "with_checkpoint_requester c = c\<lparr>sc_has_requester := True\<rparr>"

text \<open>What the committer asks of its checkpoint requester, which it need not have.\<close>

type_synonym checkpoint_request = "session_id \<times> u64 \<times> checkpoint_reason"

definition request_checkpoint :: "u64 \<Rightarrow> checkpoint_reason \<Rightarrow> session_committer \<Rightarrow> checkpoint_request list" where
  "request_checkpoint sequence reason c =
     (if sc_has_requester c then [(sc_session_id c, sequence, reason)] else [])"

text \<open>The request for a checkpoint the append brings about, if any.\<close>

definition note_durable_append ::
    "u64 \<Rightarrow> session_committer \<Rightarrow> session_committer \<times> checkpoint_request list" where
  "note_durable_append sequence c =
     (let count = saturating_add (sc_appends_since_checkpoint c) 1;
          due = (0 < sc_snapshot_every c \<and> sc_snapshot_every c \<le> count)
      in if due
         then (c\<lparr>sc_appends_since_checkpoint := 0\<rparr>, request_checkpoint sequence DurableEventCount c)
         else (c\<lparr>sc_appends_since_checkpoint := count\<rparr>, []))"

record commit_run =
  cr_committer :: session_committer
  cr_files :: session_files
  cr_checkpoints :: "checkpoint_request list"

definition is_unique_violation :: "store_error \<Rightarrow> bool" where
  "is_unique_violation e \<longleftrightarrow>
     (case e of
        Store_InvalidState message \<Rightarrow> str_contains message ''UNIQUE'' \<or> str_contains message ''unique''
      | _ \<Rightarrow> False)"

definition commit ::
    "'d session_externals \<Rightarrow> 'd agent_event_envelope \<Rightarrow> write_outcome \<Rightarrow> commit_run
      \<Rightarrow> commit_run \<times> (commit_error + 'd committed_event)" where
  "commit sx envelope outcome r =
     (if env_event_id envelope = 0
      then (r, Inl (Commit_InvalidEvent ''event carries no stable event_id''))
      else
        (let c = cr_committer r;
             (state, numbered) = next_sequence (current_sequence sx (sc_session_id c) (cr_files r))
               (sc_sequencer c);
             c = c\<lparr>sc_sequencer := state\<rparr>
         in case numbered of
              Inl e \<Rightarrow> (r\<lparr>cr_committer := c\<rparr>, Inl (Commit_Store e))
            | Inr sequence \<Rightarrow>
                (let envelope = envelope\<lparr>env_session_sequence := Some sequence\<rparr>
                 in if \<not> is_durable (env_event envelope)
                    then (r\<lparr>cr_committer := c\<rparr>, Inr \<lparr>ce_envelope = envelope, ce_degraded = False\<rparr>)
                    else
                      (let (files, appended) = store_append sx
                             \<lparr>dse_envelope = envelope, dse_session_sequence = Some sequence\<rparr> outcome (cr_files r)
                       in case appended of
                            Inr _ \<Rightarrow>
                              (let (c, requests) = note_durable_append sequence c
                               in (\<lparr>cr_committer = c, cr_files = files,
                                    cr_checkpoints = cr_checkpoints r @ requests\<rparr>,
                                   Inr \<lparr>ce_envelope = envelope, ce_degraded = False\<rparr>))
                          | Inl e \<Rightarrow>
                              (let r = r\<lparr>cr_committer := c, cr_files := files\<rparr>
                               in if is_unique_violation e
                                  then (r, Inl (Commit_DuplicateSequence sequence))
                                  else case sc_policy c of
                                         Strict_Durability \<Rightarrow> (r, Inl (Commit_Store e))
                                       | BestEffort_Durability \<Rightarrow>
                                           (r, Inr \<lparr>ce_envelope = envelope, ce_degraded = True\<rparr>))))))"

definition checkpoint_for_terminal_run :: "u64 \<Rightarrow> commit_run \<Rightarrow> commit_run" where
  "checkpoint_for_terminal_run sequence r =
     r\<lparr>cr_checkpoints := cr_checkpoints r @ request_checkpoint sequence TerminalRun (cr_committer r)\<rparr>"

section \<open>Validation (replay.rs)\<close>

datatype replay_error =
    Replay_NotFound session_id
  | FutureSnapshotVersion u64 u64
  | AncientSnapshotVersion u64 u64
  | DuplicateEventId string u64
  | Replay_DuplicateSequence u64
  | OutOfOrder u64 u64
  | Gap u64 u64
  | CorruptPayload "u64 option" string
  | InvalidTransition u64 string

datatype gap_policy = Strict_Gaps | AllowEphemeralHoles

fun replay_version_error :: "snapshot_version_error \<Rightarrow> replay_error" where
  "replay_version_error (FutureVersion found supported) = FutureSnapshotVersion found supported"
| "replay_version_error (AncientVersion found supported) = AncientSnapshotVersion found supported"

definition final_sequence :: "'d durable_session_event \<Rightarrow> replay_error + u64" where
  "final_sequence event =
     (case dse_session_sequence event of
        None \<Rightarrow> Inl (CorruptPayload None ''durable event carries no final session sequence'')
      | Some sequence \<Rightarrow> Inr sequence)"

definition check_order :: "gap_policy \<Rightarrow> u64 option \<Rightarrow> u64 \<Rightarrow> replay_error option" where
  "check_order gaps previous sequence =
     (case previous of
        None \<Rightarrow> None
      | Some prior \<Rightarrow>
          if sequence = prior then Some (Replay_DuplicateSequence sequence)
          else if sequence < prior then Some (OutOfOrder prior sequence)
          else if gaps = Strict_Gaps \<and> saturating_add prior 1 < sequence
          then Some (Gap (saturating_add prior 1) sequence)
          else None)"

definition validate_payload ::
    "'d session_externals \<Rightarrow> 'd durable_session_event \<Rightarrow> u64 \<Rightarrow> replay_error option" where
  "validate_payload sx event sequence =
     map_option (CorruptPayload (Some sequence)) (sx_payload_error sx (dse_envelope event))"

text \<open>One turn of the loop: the sequence of an event that passes, or why it does not.\<close>

definition check_event ::
    "'d session_externals \<Rightarrow> gap_policy \<Rightarrow> session_id \<Rightarrow> event_id list \<Rightarrow> u64 option
      \<Rightarrow> 'd durable_session_event \<Rightarrow> replay_error + u64" where
  "check_event sx gaps sid seen previous event =
     (case final_sequence event of
        Inl e \<Rightarrow> Inl e
      | Inr sequence \<Rightarrow>
          let envelope = dse_envelope event
          in if env_session_sequence envelope \<noteq> Some sequence
             then Inl (CorruptPayload (Some sequence)
                    ''durable record and envelope session sequences disagree'')
             else if env_session_id envelope \<noteq> sid
             then Inl (CorruptPayload (Some sequence)
                    (''event belongs to session '' @ sx_fmt_uuid sx (env_session_id envelope)
                     @ '', expected '' @ sx_fmt_uuid sx sid))
             else if env_event_id envelope \<in> set seen
             then Inl (DuplicateEventId (sx_fmt_uuid sx (env_event_id envelope)) sequence)
             else case check_order gaps previous sequence of
                    Some e \<Rightarrow> Inl e
                  | None \<Rightarrow>
                      (case validate_payload sx event sequence of
                         Some e \<Rightarrow> Inl e
                       | None \<Rightarrow> Inr sequence))"

fun validate_events ::
    "'d session_externals \<Rightarrow> gap_policy \<Rightarrow> session_id \<Rightarrow> event_id list \<Rightarrow> u64 option
      \<Rightarrow> 'd durable_session_event list \<Rightarrow> replay_error option" where
  "validate_events sx gaps sid seen previous [] = None"
| "validate_events sx gaps sid seen previous (event # events) =
     (case check_event sx gaps sid seen previous event of
        Inl e \<Rightarrow> Some e
      | Inr sequence \<Rightarrow>
          validate_events sx gaps sid (env_event_id (dse_envelope event) # seen) (Some sequence) events)"

fun status_name :: "agent_status \<Rightarrow> string" where
  "status_name Idle = ''Idle''"
| "status_name PreparingContext = ''PreparingContext''"
| "status_name WaitingForBackend = ''WaitingForBackend''"
| "status_name Streaming = ''Streaming''"
| "status_name Executing = ''Executing''"
| "status_name WaitingForPermission = ''WaitingForPermission''"
| "status_name WaitingForChildren = ''WaitingForChildren''"
| "status_name Verifying = ''Verifying''"
| "status_name Paused = ''Paused''"
| "status_name Status_Completed = ''Completed''"
| "status_name Cancelled = ''Cancelled''"
| "status_name Failed = ''Failed''"

definition is_terminal_status :: "agent_status \<Rightarrow> bool" where
  "is_terminal_status st \<longleftrightarrow> st \<in> {Cancelled, Status_Completed, Failed}"

definition wrong_from :: "'d session_externals \<Rightarrow> agent_id \<Rightarrow> agent_status \<Rightarrow> agent_status \<Rightarrow> string" where
  "wrong_from sx agent current from =
     ''agent '' @ sx_fmt_uuid sx agent @ '' is in '' @ status_name current @ '', event claims ''
     @ status_name from"

text \<open>One turn of \<open>validate_transition_stream\<close>: the statuses after the event.\<close>

definition check_transition ::
    "'d session_externals \<Rightarrow> (agent_id, agent_status) hash_map \<Rightarrow> 'd durable_session_event
      \<Rightarrow> replay_error + (agent_id, agent_status) hash_map" where
  "check_transition sx statuses event =
     (case final_sequence event of
        Inl e \<Rightarrow> Inl e
      | Inr sequence \<Rightarrow>
          (case env_event (dse_envelope event) of
             StateChanged from to \<Rightarrow>
               (let agent = env_agent_id (dse_envelope event)
                in case map_of statuses agent of
                     Some current \<Rightarrow>
                       if current \<noteq> from
                       then Inl (InvalidTransition sequence (wrong_from sx agent current from))
                       else if is_terminal_status current
                       then Inl (InvalidTransition sequence
                              (''terminal state '' @ status_name current
                               @ '' is absorbing; cannot transition to '' @ status_name to))
                       else Inr (AList.update agent to statuses)
                   | None \<Rightarrow> Inr (AList.update agent to statuses))
           | _ \<Rightarrow> Inr statuses))"

fun validate_transitions ::
    "'d session_externals \<Rightarrow> (agent_id, agent_status) hash_map \<Rightarrow> 'd durable_session_event list
      \<Rightarrow> replay_error option" where
  "validate_transitions sx statuses [] = None"
| "validate_transitions sx statuses (event # events) =
     (case check_transition sx statuses event of
        Inl e \<Rightarrow> Some e
      | Inr statuses \<Rightarrow> validate_transitions sx statuses events)"

text \<open>Collecting into a map keeps the last status of an agent that occurs twice.\<close>

definition snapshot_statuses :: "'d stored_session \<Rightarrow> (agent_id, agent_status) hash_map" where
  "snapshot_statuses stored =
     (case ss_snapshot stored of
        None \<Rightarrow> []
      | Some snapshot \<Rightarrow> rev (map (\<lambda>a. (sa_agent_id a, sa_status a)) (dss_agents snapshot)))"

definition validate_trailing_replay ::
    "'d session_externals \<Rightarrow> gap_policy \<Rightarrow> 'd stored_session
      \<Rightarrow> replay_error + 'd durable_session_event list" where
  "validate_trailing_replay sx gaps stored =
     (case (case ss_snapshot stored of
              None \<Rightarrow> Inr ()
            | Some snapshot \<Rightarrow> check_snapshot_version (dss_schema_version snapshot)) of
        Inl e \<Rightarrow> Inl (replay_version_error e)
      | Inr _ \<Rightarrow>
          (case validate_events sx gaps (ss_session_id stored) []
                  (map_option dss_session_sequence (ss_snapshot stored)) (ss_events stored) of
             Some e \<Rightarrow> Inl e
           | None \<Rightarrow>
               (case validate_transitions sx (snapshot_statuses stored) (ss_events stored) of
                  Some e \<Rightarrow> Inl e
                | None \<Rightarrow> Inr (ss_events stored))))"

section \<open>Replay (projection/*.rs)\<close>

definition is_resting :: "agent_status \<Rightarrow> bool" where
  "is_resting st \<longleftrightarrow> st \<in> {Idle, Status_Completed, Cancelled, Failed}"

definition change_state ::
    "'d session_externals \<Rightarrow> agent_status \<Rightarrow> agent_status \<Rightarrow> u64 \<Rightarrow> u64 \<Rightarrow> 'd stored_agent_state
      \<Rightarrow> replay_error + 'd stored_agent_state" where
  "change_state sx from to agent_sequence sequence agent =
     (if sa_status agent \<noteq> from
      then Inl (InvalidTransition sequence (wrong_from sx (sa_agent_id agent) (sa_status agent) from))
      else
        (let agent = agent\<lparr>sa_status := to, sa_transition_sequence := agent_sequence\<rparr>
         in Inr (if is_resting to then agent\<lparr>sa_current_operation := None\<rparr> else agent)))"

definition apply_event ::
    "'d session_externals \<Rightarrow> 'd agent_event_envelope \<Rightarrow> u64 \<Rightarrow> 'd stored_agent_state
      \<Rightarrow> replay_error + 'd stored_agent_state" where
  "apply_event sx envelope sequence agent =
     (case env_event envelope of
        StateChanged from to \<Rightarrow> change_state sx from to (env_agent_sequence envelope) sequence agent
      | RunStarted run_id \<Rightarrow> Inr (agent\<lparr>sa_active_run := Some run_id, sa_last_error := None\<rparr>)
      | PermissionRequested request \<Rightarrow>
          Inr (agent\<lparr>sa_pending_permissions :=
            AList.update (prq_id request) (call_id (prq_tool_call request)) (sa_pending_permissions agent)\<rparr>)
      | ToolCallCompleted cid _ \<Rightarrow>
          Inr (agent\<lparr>sa_pending_tools := AList.delete cid (sa_pending_tools agent),
                     sa_pending_permissions :=
                       filter (\<lambda>(_, pending_call). pending_call \<noteq> cid) (sa_pending_permissions agent)\<rparr>)
      | ChildAgentSpawned child _ \<Rightarrow>
          Inr (if child \<in> set (sa_children agent) then agent
               else agent\<lparr>sa_children := sa_children agent @ [child]\<rparr>)
      | Ev_Failed error \<Rightarrow> Inr (agent\<lparr>sa_last_error := Some error, sa_active_run := None\<rparr>)
      | Ev_Completed _ \<Rightarrow> Inr (agent\<lparr>sa_active_run := None\<rparr>)
      | _ \<Rightarrow> Inr agent)"

text \<open>The first agent with the event's id is the one that is changed.\<close>

fun apply_to_agent ::
    "'d session_externals \<Rightarrow> 'd agent_event_envelope \<Rightarrow> u64 \<Rightarrow> 'd stored_agent_state list
      \<Rightarrow> replay_error + 'd stored_agent_state list" where
  "apply_to_agent sx envelope sequence [] =
     Inl (InvalidTransition sequence
       (''event targets agent '' @ sx_fmt_uuid sx (env_agent_id envelope)
        @ '', which is absent from the checkpoint''))"
| "apply_to_agent sx envelope sequence (agent # agents) =
     (if sa_agent_id agent = env_agent_id envelope
      then map_sum (\<lambda>e. e) (\<lambda>agent. agent # agents) (apply_event sx envelope sequence agent)
      else map_sum (\<lambda>e. e) (\<lambda>agents. agent # agents) (apply_to_agent sx envelope sequence agents))"

fun replay_snapshot ::
    "'d session_externals \<Rightarrow> 'd durable_session_snapshot \<Rightarrow> 'd durable_session_event list
      \<Rightarrow> replay_error + 'd durable_session_snapshot" where
  "replay_snapshot sx snapshot [] = Inr snapshot"
| "replay_snapshot sx snapshot (event # events) =
     (case final_sequence event of
        Inl e \<Rightarrow> Inl e
      | Inr sequence \<Rightarrow>
          (case apply_to_agent sx (dse_envelope event) sequence (dss_agents snapshot) of
             Inl e \<Rightarrow> Inl e
           | Inr agents \<Rightarrow>
               replay_snapshot sx
                 (snapshot\<lparr>dss_agents := agents, dss_session_sequence := sequence,
                           dss_timestamp := env_timestamp (dse_envelope event)\<rparr>) events))"

section \<open>Retention (retention.rs)\<close>

record retention_policy =
  rp_max_trailing_events :: u64
  rp_keep_full_history :: bool

definition default_retention_policy :: retention_policy where
  "default_retention_policy = \<lparr>rp_max_trailing_events = 1024, rp_keep_full_history = True\<rparr>"

record compaction_plan =
  cp_session_id :: session_id
  cp_trailing_events :: u64
  cp_should_compact :: bool
  cp_snapshot_sequence :: u64
  cp_prune_through :: u64
  cp_next_generation :: u64

definition idle_plan :: "session_id \<Rightarrow> u64 \<Rightarrow> compaction_plan" where
  "idle_plan sid next_generation =
     \<lparr>cp_session_id = sid, cp_trailing_events = 0, cp_should_compact = False,
      cp_snapshot_sequence = 0, cp_prune_through = 0, cp_next_generation = next_generation\<rparr>"

definition plan_compaction :: "'d stored_session \<Rightarrow> retention_policy \<Rightarrow> compaction_plan" where
  "plan_compaction stored policy =
     (let generation =
            (case ss_snapshot stored of
               None \<Rightarrow> 0 | Some snapshot \<Rightarrow> dsm_compaction_generation (dss_metadata snapshot));
          trailing = List.map_filter dse_session_sequence (ss_events stored);
          trailing_events = (of_nat (length trailing) :: u64);
          last_sequence = (if trailing = [] then 0 else last trailing)
      in if rp_max_trailing_events policy = 0 \<or> trailing_events \<le> rp_max_trailing_events policy
         then idle_plan (ss_session_id stored) (saturating_add generation 1)
         else
           \<lparr>cp_session_id = ss_session_id stored, cp_trailing_events = trailing_events,
            cp_should_compact = True, cp_snapshot_sequence = last_sequence,
            cp_prune_through =
              (if rp_keep_full_history policy then 0
               else case ss_snapshot stored of None \<Rightarrow> 0 | Some snapshot \<Rightarrow> dss_session_sequence snapshot),
            cp_next_generation = saturating_add generation 1\<rparr>)"

definition prune_plan :: "'d stored_session \<Rightarrow> u64 \<Rightarrow> string + u64" where
  "prune_plan stored sequence =
     (case ss_snapshot stored of
        None \<Rightarrow> Inl ''cannot prune without a snapshot: replay anchor would be lost''
      | Some snapshot \<Rightarrow>
          if dss_session_sequence snapshot < sequence
          then Inl ''cannot prune beyond the latest snapshot's sequence''
          else Inr (saturating_add sequence 1))"

definition mark_compacted :: "'d durable_session_snapshot \<Rightarrow> 'd durable_session_snapshot" where
  "mark_compacted snapshot =
     snapshot\<lparr>dss_metadata := (dss_metadata snapshot)\<lparr>dsm_compacted := True,
       dsm_compaction_generation :=
         saturating_add (dsm_compaction_generation (dss_metadata snapshot)) 1\<rparr>\<rparr>"

end
