(* ===== verification/Session_Properties.thy ===== *)
theory Session_Properties
  imports Session_Store Agent_Properties
begin

text \<open>
  What the session store promises: what the validation accepts, that accepted events replay, what
  is read back from a session file, how events are numbered, and where these promises meet the
  events an agent emits.
\<close>

section \<open>What the validation accepts\<close>

definition well_placed ::
    "'d session_externals \<Rightarrow> session_id \<Rightarrow> 'd durable_session_event \<Rightarrow> bool" where
  "well_placed sx sid e \<longleftrightarrow> dse_session_sequence e \<noteq> None
     \<and> env_session_sequence (dse_envelope e) = dse_session_sequence e
     \<and> env_session_id (dse_envelope e) = sid \<and> sx_payload_error sx (dse_envelope e) = None"

definition follows :: "gap_policy \<Rightarrow> u64 \<Rightarrow> u64 \<Rightarrow> bool" where
  "follows gaps p q \<longleftrightarrow> p < q \<and> (gaps = Strict_Gaps \<longrightarrow> q = p + 1)"

abbreviation event_ids :: "'d durable_session_event list \<Rightarrow> event_id list" where
  "event_ids es \<equiv> map (env_event_id \<circ> dse_envelope) es"

abbreviation sequences :: "'d durable_session_event list \<Rightarrow> u64 list" where
  "sequences es \<equiv> List.map_filter dse_session_sequence es"

text \<open>The status changes of one agent, and that they go on from a status.\<close>

fun change_of :: "agent_id \<Rightarrow> 'd agent_event_envelope \<Rightarrow> (agent_status \<times> agent_status) option" where
  "change_of agent e =
     (case env_event e of
        StateChanged from to \<Rightarrow> if env_agent_id e = agent then Some (from, to) else None
      | _ \<Rightarrow> None)"

definition changes ::
    "agent_id \<Rightarrow> 'd durable_session_event list \<Rightarrow> (agent_status \<times> agent_status) list" where
  "changes agent es = List.map_filter (change_of agent \<circ> dse_envelope) es"

fun legal :: "agent_status option \<Rightarrow> (agent_status \<times> agent_status) list \<Rightarrow> bool" where
  "legal current [] \<longleftrightarrow> True"
| "legal current ((from, to) # cs) \<longleftrightarrow>
     (\<forall>s. current = Some s \<longrightarrow> s = from \<and> \<not> is_terminal_status s) \<and> legal (Some to) cs"

lemma successor_iff:
  fixes p q :: u64
  assumes "p < q"
  shows "saturating_add p 1 < q \<longleftrightarrow> q \<noteq> p + 1"
proof -
  have p: "unat p + 1 < 2 ^ 64"
    using assms unat_bound [of q] by (simp add: word_less_nat_alt)
  then have "saturating_add p 1 = p + 1"
    by (simp add: saturating_add_def)
  moreover have "unat (p + 1) = unat p + 1"
    using p by (simp add: unat_word_ariths)
  ultimately show ?thesis
    using assms by (auto simp: word_less_nat_alt word_unat_eq_iff)
qed

lemma check_order_iff:
  "check_order gaps previous q = None \<longleftrightarrow> (\<forall>p. previous = Some p \<longrightarrow> follows gaps p q)"
  by (auto simp: check_order_def follows_def successor_iff not_less_iff_gr_or_eq split: option.split)

lemma check_event_iff:
  "check_event sx gaps sid seen previous e = Inr q \<longleftrightarrow>
     dse_session_sequence e = Some q \<and> well_placed sx sid e
   \<and> env_event_id (dse_envelope e) \<notin> set seen \<and> (\<forall>p. previous = Some p \<longrightarrow> follows gaps p q)"
  using check_order_iff [of gaps previous q]
  by (cases "check_order gaps previous q")
    (auto simp: check_event_def final_sequence_def Let_def well_placed_def validate_payload_def
      split: option.splits)

lemma validate_events_iff:
  "validate_events sx gaps sid seen previous es = None \<longleftrightarrow>
     list_all (well_placed sx sid) es \<and> distinct (event_ids es)
   \<and> set (event_ids es) \<inter> set seen = {}
   \<and> successively (follows gaps) ((case previous of None \<Rightarrow> [] | Some p \<Rightarrow> [p]) @ sequences es)"
proof (induction es arbitrary: seen previous)
  case Nil
  then show ?case
    by (simp add: List.map_filter_def split: option.split)
next
  case (Cons e es)
  show ?case
  proof (cases "check_event sx gaps sid seen previous e")
    case (Inl err)
    then have "\<not> (\<exists>q. dse_session_sequence e = Some q \<and> well_placed sx sid e
        \<and> env_event_id (dse_envelope e) \<notin> set seen \<and> (\<forall>p. previous = Some p \<longrightarrow> follows gaps p q))"
      using check_event_iff [of sx gaps sid seen previous e] by (metis Inl_Inr_False)
    then show ?thesis
      by (auto simp: Inl well_placed_def List.map_filter_simps split: option.splits)
  next
    case (Inr q)
    then show ?thesis
      using check_event_iff [of sx gaps sid seen previous e q]
      by (auto simp: Cons.IH List.map_filter_simps successively_Cons split: option.splits)
  qed
qed

lemma map_of_update_status:
  "map_of (AList.update agent to m) other = (if other = agent then Some to else map_of m other)"
  by (simp add: update_conv')

lemma changes_Cons:
  "changes agent (e # es) =
     (case change_of agent (dse_envelope e) of None \<Rightarrow> changes agent es | Some c \<Rightarrow> c # changes agent es)"
  by (simp add: changes_def List.map_filter_simps del: change_of.simps split: option.split)

lemma changes_Nil: "changes agent [] = []"
  by (simp add: changes_def List.map_filter_simps)

lemma changes_here:
  "env_event (dse_envelope e) = StateChanged from to
   \<Longrightarrow> changes (env_agent_id (dse_envelope e)) (e # es)
     = (from, to) # changes (env_agent_id (dse_envelope e)) es"
  by (simp add: changes_Cons)

lemma validate_transitions_iff:
  "list_all (\<lambda>e. dse_session_sequence e \<noteq> None) es \<Longrightarrow>
   validate_transitions sx statuses es = None \<longleftrightarrow>
     (\<forall>agent. legal (map_of statuses agent) (changes agent es))"
proof (induction es arbitrary: statuses)
  case Nil
  then show ?case by (simp add: changes_Nil)
next
  case (Cons e es)
  then obtain q where q: "dse_session_sequence e = Some q"
    by auto
  show ?case
  proof (cases "\<exists>from to. env_event (dse_envelope e) = StateChanged from to")
    case False
    then have "check_transition sx statuses e = Inr statuses"
      using q by (auto simp: check_transition_def final_sequence_def split: agent_event.split)
    moreover have "changes agent (e # es) = changes agent es" for agent
      using False by (auto simp: changes_Cons split: agent_event.split)
    ultimately show ?thesis
      using Cons by simp
  next
    case True
    then obtain from' to where ev: "env_event (dse_envelope e) = StateChanged from' to"
      by blast
    define who where "who = env_agent_id (dse_envelope e)"
    have mine: "changes who (e # es) = (from', to) # changes who es"
      by (simp add: changes_Cons ev who_def)
    have others: "changes agent (e # es) = changes agent es" if "agent \<noteq> who" for agent
      using that by (simp add: changes_Cons ev who_def)
    let ?ok = "\<forall>s. map_of statuses who = Some s \<longrightarrow> s = from' \<and> \<not> is_terminal_status s"
    have step: "check_transition sx statuses e
        = Inr (AList.update who to statuses)" if ?ok
      using that q by (auto simp: check_transition_def final_sequence_def ev Let_def who_def
          split: option.split)
    have stop: "\<exists>err. check_transition sx statuses e = Inl err" if "\<not> ?ok"
      using that q by (auto simp: check_transition_def final_sequence_def ev Let_def who_def
          split: option.split)
    show ?thesis
    proof (cases ?ok)
      case True
      have "validate_transitions sx statuses (e # es) = None \<longleftrightarrow>
          (\<forall>agent. legal (map_of (AList.update who to statuses) agent) (changes agent es))"
        using Cons True by (simp add: step)
      also have "\<dots> \<longleftrightarrow> (\<forall>agent. legal (map_of statuses agent) (changes agent (e # es)))"
        using True by (metis (no_types, lifting) legal.simps(2) map_of_update_status mine others)
      finally show ?thesis .
    next
      case False
      then have "\<not> legal (map_of statuses who) (changes who (e # es))"
        by (simp add: mine)
      then show ?thesis
        using stop [OF False] by auto
    qed
  qed
qed

section \<open>Accepted events replay\<close>

lemma distinct_map_of_rev:
  "distinct (map fst xs) \<Longrightarrow> map_of (rev xs) = map_of xs"
  by (intro map_of_inject_set [THEN iffD2]) (simp_all add: rev_map [symmetric])

definition known_statuses ::
    "'d stored_agent_state list \<Rightarrow> (agent_id, agent_status) hash_map" where
  "known_statuses agents = map (\<lambda>a. (sa_agent_id a, sa_status a)) agents"

fun status_after :: "agent_status \<Rightarrow> (agent_status \<times> agent_status) list \<Rightarrow> agent_status" where
  "status_after st [] = st"
| "status_after st ((from, to) # cs) = status_after to cs"

lemma apply_event_keeps:
  assumes "apply_event sx e q a = Inr b"
  shows "sa_agent_id b = sa_agent_id a"
    and "\<And>from to. env_event e = StateChanged from to \<Longrightarrow> sa_status b = to"
    and "\<not> (\<exists>from to. env_event e = StateChanged from to) \<Longrightarrow> sa_status b = sa_status a"
  using assms
  by (auto simp: apply_event_def change_state_def Let_def split: agent_event.splits if_splits)

lemma apply_event_ok:
  assumes "\<And>from to. env_event e = StateChanged from to \<Longrightarrow> from = sa_status a"
  shows "\<exists>b. apply_event sx e q a = Inr b"
  using assms by (auto simp: apply_event_def change_state_def Let_def split: agent_event.split)

lemma apply_to_agent_ok:
  assumes "distinct (map sa_agent_id agents)" and "env_agent_id e \<in> set (map sa_agent_id agents)"
    and "\<And>from to. env_event e = StateChanged from to
      \<Longrightarrow> map_of (known_statuses agents) (env_agent_id e) = Some from"
  shows "\<exists>agents'. apply_to_agent sx e q agents = Inr agents'
    \<and> map sa_agent_id agents' = map sa_agent_id agents
    \<and> (\<forall>agent. map_of (known_statuses agents') agent =
         (case change_of agent e of
            Some (_, to) \<Rightarrow> Some to | None \<Rightarrow> map_of (known_statuses agents) agent))"
  using assms
proof (induction agents)
  case (Cons a agents)
  show ?case
  proof (cases "sa_agent_id a = env_agent_id e")
    case True
    then obtain b where b: "apply_event sx e q a = Inr b"
      using apply_event_ok [of e a sx q] Cons.prems(3) by (auto simp: known_statuses_def)
    have "map_of (known_statuses (b # agents)) agent =
        (case change_of agent e of
           Some (_, to) \<Rightarrow> Some to | None \<Rightarrow> map_of (known_statuses (a # agents)) agent)" for agent
      using True apply_event_keeps [OF b]
      by (cases "env_event e") (auto simp: known_statuses_def)
    then show ?thesis
      using True b apply_event_keeps(1) [OF b] by (auto simp del: change_of.simps)
  next
    case False
    have "\<exists>agents'. apply_to_agent sx e q agents = Inr agents'
        \<and> map sa_agent_id agents' = map sa_agent_id agents
        \<and> (\<forall>agent. map_of (known_statuses agents') agent =
             (case change_of agent e of
                Some (_, to) \<Rightarrow> Some to | None \<Rightarrow> map_of (known_statuses agents) agent))"
      using Cons.prems False by (intro Cons.IH) (auto simp: known_statuses_def)
    then obtain agents' where rest: "apply_to_agent sx e q agents = Inr agents'"
      "map sa_agent_id agents' = map sa_agent_id agents"
      "\<forall>agent. map_of (known_statuses agents') agent =
         (case change_of agent e of
            Some (_, to) \<Rightarrow> Some to | None \<Rightarrow> map_of (known_statuses agents) agent)"
      by blast
    have "map_of (known_statuses (a # agents')) agent =
        (case change_of agent e of
           Some (_, to) \<Rightarrow> Some to | None \<Rightarrow> map_of (known_statuses (a # agents)) agent)" for agent
      using rest(3) False by (cases "env_event e") (auto simp: known_statuses_def)
    then show ?thesis
      using False rest(1,2) by (auto simp del: change_of.simps)
  qed
qed simp

lemma replay_ok:
  assumes "list_all (\<lambda>e. dse_session_sequence e \<noteq> None) es"
    and "distinct (map sa_agent_id (dss_agents snapshot))"
    and "\<forall>e\<in>set es. env_agent_id (dse_envelope e) \<in> set (map sa_agent_id (dss_agents snapshot))"
    and "\<forall>agent. legal (map_of (known_statuses (dss_agents snapshot)) agent) (changes agent es)"
  shows "\<exists>final. replay_snapshot sx snapshot es = Inr final
    \<and> map sa_agent_id (dss_agents final) = map sa_agent_id (dss_agents snapshot)
    \<and> dss_session_sequence final = last (dss_session_sequence snapshot # sequences es)
    \<and> (\<forall>agent st. map_of (known_statuses (dss_agents snapshot)) agent = Some st \<longrightarrow>
         map_of (known_statuses (dss_agents final)) agent = Some (status_after st (changes agent es)))"
  using assms
proof (induction es arbitrary: snapshot)
  case Nil
  then show ?case by (simp add: changes_Nil List.map_filter_simps)
next
  case (Cons e es)
  obtain q where q: "dse_session_sequence e = Some q"
    using Cons.prems(1) by auto
  let ?known = "\<lambda>agents agent. map_of (known_statuses agents) agent"
  have ids: "set (map fst (known_statuses agents)) = set (map sa_agent_id agents)"
    for agents :: "'a stored_agent_state list"
    by (simp add: known_statuses_def image_image)
  have start: "?known (dss_agents snapshot) (env_agent_id (dse_envelope e)) = Some from'"
    if "env_event (dse_envelope e) = StateChanged from' to" for from' to
  proof -
    have "?known (dss_agents snapshot) (env_agent_id (dse_envelope e)) \<noteq> None"
      using Cons.prems(3) ids [of "dss_agents snapshot"] by (auto simp: map_of_eq_None_iff)
    moreover have "legal (?known (dss_agents snapshot) (env_agent_id (dse_envelope e)))
        ((from', to) # changes (env_agent_id (dse_envelope e)) es)"
      using Cons.prems(4) changes_here [OF that, of es] by metis
    ultimately show ?thesis by auto
  qed
  obtain agents where agents: "apply_to_agent sx (dse_envelope e) q (dss_agents snapshot) = Inr agents"
    "map sa_agent_id agents = map sa_agent_id (dss_agents snapshot)"
    "\<And>agent. ?known agents agent = (case change_of agent (dse_envelope e) of
       Some (_, to) \<Rightarrow> Some to | None \<Rightarrow> ?known (dss_agents snapshot) agent)"
    using apply_to_agent_ok [of "dss_agents snapshot" "dse_envelope e" sx q] Cons.prems(2,3) start
    by (metis list.set_intros(1))
  let ?next = "snapshot\<lparr>dss_agents := agents, dss_session_sequence := q,
     dss_timestamp := env_timestamp (dse_envelope e)\<rparr>"
  have go_on: "legal (?known agents agent) (changes agent es)" for agent
    using Cons.prems(4) agents(3) [of agent]
    by (cases "change_of agent (dse_envelope e)")
      (auto simp: changes_Cons simp del: change_of.simps dest!: spec [of _ agent])
  have "\<exists>final. replay_snapshot sx ?next es = Inr final
      \<and> map sa_agent_id (dss_agents final) = map sa_agent_id (dss_agents ?next)
      \<and> dss_session_sequence final = last (dss_session_sequence ?next # sequences es)
      \<and> (\<forall>agent st. ?known (dss_agents ?next) agent = Some st \<longrightarrow>
           ?known (dss_agents final) agent = Some (status_after st (changes agent es)))"
    using Cons.prems agents(2) go_on by (intro Cons.IH) auto
  then obtain final where final: "replay_snapshot sx ?next es = Inr final"
    "map sa_agent_id (dss_agents final) = map sa_agent_id agents"
    "dss_session_sequence final = last (q # sequences es)"
    "\<And>agent st. ?known agents agent = Some st \<Longrightarrow>
       ?known (dss_agents final) agent = Some (status_after st (changes agent es))"
    by auto
  have "?known (dss_agents final) agent = Some (status_after st (changes agent (e # es)))"
    if "?known (dss_agents snapshot) agent = Some st" for agent st
    using that agents(3) [of agent] final(4) [of agent]
    by (cases "change_of agent (dse_envelope e)")
      (auto simp: changes_Cons simp del: change_of.simps)
  then show ?case
    using final(1-3) agents(1,2) by (simp add: q final_sequence_def List.map_filter_simps)
qed

section \<open>Session files\<close>

abbreviation newline_char :: char where
  "newline_char \<equiv> CHR 0x0A"

definition record_line :: "'d session_externals \<Rightarrow> 'd jsonl_record \<Rightarrow> string" where
  "record_line sx r = sx_print sx r @ [newline_char]"

text \<open>
  What the file format needs of \<open>serde_json\<close>: a record is printed as UTF-8 on one line without
  blanks at its end, and is read back from it.
\<close>

definition codec_on :: "'d session_externals \<Rightarrow> 'd jsonl_record set \<Rightarrow> bool" where
  "codec_on sx R \<longleftrightarrow> (\<forall>r\<in>R. sx_parse sx (sx_print sx r) = Inr r
     \<and> newline_char \<notin> set (sx_print sx r) \<and> sx_print sx r \<noteq> [] \<and> valid_utf8 (sx_print sx r)
     \<and> trim_end (record_line sx r) = sx_print sx r)"

definition torn :: "'d session_externals \<Rightarrow> string \<Rightarrow> bool" where
  "torn sx rest \<longleftrightarrow> newline_char \<notin> set rest \<and>
     (trim_end rest = [] \<or> (\<exists>e. sx_parse sx (trim_end rest) = Inl e))"

definition events_of :: "'d jsonl_record list \<Rightarrow> 'd durable_session_event list" where
  "events_of rs = List.map_filter (\<lambda>r. case r of Rec_Event e \<Rightarrow> Some e | Rec_Snapshot _ \<Rightarrow> None) rs"

definition snapshots_of :: "'d jsonl_record list \<Rightarrow> 'd durable_session_snapshot list" where
  "snapshots_of rs = List.map_filter (\<lambda>r. case r of Rec_Event _ \<Rightarrow> None | Rec_Snapshot s \<Rightarrow> Some s) rs"

definition last_opt :: "'a list \<Rightarrow> 'a option" where
  "last_opt xs = (if xs = [] then None else Some (last xs))"

lemma utf8_chars_append:
  "\<not> is_continuation c \<Longrightarrow> utf8_chars (l @ c # rest) = utf8_chars l @ utf8_chars (c # rest)"
proof (induction l rule: utf8_chars.induct)
  case (2 lead cs)
  let ?more = "dropWhile is_continuation cs"
  have "takeWhile is_continuation (cs @ c # rest) = takeWhile is_continuation cs"
    "dropWhile is_continuation (cs @ c # rest) = ?more @ c # rest"
    using 2(2) by (induction cs) auto
  then show ?case using 2 by (simp del: utf8_chars.simps(2) add: utf8_chars.simps(2) [of lead])
qed simp

lemma newline_not_continuation: "\<not> is_continuation newline_char"
  by (simp add: is_continuation_def)

lemma valid_utf8_line [simp]: "valid_utf8 (l @ [newline_char]) \<longleftrightarrow> valid_utf8 l"
  using utf8_chars_append [OF newline_not_continuation, of l "[]"]
  by (simp add: valid_utf8_def utf8_width_def byte_in_def)

lemma valid_utf8_Nil [simp]: "valid_utf8 []"
  by (simp add: valid_utf8_def)

lemma read_line_newline:
  "newline_char \<notin> set l \<Longrightarrow> read_line (l @ newline_char # rest) = (l @ [newline_char], rest)"
  by (induction l) auto

lemma read_line_unended: "newline_char \<notin> set l \<Longrightarrow> read_line l = (l, [])"
  by (induction l) auto

lemma file_lines_unended: "newline_char \<notin> set l \<Longrightarrow> file_lines l = (if l = [] then [] else [l])"
  by (subst file_lines.simps) (simp add: read_line_unended file_lines.simps [of "[]"])

lemma file_lines_newline:
  "newline_char \<notin> set l \<Longrightarrow> file_lines (l @ newline_char # rest) = (l @ [newline_char]) # file_lines rest"
  by (subst file_lines.simps) (simp add: read_line_newline)

lemma file_lines_records:
  "codec_on sx (set rs) \<Longrightarrow>
   file_lines (concat (map (record_line sx) rs) @ rest) = map (record_line sx) rs @ file_lines rest"
  by (induction rs) (simp_all add: codec_on_def record_line_def file_lines_newline)

lemma read_lines_records:
  "codec_on sx (set rs) \<Longrightarrow>
   read_lines sx path (map (record_line sx) rs @ rest) (records, n)
     = read_lines sx path rest (fold (push_record \<circ> Some) rs records, n + length rs)"
  by (induction rs arbitrary: records n) (simp_all add: codec_on_def parse_line_def record_line_def)

lemma fold_add_record:
  "fold (push_record \<circ> Some) rs records =
     \<lparr>rc_snapshot = or_opt (last_opt (snapshots_of rs)) (rc_snapshot records),
      rc_events = rc_events records @ events_of rs\<rparr>"
proof (induction rs arbitrary: records)
  case (Cons r rs)
  then show ?case
    by (cases r) (auto simp: push_record_def snapshots_of_def events_of_def List.map_filter_simps
        last_opt_def or_opt_def)
qed (simp add: snapshots_of_def events_of_def List.map_filter_simps last_opt_def)

lemma written_records:
  "fold (write_record sx) rs f
     = (if rs = [] then f else Some (unwrap_or [] f @ concat (map (record_line sx) rs)))"
  by (induction rs arbitrary: f) (auto simp: write_record_def record_line_def)

lemma read_torn:
  assumes "torn sx rest" "valid_utf8 rest"
  shows "\<exists>m. read_lines sx path (file_lines rest) (records, n) = Inr (records, n + m)"
proof (cases "rest = [] \<or> trim_end rest = []")
  case True
  then have "read_lines sx path (file_lines rest) (records, n) = Inr (records, n + 0)"
    using assms by (auto simp: torn_def file_lines_unended)
  then show ?thesis by blast
next
  case False
  then have "\<not> ends_with_newline rest"
    using assms(1) by (metis torn_def ends_with_newline_def last_in_set)
  with assms False have "read_lines sx path (file_lines rest) (records, n) = Inr (records, n + 1)"
    by (auto simp: torn_def file_lines_unended parse_line_def push_record_def)
  then show ?thesis by blast
qed

lemma read_written:
  assumes "codec_on sx (set rs)" "rs \<noteq> []" "torn sx rest"
  shows "read_records sx path sid (Some (concat (map (record_line sx) rs) @ rest)) =
    (if valid_utf8 rest
     then Inr \<lparr>rc_snapshot = last_opt (snapshots_of rs),
            rc_events = sort_key (\<lambda>e. unwrap_or U64_MAX (dse_session_sequence e)) (events_of rs)\<rparr>
     else Inl invalid_utf8_error)"
proof (cases "valid_utf8 rest")
  case True
  obtain m where "read_lines sx path (file_lines rest) (fold (push_record \<circ> Some) rs no_records, 0 + length rs)
      = Inr (fold (push_record \<circ> Some) rs no_records, 0 + length rs + m)"
    using read_torn [OF assms(3) True] by blast
  then show ?thesis
    using assms(1,2) True
    by (simp add: read_records_def file_lines_records read_lines_records fold_add_record no_records_def)
next
  case False
  then have "file_lines rest = [rest]" using assms(3) by (auto simp: torn_def file_lines_unended)
  then show ?thesis
    using False assms(1) by (simp add: read_records_def file_lines_records read_lines_records)
qed

lemma read_joined:
  assumes "codec_on sx (set rs)" "newline_char \<notin> set line"
    and "trim_end (line @ [newline_char]) = line" "line \<noteq> []" "sx_parse sx line = Inl e"
  shows "read_records sx path sid (Some (concat (map (record_line sx) rs) @ line @ [newline_char])) =
    Inl (if valid_utf8 line then Store_InvalidState (''corrupt jsonl record in '' @ path @ '': '' @ e)
         else invalid_utf8_error)"
  using assms file_lines_newline [of line "[]"]
  by (simp add: read_records_def file_lines_records read_lines_records file_lines_unended
      parse_line_def ends_with_newline_def)

text \<open>The operations of the store that write, by the record they write.\<close>

fun record_session :: "'d jsonl_record \<Rightarrow> session_id" where
  "record_session (Rec_Event event) = env_session_id (dse_envelope event)"
| "record_session (Rec_Snapshot snapshot) = dss_session_id snapshot"

fun is_stored :: "'d jsonl_record \<Rightarrow> bool" where
  "is_stored (Rec_Event event) = is_durable (env_event (dse_envelope event))"
| "is_stored (Rec_Snapshot snapshot) = True"

fun store_record ::
    "'d session_externals \<Rightarrow> 'd jsonl_record \<Rightarrow> write_outcome \<Rightarrow> session_files
      \<Rightarrow> session_files \<times> (store_error + unit)" where
  "store_record sx (Rec_Event event) outcome files = store_append sx event outcome files"
| "store_record sx (Rec_Snapshot snapshot) outcome files = save_snapshot sx snapshot outcome files"

definition store_all ::
    "'d session_externals \<Rightarrow> 'd jsonl_record list \<Rightarrow> session_files \<Rightarrow> session_files" where
  "store_all sx rs files = fold (\<lambda>r files. fst (store_record sx r Acknowledged files)) rs files"

definition records_of :: "session_id \<Rightarrow> 'd jsonl_record list \<Rightarrow> 'd jsonl_record list" where
  "records_of sid rs = filter (\<lambda>r. is_stored r \<and> record_session r = sid) rs"

lemma store_record_stored:
  "is_stored r \<Longrightarrow> store_record sx r outcome files =
     (files(record_session r := fst (write_through sx r outcome (files (record_session r)))),
      snd (write_through sx r outcome (files (record_session r))))"
  by (cases r) (simp_all add: store_append_def save_snapshot_def Let_def case_prod_unfold)

lemma store_record_refused: "\<not> is_stored r \<Longrightarrow> fst (store_record sx r outcome files) = files"
  by (cases r) (simp_all add: store_append_def)

lemma store_all_file: "store_all sx rs files sid = fold (write_record sx) (records_of sid rs) (files sid)"
proof (induction rs arbitrary: files)
  case (Cons r rs)
  show ?case
    by (cases "is_stored r")
      (use Cons.IH in \<open>simp_all add: store_all_def records_of_def store_record_stored store_record_refused
        write_through_def\<close>)
qed (simp add: store_all_def records_of_def)

text \<open>
  What loading a session is to return: the last snapshot that was saved, and the events in the
  order of their sequences without those the snapshot covers.
\<close>

definition what_was_stored :: "session_id \<Rightarrow> 'd jsonl_record list \<Rightarrow> 'd stored_session" where
  "what_was_stored sid rs =
     (let snapshot = last_opt (snapshots_of (records_of sid rs))
      in \<lparr>ss_session_id = sid, ss_snapshot = snapshot,
          ss_events = filter (\<lambda>e. \<forall>s q. snapshot = Some s \<longrightarrow> dse_session_sequence e = Some q \<longrightarrow>
              dss_session_sequence s < q)
            (sort_key (\<lambda>e. unwrap_or U64_MAX (dse_session_sequence e)) (events_of (records_of sid rs)))\<rparr>)"

lemma load_written:
  assumes "codec_on sx (set (records_of sid rs))" "records_of sid rs \<noteq> []" "torn sx rest"
    and "files sid = Some (concat (map (record_line sx) (records_of sid rs)) @ rest)"
  shows "load_session sx sid files =
    (if valid_utf8 rest then Inr (what_was_stored sid rs) else Inl invalid_utf8_error)"
  using read_written [OF assms(1-3), of "sx_path_for sx sid" sid] assms(4)
  by (auto simp: load_session_def store_read_def what_was_stored_def Let_def is_none_or_def
      intro!: filter_cong split: option.split)

section \<open>Numbering\<close>

fun commit_all ::
    "'d session_externals \<Rightarrow> ('d agent_event_envelope \<times> write_outcome) list \<Rightarrow> commit_run
      \<Rightarrow> commit_run \<times> (commit_error + 'd committed_event) list" where
  "commit_all sx [] r = (r, [])"
| "commit_all sx ((envelope, outcome) # inputs) r =
     (let (r, result) = commit sx envelope outcome r;
          (r, results) = commit_all sx inputs r
      in (r, result # results))"

text \<open>The number the next event of a run gets.\<close>

definition next_number :: "'d session_externals \<Rightarrow> commit_run \<Rightarrow> u64 \<Rightarrow> bool" where
  "next_number sx r n \<longleftrightarrow>
     (case sc_sequencer (cr_committer r) of
        Seq_Ready next \<Rightarrow> next = n
      | Seq_Uninitialized \<Rightarrow>
          (\<exists>c. current_sequence sx (sc_session_id (cr_committer r)) (cr_files r) = Inr c
             \<and> n = saturating_add c 1))"

lemma note_durable_append_keeps:
  "note_durable_append q c = (c', requests) \<Longrightarrow> sc_sequencer c' = sc_sequencer c"
  by (auto simp: note_durable_append_def Let_def split: if_splits)

lemma commit_numbered:
  assumes "next_number sx r n" "env_event_id envelope \<noteq> 0"
    and "commit sx envelope outcome r = (r', result)"
  shows "next_number sx r' (saturating_add n 1)"
    and "result = Inr ce \<Longrightarrow> env_session_sequence (ce_envelope ce) = Some n"
proof -
  have numbered: "next_sequence (current_sequence sx (sc_session_id (cr_committer r)) (cr_files r))
      (sc_sequencer (cr_committer r)) = (Seq_Ready (saturating_add n 1), Inr n)"
    using assms(1) by (auto simp: next_number_def next_sequence_def Let_def split: sequencer_state.splits)
  show "next_number sx r' (saturating_add n 1)"
    using assms(2,3)
    by (auto dest!: note_durable_append_keeps simp: commit_def numbered next_number_def Let_def split: if_splits prod.splits sum.splits
        durability_policy.splits)
  show "env_session_sequence (ce_envelope ce) = Some n" if "result = Inr ce"
    using assms(2,3) that
    by (auto simp: commit_def numbered Let_def split: if_splits prod.splits sum.splits
        durability_policy.splits)
qed

lemma commit_all_numbered:
  assumes "next_number sx r n" "list_all (\<lambda>(envelope, _). env_event_id envelope \<noteq> 0) inputs"
    and "unat n + length inputs < 2 ^ 64" and "commit_all sx inputs r = (r', results)"
  shows "length results = length inputs \<and> next_number sx r' (n + of_nat (length inputs))
    \<and> (\<forall>k ce. k < length results \<and> results ! k = Inr ce
         \<longrightarrow> env_session_sequence (ce_envelope ce) = Some (n + of_nat k))"
  using assms
proof (induction inputs arbitrary: r n results)
  case (Cons input inputs)
  obtain envelope outcome where input: "input = (envelope, outcome)"
    by fastforce
  obtain r1 result where one: "commit sx envelope outcome r = (r1, result)"
    by fastforce
  obtain results' where rest: "commit_all sx inputs r1 = (r', results')"
    and results: "results = result # results'"
    using Cons.prems(4) one by (auto simp: input split: prod.splits)
  have plus: "saturating_add n 1 = n + 1" "unat (n + 1) = unat n + 1"
    using Cons.prems(3) by (simp_all add: saturating_add_def unat_word_ariths)
  have first: "next_number sx r1 (n + 1)"
    "\<And>ce. result = Inr ce \<Longrightarrow> env_session_sequence (ce_envelope ce) = Some n"
    using commit_numbered [OF Cons.prems(1) _ one] Cons.prems(2) by (auto simp: input plus)
  have "length results' = length inputs \<and> next_number sx r' (n + 1 + of_nat (length inputs))
      \<and> (\<forall>k ce. k < length results' \<and> results' ! k = Inr ce
           \<longrightarrow> env_session_sequence (ce_envelope ce) = Some (n + 1 + of_nat k))"
    using Cons.prems plus by (intro Cons.IH [OF first(1) _ _ rest]) (auto simp: input)
  then show ?case
    using first(2) by (auto simp: results nth_Cons ac_simps split: nat.split)
qed simp

section \<open>A run that starts changes the status\<close>

definition reports_change :: "'d agent_effect list \<Rightarrow> bool" where
  "reports_change es \<longleftrightarrow> (\<exists>from to. Emit (StateChanged from to) \<in> set es)"

definition emitted :: "'d agent_effect list \<Rightarrow> 'd agent_event list" where
  "emitted es = List.map_filter (\<lambda>e. case e of Emit event \<Rightarrow> Some event | _ \<Rightarrow> None) es"

lemma reports_change_append [simp]:
  "reports_change (es @ fs) \<longleftrightarrow> reports_change es \<or> reports_change fs"
  by (auto simp: reports_change_def)

lemma reports_change_Cons [simp]:
  "reports_change (e # es) \<longleftrightarrow> (\<exists>from to. e = Emit (StateChanged from to)) \<or> reports_change es"
  by (auto simp: reports_change_def)

lemma map_sum_eq_Inl: "map_sum f g x = Inl y \<longleftrightarrow> (\<exists>z. x = Inl z \<and> y = f z)"
  by (cases x) auto

lemma fail_run_reports: "fail_run ax code message a = (t, es) \<Longrightarrow> reports_change es"
  by (auto simp: fail_run_def Let_def reports_change_def state_changed_def)

lemma behavior_stop_reports: "behavior_stop ax stop a = (t, es) \<Longrightarrow> reports_change es"
  by (simp add: behavior_stop_def fail_run_reports)

lemma take_pending_profile_reports:
  "take_pending_profile ax a = (t, es) \<Longrightarrow> status t \<noteq> status a \<Longrightarrow> reports_change es"
  by (auto simp: take_pending_profile_def apply_switch_def Let_def dest: fail_run_reports
      split: option.splits prod.splits if_splits)

lemma entered_rules_reports: "entered_rules ax from a = (t, Inl es) \<Longrightarrow> reports_change es"
  by (auto simp: entered_rules_def Let_def dest: behavior_stop_reports
      split: option.splits prod.splits)

lemma enter_switched_reports: "enter_switched ax a = (t, Inl es) \<Longrightarrow> reports_change es"
  by (auto simp: enter_switched_def enter_profile_def Let_def dest: entered_rules_reports
      split: option.splits prod.splits sum.splits if_splits)

lemma before_request_rules_reports: "before_request_rules ax a = (t, Inl es) \<Longrightarrow> reports_change es"
  by (auto simp: before_request_rules_def Let_def dest: behavior_stop_reports
      split: option.splits prod.splits)

lemma agent_begin_turn_reports:
  assumes "agent_begin_turn ax a = (t, Inl es)" "status a \<noteq> Failed"
  shows "reports_change es"
proof -
  obtain b switched where sw: "take_pending_profile ax a = (b, switched)"
    by fastforce
  have failed: "status b = Failed \<Longrightarrow> reports_change switched"
    using take_pending_profile_reports [OF sw] assms(2) by simp
  show ?thesis
    using assms(1) sw failed
    by (auto simp: agent_begin_turn_def Let_def map_sum_eq_Inl dest!: fail_run_reports
        enter_switched_reports before_request_rules_reports
        split: prod.splits sum.splits if_splits)
qed

lemma first_turn_reports:
  assumes "first_turn ax run_id from a = (t, es)" "status a \<noteq> Failed"
  shows "reports_change es"
proof -
  obtain b ro where ev: "evaluate (ax_behavior ax) (behavior a) RunStart None = (b, ro)"
    by fastforce
  obtain d rule_effects where ap:
    "apply_rule_outcome ro None (upd_behavior (\<lambda>_. b) a) = (d, rule_effects)" by fastforce
  have "status d = status a"
    using rules_applied_quiet [OF ap] by auto
  then show ?thesis
    using assms ev ap
    by (auto simp: first_turn_def state_changed_def dest!: behavior_stop_reports agent_begin_turn_reports
        split: option.splits prod.splits sum.splits)
qed

lemma start_run_reports:
  assumes "start_run ax input a = (t, es)"
  shows "reports_change es"
proof -
  have "status b = PreparingContext" if "open_run ax input a' = (b, run_id)" for a' b run_id
    using opens_run_frame [OF open_run_opens [OF that]] by simp
  then show ?thesis
    using assms
    by (auto simp: start_run_def Let_def dest!: fail_run_reports dest: first_turn_reports
        split: sum.splits prod.splits)
qed

lemma legal_terminal: "is_terminal_status st \<Longrightarrow> legal (Some st) cs \<longleftrightarrow> cs = []"
  by (cases cs) auto

lemma changes_empty_iff:
  "\<forall>e\<in>set es. env_agent_id (dse_envelope e) = agent \<Longrightarrow>
   changes agent es = [] \<longleftrightarrow> (\<forall>from to. StateChanged from to \<notin> set (map (env_event \<circ> dse_envelope) es))"
  by (induction es) (auto simp: changes_Nil changes_Cons split: agent_event.split)

lemma accepted_iff:
  "validate_trailing_replay sx gaps stored = Inr es \<longleftrightarrow> es = ss_events stored
   \<and> (\<forall>s. ss_snapshot stored = Some s \<longrightarrow> dss_schema_version s \<le> SCHEMA_VERSION)
   \<and> validate_events sx gaps (ss_session_id stored) []
       (map_option dss_session_sequence (ss_snapshot stored)) es = None
   \<and> validate_transitions sx (snapshot_statuses stored) es = None"
proof -
  have version: "check_snapshot_version v = (if v \<le> SCHEMA_VERSION then Inr ()
      else Inl (FutureVersion v SCHEMA_VERSION))" for v
    by (auto simp: check_snapshot_version_def MIN_SUPPORTED_SNAPSHOT_VERSION_def)
  show ?thesis
    by (cases "ss_snapshot stored")
      (auto simp: validate_trailing_replay_def version split: option.split)
qed

lemma validated:
  assumes "validate_trailing_replay sx gaps stored = Inr es"
  shows "es = ss_events stored" "list_all (well_placed sx (ss_session_id stored)) es"
    "validate_events sx gaps (ss_session_id stored) []
       (map_option dss_session_sequence (ss_snapshot stored)) es = None"
    "\<forall>agent. legal (map_of (snapshot_statuses stored) agent) (changes agent es)"
proof -
  show es: "es = ss_events stored"
    and ok: "validate_events sx gaps (ss_session_id stored) []
       (map_option dss_session_sequence (ss_snapshot stored)) es = None"
    using assms by (auto simp: validate_trailing_replay_def split: sum.splits option.splits)
  show placed: "list_all (well_placed sx (ss_session_id stored)) es"
    using ok by (simp add: validate_events_iff)
  then have "list_all (\<lambda>e. dse_session_sequence e \<noteq> None) es"
    by (auto simp: list_all_iff well_placed_def)
  moreover have "validate_transitions sx (snapshot_statuses stored) es = None"
    using assms by (auto simp: validate_trailing_replay_def split: sum.splits option.splits)
  ultimately show "\<forall>agent. legal (map_of (snapshot_statuses stored) agent) (changes agent es)"
    by (simp add: validate_transitions_iff)
qed

section \<open>Examples\<close>

definition example_envelope :: "event_id \<Rightarrow> int agent_event \<Rightarrow> u64 option \<Rightarrow> int agent_event_envelope" where
  "example_envelope i event q =
     \<lparr>env_event_id = i, env_session_id = 1, env_agent_id = 7, env_parent_agent_id = None,
      env_run_id = None, env_agent_sequence = 0, env_session_sequence = q, env_timestamp = 0,
      env_visibility = Visible_User, env_event = event\<rparr>"

definition example_durable :: "event_id \<Rightarrow> int agent_event \<Rightarrow> u64 \<Rightarrow> int durable_session_event" where
  "example_durable i event q =
     \<lparr>dse_envelope = example_envelope i event (Some q), dse_session_sequence = Some q\<rparr>"

definition example_record :: "int jsonl_record" where
  "example_record = Rec_Event (example_durable 1 (StateChanged Idle PreparingContext) 1)"

definition example_stored_agent :: "agent_status \<Rightarrow> int stored_agent_state" where
  "example_stored_agent st =
     \<lparr>sa_agent_id = 7, sa_parent_id = None, sa_status = st, sa_current_operation = None,
      sa_system_prompt = [], sa_execution_params = default_params, sa_messages = [],
      sa_active_run = None, sa_pending_tools = [], sa_pending_permissions = [], sa_children = [],
      sa_last_error = None, sa_transition_sequence = 0, sa_depth = 0,
      sa_backend = ag_backend example_agent, sa_backend_config = JNull,
      sa_budget = ag_budget example_agent, sa_capabilities = JNull, sa_usage = JNull, sa_behavior = None\<rparr>"

definition example_snapshot :: "agent_status \<Rightarrow> int durable_session_snapshot" where
  "example_snapshot st =
     \<lparr>dss_session_id = 1, dss_root_agent_id = 7, dss_agents = [example_stored_agent st],
      dss_session_sequence = 0, dss_timestamp = 0, dss_schema_version = 0,
      dss_metadata = \<lparr>dsm_workspace_identity = None, dsm_integration_references = [],
        dsm_credential_profiles = [], dsm_tool_policy_ids = [], dsm_compacted = False,
        dsm_compaction_generation = 0\<rparr>\<rparr>"

definition example_sx :: "int session_externals" where
  "example_sx =
     \<lparr>sx_print = (\<lambda>r. case r of Rec_Event _ \<Rightarrow> ''{e}'' | Rec_Snapshot _ \<Rightarrow> ''{s}''),
      sx_parse = (\<lambda>s. if s = ''{e}'' then Inr example_record
        else if s = ''{s}'' then Inr (Rec_Snapshot (example_snapshot Idle)) else Inl ''eof''),
      sx_payload_error = (\<lambda>_. None), sx_fmt_event = (\<lambda>_. []), sx_fmt_uuid = (\<lambda>_. []),
      sx_path_for = (\<lambda>_. ''s.jsonl'')\<rparr>"

definition example_session :: "int stored_session" where
  "example_session = \<lparr>ss_session_id = 1, ss_snapshot = Some (example_snapshot Idle),
     ss_events = [example_durable 1 (StateChanged Idle PreparingContext) 1]\<rparr>"

lemma example_session_valid:
  "validate_trailing_replay example_sx Strict_Gaps example_session = Inr (ss_events example_session)"
  by (simp add: accepted_iff check_event_def check_order_def validate_payload_def saturating_add_def
      example_session_def example_snapshot_def SCHEMA_VERSION_def
      example_durable_def example_envelope_def example_sx_def snapshot_statuses_def example_stored_agent_def check_transition_def final_sequence_def
      is_terminal_status_def)

lemma example_codec: "codec_on example_sx {example_record, Rec_Snapshot (example_snapshot Idle)}"
proof -
  have "trim_end (''{e}'' @ [newline_char]) = ''{e}''" "trim_end (''{s}'' @ [newline_char]) = ''{s}''"
    "valid_utf8 ''{e}''" "valid_utf8 ''{s}''"
    by code_simp+
  then show ?thesis
    by (simp add: codec_on_def example_sx_def record_line_def example_record_def)
qed

section \<open>Properties\<close>

text \<open>
  C22: The validation accepts a stored session exactly when its snapshot is of a supported version,
  every event carries its own sequence and session, no event id occurs twice, the sequences go up
  from the snapshot (by one each under the strict policy), and the status changes of every agent go
  on from the status the snapshot has for it and never leave a terminal one. It returns the events
  unchanged.
\<close>
theorem replay_validation_exact:
  "validate_trailing_replay sx gaps stored = Inr es \<longleftrightarrow>
     es = ss_events stored
   \<and> (case ss_snapshot stored of None \<Rightarrow> True | Some s \<Rightarrow> dss_schema_version s \<le> SCHEMA_VERSION)
   \<and> list_all (well_placed sx (ss_session_id stored)) es \<and> distinct (event_ids es)
   \<and> successively (follows gaps)
       ((case ss_snapshot stored of None \<Rightarrow> [] | Some s \<Rightarrow> [dss_session_sequence s]) @ sequences es)
   \<and> (\<forall>agent. legal (map_of (snapshot_statuses stored) agent) (changes agent es))"
proof -
  have trans: "validate_transitions sx statuses fs = None \<longleftrightarrow>
      (\<forall>agent. legal (map_of statuses agent) (changes agent fs))"
    if "list_all (well_placed sx (ss_session_id stored)) fs" for statuses fs
    using that by (intro validate_transitions_iff) (auto simp: list_all_iff well_placed_def)
  show ?thesis
    by (cases "ss_snapshot stored")
      (simp_all add: accepted_iff validate_events_iff trans cong: conj_cong)
qed

text \<open>
  C23: A session that passes the validation restores: when its agents are listed once and every
  event belongs to one of them, the snapshot migrates and the events replay onto it without an
  error, to the last sequence, with every agent in the status its last change went to.
\<close>
theorem validated_session_restores:
  assumes "validate_trailing_replay sx gaps stored = Inr es" and "ss_snapshot stored = Some snapshot"
    and "distinct (map sa_agent_id (dss_agents snapshot))"
    and "\<forall>e\<in>set es. env_agent_id (dse_envelope e) \<in> set (map sa_agent_id (dss_agents snapshot))"
  shows "\<exists>migrated final. migrate_snapshot snapshot = Inr migrated
    \<and> replay_snapshot sx migrated es = Inr final
    \<and> map sa_agent_id (dss_agents final) = map sa_agent_id (dss_agents snapshot)
    \<and> dss_session_sequence final = last (dss_session_sequence snapshot # sequences es)
    \<and> (\<forall>a\<in>set (dss_agents snapshot). \<exists>b\<in>set (dss_agents final). sa_agent_id b = sa_agent_id a
         \<and> sa_status b = status_after (sa_status a) (changes (sa_agent_id a) es))"
proof -
  let ?known = "\<lambda>agents. map_of (known_statuses agents)"
  have same: "map_of (snapshot_statuses stored) = ?known (dss_agents snapshot)"
    using assms(2,3) distinct_map_of_rev [of "known_statuses (dss_agents snapshot)"]
    by (simp add: snapshot_statuses_def known_statuses_def comp_def)
  obtain migrated where m: "migrate_snapshot snapshot = Inr migrated"
    "dss_agents migrated = dss_agents snapshot"
    "dss_session_sequence migrated = dss_session_sequence snapshot"
    using assms(1,2)
    by (auto simp: migrate_snapshot_def validate_trailing_replay_def split: sum.splits)
  have numbered: "list_all (\<lambda>e. dse_session_sequence e \<noteq> None) es"
    using validated(2) [OF assms(1)] by (auto simp: list_all_iff well_placed_def)
  obtain final where final: "replay_snapshot sx migrated es = Inr final"
    "map sa_agent_id (dss_agents final) = map sa_agent_id (dss_agents snapshot)"
    "dss_session_sequence final = last (dss_session_sequence snapshot # sequences es)"
    "\<And>agent st. ?known (dss_agents snapshot) agent = Some st \<Longrightarrow>
       ?known (dss_agents final) agent = Some (status_after st (changes agent es))"
    using replay_ok [OF numbered, of migrated sx] validated(4) [OF assms(1)] assms(3,4) m(2,3) same
    by auto
  have "\<exists>b\<in>set (dss_agents final). sa_agent_id b = sa_agent_id a
      \<and> sa_status b = status_after (sa_status a) (changes (sa_agent_id a) es)"
    if "a \<in> set (dss_agents snapshot)" for a
  proof -
    have "?known (dss_agents snapshot) (sa_agent_id a) = Some (sa_status a)"
      using that assms(3) by (simp add: known_statuses_def comp_def map_of_eq_Some_iff)
    from map_of_SomeD [OF final(4) [OF this]] show ?thesis
      by (auto simp: known_statuses_def)
  qed
  then show ?thesis
    using m(1) final(1-3) by blast
qed

theorem validated_session_restores_witness:
  "\<exists>migrated final. migrate_snapshot (example_snapshot Idle) = Inr migrated
   \<and> replay_snapshot example_sx migrated (ss_events example_session) = Inr final
   \<and> dss_session_sequence final = 1
   \<and> (\<exists>b\<in>set (dss_agents final). sa_status b = PreparingContext)"
  using validated_session_restores [OF example_session_valid, of "example_snapshot Idle"]
  by (auto simp: example_session_def example_snapshot_def example_stored_agent_def example_durable_def
      example_envelope_def List.map_filter_simps changes_Cons changes_Nil)

text \<open>
  C24: loading a session returns what was stored. After any appends and snapshots of any sessions,
  loading one of them gives its last snapshot and its durable events in the order of their sequences,
  without those the snapshot covers. When a crash then cuts the next write off, loading gives the
  same as long as the part in the file is UTF-8; when the cut is inside a character, loading fails
  with an I/O error.
\<close>
theorem session_file_round_trip:
  assumes "codec_on sx (set (records_of sid rs))" "records_of sid rs \<noteq> []"
    and "store_all sx rs (\<lambda>_. None) = files"
    and "is_stored part" "record_session part = sid" "torn sx (take n (sx_print sx part))"
    and "store_record sx part (Torn n io) files = (files', result)"
  shows "load_session sx sid files = Inr (what_was_stored sid rs) \<and> result = Inl io
    \<and> load_session sx sid files' =
        (if valid_utf8 (take n (sx_print sx part)) then Inr (what_was_stored sid rs)
         else Inl invalid_utf8_error)"
proof -
  let ?lines = "concat (map (record_line sx) (records_of sid rs))"
  have stored: "files sid = Some ?lines"
    using store_all_file [of sx rs "\<lambda>_. None" sid] assms(2,3) by (simp add: written_records)
  then have "files' sid = Some (?lines @ take n (sx_print sx part))" "result = Inl io"
    using assms(4,5,7) by (auto simp: store_record_stored write_through_def)
  moreover have "torn sx []" by (simp add: torn_def trim_end_def)
  ultimately show ?thesis
    using load_written [OF assms(1,2)] assms(6) stored by simp
qed

text \<open>A snapshot and an event of the example session, then the start of another event.\<close>

theorem session_file_round_trip_witness:
  "\<exists>files files' result.
     store_all example_sx [Rec_Snapshot (example_snapshot Idle), example_record] (\<lambda>_. None) = files
   \<and> store_record example_sx example_record (Torn 1 (Store_Io ''crash'')) files = (files', result)
   \<and> load_session example_sx 1 files' = Inr example_session"
proof -
  let ?rs = "[Rec_Snapshot (example_snapshot Idle), example_record]"
  obtain files' result where cut_off: "store_record example_sx example_record (Torn 1 (Store_Io ''crash''))
      (store_all example_sx ?rs (\<lambda>_. None)) = (files', result)" by fastforce
  have of_session: "records_of 1 ?rs = ?rs" "record_session example_record = 1" "is_stored example_record"
    by (simp_all add: records_of_def example_record_def example_durable_def example_envelope_def example_snapshot_def)
  have part: "trim_end ''{'' = ''{''" "valid_utf8 ''{''" by code_simp+
  have brace: "take 1 (sx_print example_sx example_record) = ''{''"
    by (simp add: example_sx_def example_record_def)
  then have "torn example_sx (take 1 (sx_print example_sx example_record))"
    using part by (simp add: torn_def example_sx_def)
  moreover have "codec_on example_sx (set (records_of 1 ?rs))"
    using example_codec by (simp add: of_session insert_commute)
  moreover have "what_was_stored 1 ?rs = example_session"
    unfolding what_was_stored_def of_session(1)
    by (simp add: example_session_def last_opt_def snapshots_of_def events_of_def
        List.map_filter_simps example_record_def example_durable_def example_snapshot_def)
  ultimately have "load_session example_sx 1 files' = Inr example_session"
    using session_file_round_trip [OF _ _ refl of_session(3,2) _ cut_off] part(2) brace of_session(1) by simp
  then show ?thesis using cut_off by blast
qed

text \<open>
  C27: The first append after a crash in the middle of another one makes the session unreadable. It
  is written straight behind the cut-off line, so both end up on one line that is no record, and a
  line that ends in a newline is no longer taken for a cut-off one (when the cut was inside a
  character, the line is not UTF-8 and cannot be read at all). The append is acknowledged.
\<close>
theorem torn_append_corrupts:
  assumes "codec_on sx (set rs)" "rs \<noteq> []"
    and "newline_char \<notin> set (sx_print sx part)" "newline_char \<notin> set (sx_print sx r)"
    and "joined = take n (sx_print sx part) @ sx_print sx r" "joined \<noteq> []"
    and "trim_end (joined @ [newline_char]) = joined" and "sx_parse sx joined = Inl e"
  shows "\<exists>f. write_through sx r Acknowledged
      (fst (write_through sx part (Torn n io) (fold (write_record sx) rs None))) = (f, Inr ())
    \<and> read_records sx path sid f
        = Inl (if valid_utf8 joined then Store_InvalidState (''corrupt jsonl record in '' @ path @ '': '' @ e)
               else invalid_utf8_error)"
proof -
  have "newline_char \<notin> set joined"
    using assms(3-5) by (auto dest: in_set_takeD)
  from read_joined [OF assms(1) this assms(7,6,8)] show ?thesis
    using assms(2,5) by (simp add: write_through_def write_record_def written_records)
qed

theorem torn_append_corrupts_witness:
  "\<exists>f. write_through example_sx example_record Acknowledged
     (fst (write_through example_sx example_record (Torn 1 (Store_Io ''crash''))
       (write_record example_sx example_record None))) = (f, Inr ())
   \<and> read_records example_sx ''s.jsonl'' 1 f
     = Inl (Store_InvalidState ''corrupt jsonl record in s.jsonl: eof'')"
proof -
  have "trim_end (''{{e}'' @ [newline_char]) = ''{{e}''" "valid_utf8 ''{{e}''"
    by code_simp+
  then show ?thesis
    using torn_append_corrupts [of example_sx "[example_record]" example_record example_record
        "''{{e}''" 1 "''eof''" "Store_Io ''crash''" "''s.jsonl''" 1] example_codec
    by (simp add: example_sx_def codec_on_def example_record_def)
qed

text \<open>
  C25: The commits of a session number its events without a gap: the event at position \<open>k\<close> gets the
  first number plus \<open>k\<close>, whether or not earlier events were durable and whether or not their writes
  succeeded, as long as the numbers fit. So no two committed events of a process share a number.
\<close>
theorem commits_numbered_in_order:
  assumes "next_number sx r n" "list_all (\<lambda>(envelope, _). env_event_id envelope \<noteq> 0) inputs"
    and "unat n + length inputs < 2 ^ 64" and "commit_all sx inputs r = (r', results)"
  shows "length results = length inputs
    \<and> (\<forall>k ce. k < length results \<and> results ! k = Inr ce
         \<longrightarrow> env_session_sequence (ce_envelope ce) = Some (n + of_nat k))
    \<and> next_number sx r' (n + of_nat (length inputs))"
  using commit_all_numbered [OF assms] by blast

definition fresh_commits :: commit_run where
  "fresh_commits = \<lparr>cr_committer = committer_new 1, cr_files = (\<lambda>_. None), cr_checkpoints = []\<rparr>"

lemma nothing_stored: "current_sequence example_sx 1 (\<lambda>_. None) = Inr 0"
  by (simp add: current_sequence_def store_read_def read_records_def)

theorem commits_numbered_in_order_witness:
  "\<exists>r' results. commit_all example_sx
     [(example_envelope 5 (AssistantTextDelta 3 ''hi'') None, Acknowledged),
      (example_envelope 6 (RunStarted 2) None, Torn 0 (Store_Io ''full''))] fresh_commits = (r', results)
   \<and> next_number example_sx r' 3"
proof -
  let ?inputs = "[(example_envelope 5 (AssistantTextDelta 3 ''hi'') None, Acknowledged),
      (example_envelope 6 (RunStarted 2) None, Torn 0 (Store_Io ''full''))]"
  obtain r' results where run: "commit_all example_sx ?inputs fresh_commits = (r', results)"
    by (metis surj_pair)
  have "next_number example_sx fresh_commits 1"
    by (simp add: next_number_def fresh_commits_def committer_new_def nothing_stored)
  from commits_numbered_in_order [OF this _ _ run] show ?thesis
    using run by (simp add: example_envelope_def)
qed

text \<open>
  A number that was published is given out again after a restart. The store knows only the
  durable events, so a committer that starts over gives the first event the number of an event that
  was shown to clients but not stored. A client that asks for what came after the number it saw last
  never gets the new event.
\<close>
theorem restart_reuses_sequence:
  assumes "current_sequence sx sid f = Inr c"
    and "env_event_id shown \<noteq> 0" "\<not> is_durable (env_event shown)" "env_event_id kept \<noteq> 0"
    and "commit sx shown outcome1
      \<lparr>cr_committer = committer_new sid, cr_files = f, cr_checkpoints = []\<rparr> = (r1, Inr published)"
    and "commit sx kept outcome2
      \<lparr>cr_committer = committer_new sid, cr_files = cr_files r1, cr_checkpoints = []\<rparr> = (r2, Inr stored)"
  shows "env_session_sequence (ce_envelope published) = Some (saturating_add c 1)
    \<and> env_session_sequence (ce_envelope stored) = env_session_sequence (ce_envelope published)"
proof -
  have start: "next_number sx \<lparr>cr_committer = committer_new sid, cr_files = f, cr_checkpoints = []\<rparr>
      (saturating_add c 1)"
    using assms(1) by (simp add: next_number_def committer_new_def)
  have "cr_files r1 = f"
    using assms(2,3,5) by (auto simp: commit_def Let_def split: prod.splits sum.splits)
  then show ?thesis
    using commit_numbered(2) [OF start assms(2,5) refl] commit_numbered(2) [OF start assms(4)] assms(6)
    by auto
qed

lemma commit_succeeds:
  "env_event_id envelope \<noteq> 0 \<Longrightarrow> \<exists>r published.
     commit example_sx envelope Acknowledged fresh_commits = (r, Inr published)"
  by (auto simp: commit_def fresh_commits_def committer_new_def next_sequence_def nothing_stored Let_def
      store_append_def write_through_def split: prod.split)

theorem restart_reuses_sequence_witness:
  "\<exists>r1 published r2 stored.
     commit example_sx (example_envelope 5 (AssistantTextDelta 3 ''hi'') None) Acknowledged fresh_commits
       = (r1, Inr published)
   \<and> commit example_sx (example_envelope 6 (RunStarted 2) None) Acknowledged
       \<lparr>cr_committer = committer_new 1, cr_files = cr_files r1, cr_checkpoints = []\<rparr> = (r2, Inr stored)
   \<and> env_session_sequence (ce_envelope published) = Some 1
   \<and> env_session_sequence (ce_envelope stored) = Some 1"
proof -
  let ?shown = "example_envelope 5 (AssistantTextDelta 3 ''hi'') None"
  let ?kept = "example_envelope 6 (RunStarted 2) None"
  obtain r1 published where one: "commit example_sx ?shown Acknowledged fresh_commits = (r1, Inr published)"
    using commit_succeeds [of ?shown] by (auto simp: example_envelope_def)
  have "cr_files r1 = (\<lambda>_. None)"
    using one by (auto simp: commit_def example_envelope_def fresh_commits_def Let_def
        split: prod.splits sum.splits)
  moreover obtain r2 stored where two: "commit example_sx ?kept Acknowledged fresh_commits = (r2, Inr stored)"
    using commit_succeeds [of ?kept] by (auto simp: example_envelope_def)
  ultimately show ?thesis
    using restart_reuses_sequence [OF nothing_stored, of ?shown ?kept Acknowledged r1 published Acknowledged r2 stored]
      one two by (auto simp: fresh_commits_def example_envelope_def)
qed

text \<open>
  C26: Cancelling or failing a run and starting the next one makes a session that cannot be restored
  until the next checkpoint. A run that starts on a cancelled or failed agent reports a change of
  its status, and the validation takes those statuses for final: whatever the run emits, the
  snapshot that has the agent's status and the durable events of the new run are rejected.
\<close>
theorem run_after_stop_not_restorable:
  assumes "status a \<in> {Cancelled, Failed}" and "active_run a = None"
    and "agent_apply ax a (StartRun input) = (b, es)"
    and "map_of (snapshot_statuses stored) (ag_id a) = Some (status a)"
    and "\<forall>e\<in>set (ss_events stored). env_agent_id (dse_envelope e) = ag_id a"
    and "map (env_event \<circ> dse_envelope) (ss_events stored) = filter is_durable (emitted es)"
  shows "\<exists>err. validate_trailing_replay sx gaps stored = Inl err"
proof (cases "validate_trailing_replay sx gaps stored")
  case (Inr fs)
  have "reports_change es"
    using assms(2,3) start_run_reports by (simp add: start_or_queue_def)
  then obtain from' to where "StateChanged from' to \<in> set (filter is_durable (emitted es))"
    by (force simp: reports_change_def emitted_def List.map_filter_def)
  then have "changes (ag_id a) (ss_events stored) \<noteq> []"
    using changes_empty_iff [OF assms(5)] assms(6) by metis
  moreover have "legal (Some (status a)) (changes (ag_id a) (ss_events stored))"
    using validated(1,4) [OF Inr] assms(4) by metis
  ultimately show ?thesis
    using assms(1) by (auto simp: legal_terminal is_terminal_status_def)
qed blast

theorem run_after_stop_not_restorable_witness:
  "\<exists>err. validate_trailing_replay example_sx AllowEphemeralHoles
     \<lparr>ss_session_id = 1, ss_snapshot = Some (example_snapshot Cancelled),
      ss_events = map (\<lambda>event. example_durable 1 event 1)
        (filter is_durable (emitted (snd (agent_apply example_ax
          (fst (agent_apply example_ax example_running Cancel)) (StartRun (example_input ''again''))))))\<rparr>
     = Inl err"
proof -
  let ?a = "fst (agent_apply example_ax example_running Cancel)"
  have a: "status ?a = Cancelled" "active_run ?a = None" "ag_id ?a = 7"
    unfolding example_cancelled by (simp_all add: example_running_def example_agent_def agent_new_def)
  obtain b es where run: "agent_apply example_ax ?a (StartRun (example_input ''again'')) = (b, es)"
    by fastforce
  show ?thesis
    using run_after_stop_not_restorable [OF _ a(2) run] a(1,3) run
    by (simp add: snapshot_statuses_def example_snapshot_def example_stored_agent_def
        example_durable_def example_envelope_def comp_def)
qed

text \<open>
  A compaction plan never proposes to prune what a replay still needs: what it proposes to prune
  is covered by the snapshot, and every trailing event of a validated session stays.
\<close>
theorem pruning_keeps_replay:
  assumes "validate_trailing_replay sx gaps stored = Inr es" and "ss_snapshot stored = Some snapshot"
  shows "prune_plan stored (cp_prune_through (plan_compaction stored policy))
      = Inr (saturating_add (cp_prune_through (plan_compaction stored policy)) 1)
    \<and> (\<forall>q\<in>set (sequences es). cp_prune_through (plan_compaction stored policy) < q)"
proof -
  have le: "cp_prune_through (plan_compaction stored policy) \<le> dss_session_sequence snapshot"
    by (simp add: plan_compaction_def idle_plan_def Let_def assms(2))
  have "successively (follows gaps) (dss_session_sequence snapshot # sequences es)"
    using validated(3) [OF assms(1)] assms(2) by (simp add: validate_events_iff)
  then have "successively (<) (dss_session_sequence snapshot # sequences es)"
    by (rule successively_mono) (simp add: follows_def)
  then have "sorted_wrt (<) (dss_session_sequence snapshot # sequences es)"
    by (simp add: successively_iff_sorted_wrt_strong)
  with le show ?thesis
    by (auto simp: prune_plan_def assms(2) intro: le_less_trans)
qed

theorem pruning_keeps_replay_witness:
  "prune_plan example_session (cp_prune_through (plan_compaction example_session
     \<lparr>rp_max_trailing_events = 1, rp_keep_full_history = False\<rparr>)) = Inr 1"
  using pruning_keeps_replay [OF example_session_valid, of "example_snapshot Idle"
      "\<lparr>rp_max_trailing_events = 1, rp_keep_full_history = False\<rparr>"]
  by (simp add: example_session_def plan_compaction_def example_snapshot_def Let_def
      List.map_filter_simps idle_plan_def example_durable_def)

end
