(* ===== verification/Model_Backend.thy ===== *)
theory Model_Backend
  imports Protocol
begin

text \<open>
  The provider-neutral model backend (\<open>crates/model-backend\<close>): which errors are transient
  (\<open>events.rs\<close>), the circuit breaker, one provider call, whether and when to retry, and a request
  from admission to its one terminal event (\<open>backend/*.rs\<close>). The provider, the clock and the
  cancellation of a request are its inputs. Durations and instants are nanoseconds.
\<close>

section \<open>Results, errors and requests (events.rs, request.rs)\<close>

type_synonym duration = nat
type_synonym instant = nat

record 'd model_result =
  mr_stop_reason :: string
  mr_usage :: model_usage
  mr_cost :: "'d cost"

datatype model_error =
    M_BackendError string string
  | M_RateLimited "duration option"
  | M_InvalidRequest string
  | M_Cancelled
  | M_Timeout
  | M_CircuitOpen duration
  | M_Protocol string
  | M_StreamInterrupted string
  | M_UnsupportedCapability string string

datatype 'd model_event =
    M_TextDelta string
  | M_ReasoningDelta string
  | M_ToolCallStarted tool_call_id string
  | M_ToolCallDelta tool_call_id string
  | M_ToolCallCompleted tool_call_id string json
  | M_UsageUpdate model_usage
  | M_Completed "'d model_result"
  | M_Error model_error

record model_request =
  mq_system_prompt :: string
  mq_messages :: "agent_message list"
  mq_tools :: "tool_descriptor list"
  mq_model :: "string option"
  mq_max_tokens :: "u64 option"
  mq_temperature :: "f64 option"
  mq_stop_sequences :: "string list"
  mq_extended_thinking :: bool
  mq_reasoning_effort :: "reasoning_effort option"
  mq_response_format :: "response_format option"
  mq_provider_options :: json
  mq_cache_key :: "string option"

text \<open>\<open>str::parse::<u16>\<close>: digits after an optional plus sign, within range.\<close>

definition digit_value :: "char \<Rightarrow> nat" where
  "digit_value c = of_char c - 48"

definition is_digit :: "char \<Rightarrow> bool" where
  "is_digit c \<longleftrightarrow> 48 \<le> (of_char c :: nat) \<and> (of_char c :: nat) \<le> 57"

definition parse_u16 :: "string \<Rightarrow> nat option" where
  "parse_u16 s =
     (let digits = (if s \<noteq> [] \<and> hd s = CHR ''+'' then tl s else s);
          n = fold (\<lambda>c n. 10 * n + digit_value c) digits 0
      in if digits \<noteq> [] \<and> list_all is_digit digits \<and> n < 2 ^ 16 then Some n else None)"

fun is_retryable :: "model_error \<Rightarrow> bool" where
  "is_retryable (M_RateLimited _) = True"
| "is_retryable M_Timeout = True"
| "is_retryable (M_StreamInterrupted _) = True"
| "is_retryable (M_BackendError message code) =
     (code = ''request_failed'' \<or> code = ''408''
      \<or> code \<in> set [''server_is_overloaded'', ''service_unavailable_error'', ''server_error'',
           ''internal_server_error'', ''slow_down'']
      \<or> is_some_and (\<lambda>status. 500 \<le> status \<and> status < 600) (parse_u16 code))"
| "is_retryable _ = False"

fun retry_after :: "model_error \<Rightarrow> duration option" where
  "retry_after (M_RateLimited delay) = delay"
| "retry_after _ = None"

section \<open>Settings (backend.rs)\<close>

record recovery_policy =
  rec_max_attempts :: nat
  rec_first_event_timeout :: duration
  rec_idle_timeout :: duration
  rec_circuit_failure_threshold :: u32
  rec_circuit_open_duration :: duration

abbreviation seconds :: "nat \<Rightarrow> duration" where
  "seconds n \<equiv> n * 10 ^ 9"

abbreviation millis :: "nat \<Rightarrow> duration" where
  "millis n \<equiv> n * 10 ^ 6"

definition default_recovery :: recovery_policy where
  "default_recovery =
     \<lparr>rec_max_attempts = 2, rec_first_event_timeout = seconds 180, rec_idle_timeout = seconds 120,
      rec_circuit_failure_threshold = 3, rec_circuit_open_duration = seconds 30\<rparr>"

section \<open>The circuit breaker (circuit.rs)\<close>

record circuit_state =
  cs_consecutive_failures :: u32
  cs_open_until :: "instant option"
  cs_half_open_probe_in_flight :: bool

definition default_circuit :: circuit_state where
  "default_circuit =
     \<lparr>cs_consecutive_failures = 0, cs_open_until = None, cs_half_open_probe_in_flight = False\<rparr>"

record circuit_breaker =
  cb_state :: circuit_state
  cb_failure_threshold :: u32
  cb_open_duration :: duration

definition circuit_new :: "recovery_policy \<Rightarrow> circuit_breaker" where
  "circuit_new recovery =
     \<lparr>cb_state = default_circuit, cb_failure_threshold = rec_circuit_failure_threshold recovery,
      cb_open_duration = rec_circuit_open_duration recovery\<rparr>"

definition allow_request :: "instant \<Rightarrow> circuit_breaker \<Rightarrow> circuit_breaker \<times> (model_error + unit)" where
  "allow_request now cb =
     (let st = cb_state cb
      in case cs_open_until st of
           None \<Rightarrow> (cb, Inr ())
         | Some open_until \<Rightarrow>
             if now < open_until then (cb, Inl (M_CircuitOpen (open_until - now)))
             else if cs_half_open_probe_in_flight st then (cb, Inl (M_CircuitOpen (cb_open_duration cb)))
             else (cb\<lparr>cb_state := st\<lparr>cs_half_open_probe_in_flight := True\<rparr>\<rparr>, Inr ()))"

definition record_success :: "circuit_breaker \<Rightarrow> circuit_breaker" where
  "record_success cb = cb\<lparr>cb_state := default_circuit\<rparr>"

definition record_failure :: "instant \<Rightarrow> model_error \<Rightarrow> circuit_breaker \<Rightarrow> circuit_breaker" where
  "record_failure now error cb =
     (let st = (cb_state cb)\<lparr>cs_half_open_probe_in_flight := False\<rparr>
      in if \<not> is_retryable error then cb\<lparr>cb_state := st\<rparr>
         else
           (let st = st\<lparr>cs_consecutive_failures := cs_consecutive_failures st + 1\<rparr>
            in cb\<lparr>cb_state :=
                 (if cb_failure_threshold cb \<le> cs_consecutive_failures st
                  then st\<lparr>cs_open_until := Some (now + cb_open_duration cb)\<rparr> else st)\<rparr>))"

text \<open>
  The breaker is shared by all requests of a backend, behind a mutex. What a request calls on it
  after its admission is kept as a list, so that the calls of several requests can interleave.
\<close>

datatype circuit_call = Record_Success | Record_Failure instant model_error

fun circuit_apply :: "circuit_call \<Rightarrow> circuit_breaker \<Rightarrow> circuit_breaker" where
  "circuit_apply Record_Success cb = record_success cb"
| "circuit_apply (Record_Failure now error) cb = record_failure now error cb"

definition circuit_is_open :: "circuit_breaker \<Rightarrow> bool" where
  "circuit_is_open cb \<longleftrightarrow> cs_open_until (cb_state cb) \<noteq> None"

section \<open>Capabilities (capabilities.rs)\<close>

record model_backend =
  mb_name :: string
  mb_capabilities :: backend_capabilities
  mb_recovery :: recovery_policy

definition unsupported :: "model_backend \<Rightarrow> string \<Rightarrow> string \<Rightarrow> model_error" where
  "unsupported backend capability what =
     M_UnsupportedCapability capability (mb_name backend @ '' '' @ what)"

definition check_reasoning_capability :: "model_backend \<Rightarrow> execution_request \<Rightarrow> model_error option" where
  "check_reasoning_capability backend request =
     (if (req_extended_thinking request \<or> ep_reasoning_effort (req_params request) \<noteq> None)
         \<and> \<not> bc_reasoning_stream (mb_capabilities backend)
      then Some (unsupported backend ''reasoning'' ''does not support reasoning/extended thinking'')
      else None)"

fun is_image :: "content_block \<Rightarrow> bool" where
  "is_image (Image _ _) = True"
| "is_image _ = False"

definition check_image_capability :: "model_backend \<Rightarrow> execution_request \<Rightarrow> model_error option" where
  "check_image_capability backend request =
     (if list_ex (\<lambda>m. list_ex is_image (msg_content m)) (req_messages request)
         \<and> \<not> bc_images (mb_capabilities backend)
      then Some (unsupported backend ''images'' ''does not support image input'') else None)"

definition check_tool_capability :: "model_backend \<Rightarrow> execution_request \<Rightarrow> model_error option" where
  "check_tool_capability backend request =
     (if req_tools request \<noteq> [] \<and> \<not> bc_tool_calls (mb_capabilities backend)
      then Some (unsupported backend ''tool_calls'' ''does not support tool calls'') else None)"

definition plain_text :: "response_format option \<Rightarrow> bool" where
  "plain_text format \<longleftrightarrow> format \<in> {None, Some RF_Text}"

definition check_structured_output_capability ::
    "model_backend \<Rightarrow> execution_request \<Rightarrow> model_error option" where
  "check_structured_output_capability backend request =
     (if \<not> plain_text (ep_response_format (req_params request))
         \<and> \<not> bc_structured_output (mb_capabilities backend)
      then Some (unsupported backend ''structured_output'' ''cannot constrain its response format'')
      else None)"

definition check_capabilities :: "model_backend \<Rightarrow> execution_request \<Rightarrow> model_error option" where
  "check_capabilities backend request =
     or_opt (check_reasoning_capability backend request)
       (or_opt (check_image_capability backend request)
         (or_opt (check_tool_capability backend request)
           (check_structured_output_capability backend request)))"

section \<open>Conversion (convert.rs)\<close>

definition to_execution_result :: "request_id \<Rightarrow> 'd model_result \<Rightarrow> 'd execution_result" where
  "to_execution_result rid result =
     \<lparr>er_request_id = rid, er_usage = mr_usage result, er_cost = mr_cost result,
      er_finish_reason =
        (if mr_stop_reason result \<in> {''tool_calls'', ''function_call''} then ''tool_use''
         else mr_stop_reason result)\<rparr>"

definition whole_seconds_rounded_up :: "duration \<Rightarrow> u64" where
  "whole_seconds_rounded_up delay =
     (let ms = (of_nat (min (delay div 10 ^ 6) (2 ^ 64 - 1)) :: u64)
      in saturating_add ms 999 div 1000)"

fun to_execution_error :: "model_error \<Rightarrow> execution_error" where
  "to_execution_error (M_BackendError message code) = BackendError message code"
| "to_execution_error (M_RateLimited delay) = RateLimited (map_option whole_seconds_rounded_up delay)"
| "to_execution_error (M_InvalidRequest message) = InvalidRequest message"
| "to_execution_error M_Cancelled = EE_Cancelled"
| "to_execution_error M_Timeout = EE_Timeout"
| "to_execution_error (M_CircuitOpen delay) =
     BackendError (''provider circuit is open; retry after '' @ show_nat (delay div 10 ^ 6) @ '' ms'')
       ''CIRCUIT_OPEN''"
| "to_execution_error (M_Protocol message) = BackendError message ''PROTOCOL_ERROR''"
| "to_execution_error (M_StreamInterrupted message) = BackendError message ''STREAM_INTERRUPTED''"
| "to_execution_error (M_UnsupportedCapability capability detail) = UnsupportedCapability capability detail"

definition terminal_event ::
    "request_id \<Rightarrow> execution_error + 'd execution_result \<Rightarrow> 'd execution_event" where
  "terminal_event rid result =
     (case result of Inr r \<Rightarrow> EE_Completed rid r | Inl e \<Rightarrow> EE_Error rid e)"

section \<open>One provider call (stream.rs)\<close>

record attempt_progress =
  ap_text :: string
  ap_requested_tools :: bool
  ap_emitted_output :: bool

definition no_progress :: attempt_progress where
  "no_progress = \<lparr>ap_text = [], ap_requested_tools = False, ap_emitted_output = False\<rparr>"

datatype 'd attempt_exit =
    Exit_Completed "'d model_result"
  | Exit_Error model_error
  | Exit_Closed
  | Exit_Cancelled
  | Exit_TimedOut

text \<open>
  What a provider call comes to: the events that arrive, what happens when no more do (the channel
  closes with the result of the client's task or its panic, the request is cancelled, or the
  deadline passes), and what is looked up afterwards.
\<close>

record 'd attempt_input =
  ai_events :: "'d model_event list"
  ai_last :: "'d attempt_exit"
  ai_task :: "string + (model_error + 'd model_result)"
  ai_cancelled :: bool
  ai_ended_at :: instant
  ai_subsec_millis :: nat
  ai_delay_elapsed :: bool
  ai_message_ids :: "message_id \<times> message_id"
  ai_message_times :: "timestamp \<times> timestamp"

fun event_produces_output :: "'d model_event \<Rightarrow> bool" where
  "event_produces_output (M_TextDelta _) = True"
| "event_produces_output (M_ReasoningDelta _) = True"
| "event_produces_output (M_ToolCallCompleted _ _ _) = True"
| "event_produces_output (M_UsageUpdate _) = True"
| "event_produces_output _ = False"

fun translate_event :: "request_id \<Rightarrow> 'd model_event \<Rightarrow> 'd execution_event list" where
  "translate_event rid (M_TextDelta delta) = [TextDelta rid delta]"
| "translate_event rid (M_ReasoningDelta delta) = [ReasoningDelta rid delta]"
| "translate_event rid (M_ToolCallCompleted cid name input) =
     [EE_ToolCallRequested rid \<lparr>call_id = cid, call_name = name, call_arguments = input\<rparr>]"
| "translate_event rid (M_UsageUpdate usage) = [UsageUpdate rid usage]"
| "translate_event rid _ = []"

fun is_completed_call :: "'d model_event \<Rightarrow> bool" where
  "is_completed_call (M_ToolCallCompleted _ _ _) = True"
| "is_completed_call _ = False"

fun delta_text :: "'d model_event \<Rightarrow> string" where
  "delta_text (M_TextDelta delta) = delta"
| "delta_text _ = []"

definition with_tool_use :: "bool \<Rightarrow> 'd model_result \<Rightarrow> 'd model_result" where
  "with_tool_use requested_tools result =
     (if requested_tools then result\<lparr>mr_stop_reason := ''tool_use''\<rparr> else result)"

definition process_attempt_event ::
    "request_id \<Rightarrow> 'd model_event \<Rightarrow> attempt_progress
      \<Rightarrow> attempt_progress \<times> 'd execution_event list \<times> 'd attempt_exit option" where
  "process_attempt_event rid event progress =
     (case event of
        M_Completed result \<Rightarrow>
          (progress, [], Some (Exit_Completed (with_tool_use (ap_requested_tools progress) result)))
      | M_Error error \<Rightarrow> (progress, [], Some (Exit_Error error))
      | _ \<Rightarrow>
          (\<lparr>ap_text = ap_text progress @ delta_text event,
            ap_requested_tools = (ap_requested_tools progress \<or> is_completed_call event),
            ap_emitted_output = (ap_emitted_output progress \<or> event_produces_output event)\<rparr>,
           translate_event rid event, None))"

fun receive_attempt_events ::
    "request_id \<Rightarrow> 'd attempt_exit \<Rightarrow> 'd model_event list \<Rightarrow> attempt_progress
      \<Rightarrow> attempt_progress \<times> 'd execution_event list \<times> 'd attempt_exit" where
  "receive_attempt_events rid last_exit [] progress = (progress, [], last_exit)"
| "receive_attempt_events rid last_exit (event # events) progress =
     (let (progress, sent, exit) = process_attempt_event rid event progress
      in case exit of
           Some exit \<Rightarrow> (progress, sent, exit)
         | None \<Rightarrow>
             (let (progress, more, exit) = receive_attempt_events rid last_exit events progress
              in (progress, sent @ more, exit)))"

definition finish_closed_attempt ::
    "string + (model_error + 'd model_result) \<Rightarrow> bool \<Rightarrow> model_error + 'd model_result" where
  "finish_closed_attempt task requested_tools =
     map_sum (\<lambda>e. e) (with_tool_use requested_tools)
       (case task of
          Inr result \<Rightarrow> result
        | Inl panic \<Rightarrow> Inl (M_BackendError (''model client task failed: '' @ panic) ''TASK_PANIC''))"

definition finish_attempt ::
    "'d attempt_exit \<Rightarrow> string + (model_error + 'd model_result) \<Rightarrow> bool \<Rightarrow> model_error + 'd model_result" where
  "finish_attempt exit task requested_tools =
     (case exit of
        Exit_Completed result \<Rightarrow> Inr result
      | Exit_Error error \<Rightarrow> Inl error
      | Exit_Closed \<Rightarrow> finish_closed_attempt task requested_tools
      | Exit_Cancelled \<Rightarrow> Inl M_Cancelled
      | Exit_TimedOut \<Rightarrow> Inl M_Timeout)"

definition run_attempt ::
    "request_id \<Rightarrow> 'd attempt_input
      \<Rightarrow> attempt_progress \<times> 'd execution_event list \<times> (model_error + 'd model_result)" where
  "run_attempt rid input =
     (let (progress, sent, exit) = receive_attempt_events rid (ai_last input) (ai_events input) no_progress
      in (progress, sent, finish_attempt exit (ai_task input) (ap_requested_tools progress)))"

section \<open>Retrying (retry.rs)\<close>

definition CONTINUE_INSTRUCTION :: string where
  "CONTINUE_INSTRUCTION = ''The response stream was interrupted. Continue exactly where your previous answer stopped. Output only the remaining text, without repeating earlier content or adding an introduction. Use the research and tool results already in this conversation; do not perform further tool calls.''"

datatype 'd attempt_decision =
    Decision_Completed "'d model_result"
  | Decision_Cancelled
  | Decision_Retry model_error
  | Decision_Failed model_error

definition should_retry ::
    "model_error \<Rightarrow> attempt_progress \<Rightarrow> response_format option \<Rightarrow> nat \<Rightarrow> nat \<Rightarrow> bool" where
  "should_retry error progress format attempt max_attempts \<longleftrightarrow>
     (\<not> ap_emitted_output progress
      \<or> (ap_text progress \<noteq> [] \<and> \<not> ap_requested_tools progress \<and> plain_text format))
   \<and> is_retryable error \<and> attempt < max_attempts"

definition classify_attempt ::
    "model_error + 'd model_result \<Rightarrow> bool \<Rightarrow> attempt_progress \<Rightarrow> response_format option \<Rightarrow> nat \<Rightarrow> nat
      \<Rightarrow> 'd attempt_decision" where
  "classify_attempt result cancelled progress format attempt max_attempts =
     (case result of
        Inr result \<Rightarrow> Decision_Completed result
      | Inl error \<Rightarrow>
          if cancelled \<or> error = M_Cancelled then Decision_Cancelled
          else if should_retry error progress format attempt max_attempts then Decision_Retry error
          else Decision_Failed error)"

text \<open>A shift by 64 or more is masked, as it is in a release build.\<close>

definition retry_base_ms :: "nat \<Rightarrow> u64" where
  "retry_base_ms attempt =
     (let factor = (push_bit ((attempt - 1) mod 2 ^ 32 mod 64) 1 :: u64)
      in if 250 * unat factor < 2 ^ 64 then 250 * factor else - 1)"

definition retry_delay :: "nat \<Rightarrow> nat \<Rightarrow> model_error \<Rightarrow> duration" where
  "retry_delay attempt subsec_millis error =
     (case retry_after error of
        Some delay \<Rightarrow> delay
      | None \<Rightarrow>
          (let base_ms = retry_base_ms attempt;
               jitter_ms = (of_nat subsec_millis :: u64) mod (base_ms div 2 + 1)
           in millis (unat (base_ms + jitter_ms))))"

definition append_interrupted_response ::
    "'d attempt_input \<Rightarrow> string \<Rightarrow> model_request \<Rightarrow> model_request" where
  "append_interrupted_response input partial request =
     request\<lparr>mq_messages := mq_messages request
         @ [\<lparr>msg_id = fst (ai_message_ids input), msg_role = Role_Assistant,
             msg_content = [Text partial], msg_created_at = fst (ai_message_times input)\<rparr>,
            \<lparr>msg_id = snd (ai_message_ids input), msg_role = Role_User,
             msg_content = [Text CONTINUE_INSTRUCTION], msg_created_at = snd (ai_message_times input)\<rparr>],
       mq_tools := []\<rparr>"

section \<open>A request (execution.rs)\<close>

definition prepare_model_request :: "(run_id \<Rightarrow> string) \<Rightarrow> execution_request \<Rightarrow> model_request" where
  "prepare_model_request fmt_uuid request =
     \<lparr>mq_system_prompt = req_system_prompt request, mq_messages = req_messages request,
      mq_tools = req_tools request, mq_model = ep_model (req_params request),
      mq_max_tokens = ep_max_tokens (req_params request),
      mq_temperature = ep_temperature (req_params request),
      mq_stop_sequences = ep_stop_sequences (req_params request),
      mq_extended_thinking = req_extended_thinking request,
      mq_reasoning_effort = ep_reasoning_effort (req_params request),
      mq_response_format = ep_response_format (req_params request),
      mq_provider_options = ep_provider_options (req_params request),
      mq_cache_key = Some (fmt_uuid (req_run_id request))\<rparr>"

definition attempt_once ::
    "recovery_policy \<Rightarrow> request_id \<Rightarrow> nat \<Rightarrow> model_request \<Rightarrow> 'd attempt_input
      \<Rightarrow> attempt_progress \<times> 'd execution_event list \<times> 'd attempt_decision" where
  "attempt_once recovery rid attempt request input =
     (let (progress, sent, result) = run_attempt rid input
      in (progress, sent, classify_attempt result (ai_cancelled input) progress
            (mq_response_format request) attempt (rec_max_attempts recovery)))"

definition settle_decision ::
    "request_id \<Rightarrow> instant \<Rightarrow> 'd attempt_decision
      \<Rightarrow> circuit_call list \<times> (execution_error + 'd execution_result)" where
  "settle_decision rid now decision =
     (case decision of
        Decision_Completed result \<Rightarrow> ([Record_Success], Inr (to_execution_result rid result))
      | Decision_Cancelled \<Rightarrow> ([], Inl EE_Cancelled)
      | Decision_Failed error \<Rightarrow> ([Record_Failure now error], Inl (to_execution_error error))
      | Decision_Retry error \<Rightarrow> ([Record_Failure now error], Inl (to_execution_error error)))"

definition prepare_retry ::
    "recovery_policy \<Rightarrow> model_error \<Rightarrow> nat \<Rightarrow> attempt_progress \<Rightarrow> 'd attempt_input \<Rightarrow> model_request
      \<Rightarrow> circuit_call list \<times> (execution_error + model_request)" where
  "prepare_retry recovery error attempt progress input request =
     (if rec_idle_timeout recovery \<le> retry_delay attempt (ai_subsec_millis input) error
      then ([Record_Failure (ai_ended_at input) error], Inl (to_execution_error error))
      else
        (let request = (if ap_text progress = [] then request
               else append_interrupted_response input (ap_text progress) request)
         in ([], if ai_delay_elapsed input then Inr request else Inl EE_Cancelled)))"

text \<open>
  What a request does: the events it sends, the requests to the provider, how many attempts it
  made, its result and its calls on the circuit breaker after it was admitted.
\<close>

record 'd request_run =
  rr_calls :: "circuit_call list"
  rr_sent :: "'d execution_event list"
  rr_requests :: "model_request list"
  rr_attempts :: nat
  rr_result :: "execution_error + 'd execution_result"

lemma classify_retry:
  assumes "classify_attempt result cancelled progress format attempt max_attempts = Decision_Retry e"
  shows "should_retry e progress format attempt max_attempts" "result = Inl e" "\<not> cancelled"
  using assms by (auto simp: classify_attempt_def split: sum.splits if_splits)

text \<open>\<open>inputs k\<close> is what provider call \<open>k\<close> comes to; the first one is 1.\<close>

function execute_attempts ::
    "recovery_policy \<Rightarrow> request_id \<Rightarrow> (nat \<Rightarrow> 'd attempt_input) \<Rightarrow> nat \<Rightarrow> model_request
      \<Rightarrow> 'd request_run" where
  "execute_attempts recovery rid inputs attempt request =
     (case attempt_once recovery rid attempt request (inputs attempt) of
        (progress, sent, Decision_Retry error) \<Rightarrow>
          (case prepare_retry recovery error attempt progress (inputs attempt) request of
             (calls, Inl e) \<Rightarrow>
               \<lparr>rr_calls = calls, rr_sent = sent, rr_requests = [request], rr_attempts = attempt,
                rr_result = Inl e\<rparr>
           | (calls, Inr next_request) \<Rightarrow>
               (let run = execute_attempts recovery rid inputs (attempt + 1) next_request
                in run\<lparr>rr_calls := calls @ rr_calls run, rr_sent := sent @ rr_sent run,
                       rr_requests := request # rr_requests run\<rparr>))
      | (progress, sent, decision) \<Rightarrow>
          (let (calls, result) = settle_decision rid (ai_ended_at (inputs attempt)) decision
           in \<lparr>rr_calls = calls, rr_sent = sent, rr_requests = [request], rr_attempts = attempt,
               rr_result = result\<rparr>))"
  by pat_completeness auto

termination
  by (relation "measure (\<lambda>(recovery, _, _, attempt, _). rec_max_attempts recovery - attempt)")
    (auto simp: attempt_once_def should_retry_def split: prod.splits dest!: sym [THEN classify_retry(1)]
      classify_retry(1))

declare execute_attempts.simps [simp del]

text \<open>A request as it comes: when, what its provider calls come to, and when it ends.\<close>

record 'd request_input =
  ri_request :: execution_request
  ri_at :: instant
  ri_inputs :: "nat \<Rightarrow> 'd attempt_input"
  ri_ended_at :: instant

definition reject_request :: "request_id \<Rightarrow> model_error \<Rightarrow> 'd request_run" where
  "reject_request rid error =
     (let result = Inl (to_execution_error error)
      in \<lparr>rr_calls = [], rr_sent = [terminal_event rid result], rr_requests = [], rr_attempts = 0,
          rr_result = result\<rparr>)"

text \<open>The breaker as the admission of the request leaves it, and what the request does from then on.\<close>

definition execute_request ::
    "(run_id \<Rightarrow> string) \<Rightarrow> model_backend \<Rightarrow> 'd request_input \<Rightarrow> circuit_breaker
      \<Rightarrow> circuit_breaker \<times> 'd request_run" where
  "execute_request fmt_uuid backend input cb =
     (let request = ri_request input; rid = req_request_id request
      in case check_capabilities backend request of
           Some error \<Rightarrow> (cb, reject_request rid error)
         | None \<Rightarrow>
             (let (cb, allowed) = allow_request (ri_at input) cb
              in case allowed of
                   Inl error \<Rightarrow> (cb, reject_request rid error)
                 | Inr _ \<Rightarrow>
                     (let run = execute_attempts (mb_recovery backend) rid (ri_inputs input) 1
                            (prepare_model_request fmt_uuid request);
                          timeout = (if rr_result run = Inl EE_Timeout
                                     then [Record_Failure (ri_ended_at input) M_Timeout] else [])
                      in (cb, run\<lparr>rr_calls := rr_calls run @ timeout,
                                  rr_sent := rr_sent run @ [terminal_event rid (rr_result run)]\<rparr>))))"

text \<open>
  Requests that run concurrently on one backend. A request arrives and is admitted or refused; from
  then on its calls on the breaker happen one by one, in their order, at any time and between those
  of the other requests. \<open>Recorded i\<close> is the next call of the request that came as number \<open>i\<close>. The
  effects are the requests that reach the provider.
\<close>

record backend_state =
  bk_circuit :: circuit_breaker
  bk_outstanding :: "circuit_call list list"

datatype 'd backend_event = Arrived "'d request_input" | Recorded nat

definition backend_new :: "model_backend \<Rightarrow> backend_state" where
  "backend_new backend = \<lparr>bk_circuit = circuit_new (mb_recovery backend), bk_outstanding = []\<rparr>"

fun backend_step ::
    "(run_id \<Rightarrow> string) \<Rightarrow> model_backend \<Rightarrow> backend_state \<Rightarrow> 'd backend_event
      \<Rightarrow> backend_state \<times> model_request list" where
  "backend_step fmt_uuid backend s (Arrived input) =
     (let (cb, run) = execute_request fmt_uuid backend input (bk_circuit s)
      in (\<lparr>bk_circuit = cb, bk_outstanding = bk_outstanding s @ [rr_calls run]\<rparr>, rr_requests run))"
| "backend_step fmt_uuid backend s (Recorded i) =
     (if length (bk_outstanding s) \<le> i then (s, [])
      else case bk_outstanding s ! i of
             [] \<Rightarrow> (s, [])
           | call # calls \<Rightarrow>
               (\<lparr>bk_circuit = circuit_apply call (bk_circuit s),
                 bk_outstanding = (bk_outstanding s)[i := calls]\<rparr>, []))"

end
