(* ===== verification/Backend_Properties.thy ===== *)
theory Backend_Properties
  imports Model_Backend
begin

text \<open>
  What the model backend promises: how often a provider is called for one request, that a retry
  never repeats what was shown, when the circuit breaker lets a request through, and where it counts
  or waits wrongly.
\<close>

section \<open>The attempts of a request\<close>

lemma execute_attempts_cases:
  obtains (stop) progress sent decision where
    "attempt_once recovery rid attempt request (inputs attempt) = (progress, sent, decision)"
    "\<And>e. decision \<noteq> Decision_Retry e"
    "execute_attempts recovery rid inputs attempt request =
       (let (calls, result) = settle_decision rid (ai_ended_at (inputs attempt)) decision
        in \<lparr>rr_calls = calls, rr_sent = sent, rr_requests = [request], rr_attempts = attempt,
            rr_result = result\<rparr>)"
  | (give_up) progress sent error calls e where
    "attempt_once recovery rid attempt request (inputs attempt) = (progress, sent, Decision_Retry error)"
    "prepare_retry recovery error attempt progress (inputs attempt) request = (calls, Inl e)"
    "execute_attempts recovery rid inputs attempt request =
       \<lparr>rr_calls = calls, rr_sent = sent, rr_requests = [request], rr_attempts = attempt,
        rr_result = Inl e\<rparr>"
  | (again) progress sent error calls next_request run where
    "attempt_once recovery rid attempt request (inputs attempt) = (progress, sent, Decision_Retry error)"
    "prepare_retry recovery error attempt progress (inputs attempt) request = (calls, Inr next_request)"
    "run = execute_attempts recovery rid inputs (attempt + 1) next_request"
    "execute_attempts recovery rid inputs attempt request =
       run\<lparr>rr_calls := calls @ rr_calls run, rr_sent := sent @ rr_sent run,
         rr_requests := request # rr_requests run\<rparr>"
proof -
  obtain progress sent decision where once:
    "attempt_once recovery rid attempt request (inputs attempt) = (progress, sent, decision)"
    by (metis prod_cases3)
  show thesis
  proof (cases "\<exists>error. decision = Decision_Retry error")
    case False
    then show thesis
      using once by (intro stop [OF once])
        (auto simp: execute_attempts.simps [of recovery rid inputs attempt] split: attempt_decision.split)
  next
    case True
    then obtain error where error: "decision = Decision_Retry error" by blast
    obtain calls r where prep:
      "prepare_retry recovery error attempt progress (inputs attempt) request = (calls, r)"
      by fastforce
    show thesis
    proof (cases r)
      case (Inl e)
      then show thesis
        using once error prep
        by (intro give_up) (auto simp: execute_attempts.simps [of recovery rid inputs attempt])
    next
      case (Inr next_request)
      then show thesis
        using once error prep
        by (intro again) (auto simp: execute_attempts.simps [of recovery rid inputs attempt] Let_def)
    qed
  qed
qed

lemma attempt_retry:
  assumes "attempt_once recovery rid attempt request input = (progress, sent, Decision_Retry error)"
  shows "should_retry error progress (mq_response_format request) attempt (rec_max_attempts recovery)"
    and "\<exists>result. run_attempt rid input = (progress, sent, result)"
  using assms by (auto simp: attempt_once_def split: prod.splits dest: classify_retry)

lemma prepare_retry_next:
  "prepare_retry recovery error attempt progress input request = (calls, Inr next_request) \<Longrightarrow>
     calls = [] \<and> next_request = (if ap_text progress = [] then request
       else append_interrupted_response input (ap_text progress) request)"
  by (auto simp: prepare_retry_def Let_def split: if_splits)

lemma prepare_retry_stop:
  "prepare_retry recovery error attempt progress input request = (calls, Inl e) \<Longrightarrow>
     (calls = [] \<and> e = EE_Cancelled)
   \<or> (calls = [Record_Failure (ai_ended_at input) error] \<and> e = to_execution_error error)"
  by (auto simp: prepare_retry_def Let_def split: if_splits)

lemma to_execution_error_plain:
  "to_execution_error error = EE_Cancelled \<longleftrightarrow> error = M_Cancelled"
  "to_execution_error error = EE_Timeout \<longleftrightarrow> error = M_Timeout"
  by (cases error; simp)+

lemma attempts_count:
  "1 \<le> attempt \<Longrightarrow>
   let run = execute_attempts recovery rid inputs attempt request
   in attempt \<le> rr_attempts run \<and> rr_attempts run \<le> max attempt (rec_max_attempts recovery)
    \<and> length (rr_requests run) = Suc (rr_attempts run) - attempt"
proof (induction recovery rid inputs attempt request rule: execute_attempts.induct)
  case (1 recovery rid inputs attempt request)
  show ?case
  proof (cases rule: execute_attempts_cases [of recovery rid attempt request inputs])
    case (stop progress sent decision)
    then show ?thesis by (simp add: Let_def split: prod.split)
  next
    case (give_up progress sent error calls e)
    then show ?thesis by (simp add: Let_def)
  next
    case (again progress sent error calls next_request run)
    have "attempt < rec_max_attempts recovery"
      using attempt_retry(1) [OF again(1)] by (simp add: should_retry_def)
    moreover have "let run = execute_attempts recovery rid inputs (attempt + 1) next_request
        in attempt + 1 \<le> rr_attempts run \<and> rr_attempts run \<le> max (attempt + 1) (rec_max_attempts recovery)
         \<and> length (rr_requests run) = Suc (rr_attempts run) - (attempt + 1)"
      using 1 again(1,2) by auto
    ultimately show ?thesis
      using again(3,4) by (auto simp: Let_def)
  qed
qed

lemma attempts_calls:
  "let run = execute_attempts recovery rid inputs attempt request
   in (rr_result run = Inl EE_Cancelled \<longrightarrow> rr_calls run = [])
    \<and> (rr_result run = Inl EE_Timeout \<longrightarrow> (\<exists>now. rr_calls run = [Record_Failure now M_Timeout]))"
proof (induction recovery rid inputs attempt request rule: execute_attempts.induct)
  case (1 recovery rid inputs attempt request)
  show ?case
  proof (cases rule: execute_attempts_cases [of recovery rid attempt request inputs])
    case (stop progress sent decision)
    have "decision \<noteq> Decision_Failed M_Cancelled"
      using stop(1) by (auto simp: attempt_once_def classify_attempt_def split: prod.splits sum.splits if_splits)
    then show ?thesis
      using stop(2,3) by (cases decision)
        (auto simp: settle_decision_def Let_def to_execution_error_plain)
  next
    case (give_up progress sent error calls e)
    have "error \<noteq> M_Cancelled"
      using attempt_retry(1) [OF give_up(1)] by (auto simp: should_retry_def)
    then show ?thesis
      using prepare_retry_stop [OF give_up(2)] give_up(3)
      by (auto simp: Let_def to_execution_error_plain)
  next
    case (again progress sent error calls next_request run)
    then show ?thesis
      using 1 prepare_retry_next [OF again(2)] by (auto simp: Let_def)
  qed
qed

text \<open>Text that arrived counts as output.\<close>

lemma process_keeps_text:
  assumes "process_attempt_event rid event p = (q, sent, exit)" "ap_text p \<noteq> [] \<longrightarrow> ap_emitted_output p"
  shows "ap_text q \<noteq> [] \<longrightarrow> ap_emitted_output q"
  using assms by (cases event) (auto simp: process_attempt_event_def)

lemma receive_keeps_text:
  "receive_attempt_events rid last_exit events p = (q, sent, exit) \<Longrightarrow>
   (ap_text p \<noteq> [] \<longrightarrow> ap_emitted_output p) \<Longrightarrow> (ap_text q \<noteq> [] \<longrightarrow> ap_emitted_output q)"
proof (induction events arbitrary: p q sent exit)
  case (Cons event events)
  obtain p' sent' exit' where step: "process_attempt_event rid event p = (p', sent', exit')"
    by (metis prod_cases3)
  show ?case
    using Cons step process_keeps_text [OF step] by (auto split: option.splits prod.splits)
qed simp

lemma run_attempt_text:
  "run_attempt rid input = (p, sent, result) \<Longrightarrow> ap_text p \<noteq> [] \<Longrightarrow> ap_emitted_output p"
  by (auto simp: run_attempt_def no_progress_def split: prod.splits dest!: receive_keeps_text)

fun is_terminal_event :: "'d execution_event \<Rightarrow> bool" where
  "is_terminal_event (EE_Completed _ _) = True"
| "is_terminal_event (EE_Error _ _) = True"
| "is_terminal_event _ = False"

lemma translate_not_terminal: "list_all (\<lambda>e. \<not> is_terminal_event e) (translate_event rid event)"
  by (cases event) simp_all

lemma receive_not_terminal:
  "receive_attempt_events rid last_exit events p = (q, sent, exit)
   \<Longrightarrow> list_all (\<lambda>e. \<not> is_terminal_event e) sent"
proof (induction events arbitrary: p q sent exit)
  case (Cons event events)
  obtain p' sent' exit' where step: "process_attempt_event rid event p = (p', sent', exit')"
    by (metis prod_cases3)
  have "list_all (\<lambda>e. \<not> is_terminal_event e) sent'"
    using step translate_not_terminal [of rid event] by (cases event) (auto simp: process_attempt_event_def)
  with Cons step show ?case
    by (auto split: option.splits prod.splits)
qed simp

lemma attempt_not_terminal:
  "attempt_once recovery rid attempt request input = (p, sent, decision)
   \<Longrightarrow> list_all (\<lambda>e. \<not> is_terminal_event e) sent"
  by (auto simp: attempt_once_def run_attempt_def split: prod.splits dest: receive_not_terminal)

lemma attempts_not_terminal:
  "list_all (\<lambda>e. \<not> is_terminal_event e) (rr_sent (execute_attempts recovery rid inputs attempt request))"
proof (induction recovery rid inputs attempt request rule: execute_attempts.induct)
  case (1 recovery rid inputs attempt request)
  show ?case
  proof (cases rule: execute_attempts_cases [of recovery rid attempt request inputs])
    case (stop progress sent decision)
    then show ?thesis
      using attempt_not_terminal [OF stop(1)] by (simp add: Let_def split: prod.split)
  next
    case (give_up progress sent error calls e)
    then show ?thesis
      using attempt_not_terminal [OF give_up(1)] by simp
  next
    case (again progress sent error calls next_request run)
    then show ?thesis
      using 1 attempt_not_terminal [OF again(1)] by simp
  qed
qed

text \<open>
  The request after a retry: the same one when nothing was shown, else the same one without tools and
  with two more messages, the text so far as the model's and the instruction to go on as the user's.
\<close>

definition asks_to_continue :: "string \<Rightarrow> model_request \<Rightarrow> model_request \<Rightarrow> bool" where
  "asks_to_continue shown q q' \<longleftrightarrow>
     (\<exists>answer instruction.
        q' = q\<lparr>mq_messages := mq_messages q @ [answer, instruction], mq_tools := []\<rparr>
      \<and> msg_role answer = Role_Assistant \<and> msg_content answer = [Text shown]
      \<and> msg_role instruction = Role_User \<and> msg_content instruction = [Text CONTINUE_INSTRUCTION])"

lemma append_asks_to_continue: "asks_to_continue shown q (append_interrupted_response input shown q)"
  unfolding asks_to_continue_def append_interrupted_response_def
  by (rule exI, rule exI) (auto simp only: agent_message.simps)

definition goes_on :: "request_id \<Rightarrow> 'd attempt_input \<Rightarrow> model_request \<Rightarrow> model_request \<Rightarrow> bool" where
  "goes_on rid input q q' \<longleftrightarrow>
     (let p = fst (run_attempt rid input)
      in (\<not> ap_emitted_output p \<and> q' = q)
       \<or> (ap_text p \<noteq> [] \<and> \<not> ap_requested_tools p \<and> plain_text (mq_response_format q)
          \<and> asks_to_continue (ap_text p) q q'))"

lemma retry_goes_on:
  assumes "attempt_once recovery rid attempt q input = (p, sent, Decision_Retry error)"
    and "prepare_retry recovery error attempt p input q = (calls, Inr q')"
  shows "goes_on rid input q q'"
proof -
  obtain result where run: "run_attempt rid input = (p, sent, result)"
    using attempt_retry(2) [OF assms(1)] by blast
  show ?thesis
    using attempt_retry(1) [OF assms(1)] prepare_retry_next [OF assms(2)] run_attempt_text [OF run]
    by (auto simp: goes_on_def run should_retry_def append_asks_to_continue Let_def)
qed

lemma attempts_go_on:
  "let reqs = rr_requests (execute_attempts recovery rid inputs attempt request)
   in reqs \<noteq> [] \<and> hd reqs = request
    \<and> (\<forall>k. Suc k < length reqs \<longrightarrow> goes_on rid (inputs (attempt + k)) (reqs ! k) (reqs ! Suc k))"
proof (induction recovery rid inputs attempt request rule: execute_attempts.induct)
  case (1 recovery rid inputs attempt request)
  show ?case
  proof (cases rule: execute_attempts_cases [of recovery rid attempt request inputs])
    case (stop progress sent decision)
    then show ?thesis by (simp add: Let_def split: prod.split)
  next
    case (give_up progress sent error calls e)
    then show ?thesis by (simp add: Let_def)
  next
    case (again progress sent error calls next_request run)
    let ?reqs = "rr_requests run"
    have ih: "?reqs \<noteq> []" "hd ?reqs = next_request"
      "\<And>k. Suc k < length ?reqs \<Longrightarrow> goes_on rid (inputs (Suc attempt + k)) (?reqs ! k) (?reqs ! Suc k)"
      using 1 again(1-3) by (auto simp: Let_def)
    have "goes_on rid (inputs (attempt + k)) ((request # ?reqs) ! k) (?reqs ! k)"
      if "k < length ?reqs" for k
    proof (cases k)
      case 0
      then show ?thesis
        using retry_goes_on [OF again(1,2)] ih(1,2) by (simp add: hd_conv_nth)
    next
      case (Suc j)
      then show ?thesis using ih(3) [of j] that by simp
    qed
    then show ?thesis
      using again(4) by (simp add: Let_def)
  qed
qed

section \<open>The circuit\<close>

lemma allow_iff:
  "snd (allow_request now cb) = Inr () \<longleftrightarrow>
     (\<forall>t. cs_open_until (cb_state cb) = Some t \<longrightarrow> t \<le> now \<and> \<not> cs_half_open_probe_in_flight (cb_state cb))"
  by (auto simp: allow_request_def Let_def split: option.split)

lemma probe_blocks:
  assumes "cs_open_until (cb_state cb) \<noteq> None" "cs_half_open_probe_in_flight (cb_state cb)"
  shows "\<exists>e. allow_request now cb = (cb, Inl e)"
  using assms by (auto simp: allow_request_def Let_def)

lemma record_failure_counts:
  assumes "is_retryable error" "cs_consecutive_failures (cb_state cb) = of_nat m" "Suc m < 2 ^ 32"
    and "circuit_is_open cb \<longleftrightarrow> unat (cb_failure_threshold cb) \<le> m"
  shows "cs_consecutive_failures (cb_state (record_failure now error cb)) = of_nat (Suc m)"
    and "cb_failure_threshold (record_failure now error cb) = cb_failure_threshold cb"
    and "circuit_is_open (record_failure now error cb) \<longleftrightarrow> unat (cb_failure_threshold cb) \<le> Suc m"
proof -
  have one: "(of_nat m :: u32) + 1 = of_nat (Suc m)"
    by simp
  have reached: "cb_failure_threshold cb \<le> of_nat (Suc m) \<longleftrightarrow> unat (cb_failure_threshold cb) \<le> Suc m"
  proof -
    have "unat (of_nat (Suc m) :: u32) = Suc m"
      using assms(3) by (simp add: unat_of_nat take_bit_nat_eq_self del: of_nat_Suc)
    then show ?thesis by (simp only: word_le_nat_alt)
  qed
  show "cs_consecutive_failures (cb_state (record_failure now error cb)) = of_nat (Suc m)"
    and "cb_failure_threshold (record_failure now error cb) = cb_failure_threshold cb"
    using assms(1,2) by (simp_all add: record_failure_def Let_def)
  show "circuit_is_open (record_failure now error cb) \<longleftrightarrow> unat (cb_failure_threshold cb) \<le> Suc m"
    using assms(1,2,4) reached
    by (auto simp: record_failure_def circuit_is_open_def Let_def one simp del: of_nat_Suc)
qed

lemma failures_counted:
  assumes "list_all is_retryable errors" "cs_consecutive_failures (cb_state cb) = of_nat m"
    and "m + length errors < 2 ^ 32" "circuit_is_open cb \<longleftrightarrow> unat (cb_failure_threshold cb) \<le> m"
  shows "circuit_is_open (fold (record_failure now) errors cb)
    \<longleftrightarrow> unat (cb_failure_threshold cb) \<le> m + length errors"
  using assms
proof (induction errors arbitrary: cb m)
  case (Cons error errors)
  then show ?case
    using record_failure_counts [of error cb m now]
      Cons.IH [of "record_failure now error cb" "Suc m"] by simp
qed simp

text \<open>
  A backend is \<open>shut\<close> when its circuit is open with a probe in flight and no request has a call
  on the breaker outstanding.
\<close>

definition shut :: "backend_state \<Rightarrow> bool" where
  "shut s \<longleftrightarrow> cs_open_until (cb_state (bk_circuit s)) \<noteq> None
     \<and> cs_half_open_probe_in_flight (cb_state (bk_circuit s)) \<and> list_all (\<lambda>calls. calls = []) (bk_outstanding s)"

lemma probe_refuses:
  assumes "cs_open_until (cb_state cb) \<noteq> None" "cs_half_open_probe_in_flight (cb_state cb)"
  shows "\<exists>error. execute_request fmt backend input cb = (cb, reject_request (req_request_id (ri_request input)) error)"
  using probe_blocks [OF assms, of "ri_at input"]
  by (auto simp: execute_request_def Let_def split: option.split)

lemma shut_step:
  assumes "shut s" "backend_step fmt backend s event = (t, reached)"
  shows "shut t \<and> reached = []"
proof (cases event)
  case (Arrived input)
  obtain error where "execute_request fmt backend input (bk_circuit s)
      = (bk_circuit s, reject_request (req_request_id (ri_request input)) error)"
    using probe_refuses [of "bk_circuit s" fmt backend input] assms(1) by (auto simp: shut_def)
  then show ?thesis
    using assms Arrived by (auto simp: shut_def reject_request_def Let_def)
next
  case (Recorded i)
  then have "i < length (bk_outstanding s) \<Longrightarrow> bk_outstanding s ! i = []"
    using assms(1) by (auto simp: shut_def list_all_length)
  then show ?thesis
    using assms Recorded by (auto simp: shut_def split: if_splits)
qed

interpretation shut: contract_machine "\<lambda>s reached t. shut s \<longrightarrow> shut t \<and> reached = []" "backend_step fmt backend"
  for fmt backend
  by unfold_locales (auto dest: shut_step)

section \<open>Examples\<close>

definition plain_backend :: model_backend where
  "plain_backend = \<lparr>mb_name = ''model'', mb_capabilities = \<lparr>bc_streaming = True,
     bc_reasoning_stream = False, bc_tool_calls = True, bc_parallel_tool_calls = True,
     bc_host_managed_tools = True, bc_backend_managed_tools = False, bc_permissions = False,
     bc_images = False, bc_resumable_sessions = False, bc_native_subagents = False,
     bc_model_switching = False, bc_exact_usage = True, bc_exact_cost = False,
     bc_structured_output = False\<rparr>, mb_recovery = default_recovery\<rparr>"

text \<open>A provider call that shows some text and then ends in a given way.\<close>

definition call_ending :: "'d attempt_exit \<Rightarrow> nat \<Rightarrow> 'd attempt_input" where
  "call_ending exit attempt =
     \<lparr>ai_events = [M_TextDelta ''par''], ai_last = exit, ai_task = Inl ''gone'', ai_cancelled = False,
      ai_ended_at = 0, ai_subsec_millis = 0, ai_delay_elapsed = True, ai_message_ids = (1, 2),
      ai_message_times = (0, 0)\<rparr>"

definition asking :: "instant \<Rightarrow> 'd attempt_exit \<Rightarrow> 'd request_input" where
  "asking at exit =
     \<lparr>ri_request = \<lparr>req_request_id = 4, req_run_id = 5, req_system_prompt = [], req_messages = [],
        req_tools = [], req_extended_thinking = False, req_params = default_params\<rparr>,
      ri_at = at, ri_inputs = call_ending exit, ri_ended_at = at\<rparr>"

definition half_open :: circuit_breaker where
  "half_open = (circuit_new default_recovery)\<lparr>cb_state := \<lparr>cs_consecutive_failures = 3,
     cs_open_until = Some 7, cs_half_open_probe_in_flight = False\<rparr>\<rparr>"

lemmas asked_request_eval = asking_def call_ending_def plain_backend_def default_recovery_def check_capabilities_def
  check_reasoning_capability_def check_image_capability_def check_tool_capability_def
  check_structured_output_capability_def plain_text_def default_params_def

lemma asking_capable: "check_capabilities plain_backend (ri_request (asking at exit)) = None"
  by (simp add: asked_request_eval)

lemma first_delay: "retry_delay (Suc 0) 0 M_Timeout = millis 250" "retry_delay 1 0 M_Timeout = millis 250"
  by (simp_all add: retry_delay_def retry_base_ms_def Let_def)

lemmas run_eval = execute_attempts.simps [of _ _ _ 1] execute_attempts.simps [of _ _ _ "Suc 0"]
  execute_attempts.simps [of _ _ _ "Suc (Suc 0)"] attempt_once_def run_attempt_def process_attempt_event_def
  no_progress_def finish_attempt_def classify_attempt_def should_retry_def settle_decision_def
  prepare_retry_def first_delay execute_request_def allow_request_def half_open_def circuit_new_def
  default_circuit_def prepare_model_request_def append_interrupted_response_def Let_def

lemma probe_cancelled:
  "rr_result (snd (execute_request (\<lambda>_. []) plain_backend (asking 9 Exit_Cancelled :: int request_input) half_open))
     = Inl EE_Cancelled"
  by (simp add: run_eval asking_capable) (simp add: run_eval asked_request_eval)

lemma request_timed_out:
  "rr_result (snd (execute_request (\<lambda>_. []) plain_backend (asking 9 Exit_TimedOut :: int request_input)
     (circuit_new default_recovery))) = Inl EE_Timeout"
  by (simp add: run_eval asking_capable) (simp add: run_eval asked_request_eval)

lemma request_retried:
  "length (rr_requests (snd (execute_request (\<lambda>_. []) plain_backend (asking 9 Exit_TimedOut :: int request_input)
     (circuit_new default_recovery)))) = 2"
  by (simp add: run_eval asking_capable) (simp add: run_eval asked_request_eval)

section \<open>Properties\<close>

text \<open>
  C28: A request calls its provider at most as often as its policy allows (once at least, when it is
  admitted), and whatever the calls come to it sends exactly one terminal event, the last one.
\<close>
theorem request_ends_once:
  "let run = snd (execute_request fmt backend input cb)
   in rr_attempts run \<le> max 1 (rec_max_attempts (mb_recovery backend))
    \<and> length (rr_requests run) = rr_attempts run
    \<and> (\<exists>sent. rr_sent run = sent @ [terminal_event (req_request_id (ri_request input)) (rr_result run)]
         \<and> list_all (\<lambda>e. \<not> is_terminal_event e) sent)"
proof -
  have count: "rr_attempts (execute_attempts recovery rid inputs 1 request) \<le> max 1 (rec_max_attempts recovery)"
    "length (rr_requests (execute_attempts recovery rid inputs 1 request))
       = rr_attempts (execute_attempts recovery rid inputs 1 request)"
    for recovery rid inputs request
    using attempts_count [of 1 recovery rid inputs request] by (simp_all add: Let_def)
  show ?thesis
    using count attempts_not_terminal
    by (auto simp: execute_request_def reject_request_def Let_def split: option.split prod.split sum.split)
qed

text \<open>
  C29: A retry never repeats what was already shown. The call after a failed one is within the
  attempt limit, and it sends the same request when nothing reached the caller, and otherwise only
  when plain text did and no tool was asked for: then it sends the text so far with the instruction
  to go on, and no tools.
\<close>
theorem retry_never_replays:
  assumes "Suc k < length (rr_requests (snd (execute_request fmt backend input cb)))"
  shows "Suc k < rec_max_attempts (mb_recovery backend)
    \<and> goes_on (req_request_id (ri_request input)) (ri_inputs input (Suc k))
        (rr_requests (snd (execute_request fmt backend input cb)) ! k)
        (rr_requests (snd (execute_request fmt backend input cb)) ! Suc k)"
proof -
  let ?q = "prepare_model_request fmt (ri_request input)"
  let ?run = "execute_attempts (mb_recovery backend) (req_request_id (ri_request input)) (ri_inputs input) 1 ?q"
  have reqs: "rr_requests (snd (execute_request fmt backend input cb)) = rr_requests ?run"
    using assms by (auto simp: execute_request_def reject_request_def Let_def split: option.splits prod.splits sum.splits)
  then have len: "Suc k < length (rr_requests ?run)" using assms by simp
  have "Suc k < rec_max_attempts (mb_recovery backend)"
    using attempts_count [of 1 "mb_recovery backend" "req_request_id (ri_request input)" "ri_inputs input" ?q] len
    by (auto simp: Let_def)
  then show ?thesis
    using attempts_go_on [of "mb_recovery backend" "req_request_id (ri_request input)" "ri_inputs input" 1 ?q] len
    by (auto simp: Let_def reqs)
qed

theorem retry_never_replays_witness:
  "goes_on 4 (call_ending Exit_TimedOut 1 :: int attempt_input)
     (rr_requests (snd (execute_request (\<lambda>_. []) plain_backend (asking 9 Exit_TimedOut :: int request_input)
        (circuit_new default_recovery))) ! 0)
     (rr_requests (snd (execute_request (\<lambda>_. []) plain_backend (asking 9 Exit_TimedOut :: int request_input)
        (circuit_new default_recovery))) ! 1)"
  using retry_never_replays [of 0 "\<lambda>_. []" plain_backend "asking 9 Exit_TimedOut :: int request_input"
      "circuit_new default_recovery"]
  by (simp add: request_retried) (simp add: asking_def)

text \<open>
  C30: A cancelled probe shuts the backend. When a request is let through the half-open circuit as
  its probe while no other request has a call on the breaker outstanding, and that request is
  cancelled, then no later request reaches the provider, at whatever times requests come and however
  they interleave, until the process ends: neither way of cancelling a request tells the circuit, so
  the probe stays in flight. (A request that was admitted before and is still running may clear it.)
\<close>
theorem cancelled_probe_shuts_backend:
  assumes "cs_open_until (cb_state (bk_circuit s)) = Some t" "t \<le> ri_at input"
    and "\<not> cs_half_open_probe_in_flight (cb_state (bk_circuit s))"
    and "list_all (\<lambda>calls. calls = []) (bk_outstanding s)"
    and "check_capabilities backend (ri_request input) = None"
    and "rr_result (snd (execute_request fmt backend input (bk_circuit s))) = Inl EE_Cancelled"
    and "backend_step fmt backend s (Arrived input) = (s', reached)"
  shows "snd (run_commands (backend_step fmt backend) s' events) = []"
proof -
  let ?cb = "bk_circuit s"
  let ?probing = "?cb\<lparr>cb_state := (cb_state ?cb)\<lparr>cs_half_open_probe_in_flight := True\<rparr>\<rparr>"
  have "allow_request (ri_at input) ?cb = (?probing, Inr ())"
    using assms(1-3) by (simp add: allow_request_def Let_def)
  then have "fst (execute_request fmt backend input ?cb) = ?probing
      \<and> rr_calls (snd (execute_request fmt backend input ?cb)) = []"
    using assms(5,6) attempts_calls [of "mb_recovery backend" "req_request_id (ri_request input)"
        "ri_inputs input" 1 "prepare_model_request fmt (ri_request input)"]
    by (simp add: execute_request_def Let_def split: if_splits)
  then have "shut s'"
    using assms(1,4,7) by (auto simp: shut_def case_prod_unfold)
  then show ?thesis
    using shut.run_keeps [of fmt backend] by (metis surjective_pairing)
qed

theorem cancelled_probe_shuts_backend_witness:
  "snd (run_commands (backend_step (\<lambda>_. []) plain_backend)
     (fst (backend_step (\<lambda>_. []) plain_backend \<lparr>bk_circuit = half_open, bk_outstanding = [[]]\<rparr>
        (Arrived (asking 9 Exit_Cancelled :: int request_input))))
     [Arrived (asking 1000 (Exit_Error M_Timeout)), Recorded 2, Arrived (asking 2000 (Exit_Error M_Timeout))]) = []"
proof (rule cancelled_probe_shuts_backend [OF _ _ _ _ _ _ prod.collapse [symmetric]])
  show "cs_open_until (cb_state (bk_circuit \<lparr>bk_circuit = half_open, bk_outstanding = [[]]\<rparr>)) = Some 7"
    "\<not> cs_half_open_probe_in_flight (cb_state (bk_circuit \<lparr>bk_circuit = half_open, bk_outstanding = [[]]\<rparr>))"
    by (simp_all add: half_open_def)
  show "7 \<le> ri_at (asking 9 Exit_Cancelled :: int request_input)"
    by (simp add: asking_def)
qed (simp_all add: asking_capable probe_cancelled)

text \<open>
  A request that times out counts twice towards opening the circuit: once when its last call
  fails and once more when its result is a timeout. So a circuit that should open after three
  failures in a row opens after two timeouts.
\<close>
theorem timeout_counts_twice:
  assumes "cs_open_until (cb_state cb) = None" and "check_capabilities backend (ri_request input) = None"
    and "execute_request fmt backend input cb = (cb', run)" and "rr_result run = Inl EE_Timeout"
  shows "cs_consecutive_failures (cb_state (fold circuit_apply (rr_calls run) cb'))
    = cs_consecutive_failures (cb_state cb) + 2"
proof -
  have "allow_request (ri_at input) cb = (cb, Inr ())"
    using assms(1) by (simp add: allow_request_def Let_def)
  then show ?thesis
    using assms(2-4) attempts_calls [of "mb_recovery backend" "req_request_id (ri_request input)"
        "ri_inputs input" 1 "prepare_model_request fmt (ri_request input)"]
    by (auto simp: execute_request_def record_failure_def Let_def split: if_splits)
qed

theorem timeout_counts_twice_witness:
  "\<exists>cb' run. execute_request (\<lambda>_. []) plain_backend (asking 9 Exit_TimedOut :: int request_input)
      (circuit_new default_recovery) = (cb', run)
   \<and> cs_consecutive_failures (cb_state (fold circuit_apply (rr_calls run) cb')) = 2"
proof -
  obtain cb' run where run: "execute_request (\<lambda>_. []) plain_backend (asking 9 Exit_TimedOut :: int request_input)
      (circuit_new default_recovery) = (cb', run)" by fastforce
  then show ?thesis
    using timeout_counts_twice [OF _ asking_capable run] request_timed_out
    by (simp add: circuit_new_def default_circuit_def)
qed

text \<open>
  The circuit lets a request through exactly when it is closed, or its time is up and no probe is
  in flight; a request let through an open circuit is the only one until its outcome is recorded.
  Transient failures in a row open it exactly when their number reaches the threshold.
\<close>
theorem circuit_admits_exactly:
  "(snd (allow_request now cb) = Inr () \<longleftrightarrow>
      (case cs_open_until (cb_state cb) of
         None \<Rightarrow> True | Some t \<Rightarrow> t \<le> now \<and> \<not> cs_half_open_probe_in_flight (cb_state cb)))
   \<and> (cs_open_until (cb_state cb) \<noteq> None \<longrightarrow>
        snd (allow_request later (fst (allow_request now cb))) = Inr () \<longrightarrow>
        snd (allow_request now cb) \<noteq> Inr ())
   \<and> (list_all is_retryable errors \<and> length errors < 2 ^ 32 \<and> 0 < cb_failure_threshold cb \<longrightarrow>
        (circuit_is_open (fold (record_failure now) errors (record_success cb))
           \<longleftrightarrow> unat (cb_failure_threshold cb) \<le> length errors))"
proof (intro conjI impI; (elim conjE)?)
  show "snd (allow_request now cb) = Inr () \<longleftrightarrow>
      (case cs_open_until (cb_state cb) of
         None \<Rightarrow> True | Some t \<Rightarrow> t \<le> now \<and> \<not> cs_half_open_probe_in_flight (cb_state cb))"
    by (simp add: allow_iff split: option.split)
next
  assume "cs_open_until (cb_state cb) \<noteq> None"
    "snd (allow_request later (fst (allow_request now cb))) = Inr ()"
  then show "snd (allow_request now cb) \<noteq> Inr ()"
    by (auto simp: allow_request_def Let_def split: if_splits)
next
  assume "list_all is_retryable errors" "length errors < 2 ^ 32" "0 < cb_failure_threshold cb"
  then show "circuit_is_open (fold (record_failure now) errors (record_success cb))
      \<longleftrightarrow> unat (cb_failure_threshold cb) \<le> length errors"
    using failures_counted [of errors "record_success cb" 0 now]
    by (simp add: record_success_def default_circuit_def circuit_is_open_def word_less_nat_alt)
qed

theorem circuit_admits_exactly_witness:
  "circuit_is_open (fold (record_failure 5) [M_Timeout, M_RateLimited None, M_Timeout]
     (record_success (circuit_new default_recovery)))"
  using circuit_admits_exactly [of 0 "circuit_new default_recovery" 0 "[M_Timeout, M_RateLimited None, M_Timeout]"]
    circuit_admits_exactly [of 5 "circuit_new default_recovery" 0 "[M_Timeout, M_RateLimited None, M_Timeout]"]
  by (simp add: circuit_new_def default_recovery_def)

end
