(* ===== verification/Web_Guard.thy ===== *)
theory Web_Guard
  imports Protocol
begin

text \<open>
  The web tool (\<open>crates/tool-web\<close>): the guard on the addresses a fetch may reach
  (\<open>ssrf.rs\<close>) and the fetch itself (\<open>fetch.rs\<close>). The URL parser, the
  resolver, the HTTP client and the conversion of HTML are third-party code, fields of the record
  \<open>web\<close> the operations take; the textual form of addresses and the lossy decoding of
  bytes are fields too. A fetch returns what it asked of
  the resolver and the HTTP client along with its result.
\<close>

unbundle bit_operations_syntax

type_synonym u16 = "16 word"

section \<open>Addresses (std::net)\<close>

datatype ipv4_addr = Ipv4 "8 word" "8 word" "8 word" "8 word"

datatype ipv6_addr = Ipv6 u16 u16 u16 u16 u16 u16 u16 u16

datatype ip_addr = IP_V4 ipv4_addr | IP_V6 ipv6_addr

fun is_loopback_v4 :: "ipv4_addr \<Rightarrow> bool" where
  "is_loopback_v4 (Ipv4 a b c d) \<longleftrightarrow> a = 127"

fun is_link_local_v4 :: "ipv4_addr \<Rightarrow> bool" where
  "is_link_local_v4 (Ipv4 a b c d) \<longleftrightarrow> a = 169 \<and> b = 254"

fun is_private_v4 :: "ipv4_addr \<Rightarrow> bool" where
  "is_private_v4 (Ipv4 a b c d) \<longleftrightarrow>
     a = 10 \<or> a = 172 \<and> 16 \<le> b \<and> b \<le> 31 \<or> a = 192 \<and> b = 168"

fun is_broadcast_v4 :: "ipv4_addr \<Rightarrow> bool" where
  "is_broadcast_v4 (Ipv4 a b c d) \<longleftrightarrow> a = 255 \<and> b = 255 \<and> c = 255 \<and> d = 255"

fun is_documentation_v4 :: "ipv4_addr \<Rightarrow> bool" where
  "is_documentation_v4 (Ipv4 a b c d) \<longleftrightarrow>
     a = 192 \<and> b = 0 \<and> c = 2 \<or> a = 198 \<and> b = 51 \<and> c = 100 \<or> a = 203 \<and> b = 0 \<and> c = 113"

fun is_unspecified_v4 :: "ipv4_addr \<Rightarrow> bool" where
  "is_unspecified_v4 (Ipv4 a b c d) \<longleftrightarrow> a = 0 \<and> b = 0 \<and> c = 0 \<and> d = 0"

fun segment0 :: "ipv6_addr \<Rightarrow> u16" where
  "segment0 (Ipv6 a b c d e f g h) = a"

definition is_loopback_v6 :: "ipv6_addr \<Rightarrow> bool" where
  "is_loopback_v6 ip \<longleftrightarrow> ip = Ipv6 0 0 0 0 0 0 0 1"

definition is_unspecified_v6 :: "ipv6_addr \<Rightarrow> bool" where
  "is_unspecified_v6 ip \<longleftrightarrow> ip = Ipv6 0 0 0 0 0 0 0 0"

section \<open>The guard (ssrf.rs)\<close>

definition is_unique_local :: "ipv6_addr \<Rightarrow> bool" where
  "is_unique_local ip \<longleftrightarrow> segment0 ip AND 0xfe00 = 0xfc00"

definition is_unicast_link_local :: "ipv6_addr \<Rightarrow> bool" where
  "is_unicast_link_local ip \<longleftrightarrow> segment0 ip AND 0xffc0 = 0xfe80"

fun is_safe_target :: "ip_addr \<Rightarrow> bool" where
  "is_safe_target (IP_V4 v4) \<longleftrightarrow>
     \<not> is_loopback_v4 v4 \<and> \<not> is_link_local_v4 v4 \<and> \<not> is_private_v4 v4
     \<and> \<not> is_broadcast_v4 v4 \<and> \<not> is_documentation_v4 v4 \<and> \<not> is_unspecified_v4 v4"
| "is_safe_target (IP_V6 v6) \<longleftrightarrow>
     \<not> is_loopback_v6 v6 \<and> \<not> is_unspecified_v6 v6
     \<and> \<not> is_unique_local v6 \<and> \<not> is_unicast_link_local v6"

section \<open>What a fetch calls\<close>

record fetch_url =
  fu_href :: string
  fu_scheme :: string
  fu_host_str :: "string option"
  fu_port_or_known_default :: "u16 option"

text \<open>A header is present here when it can be read as a string; a chunk of the body may fail.\<close>
record http_response =
  hr_status :: u16
  hr_status_text :: string
  hr_location :: "string option"
  hr_content_type :: "string option"
  hr_body :: "(string + u8 list) list"

text \<open>
  The settings of an HTTP client that bear on what it sends. How such a client carries out a
  request (its own name resolution and connections, the redirects its policy lets it follow) is a
  parameter: \<open>send_get\<close> is what a request returns and \<open>client_requests\<close> the requests it makes on
  the network for it. \<open>lookup_host\<close> is the answer the check gets; what the client resolves when it
  connects is its own.
\<close>

datatype redirect_policy = Redirect_None | Redirect_Limited nat

record http_client =
  hc_timeout :: nat
  hc_redirect :: redirect_policy

record web =
  parse_url :: "string \<Rightarrow> string + fetch_url"
  parse_ip :: "string \<Rightarrow> ip_addr option"
  show_ip :: "ip_addr \<Rightarrow> string"
  lookup_host :: "string \<Rightarrow> u16 \<Rightarrow> string + ip_addr list"
  send_get :: "http_client \<Rightarrow> fetch_url \<Rightarrow> string + http_response"
  client_requests :: "http_client \<Rightarrow> fetch_url \<Rightarrow> fetch_url list"
  from_utf8_lossy :: "u8 list \<Rightarrow> string"
  html_to_text :: "string \<Rightarrow> nat \<Rightarrow> string"

definition is_redirection :: "u16 \<Rightarrow> bool" where
  "is_redirection code \<longleftrightarrow> 300 \<le> code \<and> code < 400"

definition is_success_status :: "u16 \<Rightarrow> bool" where
  "is_success_status code \<longleftrightarrow> 200 \<le> code \<and> code < 300"

section \<open>Results of a tool (tool-api tool_call.rs)\<close>

record executor_result =
  er_call_id :: string
  er_output :: json
  er_is_error :: bool

datatype executor_error = EX_ExecutionFailed | EX_PermissionDenied | EX_Timeout | EX_Internal

section \<open>The fetch (fetch.rs)\<close>

definition MAX_RESPONSE_BYTES :: nat where
  "MAX_RESPONSE_BYTES = 2 * 1024 * 1024"

definition REQUEST_TIMEOUT :: nat where
  "REQUEST_TIMEOUT = 15 * 10 ^ 9"

definition HTML_TEXT_WIDTH :: nat where
  "HTML_TEXT_WIDTH = 120"

text \<open>The client of the tool, with the timeout in nanoseconds.\<close>

definition fetch_tool_new :: http_client where
  "fetch_tool_new = \<lparr>hc_timeout = REQUEST_TIMEOUT, hc_redirect = Redirect_None\<rparr>"

text \<open>What a fetch asks of the outside, in its order.\<close>

datatype web_call = Lookup_Host string u16 | Send_Get http_client fetch_url

datatype fetch_outcome = FO_Content string string | FO_Redirected string

text \<open>The loop over the resolved addresses: the first disallowed one ends it.\<close>
fun check_resolved :: "web \<Rightarrow> string \<Rightarrow> bool \<Rightarrow> ip_addr list \<Rightarrow> string + unit" where
  "check_resolved w host resolved_any [] =
     (if resolved_any then Inr () else Inl (''DNS resolution for '' @ host @ '' returned no addresses''))"
| "check_resolved w host resolved_any (addr # addrs) =
     (if \<not> is_safe_target addr
      then Inl (''refusing to fetch '' @ host @ '': resolves to disallowed address '' @ show_ip w addr)
      else check_resolved w host True addrs)"

definition validate_host_is_safe :: "web \<Rightarrow> string \<Rightarrow> u16 \<Rightarrow> web_call list \<times> (string + unit)" where
  "validate_host_is_safe w host port =
     (case parse_ip w host of
        Some ip \<Rightarrow>
          ([], if is_safe_target ip then Inr ()
               else Inl (''refusing to fetch from disallowed address: '' @ show_ip w ip))
      | None \<Rightarrow>
          ([Lookup_Host host port],
           case lookup_host w host port of
             Inl e \<Rightarrow> Inl (''DNS resolution failed for '' @ host @ '': '' @ e)
           | Inr addrs \<Rightarrow> check_resolved w host False addrs))"

fun read_capped_loop :: "nat \<Rightarrow> u8 list \<Rightarrow> (string + u8 list) list \<Rightarrow> string + u8 list" where
  "read_capped_loop max_bytes buffer [] = Inr buffer"
| "read_capped_loop max_bytes buffer (Inl e # stream) = Inl e"
| "read_capped_loop max_bytes buffer (Inr chunk # stream) =
     (let buffer' = buffer @ chunk
      in if length buffer' > max_bytes then Inr (take max_bytes buffer')
         else read_capped_loop max_bytes buffer' stream)"

definition read_capped_stream :: "(string + u8 list) list \<Rightarrow> nat \<Rightarrow> string + u8 list" where
  "read_capped_stream stream max_bytes = read_capped_loop max_bytes [] stream"

definition fetch_body :: "web \<Rightarrow> http_response \<Rightarrow> string + fetch_outcome" where
  "fetch_body w response =
     (if is_redirection (hr_status response)
      then Inr (FO_Redirected (unwrap_or ''<unknown>'' (hr_location response)))
      else if \<not> is_success_status (hr_status response)
      then Inl (''HTTP '' @ hr_status_text response)
      else
        let content_type = unwrap_or [] (hr_content_type response)
        in case read_capped_stream (hr_body response) MAX_RESPONSE_BYTES of
             Inl e \<Rightarrow> Inl e
           | Inr bytes \<Rightarrow>
               let decoded = from_utf8_lossy w bytes
               in Inr (FO_Content content_type
                    (if str_contains content_type ''text/html''
                     then html_to_text w decoded HTML_TEXT_WIDTH else decoded)))"

definition fetch :: "web \<Rightarrow> http_client \<Rightarrow> string \<Rightarrow> web_call list \<times> (string + fetch_outcome)" where
  "fetch w client url_str =
     (case parse_url w url_str of
        Inl e \<Rightarrow> ([], Inl (''invalid URL: '' @ e))
      | Inr url \<Rightarrow>
          if fu_scheme url \<noteq> ''http'' \<and> fu_scheme url \<noteq> ''https''
          then ([], Inl (''unsupported scheme: '' @ fu_scheme url))
          else case fu_host_str url of
            None \<Rightarrow> ([], Inl ''URL has no host'')
          | Some host \<Rightarrow>
              (case validate_host_is_safe w host (unwrap_or 443 (fu_port_or_known_default url)) of
                 (calls, Inl e) \<Rightarrow> (calls, Inl e)
               | (calls, Inr _) \<Rightarrow>
                   (calls @ [Send_Get client url],
                    case send_get w client url of Inl e \<Rightarrow> Inl e | Inr response \<Rightarrow> fetch_body w response)))"

text \<open>The arguments of the call are \<open>None\<close> when they do not parse as a \<open>FetchInput\<close>.\<close>
definition fetch_execute ::
  "web \<Rightarrow> http_client \<Rightarrow> string option \<Rightarrow> bool \<Rightarrow> web_call list \<times> (executor_error + executor_result)" where
  "fetch_execute w client input cancelled =
     (case input of
        None \<Rightarrow> ([], Inl EX_ExecutionFailed)
      | Some url_str \<Rightarrow>
          if cancelled then ([], Inl EX_Timeout)
          else
            let (sent, outcome) = fetch w client url_str
            in (sent, Inr (case outcome of
                 Inr (FO_Content content_type body) \<Rightarrow>
                   \<lparr>er_call_id = ''web.fetch'',
                    er_output = JObject [(''content'', JString body), (''content_type'', JString content_type)],
                    er_is_error = False\<rparr>
               | Inr (FO_Redirected location) \<Rightarrow>
                   \<lparr>er_call_id = ''web.fetch'',
                    er_output = JObject [(''error'',
                      JString (''redirected to '' @ location @ ''; not followed automatically''))],
                    er_is_error = True\<rparr>
               | Inl message \<Rightarrow>
                   \<lparr>er_call_id = ''web.fetch'', er_output = JObject [(''error'', JString message)],
                    er_is_error = True\<rparr>)))"

section \<open>Address blocks\<close>

text \<open>Addresses as numbers, and the blocks of addresses that share a prefix.\<close>

fun ipv4_number :: "ipv4_addr \<Rightarrow> nat" where
  "ipv4_number (Ipv4 a b c d) = ((unat a * 256 + unat b) * 256 + unat c) * 256 + unat d"

fun ipv6_segments :: "ipv6_addr \<Rightarrow> u16 list" where
  "ipv6_segments (Ipv6 a b c d e f g h) = [a, b, c, d, e, f, g, h]"

definition ipv6_number :: "ipv6_addr \<Rightarrow> nat" where
  "ipv6_number ip = foldl (\<lambda>n s. n * 65536 + unat s) 0 (ipv6_segments ip)"

definition in_block :: "nat \<Rightarrow> nat \<Rightarrow> nat \<times> nat \<Rightarrow> bool" where
  "in_block width n block = (n div 2 ^ (width - snd block) = fst block div 2 ^ (width - snd block))"

definition refused_v4 :: "(nat \<times> nat) list" where
  "refused_v4 =
     [(ipv4_number (Ipv4 127 0 0 0), 8), (ipv4_number (Ipv4 169 254 0 0), 16),
      (ipv4_number (Ipv4 10 0 0 0), 8), (ipv4_number (Ipv4 172 16 0 0), 12),
      (ipv4_number (Ipv4 192 168 0 0), 16), (ipv4_number (Ipv4 255 255 255 255), 32),
      (ipv4_number (Ipv4 192 0 2 0), 24), (ipv4_number (Ipv4 198 51 100 0), 24),
      (ipv4_number (Ipv4 203 0 113 0), 24), (ipv4_number (Ipv4 0 0 0 0), 32)]"

definition refused_v6 :: "(nat \<times> nat) list" where
  "refused_v6 =
     [(ipv6_number (Ipv6 0 0 0 0 0 0 0 1), 128), (ipv6_number (Ipv6 0 0 0 0 0 0 0 0), 128),
      (ipv6_number (Ipv6 0xfc00 0 0 0 0 0 0 0), 7), (ipv6_number (Ipv6 0xfe80 0 0 0 0 0 0 0), 10)]"

lemma unat_u8_lt: "unat (a :: 8 word) < 256"
  using unsigned_less [of a] by simp

lemma unat_u16_lt: "unat (a :: 16 word) < 65536"
  using unsigned_less [of a] by simp

lemma horner_div: "u < n \<Longrightarrow> (q * n + u) div n = (q :: nat)"
  by simp

lemma digits_eq: "y < n \<Longrightarrow> v < n \<Longrightarrow> x * n + y = q * n + v \<longleftrightarrow> x = q \<and> y = (v :: nat)"
  by (metis horner_div mult.commute mod_mult_self3 mod_less)

lemma quad_prefixes:
  fixes x y z u :: nat
  assumes bound: "y < 256" "z < 256" "u < 256"
  defines "n \<equiv> ((x * 256 + y) * 256 + z) * 256 + u"
  shows quad_8: "n div 16777216 = q \<longleftrightarrow> x = q"
    and quad_12: "l < 16 \<Longrightarrow> n div 1048576 = q * 16 + l \<longleftrightarrow> x = q \<and> y div 16 = l"
    and quad_16: "r < 256 \<Longrightarrow> n div 65536 = q * 256 + r \<longleftrightarrow> x = q \<and> y = r"
    and quad_24: "r < 256 \<Longrightarrow> t < 256 \<Longrightarrow>
      n div 256 = (q * 256 + r) * 256 + t \<longleftrightarrow> x = q \<and> y = r \<and> z = t"
    and quad_32: "r < 256 \<Longrightarrow> t < 256 \<Longrightarrow> v < 256 \<Longrightarrow>
      n = ((q * 256 + r) * 256 + t) * 256 + v \<longleftrightarrow> x = q \<and> y = r \<and> z = t \<and> u = v"
proof -
  have d8: "n div 256 = (x * 256 + y) * 256 + z"
    unfolding n_def by (rule horner_div [OF bound(3)])
  have d16: "n div 65536 = x * 256 + y"
    using horner_div [OF bound(2), of "x * 256 + y"] div_mult2_eq [of n 256 256] by (simp add: d8)
  show "n div 16777216 = q \<longleftrightarrow> x = q"
    using horner_div [OF bound(1), of x] div_mult2_eq [of n 65536 256] by (simp add: d16)
  have "n div 1048576 = x * 16 + y div 16"
    using div_mult2_eq [of n 65536 16] bound(1) by (simp add: d16)
  moreover have "y div 16 < 16"
    using bound(1) by linarith
  ultimately show "n div 1048576 = q * 16 + l \<longleftrightarrow> x = q \<and> y div 16 = l" if "l < 16"
    using that by (simp only: digits_eq)
  show "n div 65536 = q * 256 + r \<longleftrightarrow> x = q \<and> y = r" if "r < 256"
    unfolding d16 using digits_eq [OF bound(1) that] .
  show "n div 256 = (q * 256 + r) * 256 + t \<longleftrightarrow> x = q \<and> y = r \<and> z = t" if "r < 256" "t < 256"
    unfolding d8 digits_eq [OF bound(2) that(2)] digits_eq [OF bound(1) that(1)] by blast
  show "n = ((q * 256 + r) * 256 + t) * 256 + v \<longleftrightarrow> x = q \<and> y = r \<and> z = t \<and> u = v"
    if "r < 256" "t < 256" "v < 256"
    unfolding n_def digits_eq [OF bound(3) that(3)] digits_eq [OF bound(2) that(2)] digits_eq [OF bound(1) that(1)]
    by blast
qed

lemma refused_v4_blocks:
  "list_ex (in_block 32 n) refused_v4 \<longleftrightarrow>
     n div 16777216 = 127 \<or> n div 65536 = 169 * 256 + 254 \<or> n div 16777216 = 10 \<or> n div 1048576 = 172 * 16 + 1
     \<or> n div 65536 = 192 * 256 + 168 \<or> n = ((255 * 256 + 255) * 256 + 255) * 256 + 255
     \<or> n div 256 = (192 * 256 + 0) * 256 + 2 \<or> n div 256 = (198 * 256 + 51) * 256 + 100
     \<or> n div 256 = (203 * 256 + 0) * 256 + 113 \<or> n = ((0 * 256 + 0) * 256 + 0) * 256 + 0"
  by (simp add: refused_v4_def in_block_def)

lemma refused_v4_iff:
  "\<not> is_safe_target (IP_V4 ip) \<longleftrightarrow> list_ex (in_block 32 (ipv4_number ip)) refused_v4"
proof (cases ip)
  case (Ipv4 a b c d)
  define x y z u where "x = unat a" and "y = unat b" and "z = unat c" and "u = unat d"
  have bound: "y < 256" "z < 256" "u < 256"
    by (simp_all add: unat_u8_lt y_def z_def u_def)
  have word: "a = k \<longleftrightarrow> x = unat k" "b = k \<longleftrightarrow> y = unat k" "c = k \<longleftrightarrow> z = unat k" "d = k \<longleftrightarrow> u = unat k"
    "b \<le> k \<longleftrightarrow> y \<le> unat k" "k \<le> b \<longleftrightarrow> unat k \<le> y" for k
    by (simp_all add: x_def y_def z_def u_def word_unat_eq_iff word_le_nat_alt)
  have "ipv4_number ip = ((x * 256 + y) * 256 + z) * 256 + u"
    by (simp add: Ipv4 x_def y_def z_def u_def)
  moreover have "y div 16 = 1 \<longleftrightarrow> 16 \<le> y \<and> y \<le> 31"
    by linarith
  moreover have "\<not> is_safe_target (IP_V4 ip) \<longleftrightarrow>
      x = 127 \<or> x = 169 \<and> y = 254 \<or> (x = 10 \<or> x = 172 \<and> 16 \<le> y \<and> y \<le> 31 \<or> x = 192 \<and> y = 168)
      \<or> x = 255 \<and> y = 255 \<and> z = 255 \<and> u = 255
      \<or> (x = 192 \<and> y = 0 \<and> z = 2 \<or> x = 198 \<and> y = 51 \<and> z = 100 \<or> x = 203 \<and> y = 0 \<and> z = 113)
      \<or> x = 0 \<and> y = 0 \<and> z = 0 \<and> u = 0"
    by (simp only: Ipv4 is_safe_target.simps is_loopback_v4.simps is_link_local_v4.simps is_private_v4.simps
        is_broadcast_v4.simps is_documentation_v4.simps is_unspecified_v4.simps word) (simp, argo)
  ultimately show ?thesis
    unfolding refused_v4_blocks
    using quad_8 [OF bound, of x] quad_12 [OF bound, of 1 x 172] quad_16 [OF bound, of 254 x 169]
      quad_16 [OF bound, of 168 x 192] quad_24 [OF bound, of 0 2 x 192] quad_24 [OF bound, of 51 100 x 198]
      quad_24 [OF bound, of 0 113 x 203] quad_32 [OF bound, of 255 255 255 x 255] quad_32 [OF bound, of 0 0 0 x 0]
    by simp
qed

lemma unat_and_high_bits:
  fixes s :: "16 word"
  assumes "k + m = 16"
  shows "unat (s AND push_bit k (mask m)) = unat s div 2 ^ k * 2 ^ k"
proof -
  have "s AND push_bit k (mask m) = push_bit k (drop_bit k s)"
    using assms by (intro bit_eqI) (auto simp: bit_simps)
  then have "unat (s AND push_bit k (mask m)) = take_bit 16 (push_bit k (drop_bit k (unat s)))"
    by (simp only: unsigned_push_bit_eq unsigned_drop_bit_eq) (simp add: take_bit_eq_mod unat_u16_lt)
  also have "\<dots> = unat s div 2 ^ k * 2 ^ k mod 65536"
    by (simp add: take_bit_eq_mod push_bit_eq_mult drop_bit_eq_div)
  also have "\<dots> = unat s div 2 ^ k * 2 ^ k"
    using unat_u16_lt [of s] div_times_less_eq_dividend [of "unat s" "2 ^ k"] by (intro mod_less) linarith
  finally show ?thesis .
qed

lemma unique_local_segment: "s AND 0xfe00 = 0xfc00 \<longleftrightarrow> unat s div 512 = 126" for s :: "16 word"
  using unat_and_high_bits [of 9 7 s] by (simp add: mask_eq_exp_minus_1 push_bit_eq_mult word_unat_eq_iff)

lemma link_local_segment: "s AND 0xffc0 = 0xfe80 \<longleftrightarrow> unat s div 64 = 1018" for s :: "16 word"
  using unat_and_high_bits [of 6 10 s] by (simp add: mask_eq_exp_minus_1 push_bit_eq_mult word_unat_eq_iff)

lemma segment0_div: "ipv6_number ip div 2 ^ 112 = unat (segment0 ip)"
proof (cases ip)
  case (Ipv6 a b c d e f g h)
  have "((((((unat b * 65536 + unat c) * 65536 + unat d) * 65536 + unat e) * 65536 + unat f) * 65536 + unat g)
      * 65536 + unat h) < 2 ^ 112"
    using unat_u16_lt [of b] unat_u16_lt [of c] unat_u16_lt [of d] unat_u16_lt [of e] unat_u16_lt [of f]
      unat_u16_lt [of g] unat_u16_lt [of h] by simp
  from horner_div [OF this, of "unat a"] show ?thesis
    by (simp add: Ipv6 ipv6_number_def algebra_simps)
qed

lemma ipv6_number_inject: "ipv6_number ip = ipv6_number ip' \<longleftrightarrow> ip = ip'"
proof (cases ip; cases ip')
  fix a b c d e f g h a' b' c' d' e' f' g' h'
  assume "ip = Ipv6 a b c d e f g h" "ip' = Ipv6 a' b' c' d' e' f' g' h'"
  then show ?thesis
    by (simp only: ipv6_number_def ipv6_segments.simps foldl.simps digits_eq unat_u16_lt)
      (simp add: word_unat_eq_iff conj_ac)
qed

lemma refused_v6_iff:
  "\<not> is_safe_target (IP_V6 ip) \<longleftrightarrow> list_ex (in_block 128 (ipv6_number ip)) refused_v6"
proof -
  let ?n = "ipv6_number ip"
  have one: "in_block 128 ?n (ipv6_number ip', 128) \<longleftrightarrow> ip = ip'" for ip'
    by (simp add: in_block_def ipv6_number_inject)
  have seg: "in_block 128 ?n (ipv6_number (Ipv6 s 0 0 0 0 0 0 0), 16 - k)
      \<longleftrightarrow> unat (segment0 ip) div 2 ^ k = unat s div 2 ^ k" if "k \<le> 16" for s k
  proof -
    have "(2 :: nat) ^ (112 + k) = 2 ^ 112 * 2 ^ k" "128 - (16 - k) = 112 + k"
      using that by (simp_all add: power_add)
    then show ?thesis
      using segment0_div [of ip] segment0_div [of "Ipv6 s 0 0 0 0 0 0 0"]
      by (simp only: in_block_def fst_conv snd_conv div_mult2_eq segment0.simps)
  qed
  show ?thesis
    using seg [of 9 "0xfc00"] seg [of 6 "0xfe80"]
    by (simp add: refused_v6_def one is_loopback_v6_def is_unspecified_v6_def is_unique_local_def
        is_unicast_link_local_def unique_local_segment link_local_segment)
qed

section \<open>The body of a response\<close>

text \<open>The chunks before the first that failed.\<close>
definition good_chunks :: "(string + u8 list) list \<Rightarrow> u8 list list" where
  "good_chunks stream = map projr (takeWhile (Not \<circ> isl) stream)"

lemma good_chunks_simps [simp]:
  "good_chunks [] = []"
  "good_chunks (Inl e # stream) = []"
  "good_chunks (Inr chunk # stream) = chunk # good_chunks stream"
  by (simp_all add: good_chunks_def)

lemma read_capped_loop_result:
  assumes "length buffer \<le> max_bytes"
  shows "read_capped_loop max_bytes buffer stream =
    (if max_bytes < length (buffer @ concat (good_chunks stream))
     then Inr (take max_bytes (buffer @ concat (good_chunks stream)))
     else case find isl stream of
       Some (Inl e) \<Rightarrow> Inl e | _ \<Rightarrow> Inr (buffer @ concat (good_chunks stream)))"
  using assms
proof (induction max_bytes buffer stream rule: read_capped_loop.induct)
  case (3 max_bytes buffer chunk stream)
  then show ?case
    by (cases "max_bytes < length (buffer @ chunk)") (simp_all add: Let_def split: if_splits option.split sum.split)
qed simp_all

section \<open>Properties\<close>

text \<open>
  C31: The guard refuses exactly the address blocks it names: of IPv4 the loopback, link-local,
  private, broadcast, documentation and unspecified addresses, of IPv6 the loopback, unspecified,
  unique-local and link-local ones. The tests on octets and masked segments say the same as
  comparing the leading bits of the address with those of each block.
\<close>
theorem guard_refuses_exact_blocks:
  "(is_safe_target (IP_V4 v4) \<longleftrightarrow> \<not> list_ex (in_block 32 (ipv4_number v4)) refused_v4)
   \<and> (is_safe_target (IP_V6 v6) \<longleftrightarrow> \<not> list_ex (in_block 128 (ipv6_number v6)) refused_v6)"
  using refused_v4_iff [of v4] refused_v6_iff [of v6] by blast

text \<open>The addresses a host names: itself when it is an address, else what it resolves to.\<close>
definition host_addresses :: "web \<Rightarrow> string \<Rightarrow> u16 \<Rightarrow> ip_addr list" where
  "host_addresses w host port =
     (case parse_ip w host of
        Some ip \<Rightarrow> [ip]
      | None \<Rightarrow> (case lookup_host w host port of Inl _ \<Rightarrow> [] | Inr addrs \<Rightarrow> addrs))"

lemma check_resolved_ok:
  "check_resolved w host any addrs = Inr () \<longleftrightarrow> (any \<or> addrs \<noteq> []) \<and> list_all is_safe_target addrs"
  by (induction addrs arbitrary: any) simp_all

lemma validate_host_ok:
  "snd (validate_host_is_safe w host port) = Inr () \<longleftrightarrow>
     host_addresses w host port \<noteq> [] \<and> list_all is_safe_target (host_addresses w host port)"
  by (simp add: validate_host_is_safe_def host_addresses_def check_resolved_ok split: option.split sum.split)

lemma validate_host_calls:
  "fst (validate_host_is_safe w host port) = (if parse_ip w host = None then [Lookup_Host host port] else [])"
  by (simp add: validate_host_is_safe_def split: option.split)

text \<open>
  What the tool relies on in its HTTP client: a client whose redirect policy is \<open>none\<close> makes the
  one request it was asked for. The requests on the network that the calls of a fetch come to.
\<close>

definition no_redirects :: "web \<Rightarrow> bool" where
  "no_redirects w \<longleftrightarrow> (\<forall>client url. hc_redirect client = Redirect_None \<longrightarrow> client_requests w client url = [url])"

definition requests_made :: "web \<Rightarrow> web_call list \<Rightarrow> fetch_url list" where
  "requests_made w calls =
     concat (map (\<lambda>call. case call of Lookup_Host _ _ \<Rightarrow> [] | Send_Get client url \<Rightarrow> client_requests w client url) calls)"

lemma requests_made_simps [simp]:
  "requests_made w [] = []"
  "requests_made w (Lookup_Host host port # calls) = requests_made w calls"
  "requests_made w (Send_Get client url # calls) = client_requests w client url @ requests_made w calls"
  by (simp_all add: requests_made_def)

text \<open>
  C32: A fetch of the tool looks its host up (unless that is an address) and sends its request
  exactly when the URL parses, its scheme is http or https, and its host names at least one address
  and only addresses the guard lets through, by the answer the check got. With a client that obeys
  the redirect policy the tool gave it, that request is the only one on the network, so a redirect is
  never followed. What the client itself resolves when it connects is not checked again.
\<close>
theorem fetch_sends_only_to_checked_hosts:
  assumes "no_redirects w"
  shows "case parse_url w url_str of
       Inl _ \<Rightarrow> fst (fetch w fetch_tool_new url_str) = []
     | Inr url \<Rightarrow>
         (case fu_host_str url of
            None \<Rightarrow> fst (fetch w fetch_tool_new url_str) = []
          | Some host \<Rightarrow>
              let port = unwrap_or 443 (fu_port_or_known_default url);
                  web_url = fu_scheme url \<in> {''http'', ''https''};
                  addrs = host_addresses w host port;
                  checked = (addrs \<noteq> [] \<and> list_all is_safe_target addrs)
              in fst (fetch w fetch_tool_new url_str) =
                   (if web_url \<and> parse_ip w host = None then [Lookup_Host host port] else [])
                   @ (if web_url \<and> checked then [Send_Get fetch_tool_new url] else [])
               \<and> requests_made w (fst (fetch w fetch_tool_new url_str)) =
                   (if web_url \<and> checked then [url] else []))"
proof (cases "parse_url w url_str")
  case (Inr url)
  have one: "client_requests w fetch_tool_new url = [url]"
    using assms by (simp add: no_redirects_def fetch_tool_new_def)
  show ?thesis
  proof (cases "fu_host_str url")
    case (Some host)
    let ?port = "unwrap_or 443 (fu_port_or_known_default url)"
    obtain calls r where v: "validate_host_is_safe w host ?port = (calls, r)" by fastforce
    show ?thesis
      using Inr Some one v validate_host_ok [of w host ?port] validate_host_calls [of w host ?port]
      by (cases r) (auto simp: fetch_def Let_def)
  qed (simp add: fetch_def Inr)
qed (simp add: fetch_def)

definition public_web :: web where
  "public_web = \<lparr>
     parse_url = (\<lambda>s. Inr \<lparr>fu_href = s, fu_scheme = ''https'', fu_host_str = Some ''docs.test'', fu_port_or_known_default = Some 443\<rparr>),
     parse_ip = (\<lambda>_. None), show_ip = (\<lambda>_. []), lookup_host = (\<lambda>_ _. Inr [IP_V4 (Ipv4 93 184 216 34)]),
     send_get = (\<lambda>_ _. Inl ''reset''),
     client_requests = (\<lambda>client url. if hc_redirect client = Redirect_None then [url] else [url, url\<lparr>fu_host_str := None\<rparr>]),
     from_utf8_lossy = (\<lambda>_. []), html_to_text = (\<lambda>s _. s)\<rparr>"

theorem fetch_sends_only_to_checked_hosts_witness:
  "requests_made public_web (fst (fetch public_web fetch_tool_new ''https://docs.test/'')) =
     [\<lparr>fu_href = ''https://docs.test/'', fu_scheme = ''https'', fu_host_str = Some ''docs.test'',
       fu_port_or_known_default = Some 443\<rparr>]"
proof -
  have "no_redirects public_web" by (simp add: no_redirects_def public_web_def)
  from fetch_sends_only_to_checked_hosts [OF this, of "''https://docs.test/''"] show ?thesis
    by (simp add: public_web_def host_addresses_def fetch_tool_new_def Let_def)
qed

text \<open>
  The body of a response is read up to the cap and no further: it is the bytes received before the
  first failed chunk, cut at the cap; a failure after the cap was passed is never seen, one before it
  is the result. So a body never holds more than the cap.
\<close>
theorem body_read_up_to_cap:
  "read_capped_stream stream max_bytes =
     (if max_bytes < length (concat (good_chunks stream)) then Inr (take max_bytes (concat (good_chunks stream)))
      else case find isl stream of Some (Inl e) \<Rightarrow> Inl e | _ \<Rightarrow> Inr (concat (good_chunks stream)))
   \<and> pred_sum (\<lambda>_. True) (\<lambda>body. length body \<le> max_bytes) (read_capped_stream stream max_bytes)"
  using read_capped_loop_result [of "[]" max_bytes stream]
  by (auto simp: read_capped_stream_def split: option.split sum.split)

text \<open>The IPv6 form of an IPv4 address (\<open>to_ipv6_mapped\<close> of the standard library).\<close>
fun to_ipv6_mapped :: "ipv4_addr \<Rightarrow> ipv6_addr" where
  "to_ipv6_mapped (Ipv4 a b c d) =
     Ipv6 0 0 0 0 0 0xffff (push_bit 8 (ucast a) OR ucast b) (push_bit 8 (ucast c) OR ucast d)"

lemma mapped_is_safe: "is_safe_target (IP_V6 (to_ipv6_mapped v4))"
  by (cases v4)
    (simp add: is_loopback_v6_def is_unspecified_v6_def is_unique_local_def is_unicast_link_local_def)

text \<open>
  C33: The guard does not see through IPv4-mapped IPv6 addresses: a name that resolves to
  \<open>::ffff:a.b.c.d\<close> passes for every IPv4 address, those the guard refuses included, and the
  request is sent.
\<close>
theorem mapped_address_bypasses_guard:
  assumes "parse_url w url_str = Inr url" and "fu_scheme url = ''http''" and "fu_host_str url = Some host"
    and "parse_ip w host = None" and "fu_port_or_known_default url = Some port"
    and "lookup_host w host port = Inr [IP_V6 (to_ipv6_mapped inner)]" and "\<not> is_safe_target (IP_V4 inner)"
  shows "fst (fetch w client url_str) = [Lookup_Host host port, Send_Get client url]"
proof -
  obtain calls r where v: "validate_host_is_safe w host port = (calls, r)" by fastforce
  have "snd (validate_host_is_safe w host port) = Inr ()"
    by (simp only: validate_host_ok) (simp add: host_addresses_def assms mapped_is_safe del: is_safe_target.simps)
  then show ?thesis
    using v validate_host_calls [of w host port] by (simp add: fetch_def assms unwrap_or_def)
qed

definition metadata_web :: web where
  "metadata_web = \<lparr>
     parse_url = (\<lambda>s. Inr \<lparr>fu_href = s, fu_scheme = ''http'', fu_host_str = Some ''evil.test'', fu_port_or_known_default = Some 80\<rparr>),
     parse_ip = (\<lambda>_. None), show_ip = (\<lambda>_. []),
     lookup_host = (\<lambda>_ _. Inr [IP_V6 (to_ipv6_mapped (Ipv4 169 254 169 254))]),
     send_get = (\<lambda>_ _. Inl ''refused''), client_requests = (\<lambda>_ url. [url]),
     from_utf8_lossy = (\<lambda>_. []), html_to_text = (\<lambda>s _. s)\<rparr>"

theorem mapped_address_bypasses_guard_witness:
  "fst (fetch metadata_web fetch_tool_new ''http://evil.test/'') =
     [Lookup_Host ''evil.test'' 80, Send_Get fetch_tool_new \<lparr>fu_href = ''http://evil.test/'', fu_scheme = ''http'',
        fu_host_str = Some ''evil.test'', fu_port_or_known_default = Some 80\<rparr>]"
  by (rule mapped_address_bypasses_guard [where inner = "Ipv4 169 254 169 254"])
    (simp_all add: metadata_web_def del: to_ipv6_mapped.simps)

end
