(* ===== verification/Spec2Isabelle.thy ===== *)
theory Spec2Isabelle
  imports Agent_Properties Workflow_Properties Goal_Properties Session_Properties Backend_Properties Web_Guard
begin

text \<open>
  \<^bold>\<open>Verification of the deterministic core of rusty-core.\<close>

  \<^bold>\<open>The program.\<close> rusty-core runs language-model agents. Its core is written as pure
  reducers: a host sends a command, the reducer returns a new state and the effects the host has to
  carry out, and the answers come back as further commands. An agent (\<open>crates/agent-core\<close>)
  takes user input, asks a model backend (\<open>crates/model-backend\<close>), admits the tool calls the
  model requests, and ends a run when a completion gate accepts the answer; a profile of instructions,
  tool rules and limits shapes all of this. A workflow (\<open>crates/workflow-core\<close>) is a graph
  of agent, verification, approval and other steps, compiled once and then driven by a second
  reducer. A goal loop (\<open>crates/goals\<close>) repeats agent passes until a measurement meets its
  targets. The events of a session are numbered, stored and replayed after a restart
  (\<open>crates/session-store\<close>), and one of the tools fetches web pages behind a guard on
  addresses (\<open>crates/tool-web\<close>).

  \<^bold>\<open>Theories and the code they model.\<close>

  \<^item> \<open>Rust_Prelude\<close>: machine integers with saturating and checked operations, hash and
  ordered maps as association lists, UTF-8 strings as byte lists, and the contracts the reducers
  share. \<open>Float64\<close> and \<open>Float_Ops\<close>: the \<open>f64\<close> operations the code uses, on bit patterns.
  \<^item> \<open>Protocol\<close> (\<open>crates/protocol/src\<close>): identifiers, messages, tool calls and results,
  requests, events, usage and errors.
  \<^item> \<open>Usage_Ledger\<close> (\<open>agent-core/src/usage.rs\<close>): usage records and budgets.
  \<open>Tool_Policy\<close> (\<open>tool_alias.rs\<close>, the execution policy and capabilities): what a
  session and its children may call. \<open>Transcript\<close> (\<open>transcript.rs\<close> and the context
  state): validation and repair of a conversation.
  \<^item> \<open>Behavior_Definition\<close>, \<open>Behavior_Compiler\<close>, \<open>Behavior_Registry\<close>,
  \<open>Behavior_State\<close>, \<open>Behavior_Rules\<close> (\<open>agent-core/src/behavior\<close>): profile
  documents, their compiler, the registry of revisions, what an agent keeps of its profile over a run,
  and the rules with their conditions, glob patterns and JSON patches.
  \<^item> \<open>Agent_State\<close>, \<open>Agent_Turns\<close>, \<open>Agent_Machine\<close> (\<open>agent.rs\<close>,
  \<open>agent_state.rs\<close>, \<open>transitions\<close>): the agent, one definition for each transition, and
  \<open>agent_apply\<close>, the command table.
  \<^item> \<open>Workflow_Definition\<close>, \<open>Workflow_Graph\<close>, \<open>Workflow_Compiler\<close>,
  \<open>Workflow_Run\<close>, \<open>Workflow_Registry\<close> (\<open>workflow-core/src\<close>): documents, the
  graph algorithms, every check of the compiler, the run state with one definition for each command
  handler and \<open>run_apply\<close>, and the registry.
  \<^item> \<open>Goals\<close> (\<open>goals/src\<close>): goals, targets, measurements, the decision after a pass
  and its record.
  \<^item> \<open>Session_Store\<close> (\<open>session-store/src\<close>): records, the folder of JSONL files (one
  per session, as bytes, read line by line as UTF-8), the committer and its sequencer, validation,
  replay and retention.
  \<^item> \<open>Model_Backend\<close> (\<open>model-backend/src\<close>): errors, capabilities, the circuit
  breaker, one attempt, retries and a whole request. A request returns the breaker as its admission
  left it and the calls it makes on it afterwards; \<open>backend_step\<close> interleaves these calls of any
  requests on the one breaker they share.
  \<^item> \<open>Web_Guard\<close> (\<open>tool-web/src\<close>): the address guard and the fetch, with the client
  the tool configures; a fetch returns the lookups and requests it asks for along with its result.

  A struct of the code is a record, an enum a datatype, and a function or method a definition of the
  same name where the name is free. \<open>&mut self\<close> is state passing; a \<open>Result\<close> is a
  sum with the error on the left; a handler that returns early with an error after it has changed
  something returns the changed state as well. A possible panic is \<open>None\<close> or an explicit
  error value.

  \<^bold>\<open>What is proved.\<close>

  \<^item> \<open>Agent_Contract\<close> and \<open>Agent_Properties\<close>: the invariant of every reachable
  agent; which tools are executed and offered; runs, permissions and queued input over any sequence
  of commands; cancellation; the completion gate.
  \<^item> \<open>Workflow_Contract\<close>, \<open>Workflow_Progress\<close>, \<open>Workflow_Properties\<close>: what
  a compiled workflow guarantees; that a run has one token, executes every attempt once, finishes
  once, never panics and goes on until it ends.
  \<^item> the theories of the policy, the transcript and the behavior layer hold their own
  properties: no escalation along a chain of children, repaired conversations validate, the compiler
  accepts exactly the documents that fit their specification, published revisions never change, rules
  fire in order and within their limits, what a turn limit comes to, and which texts of the
  documented language the glob matcher finds.
  \<^item> \<open>Goal_Properties\<close>: when a goal is done, that its loop ends, which passes are undone and
  which are kept although they made things worse.
  \<^item> \<open>Session_Properties\<close>: what validation accepts, that an accepted session replays,
  what loading a session returns after any writes and a crash, how commits are numbered, and how
  the validation meets the events of the agent.
  \<^item> \<open>Backend_Properties\<close>: one terminal event for every request, no repetition of what
  was shown within the attempt limit, what the circuit breaker admits.
  \<^item> \<open>Web_Guard\<close>: the guard refuses exactly its address blocks, and a fetch only asks for
  hosts whose addresses all passed, once and without redirects. The addresses are those of the
  check; what the client resolves when it connects is outside the model.

  \<^bold>\<open>Interfaces.\<close> \<open>effect_contract\<close>, \<open>command_machine\<close> and
  \<open>contract_machine\<close> state what a step has to keep and give the same for every sequence of
  steps; the agent reducer, the workflow reducer and the model backend are their instances.
  \<open>revision_store\<close> is the contract of both registries, \<open>counted_loop\<close> that of the two
  ways a goal loop runs out, \<open>narrowing\<close> that of the layers of tool policy and of derived capabilities,
  \<open>aggregation\<close> and \<open>usage_counter\<close> that of the usage sums, and
  \<open>sound_workflow\<close> what a compiled workflow promises to its run.

  \<^bold>\<open>Termination and bounds.\<close> No fuel is used. Loops are structural recursion or have a
  measure: the open nodes of the graph algorithms, the profiles not yet visited by the switch closure,
  the remaining text of the string loops, and the attempts left to a request. Integers keep their
  width; arithmetic is that of a release build, where the source does not ask for saturation it wraps,
  and the theorems that need it assume that a count fits.

  \<^bold>\<open>Parameters.\<close> Code outside the repository is an argument of the definitions that call
  it: the JSON codec and SHA-256, decimal addition, printing of identifiers, times and doubles, Unicode
  tables, the URL parser, resolver, HTTP client and HTML converter. What arrives from outside, such as
  the time, cancellations, the events of a provider call and the outcome of a write, is an input.
  The hypotheses on the parameters are stated in the theorems that need them, and their witnesses use
  concrete functions.

  \<^bold>\<open>What the proofs showed of the code.\<close> A success whose route leads to a step the run has
  passed strands the run, and the compiler accepts workflows whose runs get there, because a retry
  target need not be on every way to its sender. A limit of turns is passed by two final requests. Input queued behind a run that was cancelled in a tool call is lost to an
  invalid transcript. A session in which an agent ran again after a failure or a cancellation is
  refused when it is read back; an append behind a torn line makes a session unreadable, and so
  does a crash inside a character; numbers of
  events that were shown but not stored are given out again after a restart. A cancelled probe leaves
  the circuit breaker refusing all later requests unless one admitted before reports to it, and a timeout counts twice. A goal that ends a
  pass as blocked keeps a worse measurement. IPv4-mapped IPv6 addresses pass the address guard.

  \<^bold>\<open>Not modelled.\<close> Asynchronous execution (\<open>runtime\<close>, \<open>workflow-runtime\<close>,
  \<open>engine\<close>) and the transports, because what they do is decided by the async runtime; the
  providers, which are HTTP clients of external services; the SQLite store, session listing,
  diagnostics and reference resolution of \<open>session-store\<close>; code analysis, language adapters,
  frameworks and repository analysis, which work on third-party syntax trees, git history and the file
  system; the other tools and workspaces, which call the file system, git and processes; and the
  applications. Of the modelled crates, serde attributes, logging and metrics are left out.
\<close>

end
